(* ===== verification/Dtls_Prelude.thy ===== *)
theory Dtls_Prelude
  imports Main "HOL-Library.Word"
begin

unbundle bit_operations_syntax

section \<open>Shared types, results and byte codecs\<close>

text \<open>
  What every component of the development shares.
  \<^item> Go's integers of a fixed width are words of that width, a \<^verbatim>\<open>[]byte\<close> is a list of 8-bit
    words; a slice whose nil value is told apart from the empty one is an option of it.
  \<^item> A Go function that returns \<^verbatim>\<open>(T, error)\<close> has a value of type \<open>'a res\<close>: the value, the
    error, or \<open>Panic\<close> where the runtime would panic (an index or a slice bound out of range, a
    nil dereference). \<open>bind\<close> is \<^verbatim>\<open>if err != nil { return err }\<close>.
  \<^item> \<open>error\<close> lists the error values of the packages by the names of their variables.
  \<^item> \<open>put_be\<close> and \<open>get_be\<close> are \<^verbatim>\<open>encoding/binary\<close>'s big endian writers and readers for any
    number of bytes.
\<close>

type_synonym byte = "8 word"
type_synonym bytes = "8 word list"
type_synonym uint16 = "16 word"
type_synonym uint32 = "32 word"
type_synonym uint64 = "64 word"

named_theorems codec_simps \<open>evaluation rules of the byte codecs\<close>
named_theorems length_simps \<open>lengths of encodings\<close>
named_theorems handler_defs \<open>definitions unfolded by the proofs about handlers\<close>

subsection \<open>Errors and results\<close>

text \<open>
  The errors of the codec packages (\<^verbatim>\<open>pkg/protocol\<close> and its subpackages), of the cryptographic
  ones, of the configuration and of the connection. \<open>ErrOther\<close> is an error made outside the
  repository (a callback, the network).
\<close>

datatype codec_error =
    ErrBufferTooSmall | ErrInvalidCipherSpec | ErrInvalidPacketLength | ErrSequenceNumberOverflow
  | ErrUnsupportedProtocolVersion | ErrInvalidContentType | ErrALPNInvalidFormat
  | ErrInvalidExtensionType | ErrInvalidSNIFormat | ErrInvalidCIDFormat | ErrLengthMismatch
  | ErrUnableToMarshalFragmented | ErrHandshakeMessageUnset | ErrInvalidClientKeyExchange
  | ErrInvalidHashAlgorithm | ErrInvalidSignatureAlgorithm | ErrCookieTooLong
  | ErrInvalidEllipticCurveType | ErrInvalidNamedCurve | ErrCipherSuiteUnset
  | ErrCompressionMethodUnset | ErrInvalidCompressionMethod | ErrNotImplemented

datatype crypto_error =
    ErrNotEnoughRoomForNonce | ErrDecryptPacket | ErrInvalidMAC | ErrCipherSuiteNotInit
  | ErrCcmBlockSize | ErrCcmTagSize | ErrCcmNonceSize | ErrPlaintextTooLong | ErrOpen
  | ErrCiphertextTooShort | ErrCiphertextTooLong

datatype config_error =
    ErrALPNNoAppProto | ErrIdentityNoPSK | ErrInvalidCertificate | ErrInvalidPrivateKey
  | ErrNoAvailableCipherSuites | ErrNoAvailablePSKCipherSuite
  | ErrNoAvailableCertificateCipherSuite | ErrNoAvailableSignatureSchemes | ErrNoCertificates
  | ErrNoConfigProvided | ErrPSKAndIdentityMustBeSetForClient | ErrNoSupportedEllipticCurves
  | ErrInvalidCipherSuiteID uint16

datatype conn_error =
    ErrConnClosed | ErrHandshakeInProgress | ErrReservedExportKeyingMaterial
  | ErrApplicationDataEpochZero | ErrUnhandledContextType | ErrCertificateVerifyNoCertificate
  | ErrCipherSuiteNoIntersection | ErrClientCertificateNotVerified | ErrClientCertificateRequired
  | ErrClientNoMatchingSRTPProfile | ErrClientRequiredButNoServerEMS | ErrCookieMismatch
  | ErrInvalidCipherSuite | ErrKeySignatureMismatch | ErrRequestedButNoSRTPExtension
  | ErrServerNoMatchingSRTPProfile | ErrServerRequiredButNoClientEMS | ErrVerifyDataMismatch
  | ErrInvalidFlight | ErrInvalidFSMTransition | ErrFragmentBufferOverflow
  | ErrContextUnsupported | ErrNotAcceptableCertificateChain | ErrInvalidECDSASignature
  | ErrConnInvalidSignatureAlgorithm | ErrKeySignatureGenerateUnimplemented
  | ErrKeySignatureVerifyUnimplemented | ErrConnLengthMismatch | ErrConnSequenceNumberOverflow
  | ErrNilNextConn | ErrDeadlineExceeded | ErrConnBufferTooSmall

datatype net_error =
    ErrEOF | ErrClosedPipe | ErrShortBuffer | ErrTimeout | ErrClosedListener
  | ErrListenQueueExceeded | ErrCanceled | ErrContextDeadlineExceeded | ErrNetClosed

datatype error =
    Codec codec_error | Crypto crypto_error | Config config_error | Conn conn_error
  | Net net_error | ErrAlert byte byte | ErrOther nat

datatype 'a res = Ok 'a | Err error | Panic

fun bind :: "'a res \<Rightarrow> ('a \<Rightarrow> 'b res) \<Rightarrow> 'b res" where
  "bind (Ok x) f = f x"
| "bind (Err e) f = Err e"
| "bind Panic f = Panic"

fun is_ok :: "'a res \<Rightarrow> bool" where
  "is_ok (Ok _) = True"
| "is_ok _ = False"

fun panics :: "'a res \<Rightarrow> bool" where
  "panics Panic = True"
| "panics _ = False"

lemma bind_eq_Ok [simp]: "bind r f = Ok y \<longleftrightarrow> (\<exists>x. r = Ok x \<and> f x = Ok y)"
  by (cases r) auto

lemma bind_eq_Panic: "bind r f = Panic \<longleftrightarrow> r = Panic \<or> (\<exists>x. r = Ok x \<and> f x = Panic)"
  by (cases r) auto

lemma bind_assoc: "bind (bind r f) g = bind r (\<lambda>x. bind (f x) g)"
  by (cases r) auto

lemma bind_cong [fundef_cong]:
  "r = r' \<Longrightarrow> (\<And>x. r' = Ok x \<Longrightarrow> f x = f' x) \<Longrightarrow> bind r f = bind r' f'"
  by (cases r') auto

lemma is_ok_iff: "is_ok r \<longleftrightarrow> (\<exists>x. r = Ok x)"
  by (cases r) auto

lemma panics_iff: "panics r \<longleftrightarrow> r = Panic"
  by (cases r) auto

text \<open>
  Go's \<^verbatim>\<open>xs[i]\<close> and \<^verbatim>\<open>xs[i:]\<close>, \<^verbatim>\<open>xs[i:j]\<close> with their bound checks.
\<close>

definition idx :: "'a list \<Rightarrow> nat \<Rightarrow> 'a res" where
  "idx xs i = (if i < length xs then Ok (xs ! i) else Panic)"

definition slice_from :: "'a list \<Rightarrow> nat \<Rightarrow> 'a list res" where
  "slice_from xs i = (if i \<le> length xs then Ok (drop i xs) else Panic)"

definition slice :: "'a list \<Rightarrow> nat \<Rightarrow> nat \<Rightarrow> 'a list res" where
  "slice xs i j = (if i \<le> j \<and> j \<le> length xs then Ok (take (j - i) (drop i xs)) else Panic)"

lemma idx_Ok [simp]: "i < length xs \<Longrightarrow> idx xs i = Ok (xs ! i)"
  by (simp add: idx_def)

lemma slice_from_Ok [simp]: "i \<le> length xs \<Longrightarrow> slice_from xs i = Ok (drop i xs)"
  by (simp add: slice_from_def)

lemma slice_Ok [simp]:
  "i \<le> j \<Longrightarrow> j \<le> length xs \<Longrightarrow> slice xs i j = Ok (take (j - i) (drop i xs))"
  by (simp add: slice_def)

text \<open>A loop whose body may fail: results in order, or the first failure.\<close>

fun map_res :: "('a \<Rightarrow> 'b res) \<Rightarrow> 'a list \<Rightarrow> 'b list res" where
  "map_res f [] = Ok []"
| "map_res f (x # xs) = bind (f x) (\<lambda>y. bind (map_res f xs) (\<lambda>ys. Ok (y # ys)))"

lemma map_res_Ok_iff: "map_res f xs = Ok ys \<longleftrightarrow> list_all2 (\<lambda>x y. f x = Ok y) xs ys"
  by (induction xs arbitrary: ys) (auto simp: list_all2_Cons1)

subsection \<open>Big endian numbers\<close>

primrec put_be :: "nat \<Rightarrow> nat \<Rightarrow> bytes" where
  "put_be 0 v = []"
| "put_be (Suc n) v = word_of_nat (v div 256 ^ n) # put_be n v"

primrec get_be :: "bytes \<Rightarrow> nat" where
  "get_be [] = 0"
| "get_be (b # bs) = unat b * 256 ^ length bs + get_be bs"

lemma length_put_be [simp, length_simps]: "length (put_be n v) = n"
  by (induction n) auto

lemma put_be_numeral:
  "put_be (numeral k) v = word_of_nat (v div 256 ^ pred_numeral k) # put_be (pred_numeral k) v"
  by (simp only: numeral_eq_Suc put_be.simps)

lemma put_be_eq_Nil [simp]: "put_be n v = [] \<longleftrightarrow> n = 0"
  by (cases n) auto

lemma unat_byte_of_nat: "unat (word_of_nat n :: byte) = n mod 256"
  by (simp add: unat_of_nat)

lemma get_be_less: "get_be bs < 256 ^ length bs"
proof (induction bs)
  case Nil
  then show ?case by simp
next
  case (Cons b bs)
  have "unat b < 256" using unsigned_less [of b, where 'a = nat] by simp
  then have "(unat b + 1) * 256 ^ length bs \<le> 256 * 256 ^ length bs"
    by (intro mult_le_mono1) simp
  then have "unat b * 256 ^ length bs + 256 ^ length bs \<le> 256 ^ length (b # bs)"
    by (simp only: distrib_right mult_1 length_Cons power_Suc)
  with Cons.IH show ?case unfolding get_be.simps by linarith
qed

lemma get_put_be [simp, codec_simps]: "get_be (put_be n v) = v mod 256 ^ n"
proof (induction n)
  case 0
  then show ?case by simp
next
  case (Suc n)
  have "v mod 256 ^ Suc n = v mod (256 ^ n * 256)"
    by (simp add: mult.commute)
  also have "\<dots> = 256 ^ n * (v div 256 ^ n mod 256) + v mod 256 ^ n"
    by (rule mod_mult2_eq)
  finally show ?case using Suc
    by (simp add: unat_byte_of_nat mult.commute)
qed

lemma word_of_nat_unat_byte: "word_of_nat (unat b) = (b :: byte)"
  by simp

lemma put_be_mod: "put_be n (v mod 256 ^ n) = put_be n v"
proof -
  have "k \<le> n \<Longrightarrow> put_be k (v mod 256 ^ n) = put_be k v" for k
  proof (induction k)
    case 0
    then show ?case by simp
  next
    case (Suc k)
    have n: "256 ^ n = 256 ^ k * (256::nat) ^ (n - k)"
      using Suc.prems by (simp flip: power_add)
    have "(v mod 256 ^ n) div 256 ^ k = v div 256 ^ k mod 256 ^ (n - k)"
      by (simp add: n mod_mult2_eq)
    moreover have "(256::nat) dvd 256 ^ (n - k)"
      using Suc.prems by simp
    ultimately have "(v mod 256 ^ n) div 256 ^ k mod 256 = v div 256 ^ k mod 256"
      by (simp add: mod_mod_cancel)
    then have "(word_of_nat ((v mod 256 ^ n) div 256 ^ k) :: byte) = word_of_nat (v div 256 ^ k)"
      by (simp add: word_of_nat_eq_iff take_bit_eq_mod)
    with Suc show ?case by simp
  qed
  then show ?thesis by simp
qed

lemma put_get_be [simp, codec_simps]: "put_be (length bs) (get_be bs) = bs"
proof (induction bs)
  case Nil
  then show ?case by simp
next
  case (Cons b bs)
  have lt: "get_be bs < 256 ^ length bs" by (rule get_be_less)
  then have "(unat b * 256 ^ length bs + get_be bs) div 256 ^ length bs = unat b"
    by simp
  moreover have "put_be (length bs) (unat b * 256 ^ length bs + get_be bs)
      = put_be (length bs) (get_be bs)"
  proof -
    have "(unat b * 256 ^ length bs + get_be bs) mod 256 ^ length bs = get_be bs"
      using lt by simp
    then show ?thesis by (metis put_be_mod)
  qed
  ultimately show ?case using Cons by simp
qed

lemma put_be_inject: "u < 256 ^ n \<Longrightarrow> v < 256 ^ n \<Longrightarrow> put_be n u = put_be n v \<longleftrightarrow> u = v"
  by (metis get_put_be mod_less)

text \<open>
  \<^verbatim>\<open>binary.BigEndian.PutUint16\<close> and \<^verbatim>\<open>Uint16\<close>, and the other widths. The readers use the first
  bytes of their argument; the callers check its length.
\<close>

definition put_uint16 :: "uint16 \<Rightarrow> bytes" where
  "put_uint16 w = put_be 2 (unat w)"

definition get_uint16 :: "bytes \<Rightarrow> uint16" where
  "get_uint16 bs = word_of_nat (get_be (take 2 bs))"

definition put_uint32 :: "uint32 \<Rightarrow> bytes" where
  "put_uint32 w = put_be 4 (unat w)"

definition get_uint32 :: "bytes \<Rightarrow> uint32" where
  "get_uint32 bs = word_of_nat (get_be (take 4 bs))"

definition put_uint64 :: "uint64 \<Rightarrow> bytes" where
  "put_uint64 w = put_be 8 (unat w)"

definition get_uint64 :: "bytes \<Rightarrow> uint64" where
  "get_uint64 bs = word_of_nat (get_be (take 8 bs))"

lemma length_put_uint [simp, length_simps]:
  "length (put_uint16 w) = 2" "length (put_uint32 x) = 4" "length (put_uint64 y) = 8"
  by (simp_all add: put_uint16_def put_uint32_def put_uint64_def)

lemma get_put_uint16 [simp, codec_simps]: "get_uint16 (put_uint16 w @ bs) = w"
  using unsigned_less [of w, where 'a = nat] by (simp add: get_uint16_def put_uint16_def)

lemma get_put_uint16_Nil [simp, codec_simps]: "get_uint16 (put_uint16 w) = w"
  using get_put_uint16 [of w "[]"] by simp

lemma get_put_uint32 [simp, codec_simps]: "get_uint32 (put_uint32 w @ bs) = w"
  using unsigned_less [of w, where 'a = nat] by (simp add: get_uint32_def put_uint32_def)

lemma get_put_uint64 [simp, codec_simps]: "get_uint64 (put_uint64 w @ bs) = w"
  using unsigned_less [of w, where 'a = nat] by (simp add: get_uint64_def put_uint64_def)

lemma unat_get_uint16: "unat (get_uint16 bs) = get_be (take 2 bs)"
proof -
  have "get_be (take 2 bs) < 256 ^ length (take 2 bs)" by (rule get_be_less)
  also have "\<dots> \<le> 256 ^ 2" by (rule power_increasing) auto
  finally show ?thesis by (simp add: get_uint16_def unat_of_nat)
qed

lemma put_get_uint16: "2 \<le> length bs \<Longrightarrow> put_uint16 (get_uint16 bs) = take 2 bs"
  using put_get_be [of "take 2 bs"] by (simp add: put_uint16_def unat_get_uint16)

lemma put_uint16_of_nat: "n < 65536 \<Longrightarrow> put_uint16 (word_of_nat n) = put_be 2 n"
  by (simp add: put_uint16_def unat_of_nat)

subsection \<open>Lists\<close>

lemma take_append_exact [simp]: "n = length xs \<Longrightarrow> take n (xs @ ys) = xs"
  by simp

lemma drop_append_exact [simp]: "n = length xs \<Longrightarrow> drop n (xs @ ys) = ys"
  by simp

lemma nth_append_exact: "n = length xs \<Longrightarrow> (xs @ y # ys) ! n = y"
  by simp

lemma nth_offset: "n = length pre + i \<Longrightarrow> (pre @ xs) ! n = xs ! i"
  by (simp add: nth_append)

lemma drop_eqI: "xs = a @ b \<Longrightarrow> n = length a \<Longrightarrow> drop n xs = b"
  by simp

lemma nth_eqI: "xs = a @ y # b \<Longrightarrow> n = length a \<Longrightarrow> xs ! n = y"
  by simp

lemma length_concat_ge: "x \<in> set xs \<Longrightarrow> length x \<le> length (concat xs)"
  by (induction xs) auto

lemma ceil_enough: "0 < s \<Longrightarrow> n \<le> (n + s - 1) div s * (s :: nat)"
proof -
  assume "0 < s"
  then have "(n + s - 1) mod s < s" by simp
  moreover have "(n + s - 1) div s * s + (n + s - 1) mod s = n + s - 1" by simp
  ultimately show ?thesis using \<open>0 < s\<close> by linarith
qed

end
