(* ===== verification/Cryptobyte.thy ===== *)
theory Cryptobyte
  imports Dtls_Prelude
begin

section \<open>The byte builder and reader of golang.org/x/crypto\<close>

text \<open>
  The package \<^verbatim>\<open>golang.org/x/crypto/cryptobyte\<close> is not part of the repository. Its operations are
  the fields of a record, an argument of every definition whose source calls them, and what its
  documentation promises is the locale \<open>cryptobyte_spec\<close>. A builder is a value of any type
  \<open>'b\<close>; only the result of \<^verbatim>\<open>Bytes\<close> is specified. A reader that fails leaves its output variable
  alone, which the callers model by their own default.

  \<open>std_cryptobyte\<close> is an implementation of the interface (a builder is the bytes so far or an
  error); it shows that the laws can be met.
\<close>

record 'b cryptobyte =
  cb_New :: 'b
  cb_AddUint8 :: "byte \<Rightarrow> 'b \<Rightarrow> 'b"
  cb_AddUint16 :: "uint16 \<Rightarrow> 'b \<Rightarrow> 'b"
  cb_AddUint64 :: "uint64 \<Rightarrow> 'b \<Rightarrow> 'b"
  cb_AddBytes :: "bytes \<Rightarrow> 'b \<Rightarrow> 'b"
  cb_AddUint8LengthPrefixed :: "('b \<Rightarrow> 'b) \<Rightarrow> 'b \<Rightarrow> 'b"
  cb_AddUint16LengthPrefixed :: "('b \<Rightarrow> 'b) \<Rightarrow> 'b \<Rightarrow> 'b"
  cb_Bytes :: "'b \<Rightarrow> bytes res"
  cb_ReadUint8 :: "bytes \<Rightarrow> (byte \<times> bytes) option"
  cb_ReadUint16 :: "bytes \<Rightarrow> (uint16 \<times> bytes) option"
  cb_ReadUint8LengthPrefixed :: "bytes \<Rightarrow> (bytes \<times> bytes) option"
  cb_ReadUint16LengthPrefixed :: "bytes \<Rightarrow> (bytes \<times> bytes) option"
  cb_CopyBytes :: "nat \<Rightarrow> bytes \<Rightarrow> (bytes \<times> bytes) option"

text \<open>\<^verbatim>\<open>BytesOrPanic\<close> is \<^verbatim>\<open>Bytes\<close> with a panic for the error.\<close>

definition cb_BytesOrPanic :: "'b cryptobyte \<Rightarrow> 'b \<Rightarrow> bytes res" where
  "cb_BytesOrPanic cb b = (case cb_Bytes cb b of Ok bs \<Rightarrow> Ok bs | _ \<Rightarrow> Panic)"

locale cryptobyte_spec =
  fixes cb :: "'b cryptobyte"
  assumes New: "cb_Bytes cb (cb_New cb) = Ok []"
    and AddUint8: "cb_Bytes cb b = Ok ys \<Longrightarrow> cb_Bytes cb (cb_AddUint8 cb x b) = Ok (ys @ [x])"
    and AddUint16:
      "cb_Bytes cb b = Ok ys \<Longrightarrow> cb_Bytes cb (cb_AddUint16 cb w b) = Ok (ys @ put_uint16 w)"
    and AddUint64:
      "cb_Bytes cb b = Ok ys \<Longrightarrow> cb_Bytes cb (cb_AddUint64 cb v b) = Ok (ys @ put_uint64 v)"
    and AddBytes: "cb_Bytes cb b = Ok ys \<Longrightarrow> cb_Bytes cb (cb_AddBytes cb xs b) = Ok (ys @ xs)"
    and AddUint8LengthPrefixed:
      "cb_Bytes cb b = Ok ys \<Longrightarrow> cb_Bytes cb (f (cb_New cb)) = Ok cs \<Longrightarrow> length cs < 256 \<Longrightarrow>
       cb_Bytes cb (cb_AddUint8LengthPrefixed cb f b) = Ok (ys @ put_be 1 (length cs) @ cs)"
    and AddUint16LengthPrefixed:
      "cb_Bytes cb b = Ok ys \<Longrightarrow> cb_Bytes cb (f (cb_New cb)) = Ok cs \<Longrightarrow> length cs < 65536 \<Longrightarrow>
       cb_Bytes cb (cb_AddUint16LengthPrefixed cb f b) = Ok (ys @ put_be 2 (length cs) @ cs)"
    and ReadUint8:
      "cb_ReadUint8 cb s = (case s of [] \<Rightarrow> None | x # xs \<Rightarrow> Some (x, xs))"
    and ReadUint16:
      "cb_ReadUint16 cb s = (if length s < 2 then None else Some (get_uint16 s, drop 2 s))"
    and ReadUint8LengthPrefixed:
      "cb_ReadUint8LengthPrefixed cb s =
         (if length s < 1 \<or> length s < 1 + get_be (take 1 s) then None
          else Some (take (get_be (take 1 s)) (drop 1 s), drop (1 + get_be (take 1 s)) s))"
    and ReadUint16LengthPrefixed:
      "cb_ReadUint16LengthPrefixed cb s =
         (if length s < 2 \<or> length s < 2 + get_be (take 2 s) then None
          else Some (take (get_be (take 2 s)) (drop 2 s), drop (2 + get_be (take 2 s)) s))"
    and CopyBytes:
      "cb_CopyBytes cb n s = (if length s < n then None else Some (take n s, drop n s))"
begin

lemma read8_put: "length cs < 256 \<Longrightarrow>
    cb_ReadUint8LengthPrefixed cb (put_be 1 (length cs) @ cs @ rest) = Some (cs, rest)"
  by (simp add: ReadUint8LengthPrefixed unat_byte_of_nat)

lemma read16_put: "length cs < 65536 \<Longrightarrow>
    cb_ReadUint16LengthPrefixed cb (put_be 2 (length cs) @ cs @ rest) = Some (cs, rest)"
  by (simp add: ReadUint16LengthPrefixed)

lemma readU16_put: "cb_ReadUint16 cb (put_uint16 w @ rest) = Some (w, rest)"
  by (simp add: ReadUint16)

lemmas readers = ReadUint8 ReadUint16 ReadUint8LengthPrefixed ReadUint16LengthPrefixed CopyBytes

lemma ReadUint8LengthPrefixed_shorter:
  "cb_ReadUint8LengthPrefixed cb s = Some (x, rest) \<Longrightarrow> length rest < length s"
  by (auto simp: ReadUint8LengthPrefixed split: if_splits)

end

subsection \<open>An implementation\<close>

definition std_length_prefixed ::
  "nat \<Rightarrow> (bytes res \<Rightarrow> bytes res) \<Rightarrow> bytes res \<Rightarrow> bytes res" where
  "std_length_prefixed n f b =
     bind b (\<lambda>ys. bind (f (Ok []))
       (\<lambda>cs. if length cs < 256 ^ n then Ok (ys @ put_be n (length cs) @ cs) else Err (ErrOther 0)))"

definition std_read_prefixed :: "nat \<Rightarrow> bytes \<Rightarrow> (bytes \<times> bytes) option" where
  "std_read_prefixed n s =
     (if length s < n \<or> length s < n + get_be (take n s) then None
      else Some (take (get_be (take n s)) (drop n s), drop (n + get_be (take n s)) s))"

definition std_cryptobyte :: "bytes res cryptobyte" where
  "std_cryptobyte =
     \<lparr>cb_New = Ok [],
      cb_AddUint8 = (\<lambda>x b. bind b (\<lambda>ys. Ok (ys @ [x]))),
      cb_AddUint16 = (\<lambda>w b. bind b (\<lambda>ys. Ok (ys @ put_uint16 w))),
      cb_AddUint64 = (\<lambda>w b. bind b (\<lambda>ys. Ok (ys @ put_uint64 w))),
      cb_AddBytes = (\<lambda>xs b. bind b (\<lambda>ys. Ok (ys @ xs))),
      cb_AddUint8LengthPrefixed = std_length_prefixed 1,
      cb_AddUint16LengthPrefixed = std_length_prefixed 2,
      cb_Bytes = (\<lambda>b. b),
      cb_ReadUint8 = (\<lambda>s. case s of [] \<Rightarrow> None | x # xs \<Rightarrow> Some (x, xs)),
      cb_ReadUint16 = (\<lambda>s. if length s < 2 then None else Some (get_uint16 s, drop 2 s)),
      cb_ReadUint8LengthPrefixed = std_read_prefixed 1,
      cb_ReadUint16LengthPrefixed = std_read_prefixed 2,
      cb_CopyBytes = (\<lambda>n s. if length s < n then None else Some (take n s, drop n s))\<rparr>"

interpretation std_cb: cryptobyte_spec std_cryptobyte
  by unfold_locales
     (simp_all add: std_cryptobyte_def std_length_prefixed_def std_read_prefixed_def)

lemmas std_cryptobyte_spec = std_cb.cryptobyte_spec_axioms

lemmas std_cb_simps =
  std_cryptobyte_def std_length_prefixed_def std_read_prefixed_def

end
