(* ===== verification/Internal_Util.thy ===== *)
theory Internal_Util
  imports Cryptobyte
begin

section \<open>Package internal/util\<close>

text \<open>
  The 24 and 48 bit big endian helpers of \<^verbatim>\<open>internal/util/util.go\<close>. The \<^verbatim>\<open>Put\<close> functions write
  into a buffer; here they are the bytes written.
\<close>

definition BigEndianUint24 :: "bytes \<Rightarrow> uint32" where
  "BigEndianUint24 raw = (if length raw < 3 then 0 else get_uint32 (0 # take 3 raw))"

definition PutBigEndianUint24 :: "uint32 \<Rightarrow> bytes" where
  "PutBigEndianUint24 v = drop 1 (put_uint32 v)"

definition PutBigEndianUint48 :: "uint64 \<Rightarrow> bytes" where
  "PutBigEndianUint48 v = drop 2 (put_uint64 v)"

definition util_Max :: "int \<Rightarrow> int \<Rightarrow> int" where
  "util_Max a b = (if a > b then a else b)"

definition AddUint48 :: "'b cryptobyte \<Rightarrow> uint64 \<Rightarrow> 'b \<Rightarrow> 'b" where
  "AddUint48 cb v b =
     cb_AddBytes cb [ucast (drop_bit 40 v), ucast (drop_bit 32 v), ucast (drop_bit 24 v),
       ucast (drop_bit 16 v), ucast (drop_bit 8 v), ucast v] b"

lemma PutBigEndianUint24_be: "PutBigEndianUint24 v = put_be 3 (unat v)"
  by (simp add: PutBigEndianUint24_def put_uint32_def put_be_numeral)

lemma PutBigEndianUint48_be: "PutBigEndianUint48 v = put_be 6 (unat v)"
  by (simp add: PutBigEndianUint48_def put_uint64_def put_be_numeral)

lemma length_PutBigEndian [simp, length_simps]:
  "length (PutBigEndianUint24 v) = 3" "length (PutBigEndianUint48 w) = 6"
  by (simp_all add: PutBigEndianUint24_def PutBigEndianUint48_def)

lemma unat_BigEndianUint24: "3 \<le> length raw \<Longrightarrow> unat (BigEndianUint24 raw) = get_be (take 3 raw)"
proof -
  assume len: "3 \<le> length raw"
  have "get_be (take 3 raw) < 256 ^ length (take 3 raw)" by (rule get_be_less)
  then have "get_be (take 3 raw) < 16777216" using len by simp
  then show ?thesis using len
    by (simp add: BigEndianUint24_def get_uint32_def unat_of_nat)
qed

lemma BigEndianUint24_bound: "unat (BigEndianUint24 raw) < 2 ^ 24"
proof (cases "length raw < 3")
  case True
  then show ?thesis by (simp add: BigEndianUint24_def)
next
  case False
  then have "unat (BigEndianUint24 raw) = get_be (take 3 raw)" by (simp add: unat_BigEndianUint24)
  also have "\<dots> < 256 ^ length (take 3 raw)" by (rule get_be_less)
  finally show ?thesis using False by simp
qed

lemma BigEndianUint24_put [simp, codec_simps]:
  "unat v < 2 ^ 24 \<Longrightarrow> BigEndianUint24 (PutBigEndianUint24 v @ rest) = v"
  by (simp add: word_eq_iff_unsigned [where 'a = nat] unat_BigEndianUint24 PutBigEndianUint24_be)

lemma ucast_byte_drop_bit: "(ucast (drop_bit (8 * n) v) :: byte) = word_of_nat (unat v div 256 ^ n)"
  for v :: uint64
proof -
  have "unat v div 256 ^ n = unat (drop_bit (8 * n) v)"
    by (simp only: unat_drop_bit_eq) (simp add: drop_bit_nat_def power_mult)
  then show ?thesis by (simp only: of_nat_unat)
qed

lemma AddUint48_bytes:
  "[ucast (drop_bit 40 v), ucast (drop_bit 32 v), ucast (drop_bit 24 v), ucast (drop_bit 16 v),
    ucast (drop_bit 8 v), ucast v] = PutBigEndianUint48 v" for v :: uint64
  using ucast_byte_drop_bit [of 5 v] ucast_byte_drop_bit [of 4 v] ucast_byte_drop_bit [of 3 v]
    ucast_byte_drop_bit [of 2 v] ucast_byte_drop_bit [of 1 v] ucast_byte_drop_bit [of 0 v]
  by (simp add: PutBigEndianUint48_be put_be_numeral)

end
