(* ===== verification/Protocol_Content.thy ===== *)
theory Protocol_Content
  imports Dtls_Prelude
begin

section \<open>Package protocol: version, content types and the small contents\<close>

text \<open>
  \<^verbatim>\<open>pkg/protocol\<close> and \<^verbatim>\<open>pkg/protocol/alert\<close>: the protocol version, the content types, the
  ChangeCipherSpec, Alert and ApplicationData contents, the compression methods and the error
  wrappers with their \<^verbatim>\<open>net.Error\<close> methods. The lemmas are the round trips of the codecs and
  the behaviour of the decoders on every other input.
\<close>

subsection \<open>Versions and content types\<close>

record Version =
  v_Major :: byte
  v_Minor :: byte

definition Version1_0 :: Version where
  "Version1_0 = \<lparr>v_Major = 0xfe, v_Minor = 0xff\<rparr>"

definition Version1_2 :: Version where
  "Version1_2 = \<lparr>v_Major = 0xfe, v_Minor = 0xfd\<rparr>"

definition Version_Equal :: "Version \<Rightarrow> Version \<Rightarrow> bool" where
  "Version_Equal v x \<longleftrightarrow> v_Major v = v_Major x \<and> v_Minor v = v_Minor x"

type_synonym ContentType = byte

abbreviation (input) ContentTypeChangeCipherSpec :: ContentType where
  "ContentTypeChangeCipherSpec \<equiv> 20"
abbreviation (input) ContentTypeAlert :: ContentType where
  "ContentTypeAlert \<equiv> 21"
abbreviation (input) ContentTypeHandshake :: ContentType where
  "ContentTypeHandshake \<equiv> 22"
abbreviation (input) ContentTypeApplicationData :: ContentType where
  "ContentTypeApplicationData \<equiv> 23"
abbreviation (input) ContentTypeConnectionID :: ContentType where
  "ContentTypeConnectionID \<equiv> 25"

subsection \<open>ChangeCipherSpec, ApplicationData and Alert\<close>

definition ChangeCipherSpec_Marshal :: "bytes res" where
  "ChangeCipherSpec_Marshal = Ok [0x01]"

definition ChangeCipherSpec_Unmarshal :: "bytes \<Rightarrow> unit res" where
  "ChangeCipherSpec_Unmarshal data =
     (if length data = 1 \<and> data ! 0 = 0x01 then Ok () else Err (Codec ErrInvalidCipherSpec))"

definition ApplicationData_Marshal :: "bytes \<Rightarrow> bytes res" where
  "ApplicationData_Marshal a = Ok ([] @ a)"

definition ApplicationData_Unmarshal :: "bytes \<Rightarrow> bytes res" where
  "ApplicationData_Unmarshal data = Ok ([] @ data)"

record Alert =
  al_Level :: byte
  al_Description :: byte

abbreviation (input) alert_Warning :: byte where "alert_Warning \<equiv> 1"
abbreviation (input) alert_Fatal :: byte where "alert_Fatal \<equiv> 2"
abbreviation (input) CloseNotify :: byte where "CloseNotify \<equiv> 0"
abbreviation (input) UnexpectedMessage :: byte where "UnexpectedMessage \<equiv> 10"
abbreviation (input) HandshakeFailure :: byte where "HandshakeFailure \<equiv> 40"
abbreviation (input) NoCertificate :: byte where "NoCertificate \<equiv> 41"
abbreviation (input) BadCertificate :: byte where "BadCertificate \<equiv> 42"
abbreviation (input) DecodeError :: byte where "DecodeError \<equiv> 50"
abbreviation (input) ProtocolVersion :: byte where "ProtocolVersion \<equiv> 70"
abbreviation (input) InsufficientSecurity :: byte where "InsufficientSecurity \<equiv> 71"
abbreviation (input) InternalError :: byte where "InternalError \<equiv> 80"
abbreviation (input) UnsupportedExtension :: byte where "UnsupportedExtension \<equiv> 110"
abbreviation (input) IllegalParameter :: byte where "IllegalParameter \<equiv> 47"
abbreviation (input) NoApplicationProtocol :: byte where "NoApplicationProtocol \<equiv> 120"

definition Alert_Marshal :: "Alert \<Rightarrow> bytes res" where
  "Alert_Marshal a = Ok [al_Level a, al_Description a]"

definition Alert_Unmarshal :: "bytes \<Rightarrow> Alert res" where
  "Alert_Unmarshal data =
     (if length data \<noteq> 2 then Err (Codec ErrBufferTooSmall)
      else Ok \<lparr>al_Level = data ! 0, al_Description = data ! 1\<rparr>)"

lemma ChangeCipherSpec_roundtrip:
  "bind ChangeCipherSpec_Marshal ChangeCipherSpec_Unmarshal = Ok ()"
  by (simp add: ChangeCipherSpec_Marshal_def ChangeCipherSpec_Unmarshal_def)

lemma ChangeCipherSpec_Unmarshal_Ok: "ChangeCipherSpec_Unmarshal data = Ok u \<longleftrightarrow> data = [1]"
  by (cases data) (auto simp: ChangeCipherSpec_Unmarshal_def)

lemma ApplicationData_roundtrip:
  "bind (ApplicationData_Marshal a) ApplicationData_Unmarshal = Ok a"
  by (simp add: ApplicationData_Marshal_def ApplicationData_Unmarshal_def)

lemma Alert_roundtrip: "bind (Alert_Marshal a) Alert_Unmarshal = Ok a"
  by (simp add: Alert_Marshal_def Alert_Unmarshal_def)

lemma Alert_Unmarshal_Ok_iff: "Alert_Unmarshal data = Ok a \<longleftrightarrow> Alert_Marshal a = Ok data"
  by (auto simp: Alert_Unmarshal_def Alert_Marshal_def length_Suc_conv numeral_2_eq_2)

subsection \<open>Compression methods\<close>

datatype CompressionMethod = CompressionMethod (cm_ID: byte)

definition CompressionMethods :: "byte \<rightharpoonup> CompressionMethod" where
  "CompressionMethods = [0 \<mapsto> CompressionMethod 0]"

fun DecodeCompressionMethods_loop ::
  "bytes \<Rightarrow> nat \<Rightarrow> nat \<Rightarrow> CompressionMethod list \<Rightarrow> CompressionMethod list res" where
  "DecodeCompressionMethods_loop buf i 0 c = Ok c"
| "DecodeCompressionMethods_loop buf i (Suc n) c =
     (if length buf \<le> i + 1 then Err (Codec ErrBufferTooSmall)
      else DecodeCompressionMethods_loop buf (i + 1) n
             (case CompressionMethods (buf ! (i + 1)) of Some m \<Rightarrow> c @ [m] | None \<Rightarrow> c))"

definition DecodeCompressionMethods :: "bytes \<Rightarrow> CompressionMethod list res" where
  "DecodeCompressionMethods buf =
     (if length buf < 1 then Err (Codec ErrBufferTooSmall)
      else DecodeCompressionMethods_loop buf 0 (unat (buf ! 0)) [])"

definition EncodeCompressionMethods :: "CompressionMethod list \<Rightarrow> bytes" where
  "EncodeCompressionMethods c = word_of_nat (length c) # rev (map cm_ID c)"

lemma DecodeCompressionMethods_loop_eq:
  "DecodeCompressionMethods_loop buf i n c =
     (if i + n < length buf \<or> n = 0
      then Ok (c @ List.map_filter CompressionMethods (take n (drop (i + 1) buf)))
      else Err (Codec ErrBufferTooSmall))"
proof (induction n arbitrary: i c)
  case 0
  then show ?case by (simp add: List.map_filter_def)
next
  case (Suc n)
  show ?case
  proof (cases "length buf \<le> i + 1")
    case True
    then show ?thesis by simp
  next
    case False
    then have d: "drop (Suc i) buf = buf ! Suc i # drop (Suc (Suc i)) buf"
      by (simp add: Cons_nth_drop_Suc)
    show ?thesis using False
      by (auto simp: Suc.IH d List.map_filter_simps split: option.splits)
  qed
qed

lemma DecodeCompressionMethods_no_panic: "\<not> panics (DecodeCompressionMethods buf)"
  by (auto simp: DecodeCompressionMethods_def DecodeCompressionMethods_loop_eq)

lemma DecodeCompressionMethods_eq:
  "DecodeCompressionMethods (n # bs) =
     (if unat n \<le> length bs
      then Ok (List.map_filter CompressionMethods (take (unat n) bs))
      else Err (Codec ErrBufferTooSmall))"
  by (auto simp: DecodeCompressionMethods_def DecodeCompressionMethods_loop_eq
      List.map_filter_def)

lemma map_filter_CompressionMethods:
  "\<forall>x \<in> set c. cm_ID x = 0 \<Longrightarrow> List.map_filter CompressionMethods (map cm_ID c) = c"
  by (induction c) (auto simp: List.map_filter_simps CompressionMethods_def intro: CompressionMethod.expand)

lemma Compression_roundtrip:
  assumes "\<forall>x \<in> set c. cm_ID x = 0" and "length c < 256"
  shows "DecodeCompressionMethods (EncodeCompressionMethods c @ bs) = Ok (rev c)"
proof -
  have "unat (word_of_nat (length c) :: byte) = length c"
    using assms(2) by (simp add: unat_byte_of_nat)
  then show ?thesis
    using assms(1) map_filter_CompressionMethods [of "rev c"]
    by (simp add: EncodeCompressionMethods_def DecodeCompressionMethods_eq rev_map)
qed

subsection \<open>Error wrappers\<close>

text \<open>
  The wrappers of \<^verbatim>\<open>errors.go\<close>. \<open>OtherError\<close> is an error that is not a \<^verbatim>\<open>net.Error\<close> and wraps
  nothing; \<open>NetError\<close> is a \<^verbatim>\<open>net.Error\<close> from outside with its two answers. \<open>as_net_error\<close> is
  \<^verbatim>\<open>errors.As(err, &netErr)\<close>: the first \<^verbatim>\<open>net.Error\<close> along the chain of \<^verbatim>\<open>Unwrap\<close>.
\<close>

datatype wrapped_error =
    FatalError wrapped_error
  | InternalErrorW wrapped_error
  | TemporaryError wrapped_error
  | TimeoutError wrapped_error
  | HandshakeError wrapped_error
  | NetError bool bool
  | OtherError nat

fun err_Unwrap :: "wrapped_error \<Rightarrow> wrapped_error option" where
  "err_Unwrap (FatalError e) = Some e"
| "err_Unwrap (InternalErrorW e) = Some e"
| "err_Unwrap (TemporaryError e) = Some e"
| "err_Unwrap (TimeoutError e) = Some e"
| "err_Unwrap (HandshakeError e) = Some e"
| "err_Unwrap _ = None"

fun as_net_error :: "wrapped_error \<Rightarrow> wrapped_error option" where
  "as_net_error (OtherError n) = None"
| "as_net_error e = Some e"

fun err_Timeout :: "wrapped_error \<Rightarrow> bool" where
  "err_Timeout (FatalError e) = False"
| "err_Timeout (InternalErrorW e) = False"
| "err_Timeout (TemporaryError e) = False"
| "err_Timeout (TimeoutError e) = True"
| "err_Timeout (HandshakeError e) = (case as_net_error e of None \<Rightarrow> False | Some _ \<Rightarrow> err_Timeout e)"
| "err_Timeout (NetError t p) = t"
| "err_Timeout (OtherError n) = False"

fun err_Temporary :: "wrapped_error \<Rightarrow> bool" where
  "err_Temporary (FatalError e) = False"
| "err_Temporary (InternalErrorW e) = False"
| "err_Temporary (TemporaryError e) = True"
| "err_Temporary (TimeoutError e) = True"
| "err_Temporary (HandshakeError e) =
     (case as_net_error e of None \<Rightarrow> False | Some _ \<Rightarrow> err_Temporary e)"
| "err_Temporary (NetError t p) = p"
| "err_Temporary (OtherError n) = False"

lemma as_net_error_self: "as_net_error e = Some e' \<Longrightarrow> e' = e"
  by (cases e) auto

lemma HandshakeError_transparent:
  "err_Timeout (HandshakeError e) = err_Timeout e"
  "err_Temporary (HandshakeError e) = err_Temporary e"
  by (cases e; simp)+

end
