(* ===== verification/Crypto_Algorithms.thy ===== *)
theory Crypto_Algorithms
  imports Dtls_Prelude
begin

section \<open>Registries: curves, hashes, signatures, signature schemes\<close>

text \<open>
  \<^verbatim>\<open>pkg/crypto/elliptic\<close>, \<^verbatim>\<open>hash\<close>, \<^verbatim>\<open>signature\<close>, \<^verbatim>\<open>clientcertificate\<close> and \<^verbatim>\<open>signaturehash\<close>: the
  code points the repository implements and the choice of a signature scheme. A Go map used as a
  set is a set. Random bytes, the curve arithmetic and the hash functions are arguments.
\<close>

subsection \<open>Package elliptic\<close>

abbreviation (input) P256 :: uint16 where "P256 \<equiv> 0x17"
abbreviation (input) P384 :: uint16 where "P384 \<equiv> 0x18"
abbreviation (input) X25519 :: uint16 where "X25519 \<equiv> 0x1d"

definition elliptic_Curves :: "uint16 set" where
  "elliptic_Curves = {X25519, P256, P384}"

definition elliptic_CurveTypes :: "byte set" where
  "elliptic_CurveTypes = {0x03}"

record Keypair =
  kp_Curve :: uint16
  kp_PublicKey :: bytes
  kp_PrivateKey :: bytes

text \<open>
  \<open>rand32\<close> is \<^verbatim>\<open>rand.Read\<close> of 32 bytes, \<open>baseMult\<close> is \<^verbatim>\<open>curve25519.ScalarBaseMult\<close>, \<open>genKey c\<close> is
  \<^verbatim>\<open>elliptic.GenerateKey\<close> followed by \<^verbatim>\<open>elliptic.Marshal\<close> on the curve \<open>c\<close> (private key, encoded
  point).
\<close>

definition ellipticCurveKeypair :: "(uint16 \<Rightarrow> (bytes \<times> bytes) res) \<Rightarrow> uint16 \<Rightarrow> Keypair res" where
  "ellipticCurveKeypair genKey nc =
     bind (genKey nc) (\<lambda>(privateKey, point).
       Ok \<lparr>kp_Curve = nc, kp_PublicKey = point, kp_PrivateKey = privateKey\<rparr>)"

definition GenerateKeypair ::
  "bytes res \<Rightarrow> (bytes \<Rightarrow> bytes) \<Rightarrow> (uint16 \<Rightarrow> (bytes \<times> bytes) res) \<Rightarrow> uint16 \<Rightarrow> Keypair res" where
  "GenerateKeypair rand32 baseMult genKey c =
     (if c = X25519 then
        bind rand32 (\<lambda>private.
          Ok \<lparr>kp_Curve = X25519, kp_PublicKey = baseMult private, kp_PrivateKey = private\<rparr>)
      else if c = P256 then ellipticCurveKeypair genKey P256
      else if c = P384 then ellipticCurveKeypair genKey P384
      else Err (Codec ErrInvalidNamedCurve))"

lemma GenerateKeypair_curve:
  "GenerateKeypair r m g c = Ok k \<Longrightarrow> kp_Curve k = c \<and> c \<in> elliptic_Curves"
  by (auto simp: GenerateKeypair_def ellipticCurveKeypair_def elliptic_Curves_def
      split: if_splits)

subsection \<open>Packages hash, signature and clientcertificate\<close>

abbreviation (input) hash_None :: uint16 where "hash_None \<equiv> 0"
abbreviation (input) hash_MD5 :: uint16 where "hash_MD5 \<equiv> 1"
abbreviation (input) hash_SHA1 :: uint16 where "hash_SHA1 \<equiv> 2"
abbreviation (input) hash_SHA224 :: uint16 where "hash_SHA224 \<equiv> 3"
abbreviation (input) hash_SHA256 :: uint16 where "hash_SHA256 \<equiv> 4"
abbreviation (input) hash_SHA384 :: uint16 where "hash_SHA384 \<equiv> 5"
abbreviation (input) hash_SHA512 :: uint16 where "hash_SHA512 \<equiv> 6"
abbreviation (input) hash_Ed25519 :: uint16 where "hash_Ed25519 \<equiv> 8"

abbreviation (input) sig_Anonymous :: uint16 where "sig_Anonymous \<equiv> 0"
abbreviation (input) sig_RSA :: uint16 where "sig_RSA \<equiv> 1"
abbreviation (input) sig_ECDSA :: uint16 where "sig_ECDSA \<equiv> 3"
abbreviation (input) sig_Ed25519 :: uint16 where "sig_Ed25519 \<equiv> 7"

definition hash_Algorithms :: "uint16 set" where
  "hash_Algorithms = {hash_None, hash_MD5, hash_SHA1, hash_SHA224, hash_SHA256, hash_SHA384,
     hash_SHA512, hash_Ed25519}"

definition hash_Insecure :: "uint16 \<Rightarrow> bool" where
  "hash_Insecure a \<longleftrightarrow> a = hash_None \<or> a = hash_MD5 \<or> a = hash_SHA1"

record hash_functions =
  md5_Sum :: "bytes \<Rightarrow> bytes"
  sha1_Sum :: "bytes \<Rightarrow> bytes"
  sha256_Sum224 :: "bytes \<Rightarrow> bytes"
  sha256_Sum256 :: "bytes \<Rightarrow> bytes"
  sha512_Sum384 :: "bytes \<Rightarrow> bytes"
  sha512_Sum512 :: "bytes \<Rightarrow> bytes"

definition hash_Digest :: "hash_functions \<Rightarrow> uint16 \<Rightarrow> bytes \<Rightarrow> bytes option" where
  "hash_Digest F a b =
     (if a = hash_None then None
      else if a = hash_MD5 then Some (md5_Sum F b)
      else if a = hash_SHA1 then Some (sha1_Sum F b)
      else if a = hash_SHA224 then Some (sha256_Sum224 F b)
      else if a = hash_SHA256 then Some (sha256_Sum256 F b)
      else if a = hash_SHA384 then Some (sha512_Sum384 F b)
      else if a = hash_SHA512 then Some (sha512_Sum512 F b)
      else None)"

definition sig_Algorithms :: "uint16 set" where
  "sig_Algorithms = {sig_Anonymous, sig_RSA, sig_ECDSA, sig_Ed25519}"

definition clientcertificate_Types :: "byte set" where
  "clientcertificate_Types = {1, 64}"

lemma ucast_hash [simp]: "a \<in> hash_Algorithms \<Longrightarrow> ucast (ucast a :: byte) = a"
  by (auto simp: hash_Algorithms_def)

lemma ucast_sig [simp]: "a \<in> sig_Algorithms \<Longrightarrow> ucast (ucast a :: byte) = a"
  by (auto simp: sig_Algorithms_def)

subsection \<open>Package signaturehash\<close>

record Algorithm =
  sh_Hash :: uint16
  sh_Signature :: uint16

definition signaturehash_Algorithms :: "Algorithm list" where
  "signaturehash_Algorithms =
    [\<lparr>sh_Hash = hash_SHA256, sh_Signature = sig_ECDSA\<rparr>,
     \<lparr>sh_Hash = hash_SHA384, sh_Signature = sig_ECDSA\<rparr>,
     \<lparr>sh_Hash = hash_SHA512, sh_Signature = sig_ECDSA\<rparr>,
     \<lparr>sh_Hash = hash_SHA256, sh_Signature = sig_RSA\<rparr>,
     \<lparr>sh_Hash = hash_SHA384, sh_Signature = sig_RSA\<rparr>,
     \<lparr>sh_Hash = hash_SHA512, sh_Signature = sig_RSA\<rparr>,
     \<lparr>sh_Hash = hash_Ed25519, sh_Signature = sig_Ed25519\<rparr>]"

text \<open>The dynamic type of a \<^verbatim>\<open>crypto.PrivateKey\<close>.\<close>

datatype private_key = Ed25519PrivateKey | EcdsaPrivateKey | RsaPrivateKey | OtherPrivateKey

fun isCompatible :: "Algorithm \<Rightarrow> private_key \<Rightarrow> bool" where
  "isCompatible a Ed25519PrivateKey = (sh_Signature a = sig_Ed25519)"
| "isCompatible a EcdsaPrivateKey = (sh_Signature a = sig_ECDSA)"
| "isCompatible a RsaPrivateKey = (sh_Signature a = sig_RSA)"
| "isCompatible a OtherPrivateKey = False"

fun SelectSignatureScheme :: "Algorithm list \<Rightarrow> private_key \<Rightarrow> Algorithm res" where
  "SelectSignatureScheme [] privateKey = Err (Config ErrNoAvailableSignatureSchemes)"
| "SelectSignatureScheme (ss # sigs) privateKey =
     (if isCompatible ss privateKey then Ok ss else SelectSignatureScheme sigs privateKey)"

fun ParseSignatureSchemes_loop :: "uint16 list \<Rightarrow> bool \<Rightarrow> Algorithm list \<Rightarrow> Algorithm list res" where
  "ParseSignatureSchemes_loop [] insecureHashes out = Ok out"
| "ParseSignatureSchemes_loop (ss # sigs) insecureHashes out =
     (let sig = ss AND 0xFF; h = drop_bit 8 ss in
      if sig \<notin> sig_Algorithms then Err (Codec ErrInvalidSignatureAlgorithm)
      else if h \<notin> hash_Algorithms \<or> h = hash_None then Err (Codec ErrInvalidHashAlgorithm)
      else if hash_Insecure h \<and> \<not> insecureHashes
      then ParseSignatureSchemes_loop sigs insecureHashes out
      else ParseSignatureSchemes_loop sigs insecureHashes
             (out @ [\<lparr>sh_Hash = h, sh_Signature = sig\<rparr>]))"

definition ParseSignatureSchemes :: "uint16 list \<Rightarrow> bool \<Rightarrow> Algorithm list res" where
  "ParseSignatureSchemes sigs insecureHashes =
     (if length sigs = 0 then Ok signaturehash_Algorithms
      else bind (ParseSignatureSchemes_loop sigs insecureHashes [])
        (\<lambda>out. if length out = 0 then Err (Config ErrNoAvailableSignatureSchemes) else Ok out))"

lemma SelectSignatureScheme_find:
  "SelectSignatureScheme sigs k =
     (case List.find (\<lambda>a. isCompatible a k) sigs of
        Some a \<Rightarrow> Ok a | None \<Rightarrow> Err (Config ErrNoAvailableSignatureSchemes))"
  by (induction sigs) auto

definition secure_scheme :: "bool \<Rightarrow> Algorithm \<Rightarrow> bool" where
  "secure_scheme insecureHashes a \<longleftrightarrow>
     sh_Signature a \<in> sig_Algorithms \<and> sh_Hash a \<in> hash_Algorithms \<and> sh_Hash a \<noteq> hash_None \<and>
     (hash_Insecure (sh_Hash a) \<longrightarrow> insecureHashes)"

lemma ParseSignatureSchemes_loop_secure:
  assumes "ParseSignatureSchemes_loop sigs ins out = Ok r" "list_all (secure_scheme ins) out"
  shows "list_all (secure_scheme ins) r"
  using assms
  by (induction sigs ins out arbitrary: r rule: ParseSignatureSchemes_loop.induct)
     (auto simp: Let_def secure_scheme_def split: if_splits)

lemma signaturehash_Algorithms_secure: "list_all (secure_scheme ins) signaturehash_Algorithms"
  by (simp add: signaturehash_Algorithms_def secure_scheme_def sig_Algorithms_def
      hash_Algorithms_def hash_Insecure_def)

lemma ParseSignatureSchemes_sound:
  assumes "ParseSignatureSchemes sigs ins = Ok r"
  shows "r \<noteq> [] \<and> list_all (secure_scheme ins) r"
  using assms signaturehash_Algorithms_secure [of ins] ParseSignatureSchemes_loop_secure
  by (auto simp: ParseSignatureSchemes_def signaturehash_Algorithms_def split: if_splits)

end
