(* ===== verification/Extensions.thy ===== *)
theory Extensions
  imports Cryptobyte Crypto_Algorithms
begin

section \<open>Package extension\<close>

text \<open>
  \<^verbatim>\<open>pkg/protocol/extension\<close>: the nine hello extensions, the codec of each, the codec of the list,
  and the choice of an application protocol. Go strings are byte lists. The type \<open>Extension\<close> is
  the interface \<^verbatim>\<open>Extension\<close> with a constructor for each implementation. \<open>wf_Extension\<close> is the
  set of extensions that a peer reads back: every one the connection itself makes is of that form.
\<close>

abbreviation (input) ServerNameTypeValue :: uint16 where "ServerNameTypeValue \<equiv> 0"
abbreviation (input) SupportedEllipticCurvesTypeValue :: uint16 where "SupportedEllipticCurvesTypeValue \<equiv> 10"
abbreviation (input) SupportedPointFormatsTypeValue :: uint16 where "SupportedPointFormatsTypeValue \<equiv> 11"
abbreviation (input) SupportedSignatureAlgorithmsTypeValue :: uint16 where
  "SupportedSignatureAlgorithmsTypeValue \<equiv> 13"
abbreviation (input) UseSRTPTypeValue :: uint16 where "UseSRTPTypeValue \<equiv> 14"
abbreviation (input) ALPNTypeValue :: uint16 where "ALPNTypeValue \<equiv> 16"
abbreviation (input) UseExtendedMasterSecretTypeValue :: uint16 where "UseExtendedMasterSecretTypeValue \<equiv> 23"
abbreviation (input) ConnectionIDTypeValue :: uint16 where "ConnectionIDTypeValue \<equiv> 54"
abbreviation (input) RenegotiationInfoTypeValue :: uint16 where "RenegotiationInfoTypeValue \<equiv> 65281"

datatype Extension =
    ServerName bytes
  | SupportedEllipticCurves "uint16 list"
  | SupportedPointFormats "byte list"
  | SupportedSignatureAlgorithms "Algorithm list"
  | UseSRTP "uint16 list"
  | ALPN "bytes list"
  | UseExtendedMasterSecret bool
  | ConnectionID bytes
  | RenegotiationInfo byte

fun ext_TypeValue :: "Extension \<Rightarrow> uint16" where
  "ext_TypeValue (ServerName _) = ServerNameTypeValue"
| "ext_TypeValue (SupportedEllipticCurves _) = SupportedEllipticCurvesTypeValue"
| "ext_TypeValue (SupportedPointFormats _) = SupportedPointFormatsTypeValue"
| "ext_TypeValue (SupportedSignatureAlgorithms _) = SupportedSignatureAlgorithmsTypeValue"
| "ext_TypeValue (UseSRTP _) = UseSRTPTypeValue"
| "ext_TypeValue (ALPN _) = ALPNTypeValue"
| "ext_TypeValue (UseExtendedMasterSecret _) = UseExtendedMasterSecretTypeValue"
| "ext_TypeValue (ConnectionID _) = ConnectionIDTypeValue"
| "ext_TypeValue (RenegotiationInfo _) = RenegotiationInfoTypeValue"

subsection \<open>Marshalling\<close>

definition ServerName_Marshal :: "'b cryptobyte \<Rightarrow> bytes \<Rightarrow> bytes res" where
  "ServerName_Marshal cb name =
     cb_Bytes cb
       (cb_AddUint16LengthPrefixed cb
         (cb_AddUint16LengthPrefixed cb
           (\<lambda>b. cb_AddUint16LengthPrefixed cb (cb_AddBytes cb name) (cb_AddUint8 cb 0 b)))
         (cb_AddUint16 cb ServerNameTypeValue (cb_New cb)))"

definition SupportedEllipticCurves_Marshal :: "uint16 list \<Rightarrow> bytes res" where
  "SupportedEllipticCurves_Marshal cs =
     Ok (put_uint16 SupportedEllipticCurvesTypeValue
         @ put_uint16 (word_of_nat (2 + length cs * 2)) @ put_uint16 (word_of_nat (length cs * 2))
         @ concat (map put_uint16 cs))"

definition SupportedPointFormats_Marshal :: "byte list \<Rightarrow> bytes res" where
  "SupportedPointFormats_Marshal ps =
     Ok (put_uint16 SupportedPointFormatsTypeValue @ put_uint16 (word_of_nat (1 + length ps))
         @ word_of_nat (length ps) # ps)"

definition SupportedSignatureAlgorithms_Marshal :: "Algorithm list \<Rightarrow> bytes res" where
  "SupportedSignatureAlgorithms_Marshal as =
     Ok (put_uint16 SupportedSignatureAlgorithmsTypeValue
         @ put_uint16 (word_of_nat (2 + length as * 2)) @ put_uint16 (word_of_nat (length as * 2))
         @ concat (map (\<lambda>v. [ucast (sh_Hash v), ucast (sh_Signature v)]) as))"

definition UseSRTP_Marshal :: "uint16 list \<Rightarrow> bytes res" where
  "UseSRTP_Marshal ps =
     Ok (put_uint16 UseSRTPTypeValue
         @ put_uint16 (word_of_nat (2 + length ps * 2 + 1)) @ put_uint16 (word_of_nat (length ps * 2))
         @ concat (map put_uint16 ps) @ [0x00])"

definition ALPN_Marshal :: "'b cryptobyte \<Rightarrow> bytes list \<Rightarrow> bytes res" where
  "ALPN_Marshal cb protos =
     cb_Bytes cb
       (cb_AddUint16LengthPrefixed cb
         (cb_AddUint16LengthPrefixed cb
           (fold (\<lambda>p. cb_AddUint8LengthPrefixed cb (cb_AddBytes cb p)) protos))
         (cb_AddUint16 cb ALPNTypeValue (cb_New cb)))"

definition UseExtendedMasterSecret_Marshal :: "bool \<Rightarrow> bytes res" where
  "UseExtendedMasterSecret_Marshal supported =
     (if \<not> supported then Ok []
      else Ok (put_uint16 UseExtendedMasterSecretTypeValue @ put_uint16 0))"

definition ConnectionID_Marshal :: "'b cryptobyte \<Rightarrow> bytes \<Rightarrow> bytes res" where
  "ConnectionID_Marshal cb cid =
     cb_Bytes cb
       (cb_AddUint16LengthPrefixed cb (cb_AddUint8LengthPrefixed cb (cb_AddBytes cb cid))
         (cb_AddUint16 cb ConnectionIDTypeValue (cb_New cb)))"

definition RenegotiationInfo_Marshal :: "byte \<Rightarrow> bytes res" where
  "RenegotiationInfo_Marshal r =
     Ok (put_uint16 RenegotiationInfoTypeValue @ put_uint16 1 @ [r])"

fun Extension_Marshal :: "'b cryptobyte \<Rightarrow> Extension \<Rightarrow> bytes res" where
  "Extension_Marshal cb (ServerName n) = ServerName_Marshal cb n"
| "Extension_Marshal cb (SupportedEllipticCurves cs) = SupportedEllipticCurves_Marshal cs"
| "Extension_Marshal cb (SupportedPointFormats ps) = SupportedPointFormats_Marshal ps"
| "Extension_Marshal cb (SupportedSignatureAlgorithms as) = SupportedSignatureAlgorithms_Marshal as"
| "Extension_Marshal cb (UseSRTP ps) = UseSRTP_Marshal ps"
| "Extension_Marshal cb (ALPN ps) = ALPN_Marshal cb ps"
| "Extension_Marshal cb (UseExtendedMasterSecret s) = UseExtendedMasterSecret_Marshal s"
| "Extension_Marshal cb (ConnectionID c) = ConnectionID_Marshal cb c"
| "Extension_Marshal cb (RenegotiationInfo r) = RenegotiationInfo_Marshal r"

definition extension_Marshal :: "'b cryptobyte \<Rightarrow> Extension list \<Rightarrow> bytes res" where
  "extension_Marshal cb es =
     bind (map_res (Extension_Marshal cb) es) (\<lambda>raws.
       Ok (put_uint16 (word_of_nat (length (concat raws))) @ concat raws))"

subsection \<open>Unmarshalling\<close>

text \<open>
  \<open>read_ext_type\<close> is the common start of the readers built on \<^verbatim>\<open>cryptobyte.String\<close>: the two byte
  type (zero when it cannot be read) and the length prefixed body (empty when it cannot be read).
\<close>

definition read_ext_type :: "'b cryptobyte \<Rightarrow> bytes \<Rightarrow> uint16 \<times> bytes" where
  "read_ext_type cb data =
     (case cb_ReadUint16 cb data of
        None \<Rightarrow> (0, case cb_ReadUint16LengthPrefixed cb data of None \<Rightarrow> [] | Some (x, _) \<Rightarrow> x)
      | Some (t, val) \<Rightarrow>
          (t, case cb_ReadUint16LengthPrefixed cb val of None \<Rightarrow> [] | Some (x, _) \<Rightarrow> x))"

text \<open>
  The loop over the name list; the fuel is the length of the list, which every turn shortens.
  Running out of fuel is \<open>Panic\<close>, and \<open>extension_Unmarshal_no_panic\<close> shows it never happens.
\<close>

fun ServerName_loop :: "'b cryptobyte \<Rightarrow> nat \<Rightarrow> bytes \<Rightarrow> bytes \<Rightarrow> bytes res" where
  "ServerName_loop cb 0 nameList name = (if nameList = [] then Ok name else Panic)"
| "ServerName_loop cb (Suc fuel) nameList name =
     (if nameList = [] then Ok name
      else case cb_ReadUint8 cb nameList of
        None \<Rightarrow> Err (Codec ErrInvalidSNIFormat)
      | Some (nameType, rest) \<Rightarrow>
        (case cb_ReadUint16LengthPrefixed cb rest of
           None \<Rightarrow> Err (Codec ErrInvalidSNIFormat)
         | Some (serverName, nameList') \<Rightarrow>
             if serverName = [] then Err (Codec ErrInvalidSNIFormat)
             else if nameType \<noteq> 0 then ServerName_loop cb fuel nameList' name
             else if length name \<noteq> 0 then Err (Codec ErrInvalidSNIFormat)
             else if last serverName = 0x2e then Err (Codec ErrInvalidSNIFormat)
             else ServerName_loop cb fuel nameList' serverName))"

definition ServerName_Unmarshal :: "'b cryptobyte \<Rightarrow> bytes \<Rightarrow> bytes res" where
  "ServerName_Unmarshal cb data =
     (let (extension, extData) = read_ext_type cb data in
      if extension \<noteq> ServerNameTypeValue then Err (Codec ErrInvalidExtensionType)
      else case cb_ReadUint16LengthPrefixed cb extData of
        None \<Rightarrow> Err (Codec ErrInvalidSNIFormat)
      | Some (nameList, _) \<Rightarrow>
          if nameList = [] then Err (Codec ErrInvalidSNIFormat)
          else ServerName_loop cb (length nameList) nameList [])"

text \<open>The 16-bit values at \<open>data[off:]\<close>, \<open>data[off+2:]\<close>, ..., \<open>n\<close> of them.\<close>

definition read_uint16s :: "bytes \<Rightarrow> nat \<Rightarrow> nat \<Rightarrow> uint16 list" where
  "read_uint16s data off n = map (\<lambda>i. get_uint16 (drop (off + i * 2) data)) [0..<n]"

definition SupportedEllipticCurves_Unmarshal :: "bytes \<Rightarrow> uint16 list res" where
  "SupportedEllipticCurves_Unmarshal data =
     (if length data \<le> 6 then Err (Codec ErrBufferTooSmall)
      else if get_uint16 data \<noteq> SupportedEllipticCurvesTypeValue
      then Err (Codec ErrInvalidExtensionType)
      else let groupCount = unat (get_uint16 (drop 4 data) div 2) in
        if 6 + groupCount * 2 > length data then Err (Codec ErrLengthMismatch)
        else Ok (filter (\<lambda>c. c \<in> elliptic_Curves) (read_uint16s data 6 groupCount)))"

definition SupportedPointFormats_Unmarshal :: "bytes \<Rightarrow> byte list res" where
  "SupportedPointFormats_Unmarshal data =
     (if length data \<le> 5 then Err (Codec ErrBufferTooSmall)
      else if get_uint16 data \<noteq> SupportedPointFormatsTypeValue
      then Err (Codec ErrInvalidExtensionType)
      else let pointFormatCount = unat (data ! 4) in
        if 5 + pointFormatCount > length data then Err (Codec ErrLengthMismatch)
        else Ok (filter (\<lambda>p. p = 0) (map (\<lambda>i. data ! (5 + i)) [0..<pointFormatCount])))"

definition SupportedSignatureAlgorithms_Unmarshal :: "bytes \<Rightarrow> Algorithm list res" where
  "SupportedSignatureAlgorithms_Unmarshal data =
     (if length data \<le> 6 then Err (Codec ErrBufferTooSmall)
      else if get_uint16 data \<noteq> SupportedSignatureAlgorithmsTypeValue
      then Err (Codec ErrInvalidExtensionType)
      else let algorithmCount = unat (get_uint16 (drop 4 data) div 2) in
        if 6 + algorithmCount * 2 > length data then Err (Codec ErrLengthMismatch)
        else Ok (filter (\<lambda>a. sh_Hash a \<in> hash_Algorithms \<and> sh_Signature a \<in> sig_Algorithms)
               (map (\<lambda>i. \<lparr>sh_Hash = ucast (data ! (6 + i * 2)),
                          sh_Signature = ucast (data ! (6 + i * 2 + 1))\<rparr>) [0..<algorithmCount])))"

definition srtpProtectionProfiles :: "uint16 set" where
  "srtpProtectionProfiles = {0x0001, 0x0002, 0x0007, 0x0008}"

definition UseSRTP_Unmarshal :: "bytes \<Rightarrow> uint16 list res" where
  "UseSRTP_Unmarshal data =
     (if length data \<le> 6 then Err (Codec ErrBufferTooSmall)
      else if get_uint16 data \<noteq> UseSRTPTypeValue then Err (Codec ErrInvalidExtensionType)
      else let profileCount = unat (get_uint16 (drop 4 data) div 2) in
        if 6 + profileCount * 2 > length data then Err (Codec ErrLengthMismatch)
        else Ok (filter (\<lambda>p. p \<in> srtpProtectionProfiles) (read_uint16s data 6 profileCount)))"

fun ALPN_loop :: "'b cryptobyte \<Rightarrow> nat \<Rightarrow> bytes \<Rightarrow> bytes list \<Rightarrow> bytes list res" where
  "ALPN_loop cb 0 protoList names = (if protoList = [] then Ok names else Panic)"
| "ALPN_loop cb (Suc fuel) protoList names =
     (if protoList = [] then Ok names
      else case cb_ReadUint8LengthPrefixed cb protoList of
        None \<Rightarrow> Err (Codec ErrALPNInvalidFormat)
      | Some (proto, protoList') \<Rightarrow>
          if proto = [] then Err (Codec ErrALPNInvalidFormat)
          else ALPN_loop cb fuel protoList' (names @ [proto]))"

definition ALPN_Unmarshal :: "'b cryptobyte \<Rightarrow> bytes \<Rightarrow> bytes list res" where
  "ALPN_Unmarshal cb data =
     (let (extension, extData) = read_ext_type cb data in
      if extension \<noteq> ALPNTypeValue then Err (Codec ErrInvalidExtensionType)
      else case cb_ReadUint16LengthPrefixed cb extData of
        None \<Rightarrow> Err (Codec ErrALPNInvalidFormat)
      | Some (protoList, _) \<Rightarrow>
          if protoList = [] then Err (Codec ErrALPNInvalidFormat)
          else ALPN_loop cb (length protoList) protoList [])"

definition UseExtendedMasterSecret_Unmarshal :: "bytes \<Rightarrow> bool res" where
  "UseExtendedMasterSecret_Unmarshal data =
     (if length data < 4 then Err (Codec ErrBufferTooSmall)
      else if get_uint16 data \<noteq> UseExtendedMasterSecretTypeValue
      then Err (Codec ErrInvalidExtensionType)
      else Ok True)"

definition ConnectionID_Unmarshal :: "'b cryptobyte \<Rightarrow> bytes \<Rightarrow> bytes res" where
  "ConnectionID_Unmarshal cb data =
     (let (extension, extData) = read_ext_type cb data in
      if extension \<noteq> ConnectionIDTypeValue then Err (Codec ErrInvalidExtensionType)
      else case cb_ReadUint8LengthPrefixed cb extData of
        None \<Rightarrow> Err (Codec ErrInvalidCIDFormat)
      | Some (cid, _) \<Rightarrow>
          (case cb_CopyBytes cb (length cid) cid of
             None \<Rightarrow> Err (Codec ErrInvalidCIDFormat)
           | Some (out, _) \<Rightarrow> Ok out))"

definition RenegotiationInfo_Unmarshal :: "bytes \<Rightarrow> byte res" where
  "RenegotiationInfo_Unmarshal data =
     (if length data < 5 then Err (Codec ErrBufferTooSmall)
      else if get_uint16 data \<noteq> RenegotiationInfoTypeValue
      then Err (Codec ErrInvalidExtensionType)
      else Ok (data ! 4))"

text \<open>
  One turn of the loop of \<^verbatim>\<open>Unmarshal\<close>: the switch on the type. The readers get everything from
  the extension's start to the end of the buffer; an unknown type is skipped.
\<close>

definition unmarshalOne :: "'b cryptobyte \<Rightarrow> bytes \<Rightarrow> Extension list res" where
  "unmarshalOne cb data =
     (let t = get_uint16 data in
      if t = ServerNameTypeValue
      then bind (ServerName_Unmarshal cb data) (\<lambda>x. Ok [ServerName x])
      else if t = SupportedEllipticCurvesTypeValue
      then bind (SupportedEllipticCurves_Unmarshal data) (\<lambda>x. Ok [SupportedEllipticCurves x])
      else if t = SupportedPointFormatsTypeValue
      then bind (SupportedPointFormats_Unmarshal data) (\<lambda>x. Ok [SupportedPointFormats x])
      else if t = SupportedSignatureAlgorithmsTypeValue
      then bind (SupportedSignatureAlgorithms_Unmarshal data)
             (\<lambda>x. Ok [SupportedSignatureAlgorithms x])
      else if t = UseSRTPTypeValue then bind (UseSRTP_Unmarshal data) (\<lambda>x. Ok [UseSRTP x])
      else if t = ALPNTypeValue then bind (ALPN_Unmarshal cb data) (\<lambda>x. Ok [ALPN x])
      else if t = UseExtendedMasterSecretTypeValue
      then bind (UseExtendedMasterSecret_Unmarshal data) (\<lambda>x. Ok [UseExtendedMasterSecret x])
      else if t = RenegotiationInfoTypeValue
      then bind (RenegotiationInfo_Unmarshal data) (\<lambda>x. Ok [RenegotiationInfo x])
      else if t = ConnectionIDTypeValue
      then bind (ConnectionID_Unmarshal cb data) (\<lambda>x. Ok [ConnectionID x])
      else Ok [])"

function extension_Unmarshal_loop ::
  "'b cryptobyte \<Rightarrow> bytes \<Rightarrow> nat \<Rightarrow> Extension list \<Rightarrow> Extension list res" where
  "extension_Unmarshal_loop cb buf offset extensions =
     (if offset < length buf then
        if length buf < offset + 2 then Err (Codec ErrBufferTooSmall)
        else bind (unmarshalOne cb (drop offset buf)) (\<lambda>e.
          if length buf < offset + 4 then Err (Codec ErrBufferTooSmall)
          else extension_Unmarshal_loop cb buf
                 (offset + (4 + unat (get_uint16 (drop (offset + 2) buf)))) (extensions @ e))
      else Ok extensions)"
  by pat_completeness auto
termination by (relation "measure (\<lambda>(cb, buf, offset, extensions). length buf - offset)") auto

declare extension_Unmarshal_loop.simps [simp del]

definition extension_Unmarshal :: "'b cryptobyte \<Rightarrow> bytes \<Rightarrow> Extension list res" where
  "extension_Unmarshal cb buf =
     (if length buf = 0 then Ok []
      else if length buf < 2 then Err (Codec ErrBufferTooSmall)
      else if length buf - 2 \<noteq> unat (get_uint16 buf) then Err (Codec ErrLengthMismatch)
      else extension_Unmarshal_loop cb buf 2 [])"

subsection \<open>Protocol selection\<close>

fun ALPN_inner :: "bytes \<Rightarrow> bytes list \<Rightarrow> bool" where
  "ALPN_inner s [] = False"
| "ALPN_inner s (c # cs) = (if s = c then True else ALPN_inner s cs)"

fun ALPN_outer :: "bytes list \<Rightarrow> bytes list \<Rightarrow> bytes res" where
  "ALPN_outer [] peer = Err (Config ErrALPNNoAppProto)"
| "ALPN_outer (s # ss) peer = (if ALPN_inner s peer then Ok s else ALPN_outer ss peer)"

definition ALPNProtocolSelection :: "bytes list \<Rightarrow> bytes list \<Rightarrow> bytes res" where
  "ALPNProtocolSelection supportedProtocols peerSupportedProtocols =
     (if length supportedProtocols = 0 \<or> length peerSupportedProtocols = 0 then Ok []
      else ALPN_outer supportedProtocols peerSupportedProtocols)"

subsection \<open>Extensions that are read back\<close>

definition alpn_body :: "bytes list \<Rightarrow> bytes" where
  "alpn_body protos = concat (map (\<lambda>p. put_be 1 (length p) @ p) protos)"

fun wf_Extension :: "Extension \<Rightarrow> bool" where
  "wf_Extension (ServerName n) \<longleftrightarrow> n \<noteq> [] \<and> last n \<noteq> 0x2e \<and> length n + 5 < 65536"
| "wf_Extension (SupportedEllipticCurves cs) \<longleftrightarrow>
     cs \<noteq> [] \<and> set cs \<subseteq> elliptic_Curves \<and> 2 + length cs * 2 < 65536"
| "wf_Extension (SupportedPointFormats ps) \<longleftrightarrow> ps \<noteq> [] \<and> set ps = {0} \<and> length ps < 256"
| "wf_Extension (SupportedSignatureAlgorithms as) \<longleftrightarrow>
     as \<noteq> [] \<and> 2 + length as * 2 < 65536 \<and>
     (\<forall>a \<in> set as. sh_Hash a \<in> hash_Algorithms \<and> sh_Signature a \<in> sig_Algorithms)"
| "wf_Extension (UseSRTP ps) \<longleftrightarrow> set ps \<subseteq> srtpProtectionProfiles \<and> 3 + length ps * 2 < 65536"
| "wf_Extension (ALPN ps) \<longleftrightarrow>
     ps \<noteq> [] \<and> (\<forall>p \<in> set ps. p \<noteq> [] \<and> length p < 256) \<and> 2 + length (alpn_body ps) < 65536"
| "wf_Extension (UseExtendedMasterSecret s) \<longleftrightarrow> s"
| "wf_Extension (ConnectionID c) \<longleftrightarrow> length c < 256"
| "wf_Extension (RenegotiationInfo r) \<longleftrightarrow> True"

fun ext_body :: "Extension \<Rightarrow> bytes" where
  "ext_body (ServerName n) = put_be 2 (length n + 3) @ 0 # put_be 2 (length n) @ n"
| "ext_body (SupportedEllipticCurves cs) = put_be 2 (length cs * 2) @ concat (map put_uint16 cs)"
| "ext_body (SupportedPointFormats ps) = word_of_nat (length ps) # ps"
| "ext_body (SupportedSignatureAlgorithms as) =
     put_be 2 (length as * 2) @ concat (map (\<lambda>v. [ucast (sh_Hash v), ucast (sh_Signature v)]) as)"
| "ext_body (UseSRTP ps) = put_be 2 (length ps * 2) @ concat (map put_uint16 ps) @ [0]"
| "ext_body (ALPN ps) = put_be 2 (length (alpn_body ps)) @ alpn_body ps"
| "ext_body (UseExtendedMasterSecret s) = []"
| "ext_body (ConnectionID c) = put_be 1 (length c) @ c"
| "ext_body (RenegotiationInfo r) = [r]"

text \<open>The encoding of an extension: type, length, body.\<close>

definition ext_enc :: "Extension \<Rightarrow> bytes" where
  "ext_enc e = put_uint16 (ext_TypeValue e) @ put_be 2 (length (ext_body e)) @ ext_body e"

lemma length_concat_put_uint16 [simp]: "length (concat (map put_uint16 cs)) = length cs * 2"
  by (induction cs) auto

lemma length_concat_pairs [simp]: "length (concat (map (\<lambda>v. [f v, g v]) as)) = length as * 2"
  by (induction as) auto

lemma drop_uint16s:
  "drop (i * 2) (concat (map put_uint16 cs)) = concat (map put_uint16 (drop i cs))"
proof (induction cs arbitrary: i)
  case (Cons c cs)
  then show ?case by (cases i) simp_all
qed simp

lemma read_uint16s_put:
  assumes "off = length pre"
  shows "read_uint16s (pre @ concat (map put_uint16 cs) @ rest) off (length cs) = cs"
proof (rule nth_equalityI)
  show "length (read_uint16s (pre @ concat (map put_uint16 cs) @ rest) off (length cs)) = length cs"
    by (simp add: read_uint16s_def)
next
  fix i assume "i < length (read_uint16s (pre @ concat (map put_uint16 cs) @ rest) off (length cs))"
  then have i: "i < length cs" by (simp add: read_uint16s_def)
  then have "drop i cs = cs ! i # drop (Suc i) cs" by (simp add: Cons_nth_drop_Suc)
  with i show "read_uint16s (pre @ concat (map put_uint16 cs) @ rest) off (length cs) ! i = cs ! i"
    by (simp add: read_uint16s_def assms drop_uint16s)
qed

lemma nth_pairs:
  "i < length as \<Longrightarrow> (concat (map (\<lambda>v. [f v, g v]) as) @ rest) ! (i * 2) = f (as ! i)"
  "i < length as \<Longrightarrow> (concat (map (\<lambda>v. [f v, g v]) as) @ rest) ! Suc (i * 2) = g (as ! i)"
  by (induction as arbitrary: i) (auto simp: nth_Cons split: nat.splits)

lemma read_pairs_put:
  assumes "\<forall>a \<in> set as. sh_Hash a \<in> hash_Algorithms \<and> sh_Signature a \<in> sig_Algorithms"
    and "length pre = 6"
    and "(data :: bytes) = pre @ concat (map (\<lambda>v. [ucast (sh_Hash v), ucast (sh_Signature v)]) as) @ rest"
  shows "map (\<lambda>i. \<lparr>sh_Hash = ucast (data ! (6 + i * 2)),
                   sh_Signature = ucast (data ! (6 + i * 2 + 1))\<rparr>) [0..<length as] = as"
proof (rule nth_equalityI)
  show "length (map (\<lambda>i. \<lparr>sh_Hash = ucast (data ! (6 + i * 2)),
          sh_Signature = ucast (data ! (6 + i * 2 + 1))\<rparr>) [0..<length as]) = length as" by simp
next
  fix i assume "i < length (map (\<lambda>i. \<lparr>sh_Hash = ucast (data ! (6 + i * 2)),
          sh_Signature = ucast (data ! (6 + i * 2 + 1))\<rparr>) [0..<length as])"
  then have i: "i < length as" by simp
  let ?xs = "concat (map (\<lambda>v. [ucast (sh_Hash v), ucast (sh_Signature v)]) as) @ rest"
  have "data ! (6 + i * 2) = ?xs ! (i * 2)" "data ! (6 + i * 2 + 1) = ?xs ! Suc (i * 2)"
    unfolding assms(3) by (rule nth_offset, simp add: assms(2))+
  moreover have "sh_Hash (as ! i) \<in> hash_Algorithms" "sh_Signature (as ! i) \<in> sig_Algorithms"
    using i assms(1) by simp_all
  ultimately show "map (\<lambda>i. \<lparr>sh_Hash = ucast (data ! (6 + i * 2)),
        sh_Signature = ucast (data ! (6 + i * 2 + 1))\<rparr>) [0..<length as] ! i = as ! i"
    using i by (simp add: nth_pairs)
qed

lemma alpn_body_Nil [simp]: "alpn_body [] = []"
  and alpn_body_Cons: "alpn_body (p # ps) = put_be 1 (length p) @ p @ alpn_body ps"
  by (simp_all add: alpn_body_def)

lemma ext_body_less: "wf_Extension e \<Longrightarrow> length (ext_body e) < 65536"
  by (cases e) auto

lemma get_type_ext_enc: "get_uint16 (ext_enc e @ rest) = ext_TypeValue e"
  by (simp add: ext_enc_def)


context cryptobyte_spec
begin

lemma ServerName_Marshal_enc:
  assumes "wf_Extension (ServerName n)"
  shows "ServerName_Marshal cb n = Ok (ext_enc (ServerName n))"
proof -
  have 1: "cb_Bytes cb (cb_AddBytes cb n (cb_New cb)) = Ok n"
    using AddBytes [OF New] by simp
  have 2: "cb_Bytes cb (cb_AddUint16LengthPrefixed cb (cb_AddBytes cb n)
      (cb_AddUint8 cb 0 (cb_New cb))) = Ok ([0] @ put_be 2 (length n) @ n)"
    using AddUint16LengthPrefixed [where f = "cb_AddBytes cb n", OF AddUint8 [OF New] 1] assms by simp
  have 3: "cb_Bytes cb (cb_AddUint16LengthPrefixed cb
      (\<lambda>b. cb_AddUint16LengthPrefixed cb (cb_AddBytes cb n) (cb_AddUint8 cb 0 b)) (cb_New cb))
      = Ok (ext_body (ServerName n))"
    using AddUint16LengthPrefixed [where f = "\<lambda>b. cb_AddUint16LengthPrefixed cb (cb_AddBytes cb n)
      (cb_AddUint8 cb 0 b)", OF New 2] assms by (simp add: numeral_3_eq_3)
  show ?thesis unfolding ServerName_Marshal_def
    using AddUint16LengthPrefixed [where f = "cb_AddUint16LengthPrefixed cb (\<lambda>b.
      cb_AddUint16LengthPrefixed cb (cb_AddBytes cb n) (cb_AddUint8 cb 0 b))",
      OF AddUint16 [OF New] 3] assms by (simp add: ext_enc_def)
qed

lemma alpn_fold:
  "cb_Bytes cb b = Ok ys \<Longrightarrow> \<forall>p \<in> set ps. length p < 256 \<Longrightarrow>
   cb_Bytes cb (fold (\<lambda>p. cb_AddUint8LengthPrefixed cb (cb_AddBytes cb p)) ps b)
     = Ok (ys @ alpn_body ps)"
proof (induction ps arbitrary: b ys)
  case (Cons p ps)
  have "cb_Bytes cb (cb_AddUint8LengthPrefixed cb (cb_AddBytes cb p) b)
      = Ok (ys @ put_be 1 (length p) @ p)"
    using AddUint8LengthPrefixed [OF Cons.prems(1)] AddBytes [OF New, of p] Cons.prems(2) by simp
  from Cons.IH [OF this] Cons.prems(2) show ?case by (simp add: alpn_body_Cons)
qed simp

lemma ALPN_Marshal_enc:
  assumes "wf_Extension (ALPN ps)"
  shows "ALPN_Marshal cb ps = Ok (ext_enc (ALPN ps))"
proof -
  have 1: "cb_Bytes cb (fold (\<lambda>p. cb_AddUint8LengthPrefixed cb (cb_AddBytes cb p)) ps (cb_New cb))
      = Ok (alpn_body ps)"
    using alpn_fold [OF New] assms by simp
  have 2: "cb_Bytes cb (cb_AddUint16LengthPrefixed cb
      (fold (\<lambda>p. cb_AddUint8LengthPrefixed cb (cb_AddBytes cb p)) ps) (cb_New cb))
      = Ok (ext_body (ALPN ps))"
    using AddUint16LengthPrefixed [where f = "fold (\<lambda>p. cb_AddUint8LengthPrefixed cb
      (cb_AddBytes cb p)) ps", OF New 1] assms by simp
  show ?thesis unfolding ALPN_Marshal_def
    using AddUint16LengthPrefixed [where f = "cb_AddUint16LengthPrefixed cb (fold (\<lambda>p.
      cb_AddUint8LengthPrefixed cb (cb_AddBytes cb p)) ps)", OF AddUint16 [OF New] 2] assms
    by (simp add: ext_enc_def)
qed

lemma ConnectionID_Marshal_enc:
  assumes "wf_Extension (ConnectionID c)"
  shows "ConnectionID_Marshal cb c = Ok (ext_enc (ConnectionID c))"
proof -
  have 1: "cb_Bytes cb (cb_AddUint8LengthPrefixed cb (cb_AddBytes cb c) (cb_New cb))
      = Ok (ext_body (ConnectionID c))"
    using AddUint8LengthPrefixed [OF New] AddBytes [OF New, of c] assms by simp
  show ?thesis unfolding ConnectionID_Marshal_def
    using AddUint16LengthPrefixed [where f = "cb_AddUint8LengthPrefixed cb (cb_AddBytes cb c)",
      OF AddUint16 [OF New] 1] assms
    by (simp add: ext_enc_def)
qed

lemma Extension_Marshal_enc:
  assumes "wf_Extension e"
  shows "Extension_Marshal cb e = Ok (ext_enc e)"
proof (cases e)
  case (ServerName n)
  then show ?thesis using ServerName_Marshal_enc assms by simp
next
  case (ALPN ps)
  then show ?thesis using ALPN_Marshal_enc assms by simp
next
  case (ConnectionID c)
  then show ?thesis using ConnectionID_Marshal_enc assms by simp
next
  case (RenegotiationInfo r)
  then show ?thesis by (simp add: RenegotiationInfo_Marshal_def ext_enc_def put_uint16_def)
next
  case (UseExtendedMasterSecret s)
  then show ?thesis using assms
    by (simp add: UseExtendedMasterSecret_Marshal_def ext_enc_def put_uint16_def)
qed (use assms in \<open>simp_all add: ext_enc_def put_uint16_of_nat SupportedEllipticCurves_Marshal_def
  SupportedPointFormats_Marshal_def SupportedSignatureAlgorithms_Marshal_def UseSRTP_Marshal_def
  del: of_nat_add of_nat_mult of_nat_Suc\<close>)

lemma read_ext_type_enc:
  assumes "wf_Extension e"
  shows "read_ext_type cb (ext_enc e @ rest) = (ext_TypeValue e, ext_body e)"
  using readU16_put read16_put [OF ext_body_less [OF assms], of rest]
  by (simp add: read_ext_type_def ext_enc_def)

lemma ServerName_Unmarshal_enc:
  assumes "wf_Extension (ServerName n)"
  shows "ServerName_Unmarshal cb (ext_enc (ServerName n) @ rest) = Ok n"
proof -
  let ?l = "0 # put_be 2 (length n) @ n"
  have 1: "cb_ReadUint16LengthPrefixed cb (ext_body (ServerName n)) = Some (?l, [])"
    using read16_put [of ?l "[]"] assms by (simp add: numeral_3_eq_3)
  have 2: "cb_ReadUint16LengthPrefixed cb (put_be 2 (length n) @ n) = Some (n, [])"
    using read16_put [of n "[]"] assms by simp
  have "ServerName_loop cb (length ?l) ?l [] = Ok n"
    using assms by (simp add: ReadUint8 2)
  then show ?thesis
    using 1 unfolding ServerName_Unmarshal_def read_ext_type_enc [OF assms]
    by (simp del: ServerName_loop.simps)
qed

lemma ALPN_loop_enc:
  "\<forall>p \<in> set ps. p \<noteq> [] \<and> length p < 256 \<Longrightarrow> length (alpn_body ps) \<le> fuel \<Longrightarrow>
   ALPN_loop cb fuel (alpn_body ps) names = Ok (names @ ps)"
proof (induction ps arbitrary: fuel names)
  case Nil
  then show ?case by (cases fuel) auto
next
  case (Cons p ps)
  from Cons.prems(2) obtain k where k: "fuel = Suc k" "length (alpn_body ps) \<le> k"
    by (cases fuel) (auto simp: alpn_body_Cons)
  have "cb_ReadUint8LengthPrefixed cb (alpn_body (p # ps)) = Some (p, alpn_body ps)"
    using read8_put Cons.prems(1) by (simp add: alpn_body_Cons)
  moreover have "alpn_body (p # ps) \<noteq> []" by (simp add: alpn_body_Cons)
  ultimately show ?case using Cons.IH [OF _ k(2), of "names @ [p]"] Cons.prems(1) k(1) by simp
qed

lemma ALPN_Unmarshal_enc:
  assumes "wf_Extension (ALPN ps)"
  shows "ALPN_Unmarshal cb (ext_enc (ALPN ps) @ rest) = Ok ps"
proof -
  have 1: "cb_ReadUint16LengthPrefixed cb (ext_body (ALPN ps)) = Some (alpn_body ps, [])"
    using read16_put [of "alpn_body ps" "[]"] assms by simp
  have "alpn_body ps \<noteq> []" using assms by (cases ps) (auto simp: alpn_body_Cons)
  then show ?thesis
    using ALPN_loop_enc [of ps "length (alpn_body ps)" "[]"] assms 1
    unfolding ALPN_Unmarshal_def read_ext_type_enc [OF assms] by simp
qed

lemma ConnectionID_Unmarshal_enc:
  assumes "wf_Extension (ConnectionID c)"
  shows "ConnectionID_Unmarshal cb (ext_enc (ConnectionID c) @ rest) = Ok c"
  using read8_put [of c "[]"] assms
  unfolding ConnectionID_Unmarshal_def read_ext_type_enc [OF assms] by (simp add: CopyBytes)

end

lemma SupportedEllipticCurves_Unmarshal_enc:
  assumes "wf_Extension (SupportedEllipticCurves cs)"
  shows "SupportedEllipticCurves_Unmarshal (ext_enc (SupportedEllipticCurves cs) @ rest) = Ok cs"
proof -
  let ?pre = "put_uint16 SupportedEllipticCurvesTypeValue @ put_be 2 (2 + length cs * 2)
      @ put_be 2 (length cs * 2)"
  let ?data = "?pre @ concat (map put_uint16 cs) @ rest"
  have enc: "ext_enc (SupportedEllipticCurves cs) @ rest = ?data" by (simp add: ext_enc_def)
  have n: "unat (get_uint16 (drop 4 ?data) div 2) = length cs"
    using assms by (simp add: unat_div unat_get_uint16)
  have "filter (\<lambda>c. c \<in> elliptic_Curves) cs = cs"
    using assms by (auto simp: filter_id_conv)
  then show ?thesis
    using assms read_uint16s_put [of 6 ?pre cs rest] n
    unfolding SupportedEllipticCurves_Unmarshal_def enc by (cases cs) simp_all
qed

lemma UseSRTP_Unmarshal_enc:
  assumes "wf_Extension (UseSRTP cs)"
  shows "UseSRTP_Unmarshal (ext_enc (UseSRTP cs) @ rest) = Ok cs"
proof -
  let ?pre = "put_uint16 UseSRTPTypeValue @ put_be 2 (length (ext_body (UseSRTP cs)))
      @ put_be 2 (length cs * 2)"
  let ?data = "?pre @ concat (map put_uint16 cs) @ [0] @ rest"
  have enc: "ext_enc (UseSRTP cs) @ rest = ?data" by (simp add: ext_enc_def)
  have n: "unat (get_uint16 (drop 4 ?data) div 2) = length cs"
    using assms by (simp add: unat_div unat_get_uint16)
  have "filter (\<lambda>c. c \<in> srtpProtectionProfiles) cs = cs"
    using assms by (auto simp: filter_id_conv)
  then show ?thesis
    using assms read_uint16s_put [of 6 ?pre cs "[0] @ rest"] n
    unfolding UseSRTP_Unmarshal_def enc by simp
qed

lemma SupportedSignatureAlgorithms_Unmarshal_enc:
  assumes "wf_Extension (SupportedSignatureAlgorithms as)"
  shows "SupportedSignatureAlgorithms_Unmarshal (ext_enc (SupportedSignatureAlgorithms as) @ rest)
    = Ok as"
proof -
  let ?pre = "put_uint16 SupportedSignatureAlgorithmsTypeValue @ put_be 2 (2 + length as * 2)
      @ put_be 2 (length as * 2)"
  let ?data = "?pre @ concat (map (\<lambda>v. [ucast (sh_Hash v), ucast (sh_Signature v)]) as) @ rest"
  have enc: "ext_enc (SupportedSignatureAlgorithms as) @ rest = ?data" by (simp add: ext_enc_def)
  have n: "unat (get_uint16 (drop 4 ?data) div 2) = length as"
    using assms by (simp add: unat_div unat_get_uint16)
  have m: "map (\<lambda>i. \<lparr>sh_Hash = ucast (?data ! (6 + i * 2)),
      sh_Signature = ucast (?data ! (6 + i * 2 + 1))\<rparr>) [0..<length as] = as"
    by (rule read_pairs_put [OF _ _ refl]) (use assms in simp_all)
  have "filter (\<lambda>a. sh_Hash a \<in> hash_Algorithms \<and> sh_Signature a \<in> sig_Algorithms) as = as"
    using assms by (auto simp: filter_id_conv)
  then show ?thesis
    using assms unfolding SupportedSignatureAlgorithms_Unmarshal_def enc Let_def n m
    by (cases as) simp_all
qed

lemma SupportedPointFormats_Unmarshal_enc:
  assumes "wf_Extension (SupportedPointFormats ps)"
  shows "SupportedPointFormats_Unmarshal (ext_enc (SupportedPointFormats ps) @ rest) = Ok ps"
proof -
  let ?pre = "put_uint16 SupportedPointFormatsTypeValue @ put_be 2 (Suc (length ps))
      @ [word_of_nat (length ps)]"
  let ?data = "?pre @ ps @ rest"
  have enc: "ext_enc (SupportedPointFormats ps) @ rest = ?data" by (simp add: ext_enc_def)
  have n: "unat (?data ! 4) = length ps"
    using assms by (simp add: nth_append unat_byte_of_nat)
  have m: "map (\<lambda>i. ?data ! (5 + i)) [0..<length ps] = ps"
    by (rule nth_equalityI) (auto simp: nth_append)
  have "filter (\<lambda>p. p = 0) ps = ps"
    using assms by (auto simp: filter_id_conv)
  then show ?thesis
    using assms unfolding SupportedPointFormats_Unmarshal_def enc Let_def n m
    by (cases ps) simp_all
qed

lemma UseExtendedMasterSecret_Unmarshal_enc:
  "wf_Extension (UseExtendedMasterSecret s) \<Longrightarrow>
   UseExtendedMasterSecret_Unmarshal (ext_enc (UseExtendedMasterSecret s) @ rest) = Ok s"
  by (simp add: UseExtendedMasterSecret_Unmarshal_def ext_enc_def)

lemma RenegotiationInfo_Unmarshal_enc:
  "RenegotiationInfo_Unmarshal (ext_enc (RenegotiationInfo r) @ rest) = Ok r"
  by (simp add: RenegotiationInfo_Unmarshal_def ext_enc_def nth_append)

lemma extension_Unmarshal_loop_step:
  assumes "offset + 4 \<le> length buf" and "unmarshalOne cb (drop offset buf) = Ok e"
    and "offset + (4 + unat (get_uint16 (drop (offset + 2) buf))) = offset'"
  shows "extension_Unmarshal_loop cb buf offset es = extension_Unmarshal_loop cb buf offset' (es @ e)"
  using assms by (subst extension_Unmarshal_loop.simps) simp

context cryptobyte_spec
begin

lemma unmarshalOne_enc:
  assumes "wf_Extension e"
  shows "unmarshalOne cb (ext_enc e @ rest) = Ok [e]"
  using assms unfolding unmarshalOne_def Let_def get_type_ext_enc
  by (cases e)
     (simp_all add: ServerName_Unmarshal_enc ALPN_Unmarshal_enc ConnectionID_Unmarshal_enc
      SupportedEllipticCurves_Unmarshal_enc UseSRTP_Unmarshal_enc
      SupportedSignatureAlgorithms_Unmarshal_enc SupportedPointFormats_Unmarshal_enc
      UseExtendedMasterSecret_Unmarshal_enc RenegotiationInfo_Unmarshal_enc
      del: wf_Extension.simps)

lemma extension_Unmarshal_loop_enc:
  "list_all wf_Extension es \<Longrightarrow>
   extension_Unmarshal_loop cb (pre @ concat (map ext_enc es)) (length pre) acc = Ok (acc @ es)"
proof (induction es arbitrary: pre acc)
  case Nil
  then show ?case by (simp add: extension_Unmarshal_loop.simps)
next
  case (Cons e es)
  let ?buf = "pre @ concat (map ext_enc (e # es))"
  have wf: "wf_Extension e" using Cons.prems by simp
  have one: "unmarshalOne cb (drop (length pre) ?buf) = Ok [e]"
    using unmarshalOne_enc [OF wf] by simp
  have "get_uint16 (drop (length pre + 2) ?buf) = word_of_nat (length (ext_body e))"
    using ext_body_less [OF wf] by (simp add: ext_enc_def get_uint16_def)
  then have adv: "length pre + (4 + unat (get_uint16 (drop (length pre + 2) ?buf)))
      = length (pre @ ext_enc e)"
    using ext_body_less [OF wf] by (simp add: ext_enc_def unat_of_nat)
  have len: "length pre + 4 \<le> length ?buf" by (simp add: ext_enc_def)
  have "extension_Unmarshal_loop cb ?buf (length pre) acc
      = extension_Unmarshal_loop cb ?buf (length (pre @ ext_enc e)) (acc @ [e])"
    by (rule extension_Unmarshal_loop_step [OF len one adv])
  then show ?case using Cons.IH [of "pre @ ext_enc e" "acc @ [e]"] Cons.prems by simp
qed

lemma extension_Marshal_enc:
  assumes "list_all wf_Extension es"
  shows "extension_Marshal cb es = Ok (put_uint16 (word_of_nat (length (concat (map ext_enc es))))
    @ concat (map ext_enc es))"
proof -
  have "map_res (Extension_Marshal cb) es = Ok (map ext_enc es)"
    using assms unfolding map_res_Ok_iff
    by (induction es) (auto simp: Extension_Marshal_enc)
  then show ?thesis by (simp add: extension_Marshal_def)
qed

lemma extension_list_roundtrip:
  assumes "list_all wf_Extension es" and "length (concat (map ext_enc es)) < 65536"
  shows "bind (extension_Marshal cb es) (extension_Unmarshal cb) = Ok es"
  using assms extension_Unmarshal_loop_enc [OF assms(1), of "put_uint16 (word_of_nat
    (length (concat (map ext_enc es))))" "[]"]
  by (simp add: extension_Marshal_enc extension_Unmarshal_def unat_of_nat
      del: length_concat)

lemma ServerName_loop_no_panic:
  "length nameList \<le> fuel \<Longrightarrow> ServerName_loop cb fuel nameList name \<noteq> Panic"
proof (induction fuel arbitrary: nameList name)
  case (Suc fuel)
  have "x = Some (s, r) \<Longrightarrow> nameList = t # rest \<Longrightarrow> x = cb_ReadUint16LengthPrefixed cb rest \<Longrightarrow>
      length r \<le> fuel" for x s r t rest
    using Suc.prems by (auto simp: ReadUint16LengthPrefixed split: if_splits)
  then show ?case using Suc.IH
    by (auto simp: ReadUint8 split: list.splits option.splits)
qed simp

lemma ALPN_loop_no_panic:
  "length protoList \<le> fuel \<Longrightarrow> ALPN_loop cb fuel protoList names \<noteq> Panic"
proof (induction fuel arbitrary: protoList names)
  case (Suc fuel)
  have "cb_ReadUint8LengthPrefixed cb protoList = Some (s, r) \<Longrightarrow> length r \<le> fuel" for s r
    using ReadUint8LengthPrefixed_shorter [of protoList s r] Suc.prems by simp
  then show ?case using Suc.IH by (auto split: option.splits)
qed simp

lemma unmarshalOne_no_panic: "unmarshalOne cb data \<noteq> Panic"
  by (auto simp: unmarshalOne_def Let_def bind_eq_Panic ServerName_Unmarshal_def ALPN_Unmarshal_def
      ConnectionID_Unmarshal_def SupportedEllipticCurves_Unmarshal_def
      SupportedPointFormats_Unmarshal_def SupportedSignatureAlgorithms_Unmarshal_def
      UseSRTP_Unmarshal_def UseExtendedMasterSecret_Unmarshal_def RenegotiationInfo_Unmarshal_def
      ServerName_loop_no_panic ALPN_loop_no_panic split: option.splits prod.splits if_splits)

lemma extension_Unmarshal_loop_no_panic: "extension_Unmarshal_loop cb buf offset es \<noteq> Panic"
proof (induction "length buf - offset" arbitrary: offset es rule: less_induct)
  case less
  have "offset < length buf \<Longrightarrow> extension_Unmarshal_loop cb buf
      (offset + (4 + unat (get_uint16 (drop (offset + 2) buf)))) es' \<noteq> Panic" for es'
    by (rule less) simp
  then show ?case
    by (subst extension_Unmarshal_loop.simps) (auto simp: bind_eq_Panic unmarshalOne_no_panic)
qed

end

lemma extension_Unmarshal_no_panic:
  "cryptobyte_spec cb \<Longrightarrow> extension_Unmarshal cb buf \<noteq> Panic"
  by (simp add: extension_Unmarshal_def cryptobyte_spec.extension_Unmarshal_loop_no_panic)

subsection \<open>Protocol selection is the first of ours the peer has\<close>

lemma ALPN_inner_iff: "ALPN_inner s cs \<longleftrightarrow> s \<in> set cs"
  by (induction cs) auto

lemma ALPN_outer_find:
  "ALPN_outer ss peer = (case List.find (\<lambda>s. s \<in> set peer) ss of
     Some s \<Rightarrow> Ok s | None \<Rightarrow> Err (Config ErrALPNNoAppProto))"
  by (induction ss) (auto simp: ALPN_inner_iff)

end
