(* ===== verification/Handshake_Messages.thy ===== *)
theory Handshake_Messages
  imports Internal_Util Protocol_Content Extensions
begin

section \<open>Package handshake: the messages\<close>

text \<open>
  \<^verbatim>\<open>pkg/protocol/handshake\<close>: the handshake header, the random value, the cipher suite list and
  one record with its codec per message. A \<^verbatim>\<open>[]byte\<close> field for which the code tests \<^verbatim>\<open>nil\<close> is an
  option. The field \<^verbatim>\<open>KeyExchangeAlgorithm\<close> of the two key exchange messages only carries an
  argument into \<^verbatim>\<open>Unmarshal\<close> and is an argument here. A time is its Unix seconds, the 28 random
  bytes a list of that length.

  The lemmas give the round trip of every codec on the messages a connection makes, and say when
  a reader panics: only the two key exchange readers do, and \<open>ClientKeyExchange_panics_iff\<close> and
  \<open>ServerKeyExchange_panics_iff\<close> give the inputs.
\<close>

subsection \<open>Key exchange algorithms\<close>

type_synonym KeyExchangeAlgorithm = "64 word"

abbreviation (input) KeyExchangeAlgorithmNone :: KeyExchangeAlgorithm where "KeyExchangeAlgorithmNone \<equiv> 0"
abbreviation (input) KeyExchangeAlgorithmPsk :: KeyExchangeAlgorithm where "KeyExchangeAlgorithmPsk \<equiv> 2"
abbreviation (input) KeyExchangeAlgorithmEcdhe :: KeyExchangeAlgorithm where "KeyExchangeAlgorithmEcdhe \<equiv> 4"

definition kx_Has :: "KeyExchangeAlgorithm \<Rightarrow> KeyExchangeAlgorithm \<Rightarrow> bool" where
  "kx_Has a v \<longleftrightarrow> (a AND v) = v"

subsection \<open>Header, random and cipher suites\<close>

abbreviation (input) TypeHelloRequest :: byte where "TypeHelloRequest \<equiv> 0"
abbreviation (input) TypeClientHello :: byte where "TypeClientHello \<equiv> 1"
abbreviation (input) TypeServerHello :: byte where "TypeServerHello \<equiv> 2"
abbreviation (input) TypeHelloVerifyRequest :: byte where "TypeHelloVerifyRequest \<equiv> 3"
abbreviation (input) TypeCertificate :: byte where "TypeCertificate \<equiv> 11"
abbreviation (input) TypeServerKeyExchange :: byte where "TypeServerKeyExchange \<equiv> 12"
abbreviation (input) TypeCertificateRequest :: byte where "TypeCertificateRequest \<equiv> 13"
abbreviation (input) TypeServerHelloDone :: byte where "TypeServerHelloDone \<equiv> 14"
abbreviation (input) TypeCertificateVerify :: byte where "TypeCertificateVerify \<equiv> 15"
abbreviation (input) TypeClientKeyExchange :: byte where "TypeClientKeyExchange \<equiv> 16"
abbreviation (input) TypeFinished :: byte where "TypeFinished \<equiv> 20"

abbreviation (input) HeaderLength :: nat where "HeaderLength \<equiv> 12"

record hs_Header =
  hs_Type :: byte
  hs_Length :: uint32
  hs_MessageSequence :: uint16
  hs_FragmentOffset :: uint32
  hs_FragmentLength :: uint32

definition hs_Header_Marshal :: "hs_Header \<Rightarrow> bytes res" where
  "hs_Header_Marshal h =
     Ok (hs_Type h # PutBigEndianUint24 (hs_Length h) @ put_uint16 (hs_MessageSequence h)
         @ PutBigEndianUint24 (hs_FragmentOffset h) @ PutBigEndianUint24 (hs_FragmentLength h))"

definition hs_Header_Unmarshal :: "bytes \<Rightarrow> hs_Header res" where
  "hs_Header_Unmarshal data =
     (if length data < HeaderLength then Err (Codec ErrBufferTooSmall)
      else Ok \<lparr>hs_Type = data ! 0,
               hs_Length = BigEndianUint24 (drop 1 data),
               hs_MessageSequence = get_uint16 (drop 4 data),
               hs_FragmentOffset = BigEndianUint24 (drop 6 data),
               hs_FragmentLength = BigEndianUint24 (drop 9 data)\<rparr>)"

record Random =
  rd_GMTUnixTime :: int
  rd_RandomBytes :: bytes

abbreviation (input) RandomLength :: nat where "RandomLength \<equiv> 32"

definition Random_MarshalFixed :: "Random \<Rightarrow> bytes" where
  "Random_MarshalFixed r = put_uint32 (word_of_int (rd_GMTUnixTime r)) @ rd_RandomBytes r"

definition Random_UnmarshalFixed :: "bytes \<Rightarrow> Random" where
  "Random_UnmarshalFixed data =
     \<lparr>rd_GMTUnixTime = int (unat (get_uint32 data)), rd_RandomBytes = drop 4 data\<rparr>"

text \<open>\<open>now\<close> and \<open>rnd\<close> are the clock and the outcome of \<^verbatim>\<open>rand.Read\<close> on 28 bytes.\<close>

definition Random_Populate :: "int \<Rightarrow> bytes res \<Rightarrow> Random res" where
  "Random_Populate now rnd =
     bind rnd (\<lambda>tmp. Ok \<lparr>rd_GMTUnixTime = now, rd_RandomBytes = take 28 tmp\<rparr>)"

definition decodeCipherSuiteIDs :: "bytes \<Rightarrow> uint16 list res" where
  "decodeCipherSuiteIDs buf =
     (if length buf < 2 then Err (Codec ErrBufferTooSmall)
      else map_res (\<lambda>i. if length buf < i * 2 + 4 then Err (Codec ErrBufferTooSmall)
                        else Ok (get_uint16 (drop (i * 2 + 2) buf)))
             [0..<unat (get_uint16 buf) div 2])"

definition encodeCipherSuiteIDs :: "uint16 list \<Rightarrow> bytes" where
  "encodeCipherSuiteIDs ids =
     put_uint16 (word_of_nat (length ids * 2)) @ concat (map put_uint16 ids)"

subsection \<open>Hello messages\<close>

record MessageClientHello =
  ch_Version :: Version
  ch_Random :: Random
  ch_Cookie :: bytes
  ch_SessionID :: bytes
  ch_CipherSuiteIDs :: "uint16 list"
  ch_CompressionMethods :: "CompressionMethod list"
  ch_Extensions :: "Extension list"

definition ClientHello_Marshal :: "'b cryptobyte \<Rightarrow> MessageClientHello \<Rightarrow> bytes res" where
  "ClientHello_Marshal cb m =
     (if length (ch_Cookie m) > 255 then Err (Codec ErrCookieTooLong)
      else bind (extension_Marshal cb (ch_Extensions m)) (\<lambda>extensions.
        Ok ([v_Major (ch_Version m), v_Minor (ch_Version m)]
            @ Random_MarshalFixed (ch_Random m)
            @ word_of_nat (length (ch_SessionID m)) # ch_SessionID m
            @ word_of_nat (length (ch_Cookie m)) # ch_Cookie m
            @ encodeCipherSuiteIDs (ch_CipherSuiteIDs m)
            @ EncodeCompressionMethods (ch_CompressionMethods m)
            @ extensions)))"

text \<open>
  A one byte length at \<open>off - 1\<close> and the bytes after it, with the two bound checks the hello
  readers make; the result carries the offset behind the bytes.
\<close>

definition read_opaque8 :: "bytes \<Rightarrow> nat \<Rightarrow> (bytes \<times> nat) res" where
  "read_opaque8 data off =
     (if length data \<le> off then Err (Codec ErrBufferTooSmall)
      else let n = unat (data ! (off - 1)) in
        if length data \<le> off + n then Err (Codec ErrBufferTooSmall)
        else Ok (take n (drop off data), off + n))"

definition ClientHello_Unmarshal :: "'b cryptobyte \<Rightarrow> bytes \<Rightarrow> MessageClientHello res" where
  "ClientHello_Unmarshal cb data =
     (if length data < 2 + RandomLength then Err (Codec ErrBufferTooSmall)
      else bind (read_opaque8 data 35) (\<lambda>(sid, off1).
        bind (read_opaque8 data (off1 + 1)) (\<lambda>(cookie, off2).
          if length data < off2 then Err (Codec ErrBufferTooSmall)
          else bind (decodeCipherSuiteIDs (drop off2 data)) (\<lambda>cipherSuiteIDs.
            if length data < off2 + 2 then Err (Codec ErrBufferTooSmall)
            else let off3 = off2 + (unat (get_uint16 (drop off2 data)) + 2) in
              if length data < off3 then Err (Codec ErrBufferTooSmall)
              else bind (DecodeCompressionMethods (drop off3 data)) (\<lambda>compressionMethods.
                if length data < off3 then Err (Codec ErrBufferTooSmall)
                else bind (idx data off3) (\<lambda>n.
                  bind (slice_from data (off3 + (unat n + 1))) (\<lambda>rest.
                    bind (extension_Unmarshal cb rest) (\<lambda>extensions.
                      Ok \<lparr>ch_Version = \<lparr>v_Major = data ! 0, v_Minor = data ! 1\<rparr>,
                          ch_Random = Random_UnmarshalFixed (take RandomLength (drop 2 data)),
                          ch_Cookie = cookie, ch_SessionID = sid,
                          ch_CipherSuiteIDs = cipherSuiteIDs,
                          ch_CompressionMethods = compressionMethods,
                          ch_Extensions = extensions\<rparr>))))))))"

record MessageHelloVerifyRequest =
  hvr_Version :: Version
  hvr_Cookie :: bytes

definition HelloVerifyRequest_Marshal :: "MessageHelloVerifyRequest \<Rightarrow> bytes res" where
  "HelloVerifyRequest_Marshal m =
     (if length (hvr_Cookie m) > 255 then Err (Codec ErrCookieTooLong)
      else Ok ([v_Major (hvr_Version m), v_Minor (hvr_Version m),
                word_of_nat (length (hvr_Cookie m))] @ hvr_Cookie m))"

definition HelloVerifyRequest_Unmarshal :: "bytes \<Rightarrow> MessageHelloVerifyRequest res" where
  "HelloVerifyRequest_Unmarshal data =
     (if length data < 3 then Err (Codec ErrBufferTooSmall)
      else let cookieLength = unat (data ! 2) in
        if length data < cookieLength + 3 then Err (Codec ErrBufferTooSmall)
        else Ok \<lparr>hvr_Version = \<lparr>v_Major = data ! 0, v_Minor = data ! 1\<rparr>,
                 hvr_Cookie = take cookieLength (drop 3 data)\<rparr>)"

record MessageServerHello =
  svh_Version :: Version
  svh_Random :: Random
  svh_SessionID :: bytes
  svh_CipherSuiteID :: "uint16 option"
  svh_CompressionMethod :: "CompressionMethod option"
  svh_Extensions :: "Extension list"

definition ServerHello_Marshal :: "'b cryptobyte \<Rightarrow> MessageServerHello \<Rightarrow> bytes res" where
  "ServerHello_Marshal cb m =
     (case svh_CipherSuiteID m of
        None \<Rightarrow> Err (Codec ErrCipherSuiteUnset)
      | Some cipherSuiteID \<Rightarrow>
        (case svh_CompressionMethod m of
           None \<Rightarrow> Err (Codec ErrCompressionMethodUnset)
         | Some compressionMethod \<Rightarrow>
           bind (extension_Marshal cb (svh_Extensions m)) (\<lambda>extensions.
             Ok ([v_Major (svh_Version m), v_Minor (svh_Version m)]
                 @ Random_MarshalFixed (svh_Random m)
                 @ word_of_nat (length (svh_SessionID m)) # svh_SessionID m
                 @ put_uint16 cipherSuiteID @ cm_ID compressionMethod # extensions))))"

definition ServerHello_Unmarshal :: "'b cryptobyte \<Rightarrow> bytes \<Rightarrow> MessageServerHello res" where
  "ServerHello_Unmarshal cb data =
     (if length data < 2 + RandomLength then Err (Codec ErrBufferTooSmall)
      else bind (read_opaque8 data 35) (\<lambda>(sid, off1).
        if length data < off1 + 2 then Err (Codec ErrBufferTooSmall)
        else let cipherSuiteID = get_uint16 (drop off1 data); off2 = off1 + 2 in
          if length data \<le> off2 then Err (Codec ErrBufferTooSmall)
          else (case CompressionMethods (data ! off2) of
            None \<Rightarrow> Err (Codec ErrInvalidCompressionMethod)
          | Some compressionMethod \<Rightarrow>
            bind (if length data \<le> off2 + 1 then Ok []
                  else extension_Unmarshal cb (drop (off2 + 1) data)) (\<lambda>extensions.
              Ok \<lparr>svh_Version = \<lparr>v_Major = data ! 0, v_Minor = data ! 1\<rparr>,
                  svh_Random = Random_UnmarshalFixed (take RandomLength (drop 2 data)),
                  svh_SessionID = sid, svh_CipherSuiteID = Some cipherSuiteID,
                  svh_CompressionMethod = Some compressionMethod,
                  svh_Extensions = extensions\<rparr>))))"

subsection \<open>Certificate messages\<close>

definition MessageCertificate_Marshal :: "bytes list \<Rightarrow> bytes res" where
  "MessageCertificate_Marshal certificate =
     (let body = concat (map (\<lambda>r. PutBigEndianUint24 (word_of_nat (length r)) @ r) certificate) in
      Ok (PutBigEndianUint24 (word_of_nat (length body)) @ body))"

function MessageCertificate_loop :: "bytes \<Rightarrow> nat \<Rightarrow> bytes list \<Rightarrow> bytes list res" where
  "MessageCertificate_loop data offset certificate =
     (if offset < length data then
        let certificateLen = unat (BigEndianUint24 (drop offset data)); off = offset + 3 in
        if off + certificateLen > length data then Err (Codec ErrLengthMismatch)
        else MessageCertificate_loop data (off + certificateLen)
               (certificate @ [take certificateLen (drop off data)])
      else Ok certificate)"
  by pat_completeness auto
termination by (relation "measure (\<lambda>(data, offset, c). length data - offset)") auto

declare MessageCertificate_loop.simps [simp del]

definition MessageCertificate_Unmarshal :: "bytes \<Rightarrow> bytes list res" where
  "MessageCertificate_Unmarshal data =
     (if length data < 3 then Err (Codec ErrBufferTooSmall)
      else if unat (BigEndianUint24 data) + 3 \<noteq> length data then Err (Codec ErrLengthMismatch)
      else MessageCertificate_loop data 3 [])"

record MessageCertificateRequest =
  cr_CertificateTypes :: "byte list"
  cr_SignatureHashAlgorithms :: "Algorithm list"
  cr_CertificateAuthoritiesNames :: "bytes list"

definition CertificateRequest_Marshal :: "MessageCertificateRequest \<Rightarrow> bytes res" where
  "CertificateRequest_Marshal m =
     (let casLength = sum_list (map (\<lambda>ca. length ca + 2) (cr_CertificateAuthoritiesNames m)) in
      Ok (word_of_nat (length (cr_CertificateTypes m)) # cr_CertificateTypes m
          @ put_uint16 (word_of_nat (length (cr_SignatureHashAlgorithms m) * 2))
          @ concat (map (\<lambda>v. [ucast (sh_Hash v), ucast (sh_Signature v)])
              (cr_SignatureHashAlgorithms m))
          @ put_uint16 (word_of_nat casLength)
          @ (if casLength > 0
             then concat (map (\<lambda>ca. put_uint16 (word_of_nat (length ca)) @ ca)
                    (cr_CertificateAuthoritiesNames m))
             else [])))"

text \<open>The loop \<^verbatim>\<open>for i := 0; i < n; i += 2\<close> over the signature algorithms at \<open>offset\<close>.\<close>

function CertificateRequest_sigs :: "bytes \<Rightarrow> nat \<Rightarrow> nat \<Rightarrow> nat \<Rightarrow> Algorithm list \<Rightarrow> Algorithm list res" where
  "CertificateRequest_sigs data offset n i acc =
     (if i < n then
        if length data < offset + i + 2 then Err (Codec ErrBufferTooSmall)
        else let h = ucast (data ! (offset + i)); s = ucast (data ! (offset + i + 1)) in
          CertificateRequest_sigs data offset n (i + 2)
            (if h \<notin> hash_Algorithms then acc
             else if s \<notin> sig_Algorithms then acc
             else acc @ [\<lparr>sh_Hash = h, sh_Signature = s\<rparr>])
      else Ok acc)"
  by pat_completeness auto
termination by (relation "measure (\<lambda>(data, offset, n, i, acc). n - i)") auto

function CertificateRequest_cas :: "bytes \<Rightarrow> bytes list \<Rightarrow> bytes list res" where
  "CertificateRequest_cas cas acc =
     (if length cas > 0 then
        if length cas < 2 then Err (Codec ErrBufferTooSmall)
        else let caLen = unat (get_uint16 cas); rest = drop 2 cas in
          if length rest < caLen then Err (Codec ErrBufferTooSmall)
          else CertificateRequest_cas (drop caLen rest) (acc @ [take caLen rest])
      else Ok acc)"
  by pat_completeness auto
termination by (relation "measure (\<lambda>(cas, acc). length cas)") auto

declare CertificateRequest_sigs.simps [simp del] CertificateRequest_cas.simps [simp del]

definition CertificateRequest_Unmarshal :: "bytes \<Rightarrow> MessageCertificateRequest res" where
  "CertificateRequest_Unmarshal data =
     (if length data < 5 then Err (Codec ErrBufferTooSmall)
      else let certificateTypesLength = unat (data ! 0) in
        if 1 + certificateTypesLength > length data then Err (Codec ErrBufferTooSmall)
        else let types = filter (\<lambda>t. t \<in> clientcertificate_Types)
                    (map (\<lambda>i. data ! (1 + i)) [0..<certificateTypesLength]);
                 off1 = 1 + certificateTypesLength in
          if length data < off1 + 2 then Err (Codec ErrBufferTooSmall)
          else let sigLength = unat (get_uint16 (drop off1 data)); off2 = off1 + 2 in
            if off2 + sigLength > length data then Err (Codec ErrBufferTooSmall)
            else bind (CertificateRequest_sigs data off2 sigLength 0 []) (\<lambda>sigs.
              let off3 = off2 + sigLength in
              if length data < off3 + 2 then Err (Codec ErrBufferTooSmall)
              else let casLength = unat (get_uint16 (drop off3 data)); off4 = off3 + 2 in
                if off4 + casLength > length data then Err (Codec ErrBufferTooSmall)
                else bind (CertificateRequest_cas (take casLength (drop off4 data)) []) (\<lambda>cas.
                  Ok \<lparr>cr_CertificateTypes = types, cr_SignatureHashAlgorithms = sigs,
                      cr_CertificateAuthoritiesNames = cas\<rparr>)))"

record MessageCertificateVerify =
  cv_HashAlgorithm :: uint16
  cv_SignatureAlgorithm :: uint16
  cv_Signature :: bytes

definition CertificateVerify_Marshal :: "MessageCertificateVerify \<Rightarrow> bytes res" where
  "CertificateVerify_Marshal m =
     Ok ([ucast (cv_HashAlgorithm m), ucast (cv_SignatureAlgorithm m)]
         @ put_uint16 (word_of_nat (length (cv_Signature m))) @ cv_Signature m)"

definition CertificateVerify_Unmarshal :: "bytes \<Rightarrow> MessageCertificateVerify res" where
  "CertificateVerify_Unmarshal data =
     (if length data < 4 then Err (Codec ErrBufferTooSmall)
      else let h = ucast (data ! 0); s = ucast (data ! 1) in
        if h \<notin> hash_Algorithms then Err (Codec ErrInvalidHashAlgorithm)
        else if s \<notin> sig_Algorithms then Err (Codec ErrInvalidSignatureAlgorithm)
        else if unat (get_uint16 (drop 2 data)) + 4 \<noteq> length data
        then Err (Codec ErrBufferTooSmall)
        else Ok \<lparr>cv_HashAlgorithm = h, cv_SignatureAlgorithm = s, cv_Signature = drop 4 data\<rparr>)"

subsection \<open>Key exchange messages\<close>

record MessageClientKeyExchange =
  ck_IdentityHint :: "bytes option"
  ck_PublicKey :: "bytes option"

definition ClientKeyExchange_Marshal :: "MessageClientKeyExchange \<Rightarrow> bytes res" where
  "ClientKeyExchange_Marshal m =
     (if ck_IdentityHint m = None \<and> ck_PublicKey m = None
      then Err (Codec ErrInvalidClientKeyExchange)
      else Ok ((case ck_IdentityHint m of None \<Rightarrow> []
                | Some hint \<Rightarrow> put_uint16 (word_of_nat (length hint)) @ hint)
             @ (case ck_PublicKey m of None \<Rightarrow> []
                | Some key \<Rightarrow> word_of_nat (length key) # key)))"

definition ClientKeyExchange_Unmarshal ::
  "KeyExchangeAlgorithm \<Rightarrow> bytes \<Rightarrow> MessageClientKeyExchange res" where
  "ClientKeyExchange_Unmarshal kx data =
     (if length data < 2 then Err (Codec ErrBufferTooSmall)
      else if kx = KeyExchangeAlgorithmNone then Err (Codec ErrCipherSuiteUnset)
      else bind (if kx_Has kx KeyExchangeAlgorithmPsk then
                   let pskLength = unat (get_uint16 data) in
                   if pskLength > length data - 2 then Err (Codec ErrBufferTooSmall)
                   else Ok (Some (take pskLength (drop 2 data)), pskLength + 2)
                 else Ok (None, 0)) (\<lambda>(hint, offset).
        if kx_Has kx KeyExchangeAlgorithmEcdhe then
          bind (idx data offset) (\<lambda>b.
            let publicKeyLength = unat b in
            if int publicKeyLength > int (length data) - 1 - int offset
            then Err (Codec ErrBufferTooSmall)
            else Ok \<lparr>ck_IdentityHint = hint, ck_PublicKey = Some (drop (offset + 1) data)\<rparr>)
        else Ok \<lparr>ck_IdentityHint = hint, ck_PublicKey = None\<rparr>))"

record MessageServerKeyExchange =
  sk_IdentityHint :: "bytes option"
  sk_EllipticCurveType :: byte
  sk_NamedCurve :: uint16
  sk_PublicKey :: bytes
  sk_HashAlgorithm :: uint16
  sk_SignatureAlgorithm :: uint16
  sk_Signature :: bytes

definition ServerKeyExchange_Marshal :: "MessageServerKeyExchange \<Rightarrow> bytes res" where
  "ServerKeyExchange_Marshal m =
     (let out = (case sk_IdentityHint m of None \<Rightarrow> []
                 | Some hint \<Rightarrow> put_uint16 (word_of_nat (length hint)) @ hint) in
      if sk_EllipticCurveType m = 0 \<or> length (sk_PublicKey m) = 0 then Ok out
      else let out = out @ sk_EllipticCurveType m # put_uint16 (sk_NamedCurve m)
                  @ word_of_nat (length (sk_PublicKey m)) # sk_PublicKey m in
        if sk_HashAlgorithm m \<noteq> hash_None \<and> length (sk_Signature m) = 0
        then Err (Codec ErrInvalidHashAlgorithm)
        else if sk_HashAlgorithm m = hash_None \<and> length (sk_Signature m) > 0
        then Err (Codec ErrInvalidHashAlgorithm)
        else if sk_SignatureAlgorithm m = sig_Anonymous
             \<and> (sk_HashAlgorithm m \<noteq> hash_None \<or> length (sk_Signature m) > 0)
        then Err (Codec ErrInvalidSignatureAlgorithm)
        else if sk_SignatureAlgorithm m = sig_Anonymous then Ok out
        else Ok (out @ [ucast (sk_HashAlgorithm m), ucast (sk_SignatureAlgorithm m)]
               @ put_uint16 (word_of_nat (length (sk_Signature m))) @ sk_Signature m))"

text \<open>
  The elliptic curve part of \<^verbatim>\<open>MessageServerKeyExchange.Unmarshal\<close>, on what is left of the data
  behind the hint.
\<close>

definition ServerKeyExchange_ecdhe ::
  "bytes option \<Rightarrow> bytes \<Rightarrow> MessageServerKeyExchange res" where
  "ServerKeyExchange_ecdhe hint data =
     bind (idx data 0) (\<lambda>ct.
       if ct \<notin> elliptic_CurveTypes then Err (Codec ErrInvalidEllipticCurveType)
       else if length (drop 1 data) < 2 then Err (Codec ErrBufferTooSmall)
       else let curve = get_uint16 (drop 1 data) in
         if curve \<notin> elliptic_Curves then Err (Codec ErrInvalidNamedCurve)
         else if length data < 4 then Err (Codec ErrBufferTooSmall)
         else let offset = 4 + unat (data ! 3) in
           if length data < offset then Err (Codec ErrBufferTooSmall)
           else let m = \<lparr>sk_IdentityHint = hint, sk_EllipticCurveType = ct, sk_NamedCurve = curve,
                    sk_PublicKey = take (unat (data ! 3)) (drop 4 data), sk_HashAlgorithm = 0,
                    sk_SignatureAlgorithm = 0, sk_Signature = []\<rparr> in
             if length data = offset then Ok m
             else let h = ucast (data ! offset) in
               if h \<notin> hash_Algorithms then Err (Codec ErrInvalidHashAlgorithm)
               else if length data \<le> offset + 1 then Err (Codec ErrBufferTooSmall)
               else let s = ucast (data ! (offset + 1)) in
                 if s \<notin> sig_Algorithms then Err (Codec ErrInvalidSignatureAlgorithm)
                 else if length data < offset + 4 then Err (Codec ErrBufferTooSmall)
                 else let n = unat (get_uint16 (drop (offset + 2) data)) in
                   if length data < offset + 4 + n then Err (Codec ErrBufferTooSmall)
                   else Ok (m\<lparr>sk_HashAlgorithm := h, sk_SignatureAlgorithm := s,
                              sk_Signature := take n (drop (offset + 4) data)\<rparr>))"

text \<open>The slice bound \<^verbatim>\<open>2+hintLength\<close> is computed in \<^verbatim>\<open>uint16\<close>.\<close>

definition ServerKeyExchange_Unmarshal ::
  "KeyExchangeAlgorithm \<Rightarrow> bytes \<Rightarrow> MessageServerKeyExchange res" where
  "ServerKeyExchange_Unmarshal kx data =
     (if length data < 2 then Err (Codec ErrBufferTooSmall)
      else if kx = KeyExchangeAlgorithmNone then Err (Codec ErrCipherSuiteUnset)
      else let hintLength = get_uint16 data in
        bind (if unat hintLength \<le> length data - 2 \<and> kx_Has kx KeyExchangeAlgorithmPsk then
                bind (slice data 2 (unat (2 + hintLength))) (\<lambda>hint.
                  bind (slice_from data (unat (2 + hintLength))) (\<lambda>rest. Ok (Some hint, rest)))
              else Ok (None, data)) (\<lambda>(hint, rest).
          if kx = KeyExchangeAlgorithmPsk then
            if length rest = 0
            then Ok \<lparr>sk_IdentityHint = hint, sk_EllipticCurveType = 0, sk_NamedCurve = 0,
                     sk_PublicKey = [], sk_HashAlgorithm = 0, sk_SignatureAlgorithm = 0,
                     sk_Signature = []\<rparr>
            else Err (Codec ErrLengthMismatch)
          else if \<not> kx_Has kx KeyExchangeAlgorithmEcdhe then Err (Codec ErrLengthMismatch)
          else ServerKeyExchange_ecdhe hint rest))"

subsection \<open>Finished and ServerHelloDone\<close>

definition Finished_Marshal :: "bytes \<Rightarrow> bytes res" where
  "Finished_Marshal verifyData = Ok ([] @ verifyData)"

definition Finished_Unmarshal :: "bytes \<Rightarrow> bytes res" where
  "Finished_Unmarshal data = Ok ([] @ data)"

definition ServerHelloDone_Marshal :: "bytes res" where
  "ServerHelloDone_Marshal = Ok []"

definition ServerHelloDone_Unmarshal :: "bytes \<Rightarrow> unit res" where
  "ServerHelloDone_Unmarshal data = Ok ()"

subsection \<open>The handshake envelope\<close>

datatype Message =
    MClientHello MessageClientHello
  | MServerHello MessageServerHello
  | MHelloVerifyRequest MessageHelloVerifyRequest
  | MCertificate "bytes list"
  | MServerKeyExchange MessageServerKeyExchange
  | MCertificateRequest MessageCertificateRequest
  | MServerHelloDone
  | MCertificateVerify MessageCertificateVerify
  | MClientKeyExchange MessageClientKeyExchange
  | MFinished bytes

fun Message_Type :: "Message \<Rightarrow> byte" where
  "Message_Type (MClientHello _) = TypeClientHello"
| "Message_Type (MServerHello _) = TypeServerHello"
| "Message_Type (MHelloVerifyRequest _) = TypeHelloVerifyRequest"
| "Message_Type (MCertificate _) = TypeCertificate"
| "Message_Type (MServerKeyExchange _) = TypeServerKeyExchange"
| "Message_Type (MCertificateRequest _) = TypeCertificateRequest"
| "Message_Type MServerHelloDone = TypeServerHelloDone"
| "Message_Type (MCertificateVerify _) = TypeCertificateVerify"
| "Message_Type (MClientKeyExchange _) = TypeClientKeyExchange"
| "Message_Type (MFinished _) = TypeFinished"

fun Message_Marshal :: "'b cryptobyte \<Rightarrow> Message \<Rightarrow> bytes res" where
  "Message_Marshal cb (MClientHello m) = ClientHello_Marshal cb m"
| "Message_Marshal cb (MServerHello m) = ServerHello_Marshal cb m"
| "Message_Marshal cb (MHelloVerifyRequest m) = HelloVerifyRequest_Marshal m"
| "Message_Marshal cb (MCertificate m) = MessageCertificate_Marshal m"
| "Message_Marshal cb (MServerKeyExchange m) = ServerKeyExchange_Marshal m"
| "Message_Marshal cb (MCertificateRequest m) = CertificateRequest_Marshal m"
| "Message_Marshal cb MServerHelloDone = ServerHelloDone_Marshal"
| "Message_Marshal cb (MCertificateVerify m) = CertificateVerify_Marshal m"
| "Message_Marshal cb (MClientKeyExchange m) = ClientKeyExchange_Marshal m"
| "Message_Marshal cb (MFinished m) = Finished_Marshal m"

record Handshake =
  hd_Header :: hs_Header
  hd_Message :: "Message option"

text \<open>\<^verbatim>\<open>Marshal\<close> sets the length and type fields of the header; the result carries them.\<close>

definition Handshake_Marshal :: "'b cryptobyte \<Rightarrow> Handshake \<Rightarrow> (bytes \<times> Handshake) res" where
  "Handshake_Marshal cb h =
     (case hd_Message h of
        None \<Rightarrow> Err (Codec ErrHandshakeMessageUnset)
      | Some message \<Rightarrow>
          if hs_FragmentOffset (hd_Header h) \<noteq> 0 then Err (Codec ErrUnableToMarshalFragmented)
          else bind (Message_Marshal cb message) (\<lambda>msg.
            let n = word_of_nat (length msg);
                hdr = (hd_Header h)\<lparr>hs_Length := n, hs_FragmentLength := n,
                        hs_Type := Message_Type message\<rparr> in
            bind (hs_Header_Marshal hdr) (\<lambda>header.
              Ok (header @ msg, h\<lparr>hd_Header := hdr\<rparr>))))"

definition Message_Unmarshal ::
  "'b cryptobyte \<Rightarrow> KeyExchangeAlgorithm \<Rightarrow> byte \<Rightarrow> bytes \<Rightarrow> Message res" where
  "Message_Unmarshal cb kx t body =
     (if t = TypeHelloRequest then Err (Codec ErrNotImplemented)
      else if t = TypeClientHello
      then bind (ClientHello_Unmarshal cb body) (\<lambda>m. Ok (MClientHello m))
      else if t = TypeHelloVerifyRequest
      then bind (HelloVerifyRequest_Unmarshal body) (\<lambda>m. Ok (MHelloVerifyRequest m))
      else if t = TypeServerHello
      then bind (ServerHello_Unmarshal cb body) (\<lambda>m. Ok (MServerHello m))
      else if t = TypeCertificate
      then bind (MessageCertificate_Unmarshal body) (\<lambda>m. Ok (MCertificate m))
      else if t = TypeServerKeyExchange
      then bind (ServerKeyExchange_Unmarshal kx body) (\<lambda>m. Ok (MServerKeyExchange m))
      else if t = TypeCertificateRequest
      then bind (CertificateRequest_Unmarshal body) (\<lambda>m. Ok (MCertificateRequest m))
      else if t = TypeServerHelloDone
      then bind (ServerHelloDone_Unmarshal body) (\<lambda>m. Ok MServerHelloDone)
      else if t = TypeClientKeyExchange
      then bind (ClientKeyExchange_Unmarshal kx body) (\<lambda>m. Ok (MClientKeyExchange m))
      else if t = TypeFinished
      then bind (Finished_Unmarshal body) (\<lambda>m. Ok (MFinished m))
      else if t = TypeCertificateVerify
      then bind (CertificateVerify_Unmarshal body) (\<lambda>m. Ok (MCertificateVerify m))
      else Err (Codec ErrNotImplemented))"

definition Handshake_Unmarshal ::
  "'b cryptobyte \<Rightarrow> KeyExchangeAlgorithm \<Rightarrow> bytes \<Rightarrow> Handshake res" where
  "Handshake_Unmarshal cb kx data =
     bind (hs_Header_Unmarshal data) (\<lambda>hdr.
       let reportedLen = BigEndianUint24 (drop 1 data) in
       if word_of_nat (length data - HeaderLength) \<noteq> reportedLen then Err (Codec ErrLengthMismatch)
       else if reportedLen \<noteq> hs_FragmentLength hdr then Err (Codec ErrLengthMismatch)
       else bind (Message_Unmarshal cb kx (data ! 0) (drop HeaderLength data)) (\<lambda>m.
         Ok \<lparr>hd_Header = hdr, hd_Message = Some m\<rparr>))"

subsection \<open>Round trips\<close>

definition wf_hs_Header :: "hs_Header \<Rightarrow> bool" where
  "wf_hs_Header h \<longleftrightarrow> unat (hs_Length h) < 2 ^ 24 \<and> unat (hs_FragmentOffset h) < 2 ^ 24
     \<and> unat (hs_FragmentLength h) < 2 ^ 24"

lemma hs_Header_roundtrip:
  assumes "wf_hs_Header h" and "hs_Header_Marshal h = Ok raw"
  shows "length raw = HeaderLength \<and> hs_Header_Unmarshal (raw @ rest) = Ok h"
  using assms
  by (auto simp: hs_Header_Marshal_def hs_Header_Unmarshal_def wf_hs_Header_def)

lemma hs_Header_Unmarshal_wf: "hs_Header_Unmarshal data = Ok h \<Longrightarrow> wf_hs_Header h"
  using BigEndianUint24_bound
  by (auto simp: hs_Header_Unmarshal_def wf_hs_Header_def split: if_splits)

definition wf_Random :: "Random \<Rightarrow> bool" where
  "wf_Random r \<longleftrightarrow> 0 \<le> rd_GMTUnixTime r \<and> rd_GMTUnixTime r < 2 ^ 32 \<and> length (rd_RandomBytes r) = 28"

lemma length_Random_MarshalFixed: "wf_Random r \<Longrightarrow> length (Random_MarshalFixed r) = 32"
  by (simp add: Random_MarshalFixed_def wf_Random_def)

lemma Random_roundtrip: "wf_Random r \<Longrightarrow> Random_UnmarshalFixed (Random_MarshalFixed r) = r"
proof -
  assume wf: "wf_Random r"
  then have "uint (word_of_int (rd_GMTUnixTime r) :: uint32) = rd_GMTUnixTime r"
    by (simp add: wf_Random_def uint_word_of_int_eq take_bit_int_eq_self)
  then show ?thesis using wf
    by (simp add: Random_UnmarshalFixed_def Random_MarshalFixed_def wf_Random_def)
qed

lemma decode_encode_suites:
  assumes "length ids * 2 < 65536"
  shows "decodeCipherSuiteIDs (encodeCipherSuiteIDs ids @ rest) = Ok ids"
proof -
  define buf where "buf = encodeCipherSuiteIDs ids @ rest"
  have n: "unat (get_uint16 buf) div 2 = length ids"
    using assms by (simp add: buf_def encodeCipherSuiteIDs_def unat_of_nat del: of_nat_mult)
  have r: "read_uint16s buf 2 (length ids) = ids"
    using read_uint16s_put [of 2 "put_uint16 (word_of_nat (length ids * 2))" ids rest]
    by (simp add: buf_def encodeCipherSuiteIDs_def del: of_nat_mult)
  have l: "length buf \<ge> 2 + length ids * 2" by (simp add: buf_def encodeCipherSuiteIDs_def)
  have "get_uint16 (drop (i * 2 + 2) buf) = ids ! i" if "i < length ids" for i
    using arg_cong [OF r, of "\<lambda>xs. xs ! i"] that by (simp add: read_uint16s_def add.commute)
  with l have "list_all2 (\<lambda>i y. (if length buf < i * 2 + 4 then Err (Codec ErrBufferTooSmall)
      else Ok (get_uint16 (drop (i * 2 + 2) buf))) = Ok y) [0..<length ids] ids"
    by (auto simp: list_all2_conv_all_nth)
  then have "decodeCipherSuiteIDs buf = Ok ids"
    using l unfolding decodeCipherSuiteIDs_def n map_res_Ok_iff [symmetric] by simp
  then show ?thesis by (simp add: buf_def)
qed

lemma read_opaque8_append:
  assumes "data = pre @ word_of_nat (length bs) # bs @ x # rest"
    and "off = length pre + 1" and "length bs < 256"
  shows "read_opaque8 data off = Ok (bs, off + length bs)"
  using assms by (simp add: read_opaque8_def nth_append unat_byte_of_nat)

definition wf_extensions :: "Extension list \<Rightarrow> bool" where
  "wf_extensions es \<longleftrightarrow> list_all wf_Extension es \<and> length (concat (map ext_enc es)) < 65536"

lemma put_uint16_Cons: obtains x y where "put_uint16 w = [x, y]"
  by (auto simp: put_uint16_def put_be_numeral)

definition wf_ClientHello :: "MessageClientHello \<Rightarrow> bool" where
  "wf_ClientHello m \<longleftrightarrow> wf_Random (ch_Random m) \<and> length (ch_Cookie m) \<le> 255 \<and>
     length (ch_SessionID m) < 256 \<and> length (ch_CipherSuiteIDs m) * 2 < 65536 \<and>
     (\<forall>c \<in> set (ch_CompressionMethods m). cm_ID c = 0) \<and> length (ch_CompressionMethods m) < 256 \<and>
     wf_extensions (ch_Extensions m)"

definition wf_ServerHello :: "MessageServerHello \<Rightarrow> bool" where
  "wf_ServerHello m \<longleftrightarrow> wf_Random (svh_Random m) \<and> length (svh_SessionID m) < 256 \<and>
     svh_CipherSuiteID m \<noteq> None \<and> svh_CompressionMethod m = Some (CompressionMethod 0) \<and>
     wf_extensions (svh_Extensions m)"

lemma rev_CompressionMethods: "\<forall>c \<in> set cs. cm_ID c = 0 \<Longrightarrow> rev cs = cs"
proof -
  assume "\<forall>c \<in> set cs. cm_ID c = 0"
  then have "cs = replicate (length cs) (CompressionMethod 0)"
    by (induction cs) (auto intro: CompressionMethod.expand)
  then show ?thesis by (metis rev_replicate)
qed

context cryptobyte_spec
begin

lemma extensions_roundtrip:
  assumes "wf_extensions es"
  obtains w where "extension_Marshal cb es = Ok (put_uint16 w @ concat (map ext_enc es))"
    and "extension_Unmarshal cb (put_uint16 w @ concat (map ext_enc es)) = Ok es"
  using extension_Marshal_enc [of es] extension_list_roundtrip [of es] assms
  by (auto simp: wf_extensions_def simp del: length_concat)

lemma ServerHello_roundtrip:
  assumes wf: "wf_ServerHello m"
  shows "bind (ServerHello_Marshal cb m) (ServerHello_Unmarshal cb) = Ok m"
proof -
  obtain w where ext: "extension_Marshal cb (svh_Extensions m)
        = Ok (put_uint16 w @ concat (map ext_enc (svh_Extensions m)))"
      "extension_Unmarshal cb (put_uint16 w @ concat (map ext_enc (svh_Extensions m)))
        = Ok (svh_Extensions m)"
    using extensions_roundtrip wf by (auto simp: wf_ServerHello_def)
  obtain cs where cs: "svh_CipherSuiteID m = Some cs" using wf by (auto simp: wf_ServerHello_def)
  obtain x y where xy: "put_uint16 cs = [x, y]" by (rule put_uint16_Cons)
  let ?pre = "[v_Major (svh_Version m), v_Minor (svh_Version m)]
      @ Random_MarshalFixed (svh_Random m)"
  let ?ext = "put_uint16 w @ concat (map ext_enc (svh_Extensions m))"
  let ?data = "?pre @ word_of_nat (length (svh_SessionID m)) # svh_SessionID m
      @ put_uint16 cs @ 0 # ?ext"
  have pre: "length ?pre = 34" using wf by (simp add: wf_ServerHello_def length_Random_MarshalFixed)
  have m: "ServerHello_Marshal cb m = Ok ?data"
    using wf by (simp add: ServerHello_Marshal_def wf_ServerHello_def cs ext)
  have r: "read_opaque8 ?data 35 = Ok (svh_SessionID m, 35 + length (svh_SessionID m))"
    by (rule read_opaque8_append [where pre = ?pre and x = x])
       (use pre wf in \<open>simp_all add: xy wf_ServerHello_def\<close>)
  let ?sid = "?pre @ word_of_nat (length (svh_SessionID m)) # svh_SessionID m"
  have d: "drop (35 + length (svh_SessionID m)) ?data = put_uint16 cs @ 0 # ?ext"
    by (rule drop_eqI [where a = ?sid]) (use pre in simp_all)
  have d2: "drop (35 + length (svh_SessionID m) + 2 + 1) ?data = ?ext"
    by (rule drop_eqI [where a = "?sid @ put_uint16 cs @ [0]"]) (use pre in simp_all)
  have n: "?data ! (35 + length (svh_SessionID m) + 2) = 0"
    by (rule nth_eqI [where a = "?sid @ put_uint16 cs"]) (use pre in simp_all)
  have rnd: "take 32 (drop 2 ?data) = Random_MarshalFixed (svh_Random m)"
    using wf by (simp add: wf_ServerHello_def length_Random_MarshalFixed)
  have l: "length ?data = 40 + length (svh_SessionID m) + length (concat (map ext_enc (svh_Extensions m)))"
    using pre by simp
  show ?thesis
    unfolding m bind.simps ServerHello_Unmarshal_def r split d n d2 rnd Let_def l
    using wf by (simp add: wf_ServerHello_def CompressionMethods_def ext Random_roundtrip cs)
qed

end

text \<open>Where the parts of an encoded ClientHello are.\<close>

lemma ClientHello_layout:
  fixes sid cookie suites cms exts pre :: bytes
  defines "data \<equiv> pre @ word_of_nat (length sid) # sid @ word_of_nat (length cookie) # cookie
      @ suites @ cms @ exts"
    and "o2 \<equiv> 35 + length sid + 1 + length cookie"
  assumes "length pre = 34" "length sid < 256" "length cookie < 256" "2 \<le> length suites"
    and "cms = c # cs"
  shows "read_opaque8 data 35 = Ok (sid, 35 + length sid)"
    and "read_opaque8 data (35 + length sid + 1) = Ok (cookie, o2)"
    and "drop o2 data = suites @ cms @ exts"
    and "drop (o2 + length suites) data = cms @ exts"
    and "idx data (o2 + length suites) = Ok c"
    and "slice_from data (o2 + length suites + length cms) = Ok exts"
proof -
  let ?head = "pre @ word_of_nat (length sid) # sid @ word_of_nat (length cookie) # cookie"
  obtain s ss where suites: "suites = s # ss" using assms by (cases suites) auto
  show "read_opaque8 data 35 = Ok (sid, 35 + length sid)"
    by (rule read_opaque8_append) (use assms in \<open>auto simp: data_def\<close>)
  show "read_opaque8 data (35 + length sid + 1) = Ok (cookie, o2)"
    unfolding o2_def
    by (rule read_opaque8_append [where pre = "pre @ word_of_nat (length sid) # sid" and x = s
          and rest = "ss @ cms @ exts"]) (use assms in \<open>simp_all add: suites\<close>)
  show "drop o2 data = suites @ cms @ exts"
    by (rule drop_eqI [where a = ?head]) (use assms in simp_all)
  show "drop (o2 + length suites) data = cms @ exts"
    by (rule drop_eqI [where a = "?head @ suites"]) (use assms in simp_all)
  have "data ! (o2 + length suites) = c"
    by (rule nth_eqI [where a = "?head @ suites"]) (use assms in simp_all)
  then show "idx data (o2 + length suites) = Ok c"
    using assms by (simp add: idx_def)
  have "drop (o2 + length suites + length cms) data = exts"
    by (rule drop_eqI [where a = "?head @ suites @ cms"]) (use assms in simp_all)
  then show "slice_from data (o2 + length suites + length cms) = Ok exts"
    using assms by (simp add: slice_from_def)
qed

context cryptobyte_spec
begin

lemma ClientHello_roundtrip:
  assumes wf: "wf_ClientHello m"
  shows "bind (ClientHello_Marshal cb m) (ClientHello_Unmarshal cb) = Ok m"
proof -
  let ?sid = "ch_SessionID m" and ?cookie = "ch_Cookie m"
  let ?k = "word_of_nat (length (ch_CompressionMethods m)) :: byte"
  define suites cms where "suites = encodeCipherSuiteIDs (ch_CipherSuiteIDs m)"
    and "cms = EncodeCompressionMethods (ch_CompressionMethods m)"
  obtain exts where ext: "extension_Marshal cb (ch_Extensions m) = Ok exts"
      "extension_Unmarshal cb exts = Ok (ch_Extensions m)"
    using extensions_roundtrip wf by (metis wf_ClientHello_def)
  define pre where "pre = [v_Major (ch_Version m), v_Minor (ch_Version m)]
      @ Random_MarshalFixed (ch_Random m)"
  define data where "data = pre @ word_of_nat (length ?sid) # ?sid
      @ word_of_nat (length ?cookie) # ?cookie @ suites @ cms @ exts"
  have m: "ClientHello_Marshal cb m = Ok data"
    using wf by (simp add: ClientHello_Marshal_def wf_ClientHello_def ext data_def pre_def
        suites_def cms_def)
  have wf': "length pre = 34" "length ?sid < 256" "length ?cookie < 256" "2 \<le> length suites"
      "cms = ?k # rev (map cm_ID (ch_CompressionMethods m))"
      "length (ch_CompressionMethods m) < 256" "length (ch_CipherSuiteIDs m) * 2 < 65536"
    using wf by (simp_all add: wf_ClientHello_def length_Random_MarshalFixed pre_def suites_def
        encodeCipherSuiteIDs_def cms_def EncodeCompressionMethods_def)
  note lay = ClientHello_layout [OF wf'(1-5), of exts, folded data_def]
  have g: "unat (get_uint16 (suites @ xs)) + 2 = length suites" for xs
    using wf'(7) by (simp add: suites_def encodeCipherSuiteIDs_def unat_of_nat del: of_nat_mult)
  have comp: "DecodeCompressionMethods (cms @ xs) = Ok (ch_CompressionMethods m)" for xs
    using Compression_roundtrip [of "ch_CompressionMethods m"] wf
    by (simp add: cms_def wf_ClientHello_def rev_CompressionMethods)
  have dec: "decodeCipherSuiteIDs (suites @ xs) = Ok (ch_CipherSuiteIDs m)" for xs
    using decode_encode_suites wf' by (simp add: suites_def)
  have rnd: "take 32 (drop 2 data) = Random_MarshalFixed (ch_Random m)"
      "data ! 0 = v_Major (ch_Version m)" "data ! 1 = v_Minor (ch_Version m)"
    using wf by (simp_all add: wf_ClientHello_def length_Random_MarshalFixed data_def pre_def)
  have u: "unat ?k + 1 = length cms" using wf' by (simp add: unat_byte_of_nat)
  have l: "length data = 36 + length ?sid + length ?cookie + length suites + length cms + length exts"
    using wf' by (simp add: data_def)
  show ?thesis
    unfolding m bind.simps ClientHello_Unmarshal_def lay split dec Let_def g comp u ext rnd
    using l wf' wf by (auto simp: wf_ClientHello_def Random_roundtrip)
qed

end

lemma HelloVerifyRequest_roundtrip:
  "length (hvr_Cookie m) \<le> 255 \<Longrightarrow>
   bind (HelloVerifyRequest_Marshal m) HelloVerifyRequest_Unmarshal = Ok m"
  by (simp add: HelloVerifyRequest_Marshal_def HelloVerifyRequest_Unmarshal_def unat_byte_of_nat)

definition cert_enc :: "bytes \<Rightarrow> bytes" where
  "cert_enc r = PutBigEndianUint24 (word_of_nat (length r)) @ r"

lemma length_cert_enc: "length (cert_enc r) = 3 + length r"
  by (simp add: cert_enc_def)

lemma put24_of_nat: "n < 2 ^ 24 \<Longrightarrow> unat (BigEndianUint24 (PutBigEndianUint24 (word_of_nat n) @ xs)) = n"
  by (simp add: unat_of_nat)

lemma MessageCertificate_loop_enc:
  "\<forall>r \<in> set rs. length r < 2 ^ 24 \<Longrightarrow>
   MessageCertificate_loop (pre @ concat (map cert_enc rs)) (length pre) acc = Ok (acc @ rs)"
proof (induction rs arbitrary: pre acc)
  case Nil
  then show ?case by (simp add: MessageCertificate_loop.simps)
next
  case (Cons r rs)
  let ?data = "pre @ concat (map cert_enc (r # rs))"
  have n: "unat (BigEndianUint24 (drop (length pre) ?data)) = length r"
    using Cons.prems put24_of_nat [of "length r"] by (simp add: cert_enc_def)
  have t: "take (length r) (drop (length pre + 3) ?data) = r"
    by (simp add: cert_enc_def)
  have "MessageCertificate_loop ?data (length pre) acc
      = MessageCertificate_loop ?data (length pre + 3 + length r) (acc @ [r])"
    by (subst MessageCertificate_loop.simps) (simp only: n t Let_def, simp add: cert_enc_def)
  then show ?case using Cons.IH [of "pre @ cert_enc r" "acc @ [r]"] Cons.prems
    by (simp add: length_cert_enc add.assoc)
qed

lemma MessageCertificate_roundtrip:
  assumes "length (concat (map cert_enc rs)) < 2 ^ 24"
  shows "bind (MessageCertificate_Marshal rs) MessageCertificate_Unmarshal = Ok rs"
proof -
  let ?body = "concat (map cert_enc rs)"
  have "length r < 2 ^ 24" if "r \<in> set rs" for r
    using length_concat_ge [of "cert_enc r" "map cert_enc rs"] that assms
    by (simp add: cert_enc_def del: length_concat)
  then have "MessageCertificate_loop (PutBigEndianUint24 (word_of_nat (length ?body)) @ ?body) 3 [] = Ok rs"
    using MessageCertificate_loop_enc [of rs "PutBigEndianUint24 (word_of_nat (length ?body))" "[]"]
    by simp
  moreover have "MessageCertificate_Marshal rs
      = Ok (PutBigEndianUint24 (word_of_nat (length ?body)) @ ?body)"
    by (simp add: MessageCertificate_Marshal_def cert_enc_def [abs_def] Let_def)
  ultimately show ?thesis
    using put24_of_nat [OF assms] by (simp add: MessageCertificate_Unmarshal_def del: length_concat)
qed

lemma CertificateVerify_roundtrip:
  assumes "cv_HashAlgorithm m \<in> hash_Algorithms" "cv_SignatureAlgorithm m \<in> sig_Algorithms"
    and "length (cv_Signature m) < 65536"
  shows "bind (CertificateVerify_Marshal m) CertificateVerify_Unmarshal = Ok m"
  using assms
  by (simp add: CertificateVerify_Marshal_def CertificateVerify_Unmarshal_def unat_of_nat)

subsection \<open>Key exchange messages: round trips and panics\<close>

definition wf_ClientKeyExchange :: "KeyExchangeAlgorithm \<Rightarrow> MessageClientKeyExchange \<Rightarrow> bool" where
  "wf_ClientKeyExchange kx m \<longleftrightarrow> kx \<noteq> KeyExchangeAlgorithmNone \<and>
     (ck_IdentityHint m \<noteq> None \<longleftrightarrow> kx_Has kx KeyExchangeAlgorithmPsk) \<and>
     (ck_PublicKey m \<noteq> None \<longleftrightarrow> kx_Has kx KeyExchangeAlgorithmEcdhe) \<and>
     (ck_IdentityHint m \<noteq> None \<or> (\<exists>key. ck_PublicKey m = Some key \<and> key \<noteq> [])) \<and>
     (\<forall>hint. ck_IdentityHint m = Some hint \<longrightarrow> length hint < 65536) \<and>
     (\<forall>key. ck_PublicKey m = Some key \<longrightarrow> length key < 256)"

lemma ClientKeyExchange_roundtrip:
  assumes "wf_ClientKeyExchange kx m"
  shows "bind (ClientKeyExchange_Marshal m) (ClientKeyExchange_Unmarshal kx) = Ok m"
proof (cases "ck_IdentityHint m")
  case None
  then obtain key where key: "ck_PublicKey m = Some key" "key \<noteq> []" "length key < 256"
    using assms by (auto simp: wf_ClientKeyExchange_def)
  then have "unat (word_of_nat (length key) :: byte) = length key" "\<not> Suc (length key) < 2"
    by (auto simp: unat_byte_of_nat Suc_le_eq)
  then show ?thesis using assms None key
    by (simp add: wf_ClientKeyExchange_def ClientKeyExchange_Marshal_def
        ClientKeyExchange_Unmarshal_def Let_def del: of_nat_unat)
next
  case (Some hint)
  have n: "unat (word_of_nat (length hint) :: uint16) = length hint"
    using assms Some by (simp add: wf_ClientKeyExchange_def unat_of_nat)
  show ?thesis
  proof (cases "ck_PublicKey m")
    case None
    then show ?thesis using assms Some n
      by (simp add: wf_ClientKeyExchange_def ClientKeyExchange_Marshal_def
          ClientKeyExchange_Unmarshal_def)
  next
    case (Some key)
    have "unat (word_of_nat (length key) :: byte) = length key"
      using assms Some by (simp add: wf_ClientKeyExchange_def unat_byte_of_nat)
    then show ?thesis using assms \<open>ck_IdentityHint m = Some hint\<close> Some n
      by (simp add: wf_ClientKeyExchange_def ClientKeyExchange_Marshal_def
          ClientKeyExchange_Unmarshal_def nth_append del: of_nat_unat)
  qed
qed

lemma ClientKeyExchange_panics_iff:
  "ClientKeyExchange_Unmarshal kx data = Panic \<longleftrightarrow>
     2 \<le> length data \<and> kx_Has kx KeyExchangeAlgorithmPsk \<and> kx_Has kx KeyExchangeAlgorithmEcdhe \<and>
     unat (get_uint16 data) = length data - 2"
proof -
  have "\<not> kx_Has 0 KeyExchangeAlgorithmPsk" by (simp add: kx_Has_def)
  then show ?thesis
    by (auto simp: ClientKeyExchange_Unmarshal_def bind_eq_Panic idx_def Let_def split: if_splits)
qed

lemma ServerKeyExchange_ecdhe_panics: "ServerKeyExchange_ecdhe hint data = Panic \<longleftrightarrow> data = []"
  by (auto simp: ServerKeyExchange_ecdhe_def bind_eq_Panic idx_def Let_def split: if_splits)

lemma unat_2_plus: "unat (2 + w) = (if unat w < 65534 then 2 + unat w else unat w - 65534)"
  for w :: uint16
proof (cases "unat w < 65534")
  case True
  then show ?thesis by (simp add: unat_word_ariths)
next
  case False
  then have "unat w = 65534 \<or> unat w = 65535"
    using unsigned_less [of w, where 'a = nat] by simp linarith
  then show ?thesis by (auto simp: unat_word_ariths)
qed

lemma ServerKeyExchange_panics_iff:
  "ServerKeyExchange_Unmarshal kx data = Panic \<longleftrightarrow>
     2 \<le> length data \<and> kx_Has kx KeyExchangeAlgorithmPsk \<and> unat (get_uint16 data) \<le> length data - 2 \<and>
     (65534 \<le> unat (get_uint16 data) \<or>
      kx_Has kx KeyExchangeAlgorithmEcdhe \<and> unat (get_uint16 data) = length data - 2)"
proof -
  have z: "\<not> kx_Has 0 KeyExchangeAlgorithmPsk" "\<not> kx_Has 2 KeyExchangeAlgorithmEcdhe"
    by (simp_all add: kx_Has_def)
  have lt: "unat (get_uint16 data) < 65536"
    using unsigned_less [of "get_uint16 data", where 'a = nat] by simp
  show ?thesis
  proof (cases "unat (get_uint16 data) < 65534")
    case True
    then show ?thesis using z
      by (auto simp: ServerKeyExchange_Unmarshal_def bind_eq_Panic Let_def slice_def slice_from_def
          unat_2_plus ServerKeyExchange_ecdhe_panics split: if_splits)
  next
    case False
    then show ?thesis using z lt
      by (auto simp: ServerKeyExchange_Unmarshal_def bind_eq_Panic Let_def slice_def slice_from_def
          unat_2_plus ServerKeyExchange_ecdhe_panics split: if_splits)
  qed
qed

definition wf_ServerKeyExchange :: "KeyExchangeAlgorithm \<Rightarrow> MessageServerKeyExchange \<Rightarrow> bool" where
  "wf_ServerKeyExchange kx m \<longleftrightarrow> kx \<noteq> KeyExchangeAlgorithmNone \<and>
     (sk_IdentityHint m \<noteq> None \<longleftrightarrow> kx_Has kx KeyExchangeAlgorithmPsk) \<and>
     (\<forall>hint. sk_IdentityHint m = Some hint \<longrightarrow> length hint < 65534) \<and>
     (if kx = KeyExchangeAlgorithmPsk
      then m = \<lparr>sk_IdentityHint = sk_IdentityHint m, sk_EllipticCurveType = 0, sk_NamedCurve = 0,
        sk_PublicKey = [], sk_HashAlgorithm = 0, sk_SignatureAlgorithm = 0, sk_Signature = []\<rparr>
      else kx_Has kx KeyExchangeAlgorithmEcdhe \<and> sk_EllipticCurveType m = 3 \<and>
        sk_NamedCurve m \<in> elliptic_Curves \<and> sk_PublicKey m \<noteq> [] \<and> length (sk_PublicKey m) < 256 \<and>
        (if sk_Signature m = [] then sk_HashAlgorithm m = hash_None \<and> sk_SignatureAlgorithm m = sig_Anonymous
         else sk_HashAlgorithm m \<in> hash_Algorithms - {hash_None} \<and>
           sk_SignatureAlgorithm m \<in> sig_Algorithms - {sig_Anonymous} \<and>
           length (sk_Signature m) < 65536))"

definition sk_ecdhe_bytes :: "MessageServerKeyExchange \<Rightarrow> bytes" where
  "sk_ecdhe_bytes m = sk_EllipticCurveType m # put_uint16 (sk_NamedCurve m)
     @ word_of_nat (length (sk_PublicKey m)) # sk_PublicKey m
     @ (if sk_Signature m = [] then []
        else [ucast (sk_HashAlgorithm m), ucast (sk_SignatureAlgorithm m)]
          @ put_uint16 (word_of_nat (length (sk_Signature m))) @ sk_Signature m)"

lemma ServerKeyExchange_ecdhe_bytes:
  assumes "wf_ServerKeyExchange kx m" "kx \<noteq> KeyExchangeAlgorithmPsk"
  shows "ServerKeyExchange_ecdhe (sk_IdentityHint m) (sk_ecdhe_bytes m) = Ok m"
proof -
  obtain x y where xy: "put_uint16 (sk_NamedCurve m) = [x, y]" by (rule put_uint16_Cons)
  have g: "get_uint16 (x # y # zs) = sk_NamedCurve m" for zs
    using get_put_uint16 [of "sk_NamedCurve m" zs] by (simp add: xy)
  have n: "unat (word_of_nat (length (sk_PublicKey m)) :: byte) = length (sk_PublicKey m)"
    using assms by (simp add: wf_ServerKeyExchange_def unat_byte_of_nat)
  show ?thesis
  proof (cases "sk_Signature m = []")
    case True
    then show ?thesis using assms
      by (simp add: wf_ServerKeyExchange_def ServerKeyExchange_ecdhe_def sk_ecdhe_bytes_def
          elliptic_CurveTypes_def xy g n)
  next
    case False
    have k: "unat (word_of_nat (length (sk_Signature m)) :: uint16) = length (sk_Signature m)"
      using assms False by (simp add: wf_ServerKeyExchange_def unat_of_nat)
    let ?pre = "3 # x # y # word_of_nat (length (sk_PublicKey m)) # sk_PublicKey m"
    let ?sig = "put_uint16 (word_of_nat (length (sk_Signature m))) @ sk_Signature m"
    have wf: "sk_EllipticCurveType m = 3" "sk_NamedCurve m \<in> elliptic_Curves"
        "sk_HashAlgorithm m \<in> hash_Algorithms" "sk_SignatureAlgorithm m \<in> sig_Algorithms"
      using assms False by (simp_all add: wf_ServerKeyExchange_def)
    have b: "sk_ecdhe_bytes m = ?pre @ ucast (sk_HashAlgorithm m) # ucast (sk_SignatureAlgorithm m) # ?sig"
      using False wf by (simp add: sk_ecdhe_bytes_def xy)
    have i: "sk_ecdhe_bytes m ! (4 + length (sk_PublicKey m)) = ucast (sk_HashAlgorithm m)"
        "sk_ecdhe_bytes m ! (4 + length (sk_PublicKey m) + 1) = ucast (sk_SignatureAlgorithm m)"
        "sk_ecdhe_bytes m ! 3 = word_of_nat (length (sk_PublicKey m))" "idx (sk_ecdhe_bytes m) 0 = Ok 3"
      unfolding b by (simp_all add: nth_append)
    have d2: "drop (4 + length (sk_PublicKey m) + 2) (sk_ecdhe_bytes m) = ?sig"
      by (rule drop_eqI [where a = "?pre @ [_, _]"]) (simp_all add: b)
    have d4: "drop (4 + length (sk_PublicKey m) + 4) (sk_ecdhe_bytes m) = sk_Signature m"
      by (rule drop_eqI [where a = "?pre @ [_, _] @ put_uint16 _"]) (simp_all add: b)
    have d: "take (length (sk_PublicKey m)) (drop 4 (sk_ecdhe_bytes m)) = sk_PublicKey m"
        "drop 1 (sk_ecdhe_bytes m) = x # y # drop 3 (sk_ecdhe_bytes m)"
      unfolding b by simp_all
    have l: "length (sk_ecdhe_bytes m) = 4 + length (sk_PublicKey m) + 4 + length (sk_Signature m)"
      unfolding b by simp
    show ?thesis
      unfolding ServerKeyExchange_ecdhe_def i bind.simps d2 d4 d Let_def n get_put_uint16 g l k ucast_hash [OF wf(3)]
        ucast_sig [OF wf(4)]
      using wf by (simp add: elliptic_CurveTypes_def)
  qed
qed

lemma ServerKeyExchange_Marshal_bytes:
  assumes "wf_ServerKeyExchange kx m"
  shows "ServerKeyExchange_Marshal m =
    Ok ((case sk_IdentityHint m of None \<Rightarrow> []
         | Some hint \<Rightarrow> put_uint16 (word_of_nat (length hint)) @ hint)
        @ (if kx = KeyExchangeAlgorithmPsk then [] else sk_ecdhe_bytes m))"
proof (cases "kx = KeyExchangeAlgorithmPsk")
  case True
  then have "sk_EllipticCurveType m = 0"
    using assms by (metis MessageServerKeyExchange.select_convs(2) wf_ServerKeyExchange_def)
  then show ?thesis using True by (simp add: ServerKeyExchange_Marshal_def)
next
  case False
  then show ?thesis using assms
    by (auto simp: wf_ServerKeyExchange_def ServerKeyExchange_Marshal_def sk_ecdhe_bytes_def
        Let_def split: if_splits)
qed

lemma ServerKeyExchange_roundtrip:
  assumes "wf_ServerKeyExchange kx m"
  shows "bind (ServerKeyExchange_Marshal m) (ServerKeyExchange_Unmarshal kx) = Ok m"
proof (cases "sk_IdentityHint m")
  case None
  then have psk: "\<not> kx_Has kx KeyExchangeAlgorithmPsk" "kx \<noteq> 0"
    using assms by (auto simp: wf_ServerKeyExchange_def)
  then have "kx \<noteq> 2" by (auto simp: kx_Has_def)
  then have kx: "\<not> kx_Has kx KeyExchangeAlgorithmPsk" "kx \<noteq> 2" "kx_Has kx KeyExchangeAlgorithmEcdhe"
      "kx \<noteq> 0"
    using assms psk by (simp_all add: wf_ServerKeyExchange_def)
  have "2 \<le> length (sk_ecdhe_bytes m)" by (simp add: sk_ecdhe_bytes_def)
  then show ?thesis
    using ServerKeyExchange_ecdhe_bytes [OF assms kx(2)] None kx
    by (simp add: ServerKeyExchange_Marshal_bytes [OF assms] ServerKeyExchange_Unmarshal_def)
next
  case (Some hint)
  then have kx: "kx_Has kx KeyExchangeAlgorithmPsk" "kx \<noteq> 0" "length hint < 65534"
    using assms by (auto simp: wf_ServerKeyExchange_def)
  have n: "unat (word_of_nat (length hint) :: uint16) = length hint"
      "unat (2 + word_of_nat (length hint) :: uint16) = 2 + length hint"
    using kx(3) by (simp_all add: unat_2_plus unat_of_nat)
  show ?thesis
  proof (cases "kx = KeyExchangeAlgorithmPsk")
    case True
    then have "m = \<lparr>sk_IdentityHint = Some hint, sk_EllipticCurveType = 0, sk_NamedCurve = 0,
        sk_PublicKey = [], sk_HashAlgorithm = 0, sk_SignatureAlgorithm = 0, sk_Signature = []\<rparr>"
      using assms Some by (simp add: wf_ServerKeyExchange_def)
    then show ?thesis
      unfolding ServerKeyExchange_Marshal_bytes [OF assms] bind.simps ServerKeyExchange_Unmarshal_def
      using True kx n by simp
  next
    case False
    then have "kx_Has kx KeyExchangeAlgorithmEcdhe" using assms by (simp add: wf_ServerKeyExchange_def)
    then show ?thesis using False Some kx n ServerKeyExchange_ecdhe_bytes [OF assms False]
      by (simp add: ServerKeyExchange_Marshal_bytes [OF assms] ServerKeyExchange_Unmarshal_def)
  qed
qed

subsection \<open>CertificateRequest\<close>

definition sig_bytes :: "Algorithm list \<Rightarrow> bytes" where
  "sig_bytes as = concat (map (\<lambda>v. [ucast (sh_Hash v), ucast (sh_Signature v)]) as)"

definition ca_bytes :: "bytes list \<Rightarrow> bytes" where
  "ca_bytes cas = concat (map (\<lambda>ca. put_uint16 (word_of_nat (length ca)) @ ca) cas)"

lemma length_sig_bytes [simp]: "length (sig_bytes as) = length as * 2"
  by (simp add: sig_bytes_def)

lemma length_ca_bytes: "length (ca_bytes cas) = sum_list (map (\<lambda>ca. length ca + 2) cas)"
  by (induction cas) (auto simp: ca_bytes_def)

definition wf_CertificateRequest :: "MessageCertificateRequest \<Rightarrow> bool" where
  "wf_CertificateRequest m \<longleftrightarrow>
     set (cr_CertificateTypes m) \<subseteq> clientcertificate_Types \<and> length (cr_CertificateTypes m) < 256 \<and>
     (\<forall>a \<in> set (cr_SignatureHashAlgorithms m).
        sh_Hash a \<in> hash_Algorithms \<and> sh_Signature a \<in> sig_Algorithms) \<and>
     length (cr_SignatureHashAlgorithms m) * 2 < 65536 \<and>
     length (ca_bytes (cr_CertificateAuthoritiesNames m)) < 65536"

lemma Algorithm_eta: "\<lparr>sh_Hash = sh_Hash a, sh_Signature = sh_Signature a\<rparr> = a"
  by simp

lemma CertificateRequest_sigs_bytes:
  "\<forall>a \<in> set as. sh_Hash a \<in> hash_Algorithms \<and> sh_Signature a \<in> sig_Algorithms \<Longrightarrow>
   offset + i = length pre \<Longrightarrow> n = i + length as * 2 \<Longrightarrow>
   CertificateRequest_sigs (pre @ sig_bytes as @ rest) offset n i acc = Ok (acc @ as)"
proof (induction as arbitrary: pre i acc)
  case Nil
  then show ?case by (simp add: CertificateRequest_sigs.simps)
next
  case (Cons a as)
  let ?h = "ucast (sh_Hash a) :: byte" and ?s = "ucast (sh_Signature a) :: byte"
  let ?data = "pre @ sig_bytes (a # as) @ rest"
  have d: "?data = (pre @ [?h, ?s]) @ sig_bytes as @ rest" by (simp add: sig_bytes_def)
  have n: "?data ! (offset + i) = ?h" "?data ! Suc (offset + i) = ?s"
    using Cons.prems(2) by (simp_all add: sig_bytes_def nth_append)
  have "CertificateRequest_sigs ?data offset n i acc
      = CertificateRequest_sigs ?data offset n (i + 2) (acc @ [a])"
  proof -
    have "i < n" "\<not> length ?data < offset + i + 2"
      using Cons.prems by (simp_all add: sig_bytes_def)
    then show ?thesis using n Cons.prems(1)
      unfolding CertificateRequest_sigs.simps [of ?data offset n i acc] by (simp add: Let_def Algorithm_eta)
  qed
  also have "\<dots> = Ok ((acc @ [a]) @ as)"
    unfolding d by (rule Cons.IH) (use Cons.prems in simp_all)
  finally show ?case by simp
qed

lemma CertificateRequest_cas_bytes:
  "length (ca_bytes cas) < 65536 \<Longrightarrow> CertificateRequest_cas (ca_bytes cas) acc = Ok (acc @ cas)"
proof (induction cas arbitrary: acc)
  case Nil
  then show ?case by (simp add: CertificateRequest_cas.simps ca_bytes_def)
next
  case (Cons ca cas)
  have "unat (word_of_nat (length ca) :: uint16) = length ca"
    using Cons.prems by (simp add: ca_bytes_def unat_of_nat)
  then show ?case using Cons
    by (subst CertificateRequest_cas.simps) (simp add: ca_bytes_def)
qed

lemma CertificateRequest_roundtrip:
  assumes wf: "wf_CertificateRequest m"
  shows "bind (CertificateRequest_Marshal m) CertificateRequest_Unmarshal = Ok m"
proof -
  define ts where "ts = cr_CertificateTypes m"
  define as where "as = cr_SignatureHashAlgorithms m"
  define cs where "cs = cr_CertificateAuthoritiesNames m"
  define data where "data = word_of_nat (length ts) # ts @ put_uint16 (word_of_nat (length as * 2))
      @ sig_bytes as @ put_uint16 (word_of_nat (length (ca_bytes cs))) @ ca_bytes cs"
  have raw: "CertificateRequest_Marshal m = Ok data"
  proof -
    have "length (ca_bytes cs) = 0 \<Longrightarrow> ca_bytes cs = []" by simp
    then show ?thesis
      unfolding CertificateRequest_Marshal_def Let_def data_def ts_def as_def
      using length_ca_bytes [of cs] by (auto simp: cs_def [symmetric] sig_bytes_def ca_bytes_def)
  qed
  have wf': "length ts < 256" "set ts \<subseteq> clientcertificate_Types" "length as * 2 < 65536"
      "length (ca_bytes cs) < 65536"
      "\<forall>a \<in> set as. sh_Hash a \<in> hash_Algorithms \<and> sh_Signature a \<in> sig_Algorithms"
    using wf by (simp_all add: wf_CertificateRequest_def ts_def as_def cs_def)
  have n0: "unat (data ! 0) = length ts" using wf' by (simp add: data_def unat_byte_of_nat)
  let ?a1 = "word_of_nat (length ts) # ts"
  let ?a2 = "?a1 @ put_uint16 (word_of_nat (length as * 2))"
  let ?a3 = "?a2 @ sig_bytes as"
  let ?o2 = "1 + length ts + 2"
  have n1: "unat (get_uint16 (drop (1 + length ts) data)) = length as * 2"
    using wf' by (simp add: data_def unat_of_nat del: of_nat_mult)
  have n3: "unat (get_uint16 (drop (?o2 + length as * 2) data)) = length (ca_bytes cs)"
    using drop_eqI [of data ?a3 "put_uint16 (word_of_nat (length (ca_bytes cs))) @ ca_bytes cs"]
      wf' by (simp add: data_def unat_of_nat del: of_nat_mult)
  have d4: "drop (?o2 + length as * 2 + 2) data = ca_bytes cs"
    by (rule drop_eqI [where a = "?a3 @ put_uint16 (word_of_nat (length (ca_bytes cs)))"])
       (simp_all add: data_def)
  have sigs: "CertificateRequest_sigs data ?o2 (length as * 2) 0 [] = Ok as"
    using CertificateRequest_sigs_bytes [OF wf'(5), of ?o2 0 ?a2 "length as * 2"
        "put_uint16 (word_of_nat (length (ca_bytes cs))) @ ca_bytes cs" "[]"]
    by (simp add: data_def)
  have types: "filter (\<lambda>t. t \<in> clientcertificate_Types) (map (\<lambda>i. data ! (1 + i)) [0..<length ts]) = ts"
  proof -
    have "map (\<lambda>i. data ! (1 + i)) [0..<length ts] = ts"
      by (rule nth_equalityI) (auto simp: data_def nth_append)
    then show ?thesis using wf'(2) by (auto simp: filter_id_conv)
  qed
  have l: "length data = ?o2 + length as * 2 + 2 + length (ca_bytes cs)"
    by (simp add: data_def)
  show ?thesis
    unfolding raw bind.simps CertificateRequest_Unmarshal_def Let_def n0 n1 types sigs n3 d4 l
    using CertificateRequest_cas_bytes [OF wf'(4), of "[]"]
    by (simp add: ts_def as_def cs_def)
qed

subsection \<open>The whole handshake message\<close>

fun wf_Message :: "KeyExchangeAlgorithm \<Rightarrow> Message \<Rightarrow> bool" where
  "wf_Message kx (MClientHello m) = wf_ClientHello m"
| "wf_Message kx (MServerHello m) = wf_ServerHello m"
| "wf_Message kx (MHelloVerifyRequest m) = (length (hvr_Cookie m) \<le> 255)"
| "wf_Message kx (MCertificate rs) = (length (concat (map cert_enc rs)) < 2 ^ 24)"
| "wf_Message kx (MServerKeyExchange m) = wf_ServerKeyExchange kx m"
| "wf_Message kx (MCertificateRequest m) = wf_CertificateRequest m"
| "wf_Message kx MServerHelloDone = True"
| "wf_Message kx (MCertificateVerify m) =
     (cv_HashAlgorithm m \<in> hash_Algorithms \<and> cv_SignatureAlgorithm m \<in> sig_Algorithms \<and>
      length (cv_Signature m) < 65536)"
| "wf_Message kx (MClientKeyExchange m) = wf_ClientKeyExchange kx m"
| "wf_Message kx (MFinished v) = True"

lemma hs_Header_Unmarshal_fields:
  "hs_Header_Unmarshal data = Ok h \<Longrightarrow>
   12 \<le> length data \<and> hs_Type h = data ! 0 \<and> hs_Length h = BigEndianUint24 (drop 1 data)"
  by (auto simp: hs_Header_Unmarshal_def split: if_splits)

lemma DecodeCompressionMethods_Ok_length:
  "DecodeCompressionMethods buf = Ok c \<Longrightarrow> buf \<noteq> [] \<and> unat (buf ! 0) < length buf"
proof (cases buf)
  case Nil
  then show "DecodeCompressionMethods buf = Ok c \<Longrightarrow> ?thesis"
    by (simp add: DecodeCompressionMethods_def)
next
  case (Cons n bs)
  then show "DecodeCompressionMethods buf = Ok c \<Longrightarrow> ?thesis"
    by (simp add: DecodeCompressionMethods_eq split: if_splits)
qed

lemma map_res_no_panic: "(\<And>x. f x \<noteq> Panic) \<Longrightarrow> map_res f xs \<noteq> Panic"
  by (induction xs) (auto simp: bind_eq_Panic)

lemma MessageCertificate_loop_no_panic: "MessageCertificate_loop data offset acc \<noteq> Panic"
  by (induction data offset acc rule: MessageCertificate_loop.induct)
     (subst MessageCertificate_loop.simps, auto simp: Let_def)

lemma CertificateRequest_sigs_no_panic: "CertificateRequest_sigs data offset n i acc \<noteq> Panic"
  by (induction data offset n i acc rule: CertificateRequest_sigs.induct)
     (subst CertificateRequest_sigs.simps, auto simp: Let_def)

lemma CertificateRequest_cas_no_panic: "CertificateRequest_cas cas acc \<noteq> Panic"
  by (induction cas acc rule: CertificateRequest_cas.induct)
     (subst CertificateRequest_cas.simps, auto simp: Let_def)

lemmas message_no_panic = MessageCertificate_loop_no_panic CertificateRequest_sigs_no_panic
  CertificateRequest_cas_no_panic

lemma read_opaque8_no_panic: "read_opaque8 data off \<noteq> Panic"
  by (auto simp: read_opaque8_def Let_def)

lemma decodeCipherSuiteIDs_no_panic: "decodeCipherSuiteIDs buf \<noteq> Panic"
  by (auto simp: decodeCipherSuiteIDs_def intro!: map_res_no_panic split: if_splits)

context cryptobyte_spec
begin

lemma Message_roundtrip:
  assumes "wf_Message kx m"
  shows "bind (Message_Marshal cb m) (Message_Unmarshal cb kx (Message_Type m)) = Ok m"
proof (cases m)
  case (MClientHello x)
  then show ?thesis using ClientHello_roundtrip [of x] assms by (auto simp: Message_Unmarshal_def)
next
  case (MServerHello x)
  then show ?thesis using ServerHello_roundtrip [of x] assms by (auto simp: Message_Unmarshal_def)
next
  case (MHelloVerifyRequest x)
  then show ?thesis using HelloVerifyRequest_roundtrip [of x] assms by (auto simp: Message_Unmarshal_def)
next
  case (MCertificate x)
  then show ?thesis using MessageCertificate_roundtrip [of x] assms
    by (auto simp: Message_Unmarshal_def simp del: length_concat)
next
  case (MServerKeyExchange x)
  then show ?thesis using ServerKeyExchange_roundtrip [of kx x] assms by (auto simp: Message_Unmarshal_def)
next
  case (MCertificateRequest x)
  then show ?thesis using CertificateRequest_roundtrip [of x] assms by (auto simp: Message_Unmarshal_def)
next
  case (MCertificateVerify x)
  then show ?thesis using CertificateVerify_roundtrip [of x] assms by (auto simp: Message_Unmarshal_def)
next
  case (MClientKeyExchange x)
  then show ?thesis using ClientKeyExchange_roundtrip [of kx x] assms by (auto simp: Message_Unmarshal_def)
qed (simp_all add: Message_Unmarshal_def ServerHelloDone_Marshal_def ServerHelloDone_Unmarshal_def
  Finished_Marshal_def Finished_Unmarshal_def)

text \<open>A message is read back with the header that \<open>Handshake_Marshal\<close> completed.\<close>

lemma Handshake_roundtrip:
  assumes "hd_Message h = Some m" "wf_Message kx m" "hs_FragmentOffset (hd_Header h) = 0"
    and "Message_Marshal cb m = Ok body" "length body < 2 ^ 24"
  shows "\<exists>raw h'. Handshake_Marshal cb h = Ok (raw, h') \<and> length raw = 12 + length body \<and>
    hs_Length (hd_Header h') = word_of_nat (length body) \<and> hs_Type (hd_Header h') = Message_Type m \<and>
    hs_MessageSequence (hd_Header h') = hs_MessageSequence (hd_Header h) \<and>
    Handshake_Unmarshal cb kx raw = Ok h'"
proof -
  let ?n = "word_of_nat (length body) :: uint32"
  define hdr where "hdr = (hd_Header h)\<lparr>hs_Length := ?n, hs_FragmentLength := ?n, hs_Type := Message_Type m\<rparr>"
  have n: "unat ?n = length body" using assms(5) by (simp add: unat_of_nat)
  have "wf_hs_Header hdr" using assms n by (simp add: wf_hs_Header_def hdr_def)
  moreover obtain hraw where hraw: "hs_Header_Marshal hdr = Ok hraw"
    by (simp add: hs_Header_Marshal_def)
  ultimately have r: "length hraw = 12" "hs_Header_Unmarshal (hraw @ body) = Ok hdr"
    using hs_Header_roundtrip by blast+
  have t: "(hraw @ body) ! 0 = Message_Type m" "BigEndianUint24 (drop 1 (hraw @ body)) = ?n"
    using hs_Header_Unmarshal_fields [OF r(2)] by (simp_all add: hdr_def)
  have u: "Message_Unmarshal cb kx (Message_Type m) body = Ok m"
    using Message_roundtrip [OF assms(2)] assms(4) by simp
  have mm: "Handshake_Marshal cb h = Ok (hraw @ body, h\<lparr>hd_Header := hdr\<rparr>)"
    using assms hraw by (simp add: Handshake_Marshal_def hdr_def Let_def)
  have "Handshake_Unmarshal cb kx (hraw @ body) = Ok (h\<lparr>hd_Header := hdr\<rparr>)"
    unfolding Handshake_Unmarshal_def r bind.simps t Let_def
    using r u assms(1) by (simp add: hdr_def)
  with mm r show ?thesis by (intro exI [of _ "hraw @ body"] exI) (auto simp: hdr_def)
qed

lemma ServerHello_no_panic: "ServerHello_Unmarshal cb data \<noteq> Panic"
  using extension_Unmarshal_no_panic [OF cryptobyte_spec_axioms]
  by (auto simp: ServerHello_Unmarshal_def bind_eq_Panic Let_def read_opaque8_no_panic
      split: option.splits if_splits)

lemma ClientHello_no_panic: "ClientHello_Unmarshal cb data \<noteq> Panic"
proof -
  have comp: "idx data off \<noteq> Panic" "idx data off = Ok n \<Longrightarrow> slice_from data (off + (unat n + 1)) \<noteq> Panic"
    if "DecodeCompressionMethods (drop off data) = Ok c" for off c n
    using DecodeCompressionMethods_Ok_length [OF that]
    by (auto simp: idx_def slice_from_def)
  then show ?thesis
    using extension_Unmarshal_no_panic [OF cryptobyte_spec_axioms]
      DecodeCompressionMethods_no_panic [unfolded panics_iff]
    unfolding ClientHello_Unmarshal_def
    by (auto simp: bind_eq_Panic Let_def read_opaque8_no_panic decodeCipherSuiteIDs_no_panic
        split: if_splits) (metis add_Suc)
qed

lemma Handshake_Unmarshal_panics:
  assumes "Handshake_Unmarshal cb kx data = Panic"
  shows "data ! 0 = TypeServerKeyExchange \<and> ServerKeyExchange_Unmarshal kx (drop 12 data) = Panic \<or>
         data ! 0 = TypeClientKeyExchange \<and> ClientKeyExchange_Unmarshal kx (drop 12 data) = Panic"
proof -
  have "hs_Header_Unmarshal data \<noteq> Panic" by (simp add: hs_Header_Unmarshal_def)
  then have "Message_Unmarshal cb kx (data ! 0) (drop 12 data) = Panic"
    using assms by (auto simp: Handshake_Unmarshal_def bind_eq_Panic Let_def split: if_splits)
  then show ?thesis
    by (auto simp: Message_Unmarshal_def bind_eq_Panic ClientHello_no_panic ServerHello_no_panic
        HelloVerifyRequest_Unmarshal_def MessageCertificate_Unmarshal_def
        CertificateRequest_Unmarshal_def ServerHelloDone_Unmarshal_def Finished_Unmarshal_def
        CertificateVerify_Unmarshal_def Let_def message_no_panic split: if_splits)
qed

end

end
