(* ===== verification/Record_Layer.thy ===== *)
theory Record_Layer
  imports Handshake_Messages
begin

section \<open>Package recordlayer\<close>

text \<open>
  \<^verbatim>\<open>pkg/protocol/recordlayer\<close>: the record header, the record with its content, the split of a
  datagram into records, and the inner plaintext of records with a connection ID.

  A reader gets the receiver as it was (\<^verbatim>\<open>Header.Unmarshal\<close> takes the length of the connection ID
  from it and leaves \<^verbatim>\<open>ContentLen\<close> alone). The lemmas: round trips of header and inner plaintext,
  \<open>unpack_iff\<close> (the split succeeds exactly on concatenations of records), and that the variant
  aware of connection IDs agrees with the plain one when there is no ID.
\<close>

subsection \<open>Header\<close>

record rl_Header =
  rl_ContentType :: ContentType
  rl_ContentLen :: uint16
  rl_Version :: Version
  rl_Epoch :: uint16
  rl_SequenceNumber :: uint64
  rl_ConnectionID :: bytes

abbreviation (input) FixedHeaderSize :: nat where "FixedHeaderSize \<equiv> 13"
abbreviation (input) MaxSequenceNumber :: uint64 where "MaxSequenceNumber \<equiv> 0x0000FFFFFFFFFFFF"

definition rl_Header_Size :: "rl_Header \<Rightarrow> nat" where
  "rl_Header_Size h = FixedHeaderSize + length (rl_ConnectionID h)"

definition rl_Header_Marshal :: "rl_Header \<Rightarrow> bytes res" where
  "rl_Header_Marshal h =
     (if rl_SequenceNumber h > MaxSequenceNumber then Err (Codec ErrSequenceNumberOverflow)
      else Ok ([rl_ContentType h, v_Major (rl_Version h), v_Minor (rl_Version h)]
               @ put_uint16 (rl_Epoch h) @ PutBigEndianUint48 (rl_SequenceNumber h)
               @ rl_ConnectionID h @ put_uint16 (rl_ContentLen h)))"

definition rl_Header_Unmarshal :: "rl_Header \<Rightarrow> bytes \<Rightarrow> rl_Header res" where
  "rl_Header_Unmarshal h data =
     (if length data < FixedHeaderSize then Err (Codec ErrBufferTooSmall)
      else if data ! 0 = ContentTypeConnectionID
           \<and> length data < FixedHeaderSize + length (rl_ConnectionID h)
      then Err (Codec ErrBufferTooSmall)
      else
        let cid = (if data ! 0 = ContentTypeConnectionID
                   then take (length (rl_ConnectionID h)) (drop 11 data) else rl_ConnectionID h);
            version = \<lparr>v_Major = data ! 1, v_Minor = data ! 2\<rparr>;
            h' = h\<lparr>rl_ContentType := data ! 0, rl_ConnectionID := cid, rl_Version := version,
                   rl_Epoch := get_uint16 (drop 3 data),
                   rl_SequenceNumber := get_uint64 ([0, 0] @ take 6 (drop 5 data))\<rparr> in
        if \<not> Version_Equal version Version1_0 \<and> \<not> Version_Equal version Version1_2
        then Err (Codec ErrUnsupportedProtocolVersion)
        else Ok h')"

subsection \<open>Records\<close>

datatype Content =
    ChangeCipherSpecC
  | AlertC Alert
  | HandshakeC Handshake
  | ApplicationDataC bytes

fun Content_ContentType :: "Content \<Rightarrow> ContentType" where
  "Content_ContentType ChangeCipherSpecC = ContentTypeChangeCipherSpec"
| "Content_ContentType (AlertC _) = ContentTypeAlert"
| "Content_ContentType (HandshakeC _) = ContentTypeHandshake"
| "Content_ContentType (ApplicationDataC _) = ContentTypeApplicationData"

text \<open>Marshalling a handshake completes its header, so the content comes back with the bytes.\<close>

fun Content_Marshal :: "'b cryptobyte \<Rightarrow> Content \<Rightarrow> (bytes \<times> Content) res" where
  "Content_Marshal cb ChangeCipherSpecC =
     bind ChangeCipherSpec_Marshal (\<lambda>raw. Ok (raw, ChangeCipherSpecC))"
| "Content_Marshal cb (AlertC a) = bind (Alert_Marshal a) (\<lambda>raw. Ok (raw, AlertC a))"
| "Content_Marshal cb (HandshakeC h) =
     bind (Handshake_Marshal cb h) (\<lambda>(raw, h'). Ok (raw, HandshakeC h'))"
| "Content_Marshal cb (ApplicationDataC d) =
     bind (ApplicationData_Marshal d) (\<lambda>raw. Ok (raw, ApplicationDataC d))"

record RecordLayer =
  rec_Header :: rl_Header
  rec_Content :: Content

definition RecordLayer_Marshal :: "'b cryptobyte \<Rightarrow> RecordLayer \<Rightarrow> (bytes \<times> RecordLayer) res" where
  "RecordLayer_Marshal cb r =
     bind (Content_Marshal cb (rec_Content r)) (\<lambda>(contentRaw, content).
       let hdr = (rec_Header r)\<lparr>rl_ContentLen := word_of_nat (length contentRaw),
                   rl_ContentType := Content_ContentType content\<rparr> in
       bind (rl_Header_Marshal hdr) (\<lambda>headerRaw.
         Ok (headerRaw @ contentRaw, \<lparr>rec_Header = hdr, rec_Content = content\<rparr>)))"

text \<open>
  The receiver is a header; the contents are fresh, so the handshake is read with no key exchange
  algorithm set.
\<close>

definition RecordLayer_Unmarshal :: "'b cryptobyte \<Rightarrow> rl_Header \<Rightarrow> bytes \<Rightarrow> RecordLayer res" where
  "RecordLayer_Unmarshal cb h0 data =
     bind (rl_Header_Unmarshal h0 data) (\<lambda>h.
       let ct = rl_ContentType h;
           rest = slice_from data (rl_Header_Size h + length (rl_ConnectionID h)) in
       if ct = ContentTypeChangeCipherSpec then
         bind rest (\<lambda>d. bind (ChangeCipherSpec_Unmarshal d) (\<lambda>_.
           Ok \<lparr>rec_Header = h, rec_Content = ChangeCipherSpecC\<rparr>))
       else if ct = ContentTypeAlert then
         bind rest (\<lambda>d. bind (Alert_Unmarshal d) (\<lambda>a.
           Ok \<lparr>rec_Header = h, rec_Content = AlertC a\<rparr>))
       else if ct = ContentTypeHandshake then
         bind rest (\<lambda>d. bind (Handshake_Unmarshal cb KeyExchangeAlgorithmNone d) (\<lambda>a.
           Ok \<lparr>rec_Header = h, rec_Content = HandshakeC a\<rparr>))
       else if ct = ContentTypeApplicationData then
         bind rest (\<lambda>d. bind (ApplicationData_Unmarshal d) (\<lambda>a.
           Ok \<lparr>rec_Header = h, rec_Content = ApplicationDataC a\<rparr>))
       else Err (Codec ErrInvalidContentType))"

subsection \<open>Datagrams\<close>

function UnpackDatagram_loop :: "bytes \<Rightarrow> nat \<Rightarrow> bytes list \<Rightarrow> bytes list res" where
  "UnpackDatagram_loop buf offset out =
     (if length buf \<noteq> offset then
        if length buf - offset \<le> FixedHeaderSize then Err (Codec ErrInvalidPacketLength)
        else let pktLen = FixedHeaderSize + unat (get_uint16 (drop (offset + 11) buf)) in
          if offset + pktLen > length buf then Err (Codec ErrInvalidPacketLength)
          else UnpackDatagram_loop buf (offset + pktLen) (out @ [take pktLen (drop offset buf)])
      else Ok out)"
  by pat_completeness auto
termination by (relation "measure (\<lambda>(buf, offset, out). length buf - offset)") auto

definition UnpackDatagram :: "bytes \<Rightarrow> bytes list res" where
  "UnpackDatagram buf = UnpackDatagram_loop buf 0 []"

function ContentAwareUnpackDatagram_loop ::
  "bytes \<Rightarrow> nat \<Rightarrow> nat \<Rightarrow> bytes list \<Rightarrow> bytes list res" where
  "ContentAwareUnpackDatagram_loop buf cidLength offset out =
     (if length buf \<noteq> offset then
        bind (idx buf offset) (\<lambda>ct.
          let headerSize = (if ct = ContentTypeConnectionID then FixedHeaderSize + cidLength
                            else FixedHeaderSize);
              lenIdx = (if ct = ContentTypeConnectionID then 11 + cidLength else 11) in
          if length buf - offset \<le> headerSize then Err (Codec ErrInvalidPacketLength)
          else let pktLen = headerSize + unat (get_uint16 (drop (offset + lenIdx) buf)) in
            if offset + pktLen > length buf then Err (Codec ErrInvalidPacketLength)
            else ContentAwareUnpackDatagram_loop buf cidLength (offset + pktLen)
                   (out @ [take pktLen (drop offset buf)]))
      else Ok out)"
  by pat_completeness auto
termination by (relation "measure (\<lambda>(buf, cidLength, offset, out). length buf - offset)") auto

declare UnpackDatagram_loop.simps [simp del] ContentAwareUnpackDatagram_loop.simps [simp del]

definition ContentAwareUnpackDatagram :: "bytes \<Rightarrow> nat \<Rightarrow> bytes list res" where
  "ContentAwareUnpackDatagram buf cidLength = ContentAwareUnpackDatagram_loop buf cidLength 0 []"

subsection \<open>Inner plaintext\<close>

record InnerPlaintext =
  ip_Content :: bytes
  ip_RealType :: ContentType
  ip_Zeros :: nat

definition InnerPlaintext_Marshal :: "'b cryptobyte \<Rightarrow> InnerPlaintext \<Rightarrow> bytes res" where
  "InnerPlaintext_Marshal cb p =
     cb_Bytes cb (cb_AddBytes cb (replicate (ip_Zeros p) 0)
       (cb_AddUint8 cb (ip_RealType p) (cb_AddBytes cb (ip_Content p) (cb_New cb))))"

text \<open>The downward scan for the last byte that is not zero: its index, or \<open>None\<close> for \<^verbatim>\<open>i = -1\<close>.\<close>

fun ip_scan :: "bytes \<Rightarrow> nat \<Rightarrow> nat option" where
  "ip_scan data 0 = None"
| "ip_scan data (Suc i) = (if data ! i \<noteq> 0 then Some i else ip_scan data i)"

definition InnerPlaintext_Unmarshal :: "bytes \<Rightarrow> InnerPlaintext res" where
  "InnerPlaintext_Unmarshal data =
     (case ip_scan data (length data) of
        None \<Rightarrow> Panic
      | Some i \<Rightarrow>
          if i = 0 then Err (Codec ErrBufferTooSmall)
          else Ok \<lparr>ip_Content = take i data, ip_RealType = data ! i,
                   ip_Zeros = length data - 1 - i\<rparr>)"

subsection \<open>Header round trip\<close>

definition wf_rl_Header :: "rl_Header \<Rightarrow> bool" where
  "wf_rl_Header h \<longleftrightarrow> (rl_Version h = Version1_0 \<or> rl_Version h = Version1_2) \<and>
     rl_SequenceNumber h \<le> MaxSequenceNumber \<and>
     (rl_ContentType h = ContentTypeConnectionID \<or> rl_ConnectionID h = [])"

lemma length_rl_Header_Marshal:
  "rl_Header_Marshal h = Ok raw \<Longrightarrow> length raw = rl_Header_Size h"
  by (auto simp: rl_Header_Marshal_def rl_Header_Size_def split: if_splits)

lemma seq48: "v \<le> MaxSequenceNumber \<Longrightarrow> get_uint64 ([0, 0] @ PutBigEndianUint48 v) = v"
proof -
  assume "v \<le> MaxSequenceNumber"
  then have "unat v \<le> 0xFFFFFFFFFFFF" by (simp add: word_le_nat_alt)
  then have "unat v < 256 ^ 6" by simp
  then show ?thesis by (simp add: get_uint64_def PutBigEndianUint48_be)
qed

lemma rl_Header_roundtrip:
  assumes wf: "wf_rl_Header h" and raw: "rl_Header_Marshal h = Ok raw"
    and len: "length (rl_ConnectionID h0) = length (rl_ConnectionID h)"
  shows "rl_Header_Unmarshal h0 (raw @ rest) = Ok (h\<lparr>rl_ContentLen := rl_ContentLen h0\<rparr>)"
proof -
  have r: "raw = [rl_ContentType h, v_Major (rl_Version h), v_Minor (rl_Version h)]
      @ put_uint16 (rl_Epoch h) @ PutBigEndianUint48 (rl_SequenceNumber h)
      @ rl_ConnectionID h @ put_uint16 (rl_ContentLen h)"
    using raw wf by (simp add: rl_Header_Marshal_def wf_rl_Header_def split: if_splits)
  have v: "Version_Equal (rl_Version h) Version1_0 \<or> Version_Equal (rl_Version h) Version1_2"
    using wf by (auto simp: wf_rl_Header_def Version_Equal_def)
  have s: "get_uint64 (0 # 0 # PutBigEndianUint48 (rl_SequenceNumber h)) = rl_SequenceNumber h"
    using wf seq48 by (simp add: wf_rl_Header_def)
  have e: "\<lparr>v_Major = v_Major (rl_Version h), v_Minor = v_Minor (rl_Version h)\<rparr> = rl_Version h"
    by simp
  have "rl_ContentType h \<noteq> 25 \<Longrightarrow> rl_ConnectionID h0 = rl_ConnectionID h"
    using wf len by (simp add: wf_rl_Header_def)
  then show ?thesis
    using v len by (auto simp: rl_Header_Unmarshal_def r s e Let_def)
qed

lemma rl_Header_Marshal_overflow:
  "rl_SequenceNumber h > MaxSequenceNumber \<longleftrightarrow>
   rl_Header_Marshal h = Err (Codec ErrSequenceNumberOverflow)"
  by (simp add: rl_Header_Marshal_def)

subsection \<open>Splitting datagrams\<close>

text \<open>What one record of a datagram looks like when connection IDs have \<open>cidLength\<close> bytes.\<close>

definition hdr_len :: "nat \<Rightarrow> bytes \<Rightarrow> nat" where
  "hdr_len cidLength r =
     (if r ! 0 = ContentTypeConnectionID then FixedHeaderSize + cidLength else FixedHeaderSize)"

definition is_record :: "nat \<Rightarrow> bytes \<Rightarrow> bool" where
  "is_record cidLength r \<longleftrightarrow> hdr_len cidLength r \<le> length r \<and>
     length r = hdr_len cidLength r + unat (get_uint16 (drop (hdr_len cidLength r - 2) r))"

lemma nth_drop_0: "i < length xs \<Longrightarrow> drop i xs ! 0 = xs ! i"
  by simp

lemma get_uint16_take: "2 \<le> n \<Longrightarrow> get_uint16 (take n xs) = get_uint16 xs"
  by (simp add: get_uint16_def min_def)

lemma ContentAware_loop_step:
  fixes cidLength
  assumes "offset < length buf"
  defines "k \<equiv> hdr_len cidLength (drop offset buf)"
  defines "n \<equiv> k + unat (get_uint16 (drop (offset + (k - 2)) buf))"
  shows "ContentAwareUnpackDatagram_loop buf cidLength offset out =
    (if length buf - offset \<le> k \<or> offset + n > length buf then Err (Codec ErrInvalidPacketLength)
     else ContentAwareUnpackDatagram_loop buf cidLength (offset + n) (out @ [take n (drop offset buf)]))"
proof -
  have k: "k = (if buf ! offset = 25 then 13 + cidLength else 13)"
    using assms(1) by (simp add: k_def hdr_len_def)
  have k2: "(if buf ! offset = 25 then 11 + cidLength else 11) = k - 2" by (simp add: k)
  show ?thesis
    using assms(1) by (subst ContentAwareUnpackDatagram_loop.simps)
      (simp only: idx_Ok bind.simps Let_def k [symmetric] k2 n_def, simp)
qed

lemma ContentAware_loop_take:
  assumes "offset < length buf" "hdr_len c (drop offset buf) = k"
    and "k + unat (get_uint16 (drop (offset + (k - 2)) buf)) = n"
    and "k < length buf - offset" "offset + n \<le> length buf"
  shows "ContentAwareUnpackDatagram_loop buf c offset out =
    ContentAwareUnpackDatagram_loop buf c (offset + n) (out @ [take n (drop offset buf)])"
  using assms ContentAware_loop_step [OF assms(1), of c out] by simp

definition is_datagram :: "nat \<Rightarrow> bytes list \<Rightarrow> bool" where
  "is_datagram cidLength rs \<longleftrightarrow> list_all (is_record cidLength) rs \<and>
     (rs \<noteq> [] \<longrightarrow> hdr_len cidLength (last rs) < length (last rs))"

lemma hdr_len_ge: "13 \<le> hdr_len cidLength r"
  by (simp add: hdr_len_def)

lemma hdr_len_append: "0 < length r \<Longrightarrow> hdr_len cidLength (r @ xs) = hdr_len cidLength r"
  by (simp add: hdr_len_def nth_append)

lemma is_record_first:
  assumes "is_record cidLength r"
  shows "hdr_len cidLength (r @ xs) = hdr_len cidLength r"
    "get_uint16 (drop (hdr_len cidLength r - 2) (r @ xs)) = get_uint16 (drop (hdr_len cidLength r - 2) r)"
proof -
  have l: "13 \<le> hdr_len cidLength r" "hdr_len cidLength r \<le> length r"
    using assms hdr_len_ge by (auto simp: is_record_def)
  then show "hdr_len cidLength (r @ xs) = hdr_len cidLength r" by (intro hdr_len_append) linarith
  have "2 \<le> length (drop (hdr_len cidLength r - 2) r)" using l by simp
  then show "get_uint16 (drop (hdr_len cidLength r - 2) (r @ xs))
      = get_uint16 (drop (hdr_len cidLength r - 2) r)"
    using l by (simp add: get_uint16_def)
qed

lemma is_datagram_Cons:
  "is_datagram c (r # rs) \<longleftrightarrow> is_record c r \<and> is_datagram c rs \<and> (rs = [] \<longrightarrow> hdr_len c r < length r)"
  by (auto simp: is_datagram_def)

lemma unpack_complete:
  "is_datagram c rs \<Longrightarrow>
   ContentAwareUnpackDatagram_loop (pre @ concat rs) c (length pre) out = Ok (out @ rs)"
proof (induction rs arbitrary: pre out)
  case Nil
  then show ?case by (simp add: ContentAwareUnpackDatagram_loop.simps)
next
  case (Cons r rs)
  let ?buf = "pre @ concat (r # rs)"
  have r: "is_record c r" and rs: "is_datagram c rs" and last: "rs = [] \<longrightarrow> hdr_len c r < length r"
    using Cons.prems by (auto simp: is_datagram_Cons)
  have len: "13 \<le> length r" using r hdr_len_ge [of c r] by (simp add: is_record_def)
  have d: "drop (length pre) ?buf = r @ concat rs" by simp
  have h: "hdr_len c (drop (length pre) ?buf) = hdr_len c r"
    unfolding d by (rule is_record_first [OF r])
  have g: "hdr_len c r + unat (get_uint16 (drop (length pre + (hdr_len c r - 2)) ?buf)) = length r"
    using is_record_first(2) [OF r, of "concat rs"] r by (simp add: is_record_def)
  have "hdr_len c r < length r + length (concat rs)"
  proof (cases rs)
    case Nil
    then show ?thesis using last by simp
  next
    case (Cons r' rs')
    then have "13 \<le> length r'" using rs hdr_len_ge [of c r'] by (simp add: is_datagram_Cons is_record_def)
    then have "0 < length (concat rs)" using Cons by auto
    then show ?thesis using r unfolding is_record_def by linarith
  qed
  then have "ContentAwareUnpackDatagram_loop ?buf c (length pre) out
      = ContentAwareUnpackDatagram_loop ?buf c (length pre + length r)
          (out @ [take (length r) (drop (length pre) ?buf)])"
    using len by (intro ContentAware_loop_take [OF _ h g]) (auto simp flip: length_greater_0_conv)
  then show ?case using Cons.IH [OF rs, of "pre @ r" "out @ [r]"] by simp
qed

lemma unpack_sound:
  "offset \<le> length buf \<Longrightarrow> ContentAwareUnpackDatagram_loop buf c offset out = Ok res \<Longrightarrow>
   \<exists>rs. res = out @ rs \<and> concat rs = drop offset buf \<and> is_datagram c rs"
proof (induction "length buf - offset" arbitrary: offset out rule: less_induct)
  case less
  show ?case
  proof (cases "offset = length buf")
    case True
    then show ?thesis using less.prems
      by (auto simp: ContentAwareUnpackDatagram_loop.simps is_datagram_def)
  next
    case False
    then have lt: "offset < length buf" using less.prems by simp
    define k where "k = hdr_len c (drop offset buf)"
    define n where "n = k + unat (get_uint16 (drop (offset + (k - 2)) buf))"
    have k13: "13 \<le> k" by (simp add: k_def hdr_len_ge)
    have ok: "k < length buf - offset" "offset + n \<le> length buf"
      "ContentAwareUnpackDatagram_loop buf c (offset + n) (out @ [take n (drop offset buf)]) = Ok res"
      using less.prems(2) unfolding ContentAware_loop_step [OF lt] k_def [symmetric] n_def [symmetric]
      by (auto split: if_splits)
    have n: "13 \<le> n" "k \<le> n" using k13 by (simp_all add: n_def)
    obtain rs where rs: "res = (out @ [take n (drop offset buf)]) @ rs"
        "concat rs = drop (offset + n) buf" "is_datagram c rs"
    proof -
      have "length buf - (offset + n) < length buf - offset" using n lt by linarith
      from less.hyps [OF this ok(2,3)] that show ?thesis by blast
    qed
    define r where "r = take n (drop offset buf)"
    have lr: "length r = n" using ok(2) by (simp add: r_def)
    have hr: "hdr_len c r = k" using n lt by (simp add: r_def k_def hdr_len_def)
    have "get_uint16 (drop (k - 2) r) = get_uint16 (drop (offset + (k - 2)) buf)"
      using k13 n(2) by (simp add: r_def drop_take get_uint16_take add.commute)
    then have rec: "is_record c r" using lr hr n by (simp add: is_record_def n_def)
    have "concat (r # rs) = drop offset buf"
      by (simp add: rs(2) r_def) (metis add.commute append_take_drop_id drop_drop)
    moreover have "rs = [] \<longrightarrow> hdr_len c r < length r"
      using rs(2) ok hr lr by auto
    ultimately show ?thesis using rs rec
      by (intro exI [of _ "r # rs"]) (simp add: is_datagram_Cons r_def)
  qed
qed

lemma unpack_iff:
  "ContentAwareUnpackDatagram buf c = Ok rs \<longleftrightarrow> concat rs = buf \<and> is_datagram c rs"
  using unpack_complete [of c rs "[]" "[]"] unpack_sound [of 0 buf c "[]" rs]
  by (auto simp: ContentAwareUnpackDatagram_def)

lemma UnpackDatagram_loop_aware:
  "offset \<le> length buf \<Longrightarrow>
   UnpackDatagram_loop buf offset out = ContentAwareUnpackDatagram_loop buf 0 offset out"
proof (induction buf offset out rule: UnpackDatagram_loop.induct)
  case (1 buf offset out)
  show ?case
  proof (cases "offset = length buf")
    case True
    then show ?thesis by (simp add: UnpackDatagram_loop.simps ContentAwareUnpackDatagram_loop.simps)
  next
    case False
    then show ?thesis using 1
      by (subst UnpackDatagram_loop.simps, subst ContentAwareUnpackDatagram_loop.simps)
         (simp add: Let_def)
  qed
qed

lemma UnpackDatagram_aware: "UnpackDatagram buf = ContentAwareUnpackDatagram buf 0"
  by (simp add: UnpackDatagram_def ContentAwareUnpackDatagram_def UnpackDatagram_loop_aware)

lemma ContentAwareUnpackDatagram_total:
  "offset \<le> length buf \<Longrightarrow> ContentAwareUnpackDatagram_loop buf c offset out \<noteq> Panic"
proof (induction "length buf - offset" arbitrary: offset out rule: less_induct)
  case less
  show ?case
  proof (cases "offset = length buf")
    case True
    then show ?thesis by (simp add: ContentAwareUnpackDatagram_loop.simps)
  next
    case False
    then have "offset < length buf" using less.prems by simp
    moreover have "0 < hdr_len c (drop offset buf)" by (simp add: hdr_len_def)
    ultimately show ?thesis
      using less.hyps by (subst ContentAware_loop_step) auto
  qed
qed

subsection \<open>Inner plaintext\<close>

lemma ip_scan_None: "ip_scan data n = None \<longleftrightarrow> (\<forall>i < n. data ! i = 0)"
  by (induction n) (auto simp: less_Suc_eq)

lemma ip_scan_zeros:
  "length pre = n \<Longrightarrow> t \<noteq> 0 \<Longrightarrow> ip_scan (pre @ t # replicate k 0) (n + 1 + j) = Some n" if "j \<le> k"
  using that by (induction j) (auto simp: nth_append)

lemma InnerPlaintext_panics_iff:
  "InnerPlaintext_Unmarshal data = Panic \<longleftrightarrow> (\<forall>b \<in> set data. b = 0)"
  by (auto simp: InnerPlaintext_Unmarshal_def all_set_conv_all_nth ip_scan_None [symmetric]
      split: option.splits)

lemma InnerPlaintext_Unmarshal_enc:
  assumes "ip_RealType p \<noteq> 0"
  shows "InnerPlaintext_Unmarshal (ip_Content p @ ip_RealType p # replicate (ip_Zeros p) 0) =
    (if ip_Content p = [] then Err (Codec ErrBufferTooSmall) else Ok p)"
  using ip_scan_zeros [of "ip_Zeros p" "ip_Zeros p" "ip_Content p" "length (ip_Content p)"
      "ip_RealType p"] assms
  by (simp add: InnerPlaintext_Unmarshal_def)

lemma InnerPlaintext_Marshal_enc:
  assumes "cryptobyte_spec cb"
  shows "InnerPlaintext_Marshal cb p = Ok (ip_Content p @ ip_RealType p # replicate (ip_Zeros p) 0)"
proof -
  have "cb_Bytes cb (cb_AddBytes cb (ip_Content p) (cb_New cb)) = Ok (ip_Content p)"
    using cryptobyte_spec.AddBytes [OF assms cryptobyte_spec.New [OF assms]] by simp
  from cryptobyte_spec.AddBytes [OF assms cryptobyte_spec.AddUint8 [OF assms this]]
  show ?thesis by (simp add: InnerPlaintext_Marshal_def)
qed

end
