(* ===== verification/Prf.thy ===== *)
theory Prf
  imports Crypto_Algorithms
begin

section \<open>Package prf\<close>

text \<open>
  \<^verbatim>\<open>pkg/crypto/prf\<close>: the TLS 1.2 pseudo random function and the secrets made from it. A
  \<^verbatim>\<open>HashFunc\<close> is a record with the digest function, its size and its block size; \<open>hmac\<close> is
  \<^verbatim>\<open>crypto/hmac\<close> over it. Writing to a hash never fails. The curve operations are arguments.

  \<open>PHash_eq_P_hash\<close> shows that the loop computes the function of the RFC, \<open>P_hash\<close>;
  \<open>GenerateEncryptionKeys_partition\<close> that the six keys partition the key material;
  \<open>PSKPreMasterSecret_eq\<close> that the PSK premaster secret has the form the comment gives.
\<close>

record HashFunc =
  hf_Sum :: "bytes \<Rightarrow> bytes"
  hf_Size :: nat
  hf_BlockSize :: nat

definition pad_key :: "HashFunc \<Rightarrow> bytes \<Rightarrow> bytes" where
  "pad_key h key =
     (let k = (if length key > hf_BlockSize h then hf_Sum h key else key) in
      k @ replicate (hf_BlockSize h - length k) 0)"

definition hmac :: "HashFunc \<Rightarrow> bytes \<Rightarrow> bytes \<Rightarrow> bytes" where
  "hmac h key data =
     (let k = pad_key h key in
      hf_Sum h (map (\<lambda>b. b XOR 0x5c) k @ hf_Sum h (map (\<lambda>b. b XOR 0x36) k @ data)))"

definition wf_HashFunc :: "HashFunc \<Rightarrow> bool" where
  "wf_HashFunc h \<longleftrightarrow> 0 < hf_Size h \<and> (\<forall>x. length (hf_Sum h x) = hf_Size h)"

lemma length_hmac: "wf_HashFunc h \<Longrightarrow> length (hmac h key data) = hf_Size h"
  by (simp add: hmac_def wf_HashFunc_def Let_def)

text \<open>The bytes of a Go string literal.\<close>

definition ascii :: "string \<Rightarrow> bytes" where
  "ascii s = map (\<lambda>c. word_of_nat (of_char c)) s"

subsection \<open>The function P\_hash\<close>

fun PHash_loop :: "HashFunc \<Rightarrow> bytes \<Rightarrow> bytes \<Rightarrow> nat \<Rightarrow> bytes \<Rightarrow> bytes \<Rightarrow> bytes" where
  "PHash_loop h secret seed 0 lastRound out = out"
| "PHash_loop h secret seed (Suc n) lastRound out =
     (let lastRound' = hmac h secret lastRound;
          withSecret = hmac h secret (lastRound' @ seed) in
      PHash_loop h secret seed n lastRound' (out @ withSecret))"

definition PHash :: "bytes \<Rightarrow> bytes \<Rightarrow> nat \<Rightarrow> HashFunc \<Rightarrow> bytes res" where
  "PHash secret seed requestedLength h =
     (let iterations = (requestedLength + hf_Size h - 1) div hf_Size h in
      slice (PHash_loop h secret seed iterations seed []) 0 requestedLength)"

definition ExtendedMasterSecret :: "bytes \<Rightarrow> bytes \<Rightarrow> HashFunc \<Rightarrow> bytes res" where
  "ExtendedMasterSecret preMasterSecret sessionHash h =
     PHash preMasterSecret (ascii ''extended master secret'' @ sessionHash) 48 h"

definition MasterSecret :: "bytes \<Rightarrow> bytes \<Rightarrow> bytes \<Rightarrow> HashFunc \<Rightarrow> bytes res" where
  "MasterSecret preMasterSecret clientRandom serverRandom h =
     PHash preMasterSecret (ascii ''master secret'' @ clientRandom @ serverRandom) 48 h"

record EncryptionKeys =
  ek_MasterSecret :: bytes
  ek_ClientMACKey :: bytes
  ek_ServerMACKey :: bytes
  ek_ClientWriteKey :: bytes
  ek_ServerWriteKey :: bytes
  ek_ClientWriteIV :: bytes
  ek_ServerWriteIV :: bytes

definition GenerateEncryptionKeys ::
  "bytes \<Rightarrow> bytes \<Rightarrow> bytes \<Rightarrow> nat \<Rightarrow> nat \<Rightarrow> nat \<Rightarrow> HashFunc \<Rightarrow> EncryptionKeys res" where
  "GenerateEncryptionKeys masterSecret clientRandom serverRandom macLen keyLen ivLen h =
     bind (PHash masterSecret (ascii ''key expansion'' @ serverRandom @ clientRandom)
             (2 * macLen + 2 * keyLen + 2 * ivLen) h) (\<lambda>k0.
     bind (slice k0 0 macLen) (\<lambda>clientMACKey. bind (slice_from k0 macLen) (\<lambda>k1.
     bind (slice k1 0 macLen) (\<lambda>serverMACKey. bind (slice_from k1 macLen) (\<lambda>k2.
     bind (slice k2 0 keyLen) (\<lambda>clientWriteKey. bind (slice_from k2 keyLen) (\<lambda>k3.
     bind (slice k3 0 keyLen) (\<lambda>serverWriteKey. bind (slice_from k3 keyLen) (\<lambda>k4.
     bind (slice k4 0 ivLen) (\<lambda>clientWriteIV. bind (slice_from k4 ivLen) (\<lambda>k5.
     bind (slice k5 0 ivLen) (\<lambda>serverWriteIV.
       Ok \<lparr>ek_MasterSecret = masterSecret, ek_ClientMACKey = clientMACKey,
           ek_ServerMACKey = serverMACKey, ek_ClientWriteKey = clientWriteKey,
           ek_ServerWriteKey = serverWriteKey, ek_ClientWriteIV = clientWriteIV,
           ek_ServerWriteIV = serverWriteIV\<rparr>))))))))))))"

definition prfVerifyData :: "bytes \<Rightarrow> bytes \<Rightarrow> bytes \<Rightarrow> HashFunc \<Rightarrow> bytes res" where
  "prfVerifyData masterSecret handshakeBodies label h =
     PHash masterSecret (label @ hf_Sum h handshakeBodies) 12 h"

definition VerifyDataClient :: "bytes \<Rightarrow> bytes \<Rightarrow> HashFunc \<Rightarrow> bytes res" where
  "VerifyDataClient masterSecret handshakeBodies h =
     prfVerifyData masterSecret handshakeBodies (ascii ''client finished'') h"

definition VerifyDataServer :: "bytes \<Rightarrow> bytes \<Rightarrow> HashFunc \<Rightarrow> bytes res" where
  "VerifyDataServer masterSecret handshakeBodies h =
     prfVerifyData masterSecret handshakeBodies (ascii ''server finished'') h"

subsection \<open>Premaster secrets\<close>

text \<open>\<^verbatim>\<open>PutUint16(out[i:], v)\<close> on a slice: the bytes are replaced, or the bounds check panics.\<close>

definition put_at :: "bytes \<Rightarrow> nat \<Rightarrow> bytes \<Rightarrow> bytes res" where
  "put_at out i bs =
     (if i + length bs \<le> length out then Ok (take i out @ bs @ drop (i + length bs) out) else Panic)"

text \<open>All sizes are computed in \<^verbatim>\<open>uint16\<close>.\<close>

definition PSKPreMasterSecret :: "bytes \<Rightarrow> bytes res" where
  "PSKPreMasterSecret psk =
     (let pskLen = word_of_nat (length psk) :: uint16;
          out = replicate (unat (2 + pskLen + 2)) 0 @ psk in
      bind (put_at out 0 (put_uint16 pskLen)) (\<lambda>out.
        put_at out (unat (2 + pskLen)) (put_uint16 pskLen)))"

text \<open>
  \<open>x25519\<close> is \<^verbatim>\<open>curve25519.X25519\<close>; \<open>unm c\<close> and \<open>mult c\<close> are \<^verbatim>\<open>Unmarshal\<close> and \<^verbatim>\<open>ScalarMult\<close> (its
  first coordinate) on the curve \<open>c\<close> of \<^verbatim>\<open>crypto/elliptic\<close>.
\<close>

record curve_ops =
  co_x25519 :: "bytes \<Rightarrow> bytes \<Rightarrow> bytes res"
  co_unm :: "uint16 \<Rightarrow> bytes \<Rightarrow> (nat \<times> nat) option"
  co_mult :: "uint16 \<Rightarrow> nat \<Rightarrow> nat \<Rightarrow> bytes \<Rightarrow> nat"

text \<open>\<^verbatim>\<open>big.Int.Bytes\<close>: big endian without leading zeros.\<close>

fun nat_Bytes :: "nat \<Rightarrow> bytes" where
  "nat_Bytes n = (if n = 0 then [] else nat_Bytes (n div 256) @ [word_of_nat n])"

declare nat_Bytes.simps [simp del]

definition ellipticCurvePreMasterSecret :: "curve_ops \<Rightarrow> uint16 \<Rightarrow> nat \<Rightarrow> bytes \<Rightarrow> bytes \<Rightarrow> bytes res" where
  "ellipticCurvePreMasterSecret ops c bitSize publicKey privateKey =
     (case co_unm ops c publicKey of
        None \<Rightarrow> Err (Codec ErrInvalidNamedCurve)
      | Some (x, y) \<Rightarrow>
          let n = (bitSize + 7) div 8; resultBytes = nat_Bytes (co_mult ops c x y privateKey) in
          if length resultBytes > n then Panic
          else Ok (replicate (n - length resultBytes) 0 @ resultBytes))"

definition PreMasterSecret :: "curve_ops \<Rightarrow> bytes \<Rightarrow> bytes \<Rightarrow> uint16 \<Rightarrow> bytes res" where
  "PreMasterSecret ops publicKey privateKey curve =
     (if curve = X25519 then co_x25519 ops privateKey publicKey
      else if curve = P256 then ellipticCurvePreMasterSecret ops P256 256 publicKey privateKey
      else if curve = P384 then ellipticCurvePreMasterSecret ops P384 384 publicKey privateKey
      else Err (Codec ErrInvalidNamedCurve))"

definition EcdhePSKPreMasterSecret :: "curve_ops \<Rightarrow> bytes \<Rightarrow> bytes \<Rightarrow> bytes \<Rightarrow> uint16 \<Rightarrow> bytes res" where
  "EcdhePSKPreMasterSecret ops psk publicKey privateKey curve =
     bind (PreMasterSecret ops publicKey privateKey curve) (\<lambda>pms.
       Ok (put_uint16 (word_of_nat (length pms)) @ pms @ put_uint16 (word_of_nat (length psk)) @ psk))"

subsection \<open>Specification of P\_hash\<close>

text \<open>\<open>A(0) = seed\<close>, \<open>A(i) = HMAC(secret, A(i - 1))\<close>, as in the comment of \<^verbatim>\<open>PHash\<close>.\<close>

fun P_A :: "HashFunc \<Rightarrow> bytes \<Rightarrow> bytes \<Rightarrow> nat \<Rightarrow> bytes" where
  "P_A h secret seed 0 = seed"
| "P_A h secret seed (Suc i) = hmac h secret (P_A h secret seed i)"

definition P_hash :: "HashFunc \<Rightarrow> bytes \<Rightarrow> bytes \<Rightarrow> nat \<Rightarrow> bytes" where
  "P_hash h secret seed n =
     concat (map (\<lambda>i. hmac h secret (P_A h secret seed (Suc i) @ seed)) [0..<n])"

lemma PHash_loop_P_hash:
  "PHash_loop h secret seed n (P_A h secret seed k) out =
   out @ concat (map (\<lambda>i. hmac h secret (P_A h secret seed (Suc i) @ seed)) [k..<k + n])"
proof (induction n arbitrary: k out)
  case (Suc n)
  have "[k..<k + Suc n] = k # [Suc k..<Suc k + n]" by (simp add: upt_conv_Cons del: upt_Suc)
  then show ?case using Suc.IH [of "Suc k"] by (simp add: Let_def del: upt_Suc)
qed simp

lemma length_P_hash: "wf_HashFunc h \<Longrightarrow> length (P_hash h secret seed n) = n * hf_Size h"
  by (induction n) (simp_all add: P_hash_def length_hmac)

lemma PHash_eq_P_hash:
  assumes "wf_HashFunc h"
  shows "PHash secret seed n h = Ok (take n (P_hash h secret seed ((n + hf_Size h - 1) div hf_Size h)))"
proof -
  have "PHash_loop h secret seed k seed [] = P_hash h secret seed k" for k
    using PHash_loop_P_hash [of h secret seed k 0 "[]"] by (simp add: P_hash_def)
  moreover have "n \<le> length (P_hash h secret seed ((n + hf_Size h - 1) div hf_Size h))"
    using assms ceil_enough [of "hf_Size h" n] by (simp add: length_P_hash wf_HashFunc_def)
  ultimately show ?thesis by (simp add: PHash_def Let_def)
qed

lemma PHash_length: "wf_HashFunc h \<Longrightarrow> PHash secret seed n h = Ok out \<Longrightarrow> length out = n"
  using ceil_enough [of "hf_Size h" n]
  by (auto simp: PHash_eq_P_hash length_P_hash wf_HashFunc_def)

lemma split_length:
  assumes "length xs = m + n"
  shows "\<exists>a b. xs = a @ b \<and> length a = m \<and> length b = n"
  using assms by (intro exI [of _ "take m xs"] exI [of _ "drop m xs"]) simp

lemma GenerateEncryptionKeys_partition:
  assumes "wf_HashFunc h"
  obtains k where "GenerateEncryptionKeys ms cr sr macLen keyLen ivLen h = Ok k"
    and "PHash ms (ascii ''key expansion'' @ sr @ cr) (2 * macLen + 2 * keyLen + 2 * ivLen) h =
      Ok (ek_ClientMACKey k @ ek_ServerMACKey k @ ek_ClientWriteKey k @ ek_ServerWriteKey k
          @ ek_ClientWriteIV k @ ek_ServerWriteIV k)"
    and "length (ek_ClientMACKey k) = macLen" "length (ek_ServerMACKey k) = macLen"
    and "length (ek_ClientWriteKey k) = keyLen" "length (ek_ServerWriteKey k) = keyLen"
    and "length (ek_ClientWriteIV k) = ivLen" "length (ek_ServerWriteIV k) = ivLen"
proof -
  obtain km where km: "PHash ms (ascii ''key expansion'' @ sr @ cr)
      (2 * macLen + 2 * keyLen + 2 * ivLen) h = Ok km"
    using PHash_eq_P_hash [OF assms] by blast
  have len: "length km = macLen + (macLen + (keyLen + (keyLen + (ivLen + ivLen))))"
    using PHash_length [OF assms km] by linarith
  obtain a r1 where 1: "km = a @ r1" "length a = macLen"
      "length r1 = macLen + (keyLen + (keyLen + (ivLen + ivLen)))"
    using split_length [OF len] by blast
  obtain b r2 where 2: "r1 = b @ r2" "length b = macLen" "length r2 = keyLen + (keyLen + (ivLen + ivLen))"
    using split_length [OF 1(3)] by blast
  obtain c r3 where 3: "r2 = c @ r3" "length c = keyLen" "length r3 = keyLen + (ivLen + ivLen)"
    using split_length [OF 2(3)] by blast
  obtain d r4 where 4: "r3 = d @ r4" "length d = keyLen" "length r4 = ivLen + ivLen"
    using split_length [OF 3(3)] by blast
  obtain e f where 5: "r4 = e @ f" "length e = ivLen" "length f = ivLen"
    using split_length [OF 4(3)] by blast
  define k where "k = \<lparr>ek_MasterSecret = ms, ek_ClientMACKey = a, ek_ServerMACKey = b,
      ek_ClientWriteKey = c, ek_ServerWriteKey = d, ek_ClientWriteIV = e, ek_ServerWriteIV = f\<rparr>"
  have gen: "GenerateEncryptionKeys ms cr sr macLen keyLen ivLen h = Ok k"
    using 1(2) 2(2) 3(2) 4(2) 5(2,3)
    unfolding GenerateEncryptionKeys_def km bind.simps k_def 1(1) 2(1) 3(1) 4(1) 5(1) by simp
  show thesis
    by (rule that [OF gen]) (use km 1 2 3 4 5 in \<open>simp_all add: k_def\<close>)
qed

lemma PSKPreMasterSecret_eq:
  assumes "length psk < 65532"
  shows "PSKPreMasterSecret psk =
    Ok (put_be 2 (length psk) @ replicate (length psk) 0 @ put_be 2 (length psk) @ psk)"
proof -
  let ?n = "word_of_nat (length psk) :: uint16"
  have n: "unat (2 + ?n + 2) = 4 + length psk" "unat (2 + ?n) = 2 + length psk"
    using assms by (simp_all add: unat_word_ariths unat_of_nat)
  have p: "put_uint16 ?n = put_be 2 (length psk)" using assms by (simp add: put_uint16_of_nat)
  have r: "replicate (4 + length psk) (0 :: byte) = [0, 0] @ replicate (length psk) 0 @ [0, 0]"
    by (rule nth_equalityI) (auto simp: nth_append nth_Cons split: nat.splits)
  show ?thesis
    unfolding PSKPreMasterSecret_def Let_def n p r by (simp add: put_at_def)
qed

end
