(* ===== verification/Block_Modes.thy ===== *)
theory Block_Modes
  imports Dtls_Prelude
begin

section \<open>Block ciphers and their modes\<close>

text \<open>
  What the source uses of \<^verbatim>\<open>crypto/cipher\<close>. A keyed block cipher is a record with its two
  directions and its block size; the block function itself (AES) is an argument everywhere. The
  counter mode and the chaining mode are written out: \<^verbatim>\<open>XORKeyStream\<close> adds the encrypted
  counter blocks to the data, \<^verbatim>\<open>CryptBlocks\<close> chains the blocks and panics on a partial one.
  \<open>CBC_roundtrip\<close> and \<open>XORKeyStream_involution\<close> state that decryption undoes encryption.
\<close>

record Block =
  bl_Size :: nat
  bl_Encrypt :: "bytes \<Rightarrow> bytes"
  bl_Decrypt :: "bytes \<Rightarrow> bytes"

definition wf_Block :: "Block \<Rightarrow> bool" where
  "wf_Block b \<longleftrightarrow> 0 < bl_Size b
     \<and> (\<forall>x. length x = bl_Size b \<longrightarrow> length (bl_Encrypt b x) = bl_Size b \<and> bl_Decrypt b (bl_Encrypt b x) = x)"

lemma wf_Block_simps [simp]:
  assumes "wf_Block b"
  shows "0 < bl_Size b"
    and "length x = bl_Size b \<Longrightarrow> length (bl_Encrypt b x) = bl_Size b"
    and "length x = bl_Size b \<Longrightarrow> bl_Decrypt b (bl_Encrypt b x) = x"
  using assms by (simp_all add: wf_Block_def)

definition xor_bytes :: "bytes \<Rightarrow> bytes \<Rightarrow> bytes" where
  "xor_bytes xs ys = map2 (XOR) xs ys"

lemma length_xor_bytes [simp]: "length (xor_bytes xs ys) = min (length xs) (length ys)"
  by (simp add: xor_bytes_def)

lemma xor_bytes_cancel: "length xs \<le> length ys \<Longrightarrow> xor_bytes (xor_bytes xs ys) ys = xs"
  by (rule nth_equalityI) (auto simp: xor_bytes_def xor.assoc)

lemma xor_bytes_cancel_left: "length ys = length xs \<Longrightarrow> xor_bytes xs (xor_bytes xs ys) = ys"
  by (rule nth_equalityI) (auto simp: xor_bytes_def xor.assoc [symmetric])

lemma xor_bytes_zero: "length ys \<le> n \<Longrightarrow> xor_bytes (replicate n 0) ys = ys"
  by (rule nth_equalityI) (auto simp: xor_bytes_def)

lemma xor_bytes_inj:
  "length xs = length zs \<Longrightarrow> length ys = length zs \<Longrightarrow>
   xor_bytes xs zs = xor_bytes ys zs \<longleftrightarrow> xs = ys"
  by (metis order_refl xor_bytes_cancel)

text \<open>\<^verbatim>\<open>copy(dst[i:j], src)\<close> for \<open>i \<le> j \<le> length dst\<close>.\<close>

definition copy_into :: "bytes \<Rightarrow> nat \<Rightarrow> nat \<Rightarrow> bytes \<Rightarrow> bytes" where
  "copy_into dst i j src =
     (let n = min (j - i) (length src) in take i dst @ take n src @ drop (i + n) dst)"

lemma length_copy_into [simp]: "i \<le> j \<Longrightarrow> j \<le> length dst \<Longrightarrow> length (copy_into dst i j src) = length dst"
  by (auto simp: copy_into_def Let_def)

subsection \<open>Counter mode\<close>

text \<open>The counter is the big endian number in the initial block; it wraps at the block size.\<close>

definition ctr_block :: "Block \<Rightarrow> bytes \<Rightarrow> nat \<Rightarrow> bytes" where
  "ctr_block b iv k = bl_Encrypt b (put_be (bl_Size b) (get_be iv + k))"

definition ctr_stream :: "Block \<Rightarrow> bytes \<Rightarrow> nat \<Rightarrow> bytes" where
  "ctr_stream b iv n = concat (map (ctr_block b iv) [0..<(n + bl_Size b - 1) div bl_Size b])"

definition XORKeyStream :: "Block \<Rightarrow> bytes \<Rightarrow> bytes \<Rightarrow> bytes" where
  "XORKeyStream b iv data = xor_bytes data (ctr_stream b iv (length data))"

lemma length_ctr_stream: "wf_Block b \<Longrightarrow> n \<le> length (ctr_stream b iv n)"
proof -
  assume b: "wf_Block b"
  then have "length (ctr_block b iv k) = bl_Size b" for k by (simp add: ctr_block_def)
  then have "length (concat (map (ctr_block b iv) [0..<m])) = m * bl_Size b" for m
    by (induction m) simp_all
  then show ?thesis using b ceil_enough [of "bl_Size b" n] by (simp add: ctr_stream_def)
qed

lemma length_XORKeyStream [simp]: "wf_Block b \<Longrightarrow> length (XORKeyStream b iv data) = length data"
  using length_ctr_stream [of b "length data" iv] by (simp add: XORKeyStream_def)

lemma XORKeyStream_involution: "wf_Block b \<Longrightarrow> XORKeyStream b iv (XORKeyStream b iv data) = data"
  using length_ctr_stream [of b "length data" iv]
  by (simp add: XORKeyStream_def xor_bytes_cancel min_absorb1)

subsection \<open>Chaining mode\<close>

function blocks :: "nat \<Rightarrow> bytes \<Rightarrow> bytes list" where
  "blocks n xs = (if n = 0 \<or> xs = [] then [] else take n xs # blocks n (drop n xs))"
  by auto
termination by (relation "measure (\<lambda>(n, xs). length xs)") auto

declare blocks.simps [simp del]

lemma concat_blocks: "0 < n \<Longrightarrow> concat (blocks n xs) = xs"
  by (induction n xs rule: blocks.induct) (subst blocks.simps, auto)

lemma blocks_append:
  assumes "0 < n" "length b = n" shows "blocks n (b @ xs) = b # blocks n xs"
  using assms by (subst blocks.simps) auto

lemma blocks_concat:
  assumes "0 < n" shows "list_all (\<lambda>b. length b = n) bs \<Longrightarrow> blocks n (concat bs) = bs"
  using assms by (induction bs) (simp_all add: blocks.simps [of n "[]"] blocks_append)

lemma length_in_blocks:
  "0 < n \<Longrightarrow> length xs mod n = 0 \<Longrightarrow> b \<in> set (blocks n xs) \<Longrightarrow> length b = n"
proof (induction n xs rule: blocks.induct)
  case (1 n xs)
  show ?case
  proof (cases "xs = []")
    case False
    then have le: "n \<le> length xs" using 1(3) mod_less [of "length xs" n] by fastforce
    then have "length (drop n xs) mod n = 0" using 1(3) by (simp add: le_mod_geq)
    with 1 False le show ?thesis by (subst (asm) blocks.simps) auto
  qed (use 1 in \<open>simp add: blocks.simps\<close>)
qed

primrec cbc_encrypt :: "Block \<Rightarrow> bytes \<Rightarrow> bytes list \<Rightarrow> bytes list" where
  "cbc_encrypt b iv [] = []"
| "cbc_encrypt b iv (p # ps) = (let c = bl_Encrypt b (xor_bytes iv p) in c # cbc_encrypt b c ps)"

primrec cbc_decrypt :: "Block \<Rightarrow> bytes \<Rightarrow> bytes list \<Rightarrow> bytes list" where
  "cbc_decrypt b iv [] = []"
| "cbc_decrypt b iv (c # cs) = xor_bytes iv (bl_Decrypt b c) # cbc_decrypt b c cs"

definition CryptBlocks_enc :: "Block \<Rightarrow> bytes \<Rightarrow> bytes \<Rightarrow> bytes res" where
  "CryptBlocks_enc b iv src =
     (if length iv \<noteq> bl_Size b \<or> length src mod bl_Size b \<noteq> 0 then Panic
      else Ok (concat (cbc_encrypt b iv (blocks (bl_Size b) src))))"

definition CryptBlocks_dec :: "Block \<Rightarrow> bytes \<Rightarrow> bytes \<Rightarrow> bytes res" where
  "CryptBlocks_dec b iv src =
     (if length iv \<noteq> bl_Size b \<or> length src mod bl_Size b \<noteq> 0 then Panic
      else Ok (concat (cbc_decrypt b iv (blocks (bl_Size b) src))))"

lemma cbc_encrypt_length:
  assumes "wf_Block b"
  shows "length iv = bl_Size b \<Longrightarrow> list_all (\<lambda>p. length p = bl_Size b) ps \<Longrightarrow>
    list_all (\<lambda>c. length c = bl_Size b) (cbc_encrypt b iv ps)
    \<and> length (cbc_encrypt b iv ps) = length ps"
  by (induction ps arbitrary: iv) (simp_all add: Let_def assms)

lemma cbc_decrypt_encrypt:
  assumes "wf_Block b"
  shows "length iv = bl_Size b \<Longrightarrow> list_all (\<lambda>p. length p = bl_Size b) ps \<Longrightarrow>
    cbc_decrypt b iv (cbc_encrypt b iv ps) = ps"
  by (induction ps arbitrary: iv) (simp_all add: Let_def xor_bytes_cancel_left assms)

lemma length_concat_uniform: "list_all (\<lambda>x. length x = n) xs \<Longrightarrow> length (concat xs) = length xs * n"
  by (induction xs) simp_all

lemma CBC_roundtrip:
  assumes "wf_Block b" "length iv = bl_Size b" "length src mod bl_Size b = 0"
  obtains out where "CryptBlocks_enc b iv src = Ok out" "length out = length src"
    "CryptBlocks_dec b iv out = Ok src"
proof -
  let ?n = "bl_Size b" and ?ps = "blocks (bl_Size b) src"
  let ?cs = "cbc_encrypt b iv ?ps"
  have n: "0 < ?n" using assms(1) by simp
  have ps: "list_all (\<lambda>p. length p = ?n) ?ps"
    unfolding list_all_iff by (intro ballI length_in_blocks [OF n assms(3)])
  have cs: "list_all (\<lambda>c. length c = ?n) ?cs" "length ?cs = length ?ps"
    using cbc_encrypt_length [OF assms(1,2) ps] by auto
  have len: "length (concat ?cs) = length src"
    using length_concat_uniform [OF cs(1)] length_concat_uniform [OF ps] cs(2) concat_blocks [OF n, of src]
    by simp
  show thesis
  proof (rule that [of "concat ?cs"])
    show "CryptBlocks_enc b iv src = Ok (concat ?cs)" using assms(2,3) by (simp add: CryptBlocks_enc_def)
    show "CryptBlocks_dec b iv (concat ?cs) = Ok src"
      using assms(2,3) len blocks_concat [OF n cs(1)] cbc_decrypt_encrypt [OF assms(1,2) ps]
        concat_blocks [OF n, of src]
      by (simp add: CryptBlocks_dec_def)
  qed (rule len)
qed

end
