(* ===== verification/Ccm.thy ===== *)
theory Ccm
  imports Block_Modes
begin

section \<open>Package ccm\<close>

text \<open>
  \<^verbatim>\<open>pkg/crypto/ccm/ccm.go\<close>: counter with CBC-MAC over a block cipher. Lengths are Go's 64-bit
  \<^verbatim>\<open>int\<close>. The arrays that the code updates in place are rebuilt by each step; the destination
  of \<^verbatim>\<open>Seal\<close> and \<^verbatim>\<open>Open\<close> is the prefix they append to.

  \<open>tag_reference\<close> shows that the block-wise loops compute the CBC-MAC of the formatted input;
  \<open>Open_iff_Seal\<close> that \<^verbatim>\<open>Open\<close> accepts exactly what \<^verbatim>\<open>Seal\<close> made for the same nonce and data.
\<close>

record ccm =
  ccm_b :: Block
  ccm_M :: byte
  ccm_L :: byte

definition NewCCM :: "Block \<Rightarrow> int \<Rightarrow> int \<Rightarrow> ccm res" where
  "NewCCM b tagsize noncesize =
     (if bl_Size b \<noteq> 16 then Err (Crypto ErrCcmBlockSize)
      else if tagsize < 4 \<or> tagsize > 16 \<or> tagsize AND 1 \<noteq> 0 then Err (Crypto ErrCcmTagSize)
      else let lensize = 15 - noncesize in
        if lensize < 2 \<or> lensize > 8 then Err (Crypto ErrCcmNonceSize)
        else Ok \<lparr>ccm_b = b, ccm_M = word_of_int tagsize, ccm_L = word_of_int lensize\<rparr>)"

definition NonceSize :: "ccm \<Rightarrow> int" where
  "NonceSize c = 15 - uint (ccm_L c)"

definition Overhead :: "ccm \<Rightarrow> int" where
  "Overhead c = uint (ccm_M c)"

text \<open>\<^verbatim>\<open>int\<close> has 64 bits, so the branch for 32-bit platforms is never taken.\<close>

definition maxlen :: "byte \<Rightarrow> int \<Rightarrow> int" where
  "maxlen l tagsize =
     (let max = push_bit (unat (8 * l)) (1 :: uint64) - 1;
          m64 = (0x7fffffffffffffff :: uint64) - word_of_int tagsize in
      sint (if l > 8 \<or> max > m64 then m64 else max))"

definition MaxLength :: "ccm \<Rightarrow> int" where
  "MaxLength c = maxlen (ccm_L c) (Overhead c)"

definition MaxNonceLength :: "int \<Rightarrow> int" where
  "MaxNonceLength pdatalen =
     (case find (\<lambda>L. maxlen (word_of_nat L) 16 \<ge> pdatalen) [2, 3, 4, 5, 6, 7, 8] of
        Some L \<Rightarrow> 15 - int L | None \<Rightarrow> 0)"

definition cbcRound :: "ccm \<Rightarrow> bytes \<Rightarrow> bytes \<Rightarrow> bytes" where
  "cbcRound c mac data = bl_Encrypt (ccm_b c) (xor_bytes mac data)"

fun cbcData :: "ccm \<Rightarrow> bytes \<Rightarrow> bytes \<Rightarrow> bytes" where
  "cbcData c mac data =
     (if 16 \<le> length data then cbcData c (cbcRound c mac (take 16 data)) (drop 16 data)
      else if 0 < length data then cbcRound c mac (data @ replicate (16 - length data) 0)
      else mac)"

declare cbcData.simps [simp del]

text \<open>The first block of the MAC, and the block that starts the additional data.\<close>

definition tag_block0 :: "ccm \<Rightarrow> bytes \<Rightarrow> nat \<Rightarrow> nat \<Rightarrow> bytes" where
  "tag_block0 c nonce plen alen =
     (let m0 = (if 0 < alen then push_bit 6 1 else 0) OR push_bit 2 (ccm_M c - 2) OR (ccm_L c - 1);
          mac = m0 # replicate 7 0 @ put_be 8 plen in
      copy_into mac 1 (16 - unat (ccm_L c)) nonce)"

definition adata_length :: "nat \<Rightarrow> bytes" where
  "adata_length n =
     (if n \<le> 0xfeff then put_be 2 n
      else if n < 2 ^ 32 then [0xfe, 0xff] @ put_be 4 n
      else [0xfe, 0xff] @ put_be 8 n)"

definition ccm_tag :: "ccm \<Rightarrow> bytes \<Rightarrow> bytes \<Rightarrow> bytes \<Rightarrow> bytes res" where
  "ccm_tag c nonce plaintext adata =
     (if int (length nonce) \<noteq> NonceSize c then Err (Crypto ErrCcmNonceSize)
      else if int (length plaintext) > MaxLength c then Err (Crypto ErrPlaintextTooLong)
      else let mac = bl_Encrypt (ccm_b c) (tag_block0 c nonce (length plaintext) (length adata));
               mac = (if 0 < length adata
                      then let hdr = adata_length (length adata);
                               i = min (16 - length hdr) (length adata);
                               block = hdr @ take i adata @ replicate (16 - length hdr - i) 0 in
                           cbcData c (cbcRound c mac block) (drop i adata)
                      else mac);
               mac = (if 0 < length plaintext then cbcData c mac plaintext else mac) in
        Ok (take (unat (ccm_M c)) mac))"

definition ccm_iv :: "ccm \<Rightarrow> bytes \<Rightarrow> bytes" where
  "ccm_iv c nonce = copy_into ((ccm_L c - 1) # replicate 15 0) 1 (16 - unat (ccm_L c)) nonce"

definition Seal :: "ccm \<Rightarrow> bytes \<Rightarrow> bytes \<Rightarrow> bytes \<Rightarrow> bytes \<Rightarrow> bytes res" where
  "Seal c dst nonce plaintext adata =
     (case ccm_tag c nonce plaintext adata of
        Ok tag \<Rightarrow>
          let iv = ccm_iv c nonce;
              s0 = bl_Encrypt (ccm_b c) iv;
              tag = xor_bytes tag s0;
              iv = iv[15 := iv ! 15 OR 1] in
          Ok (dst @ XORKeyStream (ccm_b c) iv plaintext @ tag)
      | _ \<Rightarrow> Panic)"

definition Open :: "ccm \<Rightarrow> bytes \<Rightarrow> bytes \<Rightarrow> bytes \<Rightarrow> bytes \<Rightarrow> bytes res" where
  "Open c dst nonce ciphertext adata =
     (if int (length ciphertext) < Overhead c then Err (Crypto ErrCiphertextTooShort)
      else if int (length ciphertext) > MaxLength c + Overhead c then Err (Crypto ErrCiphertextTooLong)
      else let n = length ciphertext - unat (ccm_M c);
               tag = drop n ciphertext;
               ciphertextWithoutTag = take n ciphertext;
               iv = ccm_iv c nonce;
               s0 = bl_Encrypt (ccm_b c) iv;
               tag = xor_bytes tag s0;
               iv = iv[15 := iv ! 15 OR 1];
               plaintext = XORKeyStream (ccm_b c) iv ciphertextWithoutTag in
        bind (ccm_tag c nonce plaintext adata) (\<lambda>expectedTag.
          if tag \<noteq> expectedTag then Err (Crypto ErrOpen) else Ok (dst @ plaintext)))"

subsection \<open>Invariant\<close>

definition wf_ccm :: "ccm \<Rightarrow> bool" where
  "wf_ccm c \<longleftrightarrow> wf_Block (ccm_b c) \<and> bl_Size (ccm_b c) = 16 \<and> 4 \<le> unat (ccm_M c)
     \<and> unat (ccm_M c) \<le> 16 \<and> 2 \<le> unat (ccm_L c) \<and> unat (ccm_L c) \<le> 8"

lemma NewCCM_wf:
  assumes "wf_Block b" "NewCCM b tagsize noncesize = Ok c"
  shows "wf_ccm c \<and> NonceSize c = noncesize \<and> Overhead c = tagsize"
proof -
  define l where "l = 15 - noncesize"
  have t: "4 \<le> tagsize" "tagsize \<le> 16" and l: "2 \<le> l" "l \<le> 8"
    and c: "c = \<lparr>ccm_b = b, ccm_M = word_of_int tagsize, ccm_L = word_of_int l\<rparr>"
    and b: "bl_Size b = 16"
    using assms(2) by (simp_all add: NewCCM_def Let_def l_def [symmetric] split: if_splits)
  have "uint (word_of_int tagsize :: byte) = tagsize" "uint (word_of_int l :: byte) = l"
    using t l by (simp_all add: uint_word_of_int)
  then show ?thesis using t l b assms(1) l_def
    by (auto simp: wf_ccm_def c NonceSize_def Overhead_def unat_eq_nat_uint)
qed

lemma length_ccm_iv [simp]: "wf_ccm c \<Longrightarrow> length (ccm_iv c nonce) = 16"
  unfolding ccm_iv_def wf_ccm_def by (subst length_copy_into) auto

lemma length_tag_block0 [simp]: "wf_ccm c \<Longrightarrow> length (tag_block0 c nonce p a) = 16"
  unfolding tag_block0_def wf_ccm_def Let_def by (subst length_copy_into) auto

lemma length_adata_length: "length (adata_length n) \<in> {2, 6, 10}"
  by (simp add: adata_length_def)

lemma length_Encrypt16: "wf_ccm c \<Longrightarrow> length x = 16 \<Longrightarrow> length (bl_Encrypt (ccm_b c) x) = 16"
  by (simp add: wf_ccm_def)

lemma length_cbcRound:
  "wf_ccm c \<Longrightarrow> length mac = 16 \<Longrightarrow> length data = 16 \<Longrightarrow> length (cbcRound c mac data) = 16"
  by (simp add: cbcRound_def length_Encrypt16)

lemma length_cbcData: "wf_ccm c \<Longrightarrow> length mac = 16 \<Longrightarrow> length (cbcData c mac data) = 16"
proof (induction c mac data rule: cbcData.induct)
  case (1 c mac data)
  then show ?case by (subst cbcData.simps) (simp add: length_cbcRound)
qed

subsection \<open>The tag is a CBC-MAC\<close>

definition pad16 :: "bytes \<Rightarrow> bytes" where
  "pad16 xs = xs @ replicate ((16 - length xs mod 16) mod 16) 0"

definition cbc_mac :: "(bytes \<Rightarrow> bytes) \<Rightarrow> bytes \<Rightarrow> bytes \<Rightarrow> bytes" where
  "cbc_mac E mac bs = foldl (\<lambda>m b. E (xor_bytes m b)) mac (blocks 16 bs)"

lemma cbc_mac_append:
  "length b = 16 \<Longrightarrow> cbc_mac E mac (b @ bs) = cbc_mac E (E (xor_bytes mac b)) bs"
  by (simp add: cbc_mac_def blocks_append)

lemma cbc_mac_Nil: "cbc_mac E mac [] = mac"
  by (simp add: cbc_mac_def blocks.simps)

lemma pad16_step: "length b = 16 \<Longrightarrow> pad16 (b @ bs) = b @ pad16 bs"
  by (simp add: pad16_def)

lemma cbcData_reference: "cbcData c mac data = cbc_mac (bl_Encrypt (ccm_b c)) mac (pad16 data)"
proof (induction c mac data rule: cbcData.induct)
  case (1 c mac data)
  show ?case
  proof (cases "16 \<le> length data")
    case True
    have "pad16 data = take 16 data @ pad16 (drop 16 data)"
      using pad16_step [of "take 16 data" "drop 16 data"] True by simp
    with True 1 show ?thesis by (subst cbcData.simps) (simp add: cbc_mac_append cbcRound_def)
  next
    case False
    show ?thesis
    proof (cases "data = []")
      case False
      with \<open>\<not> 16 \<le> length data\<close>
      have "pad16 data = (data @ replicate (16 - length data) 0) @ []" by (simp add: pad16_def)
      with False \<open>\<not> 16 \<le> length data\<close> show ?thesis
        by (subst cbcData.simps) (simp add: cbc_mac_append [where bs = "[]", simplified] cbc_mac_Nil cbcRound_def)
    qed (simp add: cbcData.simps pad16_def cbc_mac_Nil)
  qed
qed

lemma cbc_mac_append_pad16:
  "length as mod 16 = 0 \<Longrightarrow> cbc_mac E mac (as @ bs) = cbc_mac E (cbc_mac E mac as) bs"
proof (induction "length as" arbitrary: as mac rule: less_induct)
  case less
  show ?case
  proof (cases "as = []")
    case False
    then have le: "16 \<le> length as" using less.prems mod_less [of "length as" 16] by fastforce
    then have "length (drop 16 as) mod 16 = 0" using less.prems by (simp add: le_mod_geq)
    then have "cbc_mac E m (drop 16 as @ bs) = cbc_mac E (cbc_mac E m (drop 16 as)) bs" for m
      using less.hyps le by simp
    then show ?thesis
      using le cbc_mac_append [of "take 16 as" E mac "drop 16 as @ bs"]
        cbc_mac_append [of "take 16 as" E mac "drop 16 as"]
      by (simp flip: append_assoc)
  qed (simp add: cbc_mac_Nil)
qed

text \<open>The formatted input of RFC 3610: the first block, the additional data, the message.\<close>

definition ccm_format :: "ccm \<Rightarrow> bytes \<Rightarrow> bytes \<Rightarrow> bytes \<Rightarrow> bytes" where
  "ccm_format c nonce plaintext adata =
     tag_block0 c nonce (length plaintext) (length adata)
     @ (if adata = [] then [] else pad16 (adata_length (length adata) @ adata)) @ pad16 plaintext"

lemma length_pad16_mod: "length (pad16 xs) mod 16 = 0"
proof -
  let ?n = "length xs"
  have r: "?n mod 16 < 16" "16 * (?n div 16) + ?n mod 16 = ?n" by simp_all
  define q r where "q = ?n div 16" and "r = ?n mod 16"
  have "?n + (16 - r) = 16 * (q + 1)" using r unfolding q_def [symmetric] r_def [symmetric] by simp
  then have "(?n + (16 - r)) mod 16 = 0" by (simp only: mod_mult_self1_is_0)
  then show ?thesis by (simp only: pad16_def r_def length_append length_replicate mod_add_right_eq)
qed

lemma adata_first_block:
  fixes adata :: bytes
  assumes "length hdr \<le> 10" "hdr \<noteq> []"
  defines "i \<equiv> min (16 - length hdr) (length adata)"
  shows "cbcData c (cbcRound c mac (hdr @ take i adata @ replicate (16 - length hdr - i) 0)) (drop i adata)
    = cbcData c mac (hdr @ adata)"
proof (cases "16 \<le> length (hdr @ adata)")
  case True
  then show ?thesis using assms by (subst (2) cbcData.simps) (auto simp: min_def)
next
  case False
  then show ?thesis using assms
    by (subst (2) cbcData.simps) (auto simp: min_def cbcData.simps [of _ _ "[]"])
qed

lemma tag_reference:
  assumes "wf_ccm c" "int (length nonce) = NonceSize c" "int (length plaintext) \<le> MaxLength c"
  shows "ccm_tag c nonce plaintext adata =
    Ok (take (unat (ccm_M c))
      (cbc_mac (bl_Encrypt (ccm_b c)) (replicate 16 0) (ccm_format c nonce plaintext adata)))"
proof -
  let ?E = "bl_Encrypt (ccm_b c)" and ?hdr = "adata_length (length adata)"
  let ?B = "tag_block0 c nonce (length plaintext) (length adata)"
  let ?A = "if adata = [] then [] else pad16 (?hdr @ adata)"
  have hdr: "length ?hdr \<le> 10" "?hdr \<noteq> []" using length_adata_length [of "length adata"] by auto
  have "cbc_mac ?E (replicate 16 0) (?B @ ?A @ pad16 plaintext) = cbc_mac ?E (?E ?B) (?A @ pad16 plaintext)"
    using assms(1) by (simp add: cbc_mac_append xor_bytes_zero)
  also have "\<dots> = cbc_mac ?E (cbc_mac ?E (?E ?B) ?A) (pad16 plaintext)"
    by (rule cbc_mac_append_pad16) (simp add: length_pad16_mod)
  also have "cbc_mac ?E (?E ?B) ?A = (if adata = [] then ?E ?B else cbcData c (?E ?B) (?hdr @ adata))"
    by (simp add: cbcData_reference cbc_mac_Nil)
  finally have fin: "cbc_mac ?E (replicate 16 0) (ccm_format c nonce plaintext adata) =
      cbcData c (if adata = [] then ?E ?B else cbcData c (?E ?B) (?hdr @ adata)) plaintext"
    by (simp only: ccm_format_def cbcData_reference)
  have if_Nil: "(if 0 < length p then cbcData c m p else m) = cbcData c m p" for m p
    by (cases p) (simp_all add: cbcData.simps [of _ _ "[]"])
  have guards: "\<not> int (length nonce) \<noteq> NonceSize c" "\<not> int (length plaintext) > MaxLength c"
    using assms(2,3) by simp_all
  show ?thesis
  proof (cases "adata = []")
    case True
    then show ?thesis unfolding ccm_tag_def Let_def if_Nil fin by (simp add: guards)
  next
    case False
    then show ?thesis
      unfolding ccm_tag_def Let_def if_Nil fin adata_first_block [OF hdr] by (simp add: guards)
  qed
qed

subsection \<open>Sealing and opening\<close>

lemma ccm_tag_bounds:
  "ccm_tag c nonce p a = Ok t \<Longrightarrow> int (length nonce) = NonceSize c \<and> int (length p) \<le> MaxLength c"
  by (auto simp: ccm_tag_def split: if_splits)

lemma ccm_tag_length: "wf_ccm c \<Longrightarrow> ccm_tag c nonce p a = Ok t \<Longrightarrow> length t = unat (ccm_M c)"
proof -
  assume c: "wf_ccm c" and t: "ccm_tag c nonce p a = Ok t"
  have "length (cbc_mac (bl_Encrypt (ccm_b c)) (replicate 16 0) (pad16 xs)) = 16" for xs
    using length_cbcData [OF c, of "replicate 16 0" xs] by (simp add: cbcData_reference)
  moreover have "16 dvd length (ccm_format c nonce p a)"
    unfolding ccm_format_def length_append length_tag_block0 [OF c]
    by (intro dvd_add) (simp_all add: length_pad16_mod dvd_eq_mod_eq_0)
  then have "pad16 (ccm_format c nonce p a) = ccm_format c nonce p a"
    by (simp add: pad16_def dvd_eq_mod_eq_0)
  ultimately have "length (cbc_mac (bl_Encrypt (ccm_b c)) (replicate 16 0) (ccm_format c nonce p a)) = 16"
    by metis
  then show ?thesis
    using tag_reference [OF c] ccm_tag_bounds [OF t] t c by (auto simp: wf_ccm_def)
qed

lemma Seal_eq:
  "Seal c dst nonce p adata = Ok ct \<longleftrightarrow>
   (\<exists>t. ccm_tag c nonce p adata = Ok t
      \<and> ct = dst @ XORKeyStream (ccm_b c) ((ccm_iv c nonce)[15 := ccm_iv c nonce ! 15 OR 1]) p
              @ xor_bytes t (bl_Encrypt (ccm_b c) (ccm_iv c nonce)))"
  by (auto simp: Seal_def Let_def split: res.splits)

lemma Open_iff_Seal:
  assumes c: "wf_ccm c"
  shows "Open c dst nonce ct adata = Ok r \<longleftrightarrow>
    (\<exists>p. r = dst @ p \<and> Seal c [] nonce p adata = Ok ct)"
proof -
  let ?b = "ccm_b c" and ?M = "unat (ccm_M c)"
  let ?iv = "(ccm_iv c nonce)[15 := ccm_iv c nonce ! 15 OR 1]"
  let ?s0 = "bl_Encrypt ?b (ccm_iv c nonce)"
  have b: "wf_Block ?b" and M: "?M \<le> 16" and s0: "length ?s0 = 16"
    using c by (simp_all add: wf_ccm_def length_Encrypt16)
  have O: "Overhead c = int ?M" by (simp add: Overhead_def)
  show ?thesis
  proof
    assume ok: "Open c dst nonce ct adata = Ok r"
    define n where "n = length ct - ?M"
    let ?p = "XORKeyStream ?b ?iv (take n ct)" and ?t = "xor_bytes (drop n ct) ?s0"
    have m: "\<not> int (length ct) < uint (ccm_M c)" and tag: "ccm_tag c nonce ?p adata = Ok ?t" and r: "r = dst @ ?p"
      using ok by (auto simp: Open_def Let_def O n_def split: if_splits)
    have le: "?M \<le> length ct" using m O Overhead_def [of c] by linarith
    have "XORKeyStream ?b ?iv ?p @ xor_bytes ?t ?s0 = ct"
      using b M s0 le by (simp add: XORKeyStream_involution xor_bytes_cancel n_def)
    with tag r show "\<exists>p. r = dst @ p \<and> Seal c [] nonce p adata = Ok ct"
      unfolding Seal_eq by (intro exI [of _ ?p]) auto
  next
    assume "\<exists>p. r = dst @ p \<and> Seal c [] nonce p adata = Ok ct"
    then obtain p t where r: "r = dst @ p" and tag: "ccm_tag c nonce p adata = Ok t"
      and ct: "ct = XORKeyStream ?b ?iv p @ xor_bytes t ?s0"
      unfolding Seal_eq by auto
    have t: "length t = ?M" using ccm_tag_length [OF c tag] .
    then have n: "length ct = length p + ?M" using b M s0 by (simp add: ct)
    have "take (length p) ct = XORKeyStream ?b ?iv p" "drop (length p) ct = xor_bytes t ?s0"
      using b by (simp_all add: ct)
    then show "Open c dst nonce ct adata = Ok r"
      using ccm_tag_bounds [OF tag] n tag t b M s0 r
      by (simp add: Open_def Let_def O XORKeyStream_involution xor_bytes_cancel)
  qed
qed

end
