(* ===== verification/Record_Protection.thy ===== *)
theory Record_Protection
  imports Record_Layer Prf Ccm
begin

section \<open>Record protection\<close>

text \<open>
  \<^verbatim>\<open>pkg/crypto/ciphersuite\<close>: what the three kinds of cipher do to a record. \<^verbatim>\<open>Encrypt\<close> takes the
  header of the packet and its raw bytes; the random bytes it draws (the initialisation vector
  or the explicit nonce) are an argument. AES is an argument \<open>aes\<close> that returns the keyed block
  cipher or \<open>None\<close> for a bad key size; Galois counter mode is the argument \<open>newGCM\<close>. The mode
  objects of \<^verbatim>\<open>crypto/cipher\<close> get a fresh vector before every use, so they carry no state.

  \<open>examinePadding_eq\<close> relates the constant time padding check to its meaning, and the round trip
  lemmas say that the peer's \<^verbatim>\<open>Decrypt\<close> returns the payload that was encrypted. The locale \<open>aead\<close>
  is what the record code needs of an authenticated cipher; \<open>ccm_cipher\<close> gives it for the
  repository's own CCM.
\<close>

abbreviation (input) seqNumPlaceholder :: uint64 where "seqNumPlaceholder \<equiv> 0xffffffffffffffff"

definition generateAEADAdditionalData :: "rl_Header \<Rightarrow> int \<Rightarrow> bytes" where
  "generateAEADAdditionalData h payloadLen =
     put_uint16 (rl_Epoch h) @ drop 2 (put_uint64 (rl_SequenceNumber h))
     @ [rl_ContentType h, v_Major (rl_Version h), v_Minor (rl_Version h)]
     @ put_uint16 (word_of_int payloadLen)"

definition cid_prefix ::
  "'b cryptobyte \<Rightarrow> uint16 \<Rightarrow> uint64 \<Rightarrow> Version \<Rightarrow> bytes \<Rightarrow> int \<Rightarrow> 'b" where
  "cid_prefix cb epoch sequenceNumber version cid payloadLen =
     cb_AddUint16 cb (word_of_int payloadLen)
      (cb_AddBytes cb cid
       (AddUint48 cb sequenceNumber
        (cb_AddUint16 cb epoch
         (cb_AddUint8 cb (v_Minor version)
          (cb_AddUint8 cb (v_Major version)
           (cb_AddUint8 cb ContentTypeConnectionID
            (cb_AddUint8 cb (word_of_nat (length cid))
             (cb_AddUint8 cb ContentTypeConnectionID
              (cb_AddUint64 cb seqNumPlaceholder (cb_New cb))))))))))"

definition generateAEADAdditionalDataCID :: "'b cryptobyte \<Rightarrow> rl_Header \<Rightarrow> int \<Rightarrow> bytes res" where
  "generateAEADAdditionalDataCID cb h payloadLen =
     cb_BytesOrPanic cb
       (cid_prefix cb (rl_Epoch h) (rl_SequenceNumber h) (rl_Version h) (rl_ConnectionID h) payloadLen)"

definition additionalData :: "'b cryptobyte \<Rightarrow> rl_Header \<Rightarrow> int \<Rightarrow> bytes res" where
  "additionalData cb h payloadLen =
     (if rl_ContentType h = ContentTypeConnectionID then generateAEADAdditionalDataCID cb h payloadLen
      else Ok (generateAEADAdditionalData h payloadLen))"

subsection \<open>The padding check\<close>

text \<open>\<^verbatim>\<open>byte(int32(^t) >> 31)\<close>: all ones when bit 31 of \<open>t\<close> is clear, else zero.\<close>

definition msb_mask :: "uint64 \<Rightarrow> byte" where
  "msb_mask t = ucast (signed_drop_bit 31 (ucast (NOT t) :: uint32))"

fun examinePadding_loop :: "bytes \<Rightarrow> byte \<Rightarrow> nat \<Rightarrow> nat \<Rightarrow> byte \<Rightarrow> byte" where
  "examinePadding_loop payload paddingLen i 0 good = good"
| "examinePadding_loop payload paddingLen i (Suc n) good =
     (let t = ucast paddingLen - word_of_nat i;
          mask = msb_mask t;
          b = payload ! (length payload - 1 - i) in
      examinePadding_loop payload paddingLen (Suc i) n
        (good AND NOT ((mask AND paddingLen) XOR (mask AND b))))"

definition examinePadding :: "bytes \<Rightarrow> nat \<times> byte" where
  "examinePadding payload =
     (if length payload < 1 then (0, 0)
      else
        let paddingLen = payload ! (length payload - 1);
            t = word_of_nat (length payload - 1) - ucast paddingLen;
            good = msb_mask t;
            toCheck = (if 256 > length payload then length payload else 256);
            good = examinePadding_loop payload paddingLen 0 toCheck good;
            good = good AND push_bit 4 good;
            good = good AND push_bit 2 good;
            good = good AND push_bit 1 good;
            good = signed_drop_bit 7 good in
        (unat paddingLen + 1, good))"

subsection \<open>CBC\<close>

record CBC =
  cbc_writeCBC :: Block
  cbc_readCBC :: Block
  cbc_writeMac :: bytes
  cbc_readMac :: bytes
  cbc_h :: HashFunc

definition NewCBC ::
  "(bytes \<Rightarrow> Block option) \<Rightarrow> bytes \<Rightarrow> bytes \<Rightarrow> bytes \<Rightarrow> bytes \<Rightarrow> bytes \<Rightarrow> bytes \<Rightarrow> HashFunc \<Rightarrow> CBC res"
where
  "NewCBC aes localKey localWriteIV localMac remoteKey remoteWriteIV remoteMac h =
     (case aes localKey of None \<Rightarrow> Err (ErrOther 0) | Some writeBlock \<Rightarrow>
      case aes remoteKey of None \<Rightarrow> Err (ErrOther 0) | Some readBlock \<Rightarrow>
        if length localWriteIV \<noteq> bl_Size writeBlock \<or> length remoteWriteIV \<noteq> bl_Size readBlock then Panic
        else Ok \<lparr>cbc_writeCBC = writeBlock, cbc_readCBC = readBlock, cbc_writeMac = localMac,
                 cbc_readMac = remoteMac, cbc_h = h\<rparr>)"

definition cbc_hmac :: "uint16 \<Rightarrow> uint64 \<Rightarrow> byte \<Rightarrow> Version \<Rightarrow> bytes \<Rightarrow> bytes \<Rightarrow> HashFunc \<Rightarrow> bytes" where
  "cbc_hmac epoch sequenceNumber contentType version payload key h =
     (let msg = put_uint16 epoch @ PutBigEndianUint48 sequenceNumber
                @ [contentType, v_Major version, v_Minor version]
                @ put_uint16 (word_of_nat (length payload)) in
      hmac h key (msg @ payload))"

definition hmacCID ::
  "'b cryptobyte \<Rightarrow> uint16 \<Rightarrow> uint64 \<Rightarrow> Version \<Rightarrow> bytes \<Rightarrow> bytes \<Rightarrow> HashFunc \<Rightarrow> bytes \<Rightarrow> bytes res" where
  "hmacCID cb epoch sequenceNumber version payload key h cid =
     bind (InnerPlaintext_Unmarshal payload) (\<lambda>ip.
     bind (cb_BytesOrPanic cb
            (cb_AddBytes cb (replicate (ip_Zeros ip) 0)
             (cb_AddUint8 cb (ip_RealType ip)
              (cb_AddBytes cb (ip_Content ip)
               (cid_prefix cb epoch sequenceNumber version cid (int (length payload))))))) (\<lambda>msg.
       Ok (hmac h key (msg @ payload))))"

definition cbc_mac_for :: "'b cryptobyte \<Rightarrow> rl_Header \<Rightarrow> bytes \<Rightarrow> bytes \<Rightarrow> HashFunc \<Rightarrow> bytes res" where
  "cbc_mac_for cb h payload key hf =
     (if rl_ContentType h = ContentTypeConnectionID
      then hmacCID cb (rl_Epoch h) (rl_SequenceNumber h) (rl_Version h) payload key hf (rl_ConnectionID h)
      else Ok (cbc_hmac (rl_Epoch h) (rl_SequenceNumber h) (rl_ContentType h) (rl_Version h) payload key hf))"

text \<open>\<^verbatim>\<open>PutUint16(raw[Size-2:], len(raw)-Size)\<close>: the length field of the header.\<close>

definition set_length :: "nat \<Rightarrow> bytes \<Rightarrow> bytes res" where
  "set_length hsize raw = put_at raw (hsize - 2) (put_uint16 (word_of_nat (length raw - hsize)))"

definition CBC_Encrypt :: "'b cryptobyte \<Rightarrow> CBC \<Rightarrow> rl_Header \<Rightarrow> bytes \<Rightarrow> bytes \<Rightarrow> bytes res" where
  "CBC_Encrypt cb c h raw iv =
     bind (slice_from raw (rl_Header_Size h)) (\<lambda>payload.
     bind (cbc_mac_for cb h payload (cbc_writeMac c) (cbc_h c)) (\<lambda>mac.
       let blockSize = bl_Size (cbc_writeCBC c);
           payload = payload @ mac;
           paddingLen = blockSize - length payload mod blockSize;
           payload = payload @ replicate paddingLen (word_of_nat (paddingLen - 1)) in
     bind (CryptBlocks_enc (cbc_writeCBC c) iv payload) (\<lambda>payload.
       set_length (rl_Header_Size h) (take (rl_Header_Size h) raw @ iv @ payload))))"

definition CBC_Decrypt :: "'b cryptobyte \<Rightarrow> CBC \<Rightarrow> rl_Header \<Rightarrow> bytes \<Rightarrow> bytes res" where
  "CBC_Decrypt cb c h0 inn =
     bind (rl_Header_Unmarshal h0 inn) (\<lambda>h.
     bind (slice_from inn (rl_Header_Size h)) (\<lambda>body.
       let blockSize = bl_Size (cbc_readCBC c); macSize = hf_Size (cbc_h c) in
       if rl_ContentType h = ContentTypeChangeCipherSpec then Ok inn
       else if length body mod blockSize \<noteq> 0
               \<or> int (length body) < int blockSize + util_Max (int macSize + 1) (int blockSize)
       then Err (Crypto ErrNotEnoughRoomForNonce)
       else
         bind (CryptBlocks_dec (cbc_readCBC c) (take blockSize body) (drop blockSize body)) (\<lambda>body.
         let (paddingLen, paddingGood) = examinePadding body in
         if paddingGood \<noteq> 255 then Err (Crypto ErrInvalidMAC)
         else if length body < macSize then Err (Crypto ErrInvalidMAC)
         else if length body < macSize + paddingLen then Panic
         else
           let dataEnd = length body - macSize - paddingLen;
               expectedMAC = take macSize (drop dataEnd body) in
           case cbc_mac_for cb h (take dataEnd body) (cbc_readMac c) (cbc_h c) of
             Ok actualMAC \<Rightarrow>
               if actualMAC \<noteq> expectedMAC then Err (Crypto ErrInvalidMAC)
               else Ok (take (rl_Header_Size h) inn @ take dataEnd body)
           | Err _ \<Rightarrow> Err (Crypto ErrInvalidMAC)
           | Panic \<Rightarrow> Panic)))"

subsection \<open>Authenticated encryption\<close>

text \<open>The bodies of \<^verbatim>\<open>CCM.Encrypt\<close> and \<^verbatim>\<open>GCM.Encrypt\<close>, which differ in the cipher they call only.\<close>

type_synonym aead_op = "bytes \<Rightarrow> bytes \<Rightarrow> bytes \<Rightarrow> bytes res"

definition AEAD_Encrypt ::
  "'b cryptobyte \<Rightarrow> aead_op \<Rightarrow> bytes \<Rightarrow> rl_Header \<Rightarrow> bytes \<Rightarrow> bytes \<Rightarrow> bytes res" where
  "AEAD_Encrypt cb seal localWriteIV h raw rnd =
     bind (slice_from raw (rl_Header_Size h)) (\<lambda>payload.
     bind (slice localWriteIV 0 4) (\<lambda>salt.
     bind (additionalData cb h (int (length payload))) (\<lambda>ad.
     bind (seal (salt @ rnd) payload ad) (\<lambda>encryptedPayload.
       set_length (rl_Header_Size h) (take (rl_Header_Size h) raw @ rnd @ encryptedPayload)))))"

definition AEAD_Decrypt ::
  "'b cryptobyte \<Rightarrow> aead_op \<Rightarrow> bytes \<Rightarrow> nat \<Rightarrow> rl_Header \<Rightarrow> bytes \<Rightarrow> bytes res" where
  "AEAD_Decrypt cb opn remoteWriteIV tagLen h0 inn =
     bind (rl_Header_Unmarshal h0 inn) (\<lambda>h.
       if rl_ContentType h = ContentTypeChangeCipherSpec then Ok inn
       else if length inn \<le> 8 + rl_Header_Size h then Err (Crypto ErrNotEnoughRoomForNonce)
       else
         bind (slice remoteWriteIV 0 4) (\<lambda>salt.
         let nonce = salt @ take 8 (drop (rl_Header_Size h) inn);
             out = drop (rl_Header_Size h + 8) inn in
         bind (additionalData cb h (int (length out) - int tagLen)) (\<lambda>ad.
           case opn nonce out ad of
             Ok out \<Rightarrow> Ok (take (rl_Header_Size h) inn @ out)
           | Err _ \<Rightarrow> Err (Crypto ErrDecryptPacket)
           | Panic \<Rightarrow> Panic)))"

record CCM =
  CCM_localCCM :: ccm
  CCM_remoteCCM :: ccm
  CCM_localWriteIV :: bytes
  CCM_remoteWriteIV :: bytes
  CCM_tagLen :: nat

definition ciphersuite_NewCCM ::
  "(bytes \<Rightarrow> Block option) \<Rightarrow> nat \<Rightarrow> bytes \<Rightarrow> bytes \<Rightarrow> bytes \<Rightarrow> bytes \<Rightarrow> CCM res" where
  "ciphersuite_NewCCM aes tagLen localKey localWriteIV remoteKey remoteWriteIV =
     (case aes localKey of None \<Rightarrow> Err (ErrOther 0) | Some localBlock \<Rightarrow>
      bind (NewCCM localBlock (int tagLen) 12) (\<lambda>localCCM.
      case aes remoteKey of None \<Rightarrow> Err (ErrOther 0) | Some remoteBlock \<Rightarrow>
      bind (NewCCM remoteBlock (int tagLen) 12) (\<lambda>remoteCCM.
        Ok \<lparr>CCM_localCCM = localCCM, CCM_remoteCCM = remoteCCM, CCM_localWriteIV = localWriteIV,
            CCM_remoteWriteIV = remoteWriteIV, CCM_tagLen = tagLen\<rparr>)))"

definition CCM_Encrypt :: "'b cryptobyte \<Rightarrow> CCM \<Rightarrow> rl_Header \<Rightarrow> bytes \<Rightarrow> bytes \<Rightarrow> bytes res" where
  "CCM_Encrypt cb c h raw rnd =
     AEAD_Encrypt cb (Seal (CCM_localCCM c) []) (CCM_localWriteIV c) h raw rnd"

definition CCM_Decrypt :: "'b cryptobyte \<Rightarrow> CCM \<Rightarrow> rl_Header \<Rightarrow> bytes \<Rightarrow> bytes res" where
  "CCM_Decrypt cb c h inn =
     AEAD_Decrypt cb (Open (CCM_remoteCCM c) []) (CCM_remoteWriteIV c) (CCM_tagLen c) h inn"

record AEAD =
  ae_Seal :: aead_op
  ae_Open :: aead_op

record GCM =
  GCM_localGCM :: AEAD
  GCM_remoteGCM :: AEAD
  GCM_localWriteIV :: bytes
  GCM_remoteWriteIV :: bytes

definition NewGCM ::
  "(bytes \<Rightarrow> Block option) \<Rightarrow> (Block \<Rightarrow> AEAD res) \<Rightarrow> bytes \<Rightarrow> bytes \<Rightarrow> bytes \<Rightarrow> bytes \<Rightarrow> GCM res" where
  "NewGCM aes newGCM localKey localWriteIV remoteKey remoteWriteIV =
     (case aes localKey of None \<Rightarrow> Err (ErrOther 0) | Some localBlock \<Rightarrow>
      bind (newGCM localBlock) (\<lambda>localGCM.
      case aes remoteKey of None \<Rightarrow> Err (ErrOther 0) | Some remoteBlock \<Rightarrow>
      bind (newGCM remoteBlock) (\<lambda>remoteGCM.
        Ok \<lparr>GCM_localGCM = localGCM, GCM_remoteGCM = remoteGCM, GCM_localWriteIV = localWriteIV,
            GCM_remoteWriteIV = remoteWriteIV\<rparr>)))"

definition GCM_Encrypt :: "'b cryptobyte \<Rightarrow> GCM \<Rightarrow> rl_Header \<Rightarrow> bytes \<Rightarrow> bytes \<Rightarrow> bytes res" where
  "GCM_Encrypt cb g h raw rnd = AEAD_Encrypt cb (ae_Seal (GCM_localGCM g)) (GCM_localWriteIV g) h raw rnd"

definition GCM_Decrypt :: "'b cryptobyte \<Rightarrow> GCM \<Rightarrow> rl_Header \<Rightarrow> bytes \<Rightarrow> bytes res" where
  "GCM_Decrypt cb g h inn =
     AEAD_Decrypt cb (ae_Open (GCM_remoteGCM g)) (GCM_remoteWriteIV g) 16 h inn"

subsection \<open>Meaning of the padding check\<close>

lemma byte_ones: "(255 :: byte) = - 1"
  by simp

lemma and_ones [simp]: "255 AND x = (x :: byte)"
  by (simp only: byte_ones and.left_neutral)

lemma xor_eq_zero: "x XOR y = 0 \<longleftrightarrow> x = (y :: byte)"
  by (auto simp: bit_eq_iff bit_simps)

lemma signed_drop_bit_msb32: "signed_drop_bit 31 w = (if bit w 31 then - 1 else 0)" for w :: uint32
  by (rule bit_word_eqI) (auto simp: bit_simps min_def Suc_le_eq)

lemma msb_mask_bit: "msb_mask t = (if bit t 31 then 0 else 255)"
proof -
  have "ucast (- 1 :: uint32) = (255 :: byte)"
    unfolding byte_ones by (rule bit_word_eqI) (simp add: bit_simps)
  then show ?thesis by (simp add: msb_mask_def signed_drop_bit_msb32 bit_simps)
qed

lemma msb_mask_diff:
  assumes "a < 2 ^ 31" "b < 2 ^ 31"
  shows "msb_mask (word_of_nat a - word_of_nat b) = (if b \<le> a then 255 else 0)"
proof (cases "b \<le> a")
  case True
  then have eq: "word_of_nat a - word_of_nat b = (word_of_nat (a - b) :: uint64)" by simp
  have "\<not> bit (a - b) 31" using assms by (simp add: bit_iff_odd)
  then show ?thesis unfolding eq msb_mask_bit bit_of_nat_iff using True by simp
next
  case False
  define d where "d = b - a"
  have d: "0 < d" "d < 2 ^ 31" "b = a + d" using False assms by (auto simp: d_def)
  have "((2 :: nat) ^ 64 - d) div 2 ^ 31 = 2 ^ 33 - 1" by (rule div_nat_eqI) (use d in auto)
  then have "bit ((2 :: nat) ^ 64 - d) 31" by (simp add: bit_iff_odd)
  moreover have eq: "word_of_nat a - word_of_nat b = (word_of_nat (2 ^ 64 - d) :: uint64)"
    using d by (simp add: of_nat_diff)
  ultimately show ?thesis unfolding eq msb_mask_bit using False by (simp only: bit_of_nat_iff) simp
qed

lemma and_not_all_ones: "a AND NOT d = (255 :: byte) \<longleftrightarrow> a = 255 \<and> d = 0"
proof
  assume h: "a AND NOT d = 255"
  have *: "bit a n \<and> \<not> bit d n" if "n < 8" for n
  proof -
    have "bit (255 :: byte) n" unfolding byte_ones using that by (simp add: bit_simps)
    then show ?thesis using h by (metis bit_and_iff bit_not_iff)
  qed
  show "a = 255 \<and> d = 0"
    unfolding byte_ones using * by (auto intro!: bit_word_eqI simp: bit_simps)
qed auto

lemma all_less_8: "(\<forall>n < 8. P n) \<longleftrightarrow> P 0 \<and> P 1 \<and> P 2 \<and> P 3 \<and> P 4 \<and> P 5 \<and> P 6 \<and> P (7 :: nat)"
proof -
  have "(\<forall>n < Suc (Suc (Suc (Suc (Suc (Suc (Suc (Suc 0))))))). P n) \<longleftrightarrow>
      P 0 \<and> P 1 \<and> P 2 \<and> P 3 \<and> P 4 \<and> P 5 \<and> P 6 \<and> P 7"
    unfolding All_less_Suc by (simp add: numeral_nat) blast
  then show ?thesis by (simp add: numeral_nat)
qed

lemma signed_drop_bit_msb8: "signed_drop_bit 7 w = (if bit w 7 then 255 else 0)" for w :: byte
  unfolding byte_ones by (rule bit_word_eqI) (auto simp: bit_simps min_def Suc_le_eq)

lemma replicate_good:
  "signed_drop_bit 7 (let g = g AND push_bit 4 g; g = g AND push_bit 2 g in g AND push_bit 1 g)
   = (if g = 255 then 255 else 0)" for g :: byte
proof -
  have "g = 255 \<longleftrightarrow> (\<forall>n < 8. bit g n)"
    unfolding byte_ones by (auto simp: bit_eq_iff bit_simps)
  then show ?thesis unfolding signed_drop_bit_msb8 all_less_8 Let_def bit_and_iff bit_push_bit_iff by auto
qed

lemma examinePadding_loop_255:
  assumes "i + n \<le> 256"
  shows "examinePadding_loop payload p i n good = 255 \<longleftrightarrow>
    good = 255 \<and> (\<forall>j \<in> {i..<i + n}. j \<le> unat p \<longrightarrow> payload ! (length payload - 1 - j) = p)"
  using assms
proof (induction n arbitrary: i good)
  case (Suc n)
  have p: "unat p < 256" using unsigned_less [of p, where 'a = nat] by simp
  have "ucast p = (word_of_nat (unat p) :: uint64)" by simp
  then have m: "msb_mask (ucast p - word_of_nat i) = (if i \<le> unat p then 255 else 0)"
    using msb_mask_diff [of "unat p" i] Suc.prems p by simp
  have r: "{i..<i + Suc n} = insert i {Suc i..<Suc i + n}" by auto
  show ?case
    unfolding r ball_simps(7) examinePadding_loop.simps Let_def m
    using Suc.IH [of "Suc i"] Suc.prems by (auto simp: and_not_all_ones xor_eq_zero)
qed auto

text \<open>Valid padding: the last byte counts the padding bytes before it, and all of them equal it.\<close>

definition padding_ok :: "bytes \<Rightarrow> bool" where
  "padding_ok payload \<longleftrightarrow> payload \<noteq> [] \<and> unat (last payload) < length payload
     \<and> (\<forall>b \<in> set (drop (length payload - (unat (last payload) + 1)) payload). b = last payload)"

lemma ball_drop_back:
  assumes "k \<le> length xs"
  shows "(\<forall>b \<in> set (drop (length xs - k) xs). P b) \<longleftrightarrow> (\<forall>j < k. P (xs ! (length xs - 1 - j)))"
proof -
  have "set (drop (length xs - k) xs) = set (take k (rev xs))" by (simp add: take_rev)
  then show ?thesis using assms by (auto simp: all_set_conv_all_nth rev_nth)
qed

lemma examinePadding_eq:
  assumes "length payload < 2 ^ 31" "payload \<noteq> []"
  shows "examinePadding payload = (unat (last payload) + 1, if padding_ok payload then 255 else 0)"
proof -
  let ?p = "last payload" and ?n = "if 256 > length payload then length payload else 256"
  have p: "unat ?p < 256" using unsigned_less [of ?p, where 'a = nat] by simp
  have "ucast ?p = (word_of_nat (unat ?p) :: uint64)" by simp
  then have m: "msb_mask (word_of_nat (length payload - 1) - ucast ?p) =
      (if unat ?p \<le> length payload - 1 then 255 else 0)"
    using msb_mask_diff [of "length payload - 1" "unat ?p"] assms p by simp
  have len: "0 < length payload" using assms(2) by simp
  have "examinePadding_loop payload ?p 0 ?n
       (msb_mask (word_of_nat (length payload - 1) - ucast ?p)) = 255 \<longleftrightarrow> padding_ok payload"
  proof (cases "unat ?p < length payload")
    case True
    then have "{j \<in> {0..<0 + ?n}. j \<le> unat ?p} = {..<unat ?p + 1}" using p by auto
    then have "(\<forall>j \<in> {0..<0 + ?n}. j \<le> unat ?p \<longrightarrow> payload ! (length payload - 1 - j) = ?p) \<longleftrightarrow>
        (\<forall>j < unat ?p + 1. payload ! (length payload - 1 - j) = ?p)" by (simp only: set_eq_iff mem_Collect_eq lessThan_iff) blast
    moreover have "unat ?p \<le> length payload - 1" using True by linarith
    ultimately show ?thesis
      unfolding m padding_ok_def using True assms(2) ball_drop_back [of "unat ?p + 1" payload "\<lambda>b. b = ?p"]
      by (simp add: examinePadding_loop_255)
  next
    case False
    then have "\<not> unat ?p \<le> length payload - 1" using len by linarith
    then show ?thesis unfolding m padding_ok_def using False by (simp add: examinePadding_loop_255)
  qed
  moreover define g where "g = examinePadding_loop payload ?p 0 ?n
       (msb_mask (word_of_nat (length payload - 1) - ucast ?p))"
  have "examinePadding payload = (unat ?p + 1, if g = 255 then 255 else 0)"
    using len
    by (simp only: replicate_good [symmetric, unfolded Let_def] examinePadding_def Let_def
        last_conv_nth [OF assms(2), symmetric] g_def [symmetric]) simp
  ultimately show ?thesis by (simp only: g_def)
qed

subsection \<open>Headers of protected records\<close>

text \<open>The builder calls for records with a connection ID give the bytes of RFC 9146.\<close>

definition cid_prefix_bytes :: "uint16 \<Rightarrow> uint64 \<Rightarrow> Version \<Rightarrow> bytes \<Rightarrow> int \<Rightarrow> bytes" where
  "cid_prefix_bytes epoch sequenceNumber version cid payloadLen =
     put_uint64 seqNumPlaceholder
     @ [ContentTypeConnectionID, word_of_nat (length cid), ContentTypeConnectionID,
        v_Major version, v_Minor version]
     @ put_uint16 epoch @ PutBigEndianUint48 sequenceNumber @ cid @ put_uint16 (word_of_int payloadLen)"

context cryptobyte_spec
begin

lemma cid_prefix_Ok:
  "cb_Bytes cb (cid_prefix cb e s v cid n) = Ok (cid_prefix_bytes e s v cid n)"
proof -
  have A48: "cb_Bytes cb (AddUint48 cb x b) = Ok (ys @ PutBigEndianUint48 x)" if "cb_Bytes cb b = Ok ys"
    for x b ys
    unfolding AddUint48_def AddUint48_bytes by (rule AddBytes [OF that])
  have "cb_Bytes cb (cid_prefix cb e s v cid n) =
    Ok (((((((((([] @ put_uint64 seqNumPlaceholder) @ [ContentTypeConnectionID]) @ [word_of_nat (length cid)])
        @ [ContentTypeConnectionID]) @ [v_Major v]) @ [v_Minor v]) @ put_uint16 e)
        @ PutBigEndianUint48 s) @ cid) @ put_uint16 (word_of_int n))"
    unfolding cid_prefix_def by (intro A48 AddUint16 AddBytes AddUint8 AddUint64 New)
  then show ?thesis by (simp add: cid_prefix_bytes_def)
qed

lemma additionalData_Ok:
  "additionalData cb h n = Ok (if rl_ContentType h = ContentTypeConnectionID
     then cid_prefix_bytes (rl_Epoch h) (rl_SequenceNumber h) (rl_Version h) (rl_ConnectionID h) n
     else generateAEADAdditionalData h n)"
  by (simp add: additionalData_def generateAEADAdditionalDataCID_def cb_BytesOrPanic_def cid_prefix_Ok)

text \<open>The input of the MAC: after the bytes RFC 9146 lists comes the payload once more.\<close>

lemma hmacCID_Ok:
  "hmacCID cb e s v payload key hf cid =
     bind (InnerPlaintext_Unmarshal payload) (\<lambda>ip.
       Ok (hmac hf key (cid_prefix_bytes e s v cid (int (length payload))
             @ ip_Content ip @ [ip_RealType ip] @ replicate (ip_Zeros ip) 0 @ payload)))"
proof -
  have "cb_Bytes cb (cb_AddBytes cb z (cb_AddUint8 cb t (cb_AddBytes cb c (cid_prefix cb e s v cid n)))) =
     Ok (((cid_prefix_bytes e s v cid n @ c) @ [t]) @ z)" for z t c n
    by (intro AddBytes AddUint8 cid_prefix_Ok)
  then show ?thesis
    by (cases "InnerPlaintext_Unmarshal payload") (simp_all add: hmacCID_def cb_BytesOrPanic_def)
qed

end

lemma put_at_append: "length b = length q \<Longrightarrow> put_at ((p @ q) @ r) (length p) b = Ok (p @ b @ r)"
  by (simp add: put_at_def)

text \<open>Encryption keeps the header but for its length field.\<close>

lemma set_length_header:
  assumes h: "rl_Header_Marshal h = Ok raw" and n: "length body < 65536"
  shows "\<exists>raw'. rl_Header_Marshal (h\<lparr>rl_ContentLen := word_of_nat (length body)\<rparr>) = Ok raw'
     \<and> set_length (rl_Header_Size h) (raw @ body) = Ok (raw' @ body) \<and> length raw' = length raw"
proof -
  have len: "length raw = rl_Header_Size h" using length_rl_Header_Marshal [OF h] .
  let ?pre = "[rl_ContentType h, v_Major (rl_Version h), v_Minor (rl_Version h)]
      @ put_uint16 (rl_Epoch h) @ PutBigEndianUint48 (rl_SequenceNumber h) @ rl_ConnectionID h"
  have raw: "raw = ?pre @ put_uint16 (rl_ContentLen h)" and s: "\<not> rl_SequenceNumber h > MaxSequenceNumber"
    using h by (auto simp: rl_Header_Marshal_def split: if_splits)
  have size: "rl_Header_Size h = length ?pre + 2" by (simp add: rl_Header_Size_def)
  have "rl_Header_Marshal (h\<lparr>rl_ContentLen := word_of_nat (length body)\<rparr>) =
      Ok (?pre @ put_uint16 (word_of_nat (length body)))"
    using s by (simp add: rl_Header_Marshal_def)
  moreover have "put_at (raw @ body) (length ?pre) b = Ok (?pre @ b @ body)" if "length b = 2" for b
    unfolding raw by (rule put_at_append) (use that in simp)
  moreover have "length (raw @ body) - rl_Header_Size h = length body" "rl_Header_Size h - 2 = length ?pre"
    using len size by simp_all
  ultimately show ?thesis
    unfolding set_length_def by (simp only: raw length_put_uint length_append) simp
qed

lemma protected_header:
  assumes wf: "wf_rl_Header h" and h: "rl_Header_Marshal h = Ok raw" and n: "length body < 65536"
    and out: "set_length (rl_Header_Size h) (raw @ body) = Ok enc"
    and cid: "length (rl_ConnectionID h0) = length (rl_ConnectionID h)"
  shows "rl_Header_Unmarshal h0 enc = Ok (h\<lparr>rl_ContentLen := rl_ContentLen h0\<rparr>)"
    and "\<exists>hdr. enc = hdr @ body \<and> length hdr = rl_Header_Size h"
proof -
  let ?h' = "h\<lparr>rl_ContentLen := word_of_nat (length body)\<rparr>"
  obtain raw' where r: "rl_Header_Marshal ?h' = Ok raw'" "enc = raw' @ body" "length raw' = length raw"
    using set_length_header [OF h n] out by auto
  have "wf_rl_Header ?h'" using wf by (simp add: wf_rl_Header_def)
  from rl_Header_roundtrip [OF this r(1), of h0 body] cid r(2)
  show "rl_Header_Unmarshal h0 enc = Ok (h\<lparr>rl_ContentLen := rl_ContentLen h0\<rparr>)" by simp
  show "\<exists>hdr. enc = hdr @ body \<and> length hdr = rl_Header_Size h"
    using r length_rl_Header_Marshal [OF h] by auto
qed

lemma set_length_Ok: "2 \<le> n \<Longrightarrow> n \<le> length raw \<Longrightarrow> \<exists>enc. set_length n raw = Ok enc"
  by (simp add: set_length_def put_at_def)

subsection \<open>Authenticated encryption round trip\<close>

text \<open>What \<^verbatim>\<open>cipher.AEAD\<close> promises for nonces of twelve bytes.\<close>

locale aead =
  fixes seal opn :: aead_op and tagLen maxLen :: nat
  assumes seal_ok: "length nonce = 12 \<Longrightarrow> length p \<le> maxLen \<Longrightarrow>
      \<exists>ct. seal nonce p a = Ok ct \<and> length ct = length p + tagLen"
    and open_seal: "length nonce = 12 \<Longrightarrow> seal nonce p a = Ok ct \<Longrightarrow> opn nonce ct a = Ok p"
    and tag_pos: "0 < tagLen"
begin

lemma AEAD_roundtrip:
  assumes cb: "cryptobyte_spec cb" and wf: "wf_rl_Header h" and raw: "rl_Header_Marshal h = Ok raw"
    and ct: "rl_ContentType h \<noteq> ContentTypeChangeCipherSpec"
    and len: "length payload \<le> maxLen" "length payload + tagLen + 8 < 65536"
    and iv: "4 \<le> length iv" "length rnd = 8"
    and cid: "length (rl_ConnectionID h0) = length (rl_ConnectionID h)"
  shows "\<exists>enc. AEAD_Encrypt cb seal iv h (raw @ payload) rnd = Ok enc
    \<and> length enc = length raw + 8 + length payload + tagLen
    \<and> AEAD_Decrypt cb opn iv tagLen h0 enc = Ok (take (length raw) enc @ payload)"
proof -
  let ?n = "rl_Header_Size h"
  have size: "length raw = ?n" using length_rl_Header_Marshal [OF raw] .
  obtain ad where ad: "additionalData cb h (int (length payload)) = Ok ad"
    "additionalData cb (h\<lparr>rl_ContentLen := rl_ContentLen h0\<rparr>) (int (length payload)) = Ok ad"
    by (simp add: cryptobyte_spec.additionalData_Ok [OF cb] generateAEADAdditionalData_def)
  have non: "length (take 4 iv @ rnd) = 12" using iv by simp
  obtain c where c: "seal (take 4 iv @ rnd) payload ad = Ok c" "length c = length payload + tagLen"
    using seal_ok [OF non len(1)] by blast
  have body: "length (rnd @ c) < 65536" using c(2) iv(2) len(2) by simp
  obtain enc where enc: "set_length ?n (raw @ rnd @ c) = Ok enc"
    using set_length_Ok [of ?n "raw @ rnd @ c"] size by (auto simp: rl_Header_Size_def)
  obtain hdr where hdr: "enc = hdr @ rnd @ c" "length hdr = ?n"
    using protected_header(2) [OF wf raw body enc cid] by blast
  have "AEAD_Encrypt cb seal iv h (raw @ payload) rnd = Ok enc"
    using size iv(1) by (simp add: AEAD_Encrypt_def ad(1) c(1) enc)
  moreover have "int (length c) - int tagLen = int (length payload)" using c(2) by simp
  then have "AEAD_Decrypt cb opn iv tagLen h0 enc = Ok (take (length raw) enc @ payload)"
    using protected_header(1) [OF wf raw body enc cid] ct iv hdr size tag_pos c(2)
      open_seal [OF non c(1)] ad(2)
    by (simp add: AEAD_Decrypt_def Let_def rl_Header_Size_def)
  ultimately show ?thesis using hdr size c(2) iv(2) by auto
qed

end

text \<open>The repository's CCM with nonces of twelve bytes is such a cipher.\<close>

lemma ccm_MaxLength:
  assumes wf: "wf_ccm c" and nonce: "NonceSize c = 12"
  shows "MaxLength c = 0xFFFFFF"
proof -
  have "uint (ccm_L c) = 3" using nonce by (simp add: NonceSize_def)
  then have L3: "ccm_L c = 3" using word_of_int_uint [of "ccm_L c"] by simp
  define m where "m = (word_of_int (uint (ccm_M c)) :: uint64)"
  have "unat m = unat (ccm_M c)"
    using wf by (simp add: m_def unsigned_ucast_eq wf_ccm_def take_bit_nat_eq_self)
  then have m: "unat m \<le> 16" using wf by (simp add: wf_ccm_def)
  then have "m \<le> 0x7fffffffffffffff" by (simp add: word_le_nat_alt)
  then have "unat (0x7fffffffffffffff - m) = 0x7fffffffffffffff - unat m" by (simp add: unat_sub)
  then have "\<not> 0xFFFFFF > 0x7fffffffffffffff - m" using m by (simp add: word_less_nat_alt)
  then show ?thesis
    unfolding MaxLength_def maxlen_def Overhead_def Let_def m_def [symmetric] L3 by simp
qed

lemma ccm_aead:
  assumes wf: "wf_ccm c" and nonce: "NonceSize c = 12"
  shows "aead (Seal c []) (Open c []) (unat (ccm_M c)) 65535"
proof
  show "\<exists>ct. Seal c [] n p a = Ok ct \<and> length ct = length p + unat (ccm_M c)"
    if "length n = 12" "length p \<le> 65535" for n p a
  proof -
    have "int (length n) = NonceSize c" "int (length p) \<le> MaxLength c"
      using that nonce ccm_MaxLength [OF assms] by simp_all
    from tag_reference [OF wf this] obtain t where t: "ccm_tag c n p a = Ok t" by blast
    have "length t = unat (ccm_M c)" using ccm_tag_length [OF wf t] .
    then show ?thesis
      using t wf Seal_eq [of c "[]" n p a] by (auto simp: wf_ccm_def length_Encrypt16)
  qed
  show "Open c [] n ct a = Ok p" if "length n = 12" "Seal c [] n p a = Ok ct" for n p a ct
    using Open_iff_Seal [OF wf] that by auto
  show "0 < unat (ccm_M c)" using wf by (simp add: wf_ccm_def)
qed

text \<open>The values of \<^verbatim>\<open>*ccm\<close> that \<^verbatim>\<open>NewCCM\<close> returns for this package, as a type.\<close>

definition id_Block :: Block where
  "id_Block = \<lparr>bl_Size = 16, bl_Encrypt = (\<lambda>x. x), bl_Decrypt = (\<lambda>x. x)\<rparr>"

lemma id_Block_wf: "wf_Block id_Block"
  by (simp add: wf_Block_def id_Block_def)

lemma NewCCM_id: "NewCCM id_Block 8 12 = Ok \<lparr>ccm_b = id_Block, ccm_M = 8, ccm_L = 3\<rparr>"
  by (simp add: NewCCM_def id_Block_def)

typedef ccm12 = "{c. wf_ccm c \<and> NonceSize c = 12}"
  morphisms the_ccm mk_ccm
  using NewCCM_wf [OF id_Block_wf NewCCM_id] by blast

interpretation ccm_record: aead "Seal (the_ccm c) []" "Open (the_ccm c) []" "unat (ccm_M (the_ccm c))" 65535
  for c :: ccm12
  using the_ccm [of c] by (intro ccm_aead) simp_all

subsection \<open>CBC round trip and panics\<close>

lemma padding_ok_padded:
  assumes "1 \<le> n" "n \<le> 256"
  shows "padding_ok (xs @ replicate n (word_of_nat (n - 1)))"
    and "unat (last (xs @ replicate n (word_of_nat (n - 1) :: byte))) + 1 = n"
proof -
  have u: "unat (word_of_nat (n - 1) :: byte) = n - 1"
    unfolding unat_byte_of_nat using assms by (intro mod_less) linarith
  have l: "last (xs @ replicate n (word_of_nat (n - 1) :: byte)) = word_of_nat (n - 1)"
    using assms by simp
  show "unat (last (xs @ replicate n (word_of_nat (n - 1) :: byte))) + 1 = n"
    unfolding l u using assms by simp
  have "length (xs @ replicate n (word_of_nat (n - 1) :: byte)) - (n - 1 + 1) = length xs" using assms by simp
  then show "padding_ok (xs @ replicate n (word_of_nat (n - 1)))"
    unfolding padding_ok_def l u using assms by simp
qed

text \<open>Two ends of a connection: what one writes with, the other reads with.\<close>

definition cbc_peers :: "CBC \<Rightarrow> CBC \<Rightarrow> bool" where
  "cbc_peers c d \<longleftrightarrow> cbc_readCBC d = cbc_writeCBC c \<and> cbc_readMac d = cbc_writeMac c \<and> cbc_h d = cbc_h c
     \<and> wf_Block (cbc_writeCBC c) \<and> bl_Size (cbc_writeCBC c) = 16 \<and> wf_HashFunc (cbc_h c)"

lemma cbc_mac_for_length:
  "cryptobyte_spec cb \<Longrightarrow> wf_HashFunc hf \<Longrightarrow> cbc_mac_for cb h payload key hf = Ok mac \<Longrightarrow>
   length mac = hf_Size hf"
  by (auto simp: cbc_mac_for_def cbc_hmac_def Let_def length_hmac cryptobyte_spec.hmacCID_Ok split: if_splits)

lemma cbc_mac_for_ContentLen:
  "cbc_mac_for cb (h\<lparr>rl_ContentLen := n\<rparr>) payload key hf = cbc_mac_for cb h payload key hf"
  by (simp add: cbc_mac_for_def)

lemma CBC_roundtrip_record:
  assumes cb: "cryptobyte_spec cb" and peers: "cbc_peers c d" and wf: "wf_rl_Header h"
    and raw: "rl_Header_Marshal h = Ok raw" and ct: "rl_ContentType h \<noteq> ContentTypeChangeCipherSpec"
    and mac: "cbc_mac_for cb h payload (cbc_writeMac c) (cbc_h c) = Ok mac"
    and len: "length payload + hf_Size (cbc_h c) + 32 < 65536" and iv: "length iv = 16"
    and cid: "length (rl_ConnectionID h0) = length (rl_ConnectionID h)"
  shows "\<exists>enc. CBC_Encrypt cb c h (raw @ payload) iv = Ok enc
    \<and> CBC_Decrypt cb d h0 enc = Ok (take (length raw) enc @ payload)
    \<and> length enc \<le> length raw + length payload + hf_Size (cbc_h c) + 32"
proof -
  let ?n = "rl_Header_Size h" and ?b = "cbc_writeCBC c" and ?m = "hf_Size (cbc_h c)"
  have b: "wf_Block ?b" "bl_Size ?b = 16" and d: "cbc_readCBC d = ?b" "cbc_readMac d = cbc_writeMac c"
      "cbc_h d = cbc_h c" and hf: "wf_HashFunc (cbc_h c)"
    using peers by (simp_all add: cbc_peers_def)
  have size: "length raw = ?n" using length_rl_Header_Marshal [OF raw] .
  have ml: "length mac = ?m" using cbc_mac_for_length [OF cb hf mac] .
  define k where "k = 16 - length (payload @ mac) mod 16"
  have k: "1 \<le> k" "k \<le> 16" "length (payload @ mac) mod 16 < 16" by (simp_all add: k_def Suc_le_eq)
  define pt where "pt = (payload @ mac) @ replicate k (word_of_nat (k - 1))"
  have "(length (payload @ mac) + k) mod 16 = 0" unfolding k_def
    by (metis add.commute le_add_diff_inverse2 mod_add_left_eq mod_le_divisor mod_self zero_less_numeral)
  then have ptl: "length pt mod bl_Size ?b = 0" "length pt = length payload + ?m + k"
    using ml b(2) by (simp_all add: pt_def ac_simps)
  obtain out where out: "CryptBlocks_enc ?b iv pt = Ok out" "length out = length pt"
      "CryptBlocks_dec ?b iv out = Ok pt"
    using CBC_roundtrip [OF b(1) _ ptl(1), of iv] iv b(2) by metis
  have body: "length (iv @ out) < 65536" using out(2) ptl(2) iv len k(2) by simp
  obtain enc where enc: "set_length ?n (raw @ iv @ out) = Ok enc"
    using set_length_Ok [of ?n "raw @ iv @ out"] size by (auto simp: rl_Header_Size_def)
  obtain hdr where hdr: "enc = hdr @ iv @ out" "length hdr = ?n"
    using protected_header(2) [OF wf raw body enc cid] by blast
  have E: "CBC_Encrypt cb c h (raw @ payload) iv = Ok enc"
  proof -
    have "slice_from (raw @ payload) ?n = Ok payload" using size by simp
    then show ?thesis
      unfolding CBC_Encrypt_def Let_def using enc size
      by (simp only: bind.simps mac b(2) k_def [symmetric] pt_def [symmetric] out(1)) simp
  qed
  let ?h = "h\<lparr>rl_ContentLen := rl_ContentLen h0\<rparr>"
  have "rl_Header_Unmarshal h0 enc = Ok ?h" using protected_header(1) [OF wf raw body enc cid] .
  moreover have "rl_Header_Size ?h = ?n" by (simp add: rl_Header_Size_def)
  moreover have "examinePadding pt = (k, 255)"
    using examinePadding_eq [of pt] padding_ok_padded [of k "payload @ mac"] k ptl(2) len
    by (simp add: pt_def del: append_assoc)
  moreover have "length pt = length payload + ?m + k" "0 < ?m" "take (length payload) pt = payload"
    "take ?m (drop (length payload) pt) = mac"
    using ptl(2) hf ml by (simp_all add: pt_def wf_HashFunc_def)
  moreover have "16 \<le> length payload + ?m + k"
    using ptl b(2) k(1) by (intro dvd_imp_le) (simp_all add: dvd_eq_mod_eq_0)
  moreover have "(16 + length out) mod 16 = 0" using out(2) ptl(1) b(2) by simp
  ultimately have "CBC_Decrypt cb d h0 enc = Ok (take (length raw) enc @ payload)"
    using ct d b(2) hdr size out iv mac k
    by (simp add: CBC_Decrypt_def Let_def util_Max_def cbc_mac_for_ContentLen)
  moreover have "length enc \<le> length raw + length payload + ?m + 32"
    using hdr size out(2) ptl(2) iv k(2) by simp
  ultimately show ?thesis using E by blast
qed

lemma CCM_roundtrip_record:
  assumes cb: "cryptobyte_spec cb" and aes: "\<And>b. aes lk = Some b \<Longrightarrow> wf_Block b"
    and c: "ciphersuite_NewCCM aes tagLen lk liv rk riv = Ok c"
    and d: "ciphersuite_NewCCM aes tagLen rk riv lk liv = Ok d"
    and h: "wf_rl_Header h" "rl_Header_Marshal h = Ok raw" "rl_ContentType h \<noteq> ContentTypeChangeCipherSpec"
    and len: "length payload + tagLen + 8 < 65536" "4 \<le> length liv" "length rnd = 8"
    and cid: "length (rl_ConnectionID h0) = length (rl_ConnectionID h)"
  shows "\<exists>enc. CCM_Encrypt cb c h (raw @ payload) rnd = Ok enc
    \<and> CCM_Decrypt cb d h0 enc = Ok (take (length raw) enc @ payload)
    \<and> length enc = length raw + 8 + length payload + tagLen"
proof -
  obtain b e where b: "aes lk = Some b" "NewCCM b (int tagLen) 12 = Ok e"
    and ce: "CCM_localCCM c = e" "CCM_localWriteIV c = liv"
    using c by (auto simp: ciphersuite_NewCCM_def split: option.splits)
  have de: "CCM_remoteCCM d = e" "CCM_remoteWriteIV d = liv" "CCM_tagLen d = tagLen"
    using d b by (auto simp: ciphersuite_NewCCM_def split: option.splits)
  have e: "wf_ccm e" "NonceSize e = 12" "Overhead e = int tagLen"
    using NewCCM_wf [OF aes [OF b(1)] b(2)] by simp_all
  have t: "unat (ccm_M e) = tagLen" using e(3) by (simp add: Overhead_def unat_eq_nat_uint)
  have p: "length payload \<le> 65535" using len(1) by simp
  from aead.AEAD_roundtrip [OF ccm_aead [OF e(1,2)] cb h p _ len(2,3) cid] len(1)
  show ?thesis unfolding CCM_Encrypt_def CCM_Decrypt_def ce de t by auto
qed

subsection \<open>Properties\<close>

definition ex_app_Header :: rl_Header where
  "ex_app_Header = \<lparr>rl_ContentType = ContentTypeApplicationData, rl_ContentLen = 3, rl_Version = Version1_2,
     rl_Epoch = 1, rl_SequenceNumber = 5, rl_ConnectionID = []\<rparr>"

definition ex_app_raw :: bytes where
  "ex_app_raw = [23, 254, 253, 0, 1, 0, 0, 0, 0, 0, 5, 0, 3]"

lemma ex_app: "rl_Header_Marshal ex_app_Header = Ok ex_app_raw" "wf_rl_Header ex_app_Header"
  "rl_ContentType ex_app_Header \<noteq> ContentTypeChangeCipherSpec"
  by (simp_all add: ex_app_Header_def ex_app_raw_def rl_Header_Marshal_def PutBigEndianUint48_be put_uint16_def
      put_be_numeral Version1_2_def wf_rl_Header_def)

definition ex_HashFunc :: HashFunc where
  "ex_HashFunc = \<lparr>hf_Sum = (\<lambda>x. replicate 20 (fold (+) x 0)), hf_Size = 20, hf_BlockSize = 64\<rparr>"

lemma ex_HashFunc_wf: "wf_HashFunc ex_HashFunc"
  by (simp add: wf_HashFunc_def ex_HashFunc_def)

text \<open>
  C11. The constant time padding check of CBC records computes what it stands for. For payloads
  below \<open>2 ^ 31\<close> bytes, \<^verbatim>\<open>examinePadding\<close> returns the last byte plus one as the number of bytes to
  remove, and 255 exactly when the payload is long enough and its last bytes, that many, are all
  equal to the last one; otherwise 0.
\<close>

theorem examinePadding_correct:
  assumes "length payload < 2 ^ 31"
  shows "examinePadding payload = (if payload = [] then (0, 0)
    else (unat (last payload) + 1, if padding_ok payload then 255 else 0))"
  using examinePadding_eq [OF assms] by (simp add: examinePadding_def)

theorem examinePadding_correct_witness:
  "examinePadding [7, 2, 2, 2] = (3, 255) \<and> examinePadding [7, 1, 2, 2] = (3, 0)"
  using examinePadding_correct [of "[7, 2, 2, 2]"] examinePadding_correct [of "[7, 1, 2, 2]"]
  by (simp add: padding_ok_def)

text \<open>
  C17. Records protected with CCM can be read by the peer. Let both ends be made by \<^verbatim>\<open>NewCCM\<close> with
  each other's keys over a block cipher that can be inverted. Then \<^verbatim>\<open>Encrypt\<close> of any record but
  ChangeCipherSpec that fits succeeds, and the peer's \<^verbatim>\<open>Decrypt\<close> returns the header with the
  payload that was encrypted, with and without connection IDs, whatever nonce was drawn.
\<close>

theorem CCM_record_roundtrip:
  assumes cb: "cryptobyte_spec cb" and aes: "\<And>k b. aes k = Some b \<Longrightarrow> wf_Block b"
    and c: "ciphersuite_NewCCM aes tagLen lk liv rk riv = Ok c"
    and d: "ciphersuite_NewCCM aes tagLen rk riv lk liv = Ok d"
    and h: "wf_rl_Header h" "rl_Header_Marshal h = Ok raw" "rl_ContentType h \<noteq> ContentTypeChangeCipherSpec"
    and len: "length payload + tagLen + 8 < 65536" "4 \<le> length liv" "length rnd = 8"
    and cid: "length (rl_ConnectionID h0) = length (rl_ConnectionID h)"
  shows "\<exists>enc. CCM_Encrypt cb c h (raw @ payload) rnd = Ok enc
    \<and> CCM_Decrypt cb d h0 enc = Ok (take (length raw) enc @ payload)"
  using CCM_roundtrip_record [where aes = aes and lk = lk] assms by blast

theorem CCM_record_roundtrip_witness:
  "\<exists>c d enc. ciphersuite_NewCCM (\<lambda>k. Some id_Block) 8 [1] [1, 2, 3, 4] [2] [5, 6, 7, 8] = Ok c
    \<and> ciphersuite_NewCCM (\<lambda>k. Some id_Block) 8 [2] [5, 6, 7, 8] [1] [1, 2, 3, 4] = Ok d
    \<and> CCM_Encrypt std_cryptobyte c ex_app_Header (ex_app_raw @ [10, 11, 12]) [9, 9, 9, 9, 9, 9, 9, 9] = Ok enc
    \<and> CCM_Decrypt std_cryptobyte d ex_app_Header enc = Ok (take 13 enc @ [10, 11, 12])"
proof -
  obtain c d where cd: "ciphersuite_NewCCM (\<lambda>k. Some id_Block) 8 [1] [1, 2, 3, 4] [2] [5, 6, 7, 8] = Ok c"
    "ciphersuite_NewCCM (\<lambda>k. Some id_Block) 8 [2] [5, 6, 7, 8] [1] [1, 2, 3, 4] = Ok d"
    by (simp add: ciphersuite_NewCCM_def NewCCM_id)
  have "length ex_app_raw = 13" by (simp add: ex_app_raw_def)
  with CCM_record_roundtrip [OF std_cryptobyte_spec _ cd ex_app(2,1,3), where payload = "[10, 11, 12]"
      and rnd = "[9, 9, 9, 9, 9, 9, 9, 9]" and ?h0.0 = ex_app_Header] cd
  show ?thesis by (auto simp: id_Block_wf)
qed

text \<open>
  C16. Records protected with CBC and HMAC can be read by the peer: for ends that share block
  cipher, MAC key and hash, every record but ChangeCipherSpec whose MAC can be computed encrypts,
  and the peer's \<^verbatim>\<open>Decrypt\<close> removes padding and MAC and returns header and payload.
\<close>

theorem CBC_record_roundtrip:
  assumes "cryptobyte_spec cb" "cbc_peers c d" "wf_rl_Header h" "rl_Header_Marshal h = Ok raw"
    "rl_ContentType h \<noteq> ContentTypeChangeCipherSpec"
    "cbc_mac_for cb h payload (cbc_writeMac c) (cbc_h c) = Ok mac"
    "length payload + hf_Size (cbc_h c) + 32 < 65536" "length iv = 16"
    "length (rl_ConnectionID h0) = length (rl_ConnectionID h)"
  shows "\<exists>enc. CBC_Encrypt cb c h (raw @ payload) iv = Ok enc
    \<and> CBC_Decrypt cb d h0 enc = Ok (take (length raw) enc @ payload)"
  using CBC_roundtrip_record [OF assms] by blast

definition ex_CBC :: CBC where
  "ex_CBC = \<lparr>cbc_writeCBC = id_Block, cbc_readCBC = id_Block, cbc_writeMac = [1], cbc_readMac = [1],
     cbc_h = ex_HashFunc\<rparr>"

theorem CBC_record_roundtrip_witness:
  "\<exists>enc. CBC_Encrypt std_cryptobyte ex_CBC ex_app_Header (ex_app_raw @ [10, 11, 12]) (replicate 16 7) = Ok enc
    \<and> CBC_Decrypt std_cryptobyte ex_CBC ex_app_Header enc = Ok (take 13 enc @ [10, 11, 12])"
proof -
  have p: "cbc_peers ex_CBC ex_CBC"
    by (simp add: cbc_peers_def ex_CBC_def ex_HashFunc_wf id_Block_wf) (simp add: id_Block_def)
  have m: "cbc_mac_for std_cryptobyte ex_app_Header [10, 11, 12] (cbc_writeMac ex_CBC) (cbc_h ex_CBC) =
      Ok (cbc_hmac 1 5 23 Version1_2 [10, 11, 12] [1] ex_HashFunc)"
    by (simp add: cbc_mac_for_def ex_app_Header_def ex_CBC_def)
  have "length ex_app_raw = 13" by (simp add: ex_app_raw_def)
  with CBC_record_roundtrip [OF std_cryptobyte_spec p ex_app(2,1,3) m, where iv = "replicate 16 7"
      and ?h0.0 = ex_app_Header]
  show ?thesis by (simp add: ex_CBC_def ex_HashFunc_def)
qed

lemma length_cbc_decrypt_le:
  "length iv = n \<Longrightarrow> list_all (\<lambda>c. length c = n) cs \<Longrightarrow>
   length (concat (cbc_decrypt b iv cs)) \<le> length (concat cs)"
  by (induction cs arbitrary: iv) (auto simp: add_mono)

lemma length_CryptBlocks_dec_le:
  assumes "wf_Block b" "CryptBlocks_dec b iv src = Ok pt"
  shows "length pt \<le> length src"
proof -
  have n: "0 < bl_Size b" using assms(1) by simp
  have ok: "length iv = bl_Size b" "length src mod bl_Size b = 0"
    "pt = concat (cbc_decrypt b iv (blocks (bl_Size b) src))"
    using assms(2) by (auto simp: CryptBlocks_dec_def split: if_splits)
  have "list_all (\<lambda>c. length c = bl_Size b) (blocks (bl_Size b) src)"
    unfolding list_all_iff by (intro ballI length_in_blocks [OF n ok(2)])
  from length_cbc_decrypt_le [OF ok(1) this] show ?thesis by (simp add: ok(3) concat_blocks [OF n])
qed

lemma cbc_mac_for_Panic:
  assumes "cryptobyte_spec cb"
  shows "cbc_mac_for cb h payload key hf = Panic \<longleftrightarrow>
    rl_ContentType h = ContentTypeConnectionID \<and> (\<forall>b \<in> set payload. b = 0)"
  by (cases "InnerPlaintext_Unmarshal payload")
    (auto simp: cbc_mac_for_def cryptobyte_spec.hmacCID_Ok [OF assms] InnerPlaintext_panics_iff [symmetric])

text \<open>
  What the body of \<^verbatim>\<open>CBC.Decrypt\<close> does with a decrypted record that makes it panic: valid padding and
  room for the MAC alone, but not for both, or, in a record with a connection ID, nothing or only
  zeros before them.
\<close>

definition cbc_panic_plaintext :: "rl_Header \<Rightarrow> nat \<Rightarrow> bytes \<Rightarrow> bool" where
  "cbc_panic_plaintext h macSize pt \<longleftrightarrow> padding_ok pt \<and> macSize \<le> length pt \<and>
     (let n = macSize + unat (last pt) + 1 in
      length pt < n \<or>
      rl_ContentType h = ContentTypeConnectionID \<and> (\<forall>b \<in> set (take (length pt - n) pt). b = 0))"

text \<open>The records that are refused as too short or of the wrong size.\<close>

definition cbc_short :: "nat \<Rightarrow> bytes \<Rightarrow> bool" where
  "cbc_short macSize body \<longleftrightarrow> length body mod 16 \<noteq> 0 \<or>
     int (length body) < int 16 + util_Max (int macSize + 1) (int 16)"

lemma CBC_Decrypt_body:
  assumes h: "rl_Header_Unmarshal h0 inn = Ok h" and d: "bl_Size (cbc_readCBC d) = 16"
  shows "CBC_Decrypt cb d h0 inn = (if length inn < rl_Header_Size h then Panic
      else if rl_ContentType h = ContentTypeChangeCipherSpec then Ok inn
      else if cbc_short (hf_Size (cbc_h d)) (drop (rl_Header_Size h) inn) then Err (Crypto ErrNotEnoughRoomForNonce)
      else bind (CryptBlocks_dec (cbc_readCBC d) (take 16 (drop (rl_Header_Size h) inn)) (drop (rl_Header_Size h + 16) inn))
        (\<lambda>body. let (paddingLen, paddingGood) = examinePadding body in
         if paddingGood \<noteq> 255 then Err (Crypto ErrInvalidMAC)
         else if length body < hf_Size (cbc_h d) then Err (Crypto ErrInvalidMAC)
         else if length body < hf_Size (cbc_h d) + paddingLen then Panic
         else let dataEnd = length body - hf_Size (cbc_h d) - paddingLen in
           case cbc_mac_for cb h (take dataEnd body) (cbc_readMac d) (cbc_h d) of
             Ok actualMAC \<Rightarrow> if actualMAC \<noteq> take (hf_Size (cbc_h d)) (drop dataEnd body) then Err (Crypto ErrInvalidMAC)
               else Ok (take (rl_Header_Size h) inn @ take dataEnd body)
           | Err _ \<Rightarrow> Err (Crypto ErrInvalidMAC) | Panic \<Rightarrow> Panic))"
  unfolding CBC_Decrypt_def h bind.simps d Let_def cbc_short_def by (simp add: slice_from_def add.commute)

lemma CBC_Decrypt_plaintext_panics:
  assumes cb: "cryptobyte_spec cb" and h: "rl_Header_Unmarshal h0 inn = Ok h"
    and d: "wf_Block (cbc_readCBC d)" "bl_Size (cbc_readCBC d) = 16" "length inn < 2 ^ 31"
    and ok: "rl_Header_Size h \<le> length inn" "rl_ContentType h \<noteq> ContentTypeChangeCipherSpec"
      "\<not> cbc_short (hf_Size (cbc_h d)) (drop (rl_Header_Size h) inn)"
    and pt: "CryptBlocks_dec (cbc_readCBC d) (take 16 (drop (rl_Header_Size h) inn)) (drop (rl_Header_Size h + 16) inn) = Ok pt"
  shows "CBC_Decrypt cb d h0 inn = Panic \<longleftrightarrow> cbc_panic_plaintext h (hf_Size (cbc_h d)) pt"
proof -
  have "length pt < 2 ^ 31" using length_CryptBlocks_dec_le [OF d(1) pt] d(3) by simp
  then have ex: "examinePadding pt = (if pt = [] then (0, 0)
      else (unat (last pt) + 1, if padding_ok pt then 255 else 0))"
    using examinePadding_eq [of pt] by (simp add: examinePadding_def)
  have ne: "padding_ok pt \<Longrightarrow> pt \<noteq> []" by (simp add: padding_ok_def)
  show ?thesis
    using ok ne cbc_mac_for_Panic [OF cb, of h "take (length pt - hf_Size (cbc_h d) - (unat (last pt) + 1)) pt"
        "cbc_readMac d" "cbc_h d"]
    unfolding CBC_Decrypt_body [OF h d(2)] pt bind.simps ex
    by (auto simp: Let_def cbc_panic_plaintext_def diff_diff_left split: res.splits)
qed

text \<open>
  C34. \<^verbatim>\<open>CBC.Decrypt\<close> can panic, before any MAC is checked. On a record whose header can be read it
  panics exactly when the header, with the connection ID the caller asks for, is longer than the
  record, or when the record is no ChangeCipherSpec, its body is whole blocks and long enough, and
  its decryption ends in valid padding and has room for a MAC, but
  \<^item> padding and MAC together are longer than it: the end of the data \<^verbatim>\<open>dataEnd\<close> is then negative and
    the slice expression fails; or
  \<^item> the record has a connection ID and what precedes padding and MAC is empty or all zeros, on which
    \<^verbatim>\<open>InnerPlaintext.Unmarshal\<close> fails in the computation of the MAC.
\<close>

theorem CBC_Decrypt_panics_iff:
  assumes cb: "cryptobyte_spec cb" and h: "rl_Header_Unmarshal h0 inn = Ok h"
    and d: "wf_Block (cbc_readCBC d)" "bl_Size (cbc_readCBC d) = 16" "length inn < 2 ^ 31"
  shows "CBC_Decrypt cb d h0 inn = Panic \<longleftrightarrow>
    length inn < rl_Header_Size h \<or>
    rl_ContentType h \<noteq> ContentTypeChangeCipherSpec \<and>
    length inn \<ge> rl_Header_Size h + 16 + max (hf_Size (cbc_h d) + 1) 16 \<and>
    (\<exists>pt. CryptBlocks_dec (cbc_readCBC d) (take 16 (drop (rl_Header_Size h) inn)) (drop (rl_Header_Size h + 16) inn) = Ok pt \<and>
       cbc_panic_plaintext h (hf_Size (cbc_h d)) pt)"
proof (cases "length inn < rl_Header_Size h \<or> rl_ContentType h = ContentTypeChangeCipherSpec")
  case True
  then show ?thesis using CBC_Decrypt_body [OF h d(2), of cb] by auto
next
  case False
  let ?n = "rl_Header_Size h" and ?m = "hf_Size (cbc_h d)"
  let ?body = "drop ?n inn"
  let ?dec = "CryptBlocks_dec (cbc_readCBC d) (take 16 ?body) (drop (?n + 16) inn)"
  have short: "\<not> cbc_short ?m ?body \<longleftrightarrow> length ?body mod 16 = 0 \<and> length inn \<ge> ?n + 16 + max (?m + 1) 16"
    using False by (auto simp: cbc_short_def util_Max_def max_def)
  have "length ?body = 16 + length (drop (?n + 16) inn)" if "?n + 16 \<le> length inn"
    using that by simp
  then have blocks: "length (drop (?n + 16) inn) mod 16 = length ?body mod 16" if "?n + 16 + max (?m + 1) 16 \<le> length inn"
    using that by (metis le_add1 le_trans mod_add_self1)
  show ?thesis
  proof (cases "cbc_short ?m ?body")
    case True
    have "?dec = Panic" if "?n + 16 + max (?m + 1) 16 \<le> length inn"
      using True short that blocks by (simp only: CryptBlocks_dec_def d(2)) simp
    then show ?thesis using True CBC_Decrypt_body [OF h d(2), of cb] False by auto
  next
    case ok: False
    then have room: "length ?body mod 16 = 0" "?n + 16 + max (?m + 1) 16 \<le> length inn" using short by auto
    then have "length (drop (?n + 16) inn) mod 16 = 0" "length (take 16 ?body) = 16"
      using blocks by (metis, simp)
    then obtain pt where pt: "?dec = Ok pt" unfolding CryptBlocks_dec_def d(2) by simp
    then show ?thesis
      using CBC_Decrypt_plaintext_panics [OF cb h d _ _ ok pt] False room(2) by auto
  qed
qed

definition ex_cbc_cid_Header :: rl_Header where
  "ex_cbc_cid_Header = ex_app_Header\<lparr>rl_ContentType := ContentTypeConnectionID, rl_ConnectionID := [9]\<rparr>"

text \<open>Two records of 32 equal bytes that are their own padding: in one it leaves no room for the MAC, in the other nothing before it.\<close>

definition ex_panic_record :: "bytes \<Rightarrow> byte \<Rightarrow> bytes" where
  "ex_panic_record hdr b = hdr @ replicate 16 0 @ replicate 16 b @ replicate 16 0"

lemma ex_panic_plaintext:
  assumes "length hdr = n"
  shows "CryptBlocks_dec (cbc_readCBC ex_CBC) (take 16 (drop n (ex_panic_record hdr b))) (drop (n + 16) (ex_panic_record hdr b)) =
    Ok (replicate 32 b)"
proof -
  have b: "cbc_readCBC ex_CBC = id_Block" "bl_Size id_Block = 16" by (simp_all add: ex_CBC_def id_Block_def)
  have d: "take 16 (drop n (ex_panic_record hdr b)) = replicate 16 0"
    "drop (n + 16) (ex_panic_record hdr b) = replicate 16 b @ replicate 16 0"
    using assms by (simp_all add: ex_panic_record_def)
  have "blocks 16 (replicate 16 b @ replicate 16 0) = [replicate 16 b, replicate 16 0]"
    using blocks_append [of 16 "replicate 16 b" "replicate 16 0"]
      blocks_append [of 16 "replicate 16 0" "[]"] by (simp add: blocks.simps [of 16 "[]"])
  then show ?thesis
    unfolding d CryptBlocks_dec_def b by (simp add: id_Block_def xor_bytes_def map2_map_map zip_replicate flip: replicate_add)
qed

theorem CBC_Decrypt_panics_iff_witness:
  "\<exists>raw. rl_Header_Marshal ex_cbc_cid_Header = Ok raw \<and>
     CBC_Decrypt std_cryptobyte ex_CBC ex_app_Header (ex_panic_record ex_app_raw 31) = Panic \<and>
     CBC_Decrypt std_cryptobyte ex_CBC ex_cbc_cid_Header (ex_panic_record raw 11) = Panic"
proof -
  have wf: "wf_Block (cbc_readCBC ex_CBC)" "bl_Size (cbc_readCBC ex_CBC) = 16" "hf_Size (cbc_h ex_CBC) = 20"
    by (simp_all add: ex_CBC_def id_Block_wf ex_HashFunc_def) (simp add: id_Block_def)
  obtain raw where raw: "rl_Header_Marshal ex_cbc_cid_Header = Ok raw" "length raw = 14" and cid: "wf_rl_Header ex_cbc_cid_Header"
    using ex_app(2) by (simp add: ex_cbc_cid_Header_def ex_app_Header_def rl_Header_Marshal_def PutBigEndianUint48_be put_uint16_def
        put_be_numeral wf_rl_Header_def)
  have panics: "CBC_Decrypt std_cryptobyte ex_CBC h (ex_panic_record r b) = Panic"
    if "wf_rl_Header h" "rl_Header_Marshal h = Ok r" "length r = rl_Header_Size h" "length r < 20"
      "rl_ContentType h \<noteq> ContentTypeChangeCipherSpec" "cbc_panic_plaintext h 20 (replicate 32 b)" for h r b
  proof -
    have u: "rl_Header_Unmarshal h (ex_panic_record r b) = Ok h"
      using rl_Header_roundtrip [OF that(1,2) refl] by (simp add: ex_panic_record_def)
    have len: "length (ex_panic_record r b) = length r + 48" by (simp add: ex_panic_record_def)
    with that(4) have small: "length (ex_panic_record r b) < 2 ^ 31" by simp
    show ?thesis
      using CBC_Decrypt_panics_iff [OF std_cryptobyte_spec u wf(1,2) small] ex_panic_plaintext [of r _ b] that len
      by (simp add: wf)
  qed
  have "cbc_panic_plaintext ex_app_Header 20 (replicate 32 31)" "cbc_panic_plaintext ex_cbc_cid_Header 20 (replicate 32 11)"
    by (simp_all add: cbc_panic_plaintext_def padding_ok_def ex_cbc_cid_Header_def Let_def)
  then show ?thesis
    using panics [OF ex_app(2,1)] panics [OF cid raw(1)] raw ex_app(3)
    by (simp add: rl_Header_Size_def ex_app_raw_def ex_app_Header_def ex_cbc_cid_Header_def)
qed

lemma ip_scan_Some:
  "ip_scan data n = Some i \<Longrightarrow> i < n \<and> data ! i \<noteq> 0 \<and> (\<forall>j. i < j \<and> j < n \<longrightarrow> data ! j = 0)"
  by (induction n) (auto simp: less_Suc_eq split: if_splits)

lemma InnerPlaintext_Unmarshal_Ok:
  assumes "InnerPlaintext_Unmarshal data = Ok ip"
  shows "ip_Content ip @ [ip_RealType ip] @ replicate (ip_Zeros ip) 0 = data"
proof -
  obtain i where i: "ip_scan data (length data) = Some i"
      "ip = \<lparr>ip_Content = take i data, ip_RealType = data ! i, ip_Zeros = length data - 1 - i\<rparr>"
    using assms by (auto simp: InnerPlaintext_Unmarshal_def split: option.splits if_splits)
  from ip_scan_Some [OF i(1)] have s: "i < length data" "\<forall>j. i < j \<and> j < length data \<longrightarrow> data ! j = 0" by auto
  then have "drop (Suc i) data = replicate (length data - Suc i) 0"
    by (intro nth_equalityI) auto
  then show ?thesis using s(1) id_take_nth_drop [of i data] by (simp add: i(2))
qed

text \<open>
  C39. The MAC of CBC records with a connection ID covers the inner plaintext twice: for every
  payload that is an inner plaintext, \<^verbatim>\<open>hmacCID\<close> is the HMAC of the prefix of RFC 9146, section
  5.1, followed by the payload (content, real type and zeros, as the section lists) and by the
  payload again.
\<close>

theorem hmacCID_payload_twice:
  assumes "cryptobyte_spec cb" and "InnerPlaintext_Unmarshal payload = Ok ip"
  shows "hmacCID cb epoch seq version payload key hf cid =
    Ok (hmac hf key (cid_prefix_bytes epoch seq version cid (int (length payload)) @ payload @ payload))"
  using cryptobyte_spec.hmacCID_Ok [OF assms(1), of epoch seq version payload key hf cid]
    InnerPlaintext_Unmarshal_Ok [OF assms(2)] assms(2)
  by (metis append_assoc bind.simps(1))

theorem hmacCID_payload_twice_witness:
  "hmacCID std_cryptobyte 1 5 Version1_2 [10, 23] [1] ex_HashFunc [7] =
    Ok (hmac ex_HashFunc [1] (cid_prefix_bytes 1 5 Version1_2 [7] 2 @ [10, 23] @ [10, 23]))"
  using hmacCID_payload_twice [OF std_cryptobyte_spec, of "[10, 23]"
      "\<lparr>ip_Content = [10], ip_RealType = 23, ip_Zeros = 0\<rparr>" 1 5 Version1_2 "[1]" ex_HashFunc "[7]"]
  by (simp add: InnerPlaintext_Unmarshal_def)

end
