(* ===== verification/Cipher_Suites.thy ===== *)
theory Cipher_Suites
  imports Record_Protection
begin

section \<open>Cipher suites\<close>

text \<open>
  \<^verbatim>\<open>internal/ciphersuite\<close> (the suites) and \<^verbatim>\<open>cipher_suite.go\<close> (their selection). A suite is a record
  of what its methods return, the parameters of its \<^verbatim>\<open>Init\<close>, and the cipher that \<^verbatim>\<open>Init\<close> stored,
  if any. The standard library's hashes, AES and GCM and the suites supplied by the user are the
  fields of \<open>suite_env\<close>. When a constructor of a cipher fails, the code stores the nil pointer it
  returned: the suite counts as initialised (\<open>NilCipher\<close>) and its use is a nil dereference.

  The lemmas show that the in-place selection of \<^verbatim>\<open>parseCipherSuites\<close> is a filter, and that the two
  ends of a connection that initialise the same suite with the same secrets read each other's
  records.
\<close>

datatype AuthenticationType =
  AuthenticationTypeCertificate | AuthenticationTypePreSharedKey | AuthenticationTypeAnonymous

datatype suite_hash = HashSHA1 | HashSHA256 | HashSHA384

datatype suite_kind =
    KindCCM nat nat
  | KindGCM nat
  | KindCBC nat nat nat suite_hash
  | KindCustom

datatype suite_cipher = CipherCCM CCM | CipherGCM GCM | CipherCBC CBC | CipherCustom | NilCipher

record CipherSuite =
  cs_ID :: uint16
  cs_String :: string
  cs_CertificateType :: byte
  cs_HashFunc :: suite_hash
  cs_AuthenticationType :: AuthenticationType
  cs_KeyExchangeAlgorithm :: KeyExchangeAlgorithm
  cs_ECC :: bool
  cs_kind :: suite_kind
  cs_cipher :: "suite_cipher option"

record suite_env =
  se_hash :: "suite_hash \<Rightarrow> HashFunc"
  se_aes :: "bytes \<Rightarrow> Block option"
  se_newGCM :: "Block \<Rightarrow> AEAD res"
  se_customInit :: "uint16 \<Rightarrow> bytes \<Rightarrow> bytes \<Rightarrow> bytes \<Rightarrow> bool \<Rightarrow> unit res"
  se_customEncrypt :: "uint16 \<Rightarrow> rl_Header \<Rightarrow> bytes \<Rightarrow> bytes \<Rightarrow> bytes res"
  se_customDecrypt :: "uint16 \<Rightarrow> rl_Header \<Rightarrow> bytes \<Rightarrow> bytes res"

abbreviation (input) TLS_ECDHE_ECDSA_WITH_AES_128_CCM :: uint16 where "TLS_ECDHE_ECDSA_WITH_AES_128_CCM \<equiv> 0xc0ac"
abbreviation (input) TLS_ECDHE_ECDSA_WITH_AES_128_CCM_8 :: uint16 where "TLS_ECDHE_ECDSA_WITH_AES_128_CCM_8 \<equiv> 0xc0ae"
abbreviation (input) TLS_ECDHE_ECDSA_WITH_AES_128_GCM_SHA256 :: uint16 where "TLS_ECDHE_ECDSA_WITH_AES_128_GCM_SHA256 \<equiv> 0xc02b"
abbreviation (input) TLS_ECDHE_RSA_WITH_AES_128_GCM_SHA256 :: uint16 where "TLS_ECDHE_RSA_WITH_AES_128_GCM_SHA256 \<equiv> 0xc02f"
abbreviation (input) TLS_ECDHE_ECDSA_WITH_AES_256_GCM_SHA384 :: uint16 where "TLS_ECDHE_ECDSA_WITH_AES_256_GCM_SHA384 \<equiv> 0xc02c"
abbreviation (input) TLS_ECDHE_RSA_WITH_AES_256_GCM_SHA384 :: uint16 where "TLS_ECDHE_RSA_WITH_AES_256_GCM_SHA384 \<equiv> 0xc030"
abbreviation (input) TLS_ECDHE_ECDSA_WITH_AES_256_CBC_SHA :: uint16 where "TLS_ECDHE_ECDSA_WITH_AES_256_CBC_SHA \<equiv> 0xc00a"
abbreviation (input) TLS_ECDHE_RSA_WITH_AES_256_CBC_SHA :: uint16 where "TLS_ECDHE_RSA_WITH_AES_256_CBC_SHA \<equiv> 0xc014"
abbreviation (input) TLS_PSK_WITH_AES_128_CCM :: uint16 where "TLS_PSK_WITH_AES_128_CCM \<equiv> 0xc0a4"
abbreviation (input) TLS_PSK_WITH_AES_128_CCM_8 :: uint16 where "TLS_PSK_WITH_AES_128_CCM_8 \<equiv> 0xc0a8"
abbreviation (input) TLS_PSK_WITH_AES_256_CCM_8 :: uint16 where "TLS_PSK_WITH_AES_256_CCM_8 \<equiv> 0xc0a9"
abbreviation (input) TLS_PSK_WITH_AES_128_GCM_SHA256 :: uint16 where "TLS_PSK_WITH_AES_128_GCM_SHA256 \<equiv> 0x00a8"
abbreviation (input) TLS_PSK_WITH_AES_128_CBC_SHA256 :: uint16 where "TLS_PSK_WITH_AES_128_CBC_SHA256 \<equiv> 0x00ae"
abbreviation (input) TLS_ECDHE_PSK_WITH_AES_128_CBC_SHA256 :: uint16 where "TLS_ECDHE_PSK_WITH_AES_128_CBC_SHA256 \<equiv> 0xc037"

abbreviation (input) RSASign :: byte where "RSASign \<equiv> 1"
abbreviation (input) ECDSASign :: byte where "ECDSASign \<equiv> 64"

subsection \<open>The suites\<close>

definition newAesCcm ::
  "byte \<Rightarrow> uint16 \<Rightarrow> string \<Rightarrow> bool \<Rightarrow> nat \<Rightarrow> KeyExchangeAlgorithm \<Rightarrow> bool \<Rightarrow> nat \<Rightarrow> CipherSuite" where
  "newAesCcm clientCertificateType i name psk tagLen kx ecc prfKeyLen =
     \<lparr>cs_ID = i, cs_String = name, cs_CertificateType = clientCertificateType, cs_HashFunc = HashSHA256,
      cs_AuthenticationType =
        (if psk then AuthenticationTypePreSharedKey else AuthenticationTypeCertificate),
      cs_KeyExchangeAlgorithm = kx, cs_ECC = ecc, cs_kind = KindCCM tagLen prfKeyLen, cs_cipher = None\<rparr>"

definition NewTLSEcdheEcdsaWithAes128Ccm :: CipherSuite where
  "NewTLSEcdheEcdsaWithAes128Ccm =
     newAesCcm ECDSASign TLS_ECDHE_ECDSA_WITH_AES_128_CCM ''TLS_ECDHE_ECDSA_WITH_AES_128_CCM''
       False 16 KeyExchangeAlgorithmEcdhe True 16"

definition NewTLSEcdheEcdsaWithAes128Ccm8 :: CipherSuite where
  "NewTLSEcdheEcdsaWithAes128Ccm8 =
     newAesCcm ECDSASign TLS_ECDHE_ECDSA_WITH_AES_128_CCM_8 ''TLS_ECDHE_ECDSA_WITH_AES_128_CCM_8''
       False 8 KeyExchangeAlgorithmEcdhe True 16"

definition NewTLSPskWithAes128Ccm :: CipherSuite where
  "NewTLSPskWithAes128Ccm =
     newAesCcm 0 TLS_PSK_WITH_AES_128_CCM ''TLS_PSK_WITH_AES_128_CCM'' True 16 KeyExchangeAlgorithmPsk False 16"

definition NewTLSPskWithAes128Ccm8 :: CipherSuite where
  "NewTLSPskWithAes128Ccm8 =
     newAesCcm 0 TLS_PSK_WITH_AES_128_CCM_8 ''TLS_PSK_WITH_AES_128_CCM_8'' True 8 KeyExchangeAlgorithmPsk False 16"

definition NewTLSPskWithAes256Ccm8 :: CipherSuite where
  "NewTLSPskWithAes256Ccm8 =
     newAesCcm 0 TLS_PSK_WITH_AES_256_CCM_8 ''TLS_PSK_WITH_AES_256_CCM_8'' True 8 KeyExchangeAlgorithmPsk False 32"

definition TLSEcdheEcdsaWithAes128GcmSha256 :: CipherSuite where
  "TLSEcdheEcdsaWithAes128GcmSha256 =
     \<lparr>cs_ID = TLS_ECDHE_ECDSA_WITH_AES_128_GCM_SHA256, cs_String = ''TLS_ECDHE_ECDSA_WITH_AES_128_GCM_SHA256'',
      cs_CertificateType = ECDSASign, cs_HashFunc = HashSHA256,
      cs_AuthenticationType = AuthenticationTypeCertificate,
      cs_KeyExchangeAlgorithm = KeyExchangeAlgorithmEcdhe, cs_ECC = True, cs_kind = KindGCM 16, cs_cipher = None\<rparr>"

text \<open>The suites that embed another one override some of its methods.\<close>

definition TLSEcdheRsaWithAes128GcmSha256 :: CipherSuite where
  "TLSEcdheRsaWithAes128GcmSha256 = TLSEcdheEcdsaWithAes128GcmSha256
     \<lparr>cs_CertificateType := RSASign, cs_ID := TLS_ECDHE_RSA_WITH_AES_128_GCM_SHA256,
      cs_String := ''TLS_ECDHE_RSA_WITH_AES_128_GCM_SHA256''\<rparr>"

definition TLSEcdheEcdsaWithAes256GcmSha384 :: CipherSuite where
  "TLSEcdheEcdsaWithAes256GcmSha384 = TLSEcdheEcdsaWithAes128GcmSha256
     \<lparr>cs_ID := TLS_ECDHE_ECDSA_WITH_AES_256_GCM_SHA384,
      cs_String := ''TLS_ECDHE_ECDSA_WITH_AES_256_GCM_SHA384'', cs_HashFunc := HashSHA384, cs_kind := KindGCM 32\<rparr>"

definition TLSEcdheRsaWithAes256GcmSha384 :: CipherSuite where
  "TLSEcdheRsaWithAes256GcmSha384 = TLSEcdheEcdsaWithAes256GcmSha384
     \<lparr>cs_CertificateType := RSASign, cs_ID := TLS_ECDHE_RSA_WITH_AES_256_GCM_SHA384,
      cs_String := ''TLS_ECDHE_RSA_WITH_AES_256_GCM_SHA384''\<rparr>"

definition TLSPskWithAes128GcmSha256 :: CipherSuite where
  "TLSPskWithAes128GcmSha256 = TLSEcdheEcdsaWithAes128GcmSha256
     \<lparr>cs_CertificateType := 0, cs_KeyExchangeAlgorithm := KeyExchangeAlgorithmPsk,
      cs_ID := TLS_PSK_WITH_AES_128_GCM_SHA256, cs_String := ''TLS_PSK_WITH_AES_128_GCM_SHA256'',
      cs_AuthenticationType := AuthenticationTypePreSharedKey\<rparr>"

definition TLSEcdheEcdsaWithAes256CbcSha :: CipherSuite where
  "TLSEcdheEcdsaWithAes256CbcSha =
     \<lparr>cs_ID = TLS_ECDHE_ECDSA_WITH_AES_256_CBC_SHA, cs_String = ''TLS_ECDHE_ECDSA_WITH_AES_256_CBC_SHA'',
      cs_CertificateType = ECDSASign, cs_HashFunc = HashSHA256,
      cs_AuthenticationType = AuthenticationTypeCertificate,
      cs_KeyExchangeAlgorithm = KeyExchangeAlgorithmEcdhe, cs_ECC = True,
      cs_kind = KindCBC 20 32 16 HashSHA1, cs_cipher = None\<rparr>"

definition TLSEcdheRsaWithAes256CbcSha :: CipherSuite where
  "TLSEcdheRsaWithAes256CbcSha = TLSEcdheEcdsaWithAes256CbcSha
     \<lparr>cs_CertificateType := RSASign, cs_ID := TLS_ECDHE_RSA_WITH_AES_256_CBC_SHA,
      cs_String := ''TLS_ECDHE_RSA_WITH_AES_256_CBC_SHA''\<rparr>"

definition TLSPskWithAes128CbcSha256 :: CipherSuite where
  "TLSPskWithAes128CbcSha256 =
     \<lparr>cs_ID = TLS_PSK_WITH_AES_128_CBC_SHA256, cs_String = ''TLS_PSK_WITH_AES_128_CBC_SHA256'',
      cs_CertificateType = 0, cs_HashFunc = HashSHA256,
      cs_AuthenticationType = AuthenticationTypePreSharedKey,
      cs_KeyExchangeAlgorithm = KeyExchangeAlgorithmPsk, cs_ECC = False,
      cs_kind = KindCBC 32 16 16 HashSHA256, cs_cipher = None\<rparr>"

definition NewTLSEcdhePskWithAes128CbcSha256 :: CipherSuite where
  "NewTLSEcdhePskWithAes128CbcSha256 =
     \<lparr>cs_ID = TLS_ECDHE_PSK_WITH_AES_128_CBC_SHA256, cs_String = ''TLS-ECDHE-PSK-WITH-AES-128-CBC-SHA256'',
      cs_CertificateType = 0, cs_HashFunc = HashSHA256,
      cs_AuthenticationType = AuthenticationTypePreSharedKey,
      cs_KeyExchangeAlgorithm = KeyExchangeAlgorithmPsk OR KeyExchangeAlgorithmEcdhe, cs_ECC = True,
      cs_kind = KindCBC 32 16 16 HashSHA256, cs_cipher = None\<rparr>"

subsection \<open>Initialisation and use\<close>

text \<open>\<^verbatim>\<open>c.ccm.Store(ccm); return err\<close>: what the constructor returned is stored in any case.\<close>

definition store_cipher :: "CipherSuite \<Rightarrow> suite_cipher res \<Rightarrow> CipherSuite \<times> unit res" where
  "store_cipher s r =
     (case r of Ok c \<Rightarrow> (s\<lparr>cs_cipher := Some c\<rparr>, Ok ())
      | Err e \<Rightarrow> (s\<lparr>cs_cipher := Some NilCipher\<rparr>, Err e)
      | Panic \<Rightarrow> (s, Panic))"

definition AesCcm_Init ::
  "suite_env \<Rightarrow> nat \<Rightarrow> nat \<Rightarrow> bytes \<Rightarrow> bytes \<Rightarrow> bytes \<Rightarrow> bool \<Rightarrow> CipherSuite \<Rightarrow> CipherSuite \<times> unit res" where
  "AesCcm_Init env tagLen prfKeyLen masterSecret clientRandom serverRandom isClient s =
     (case GenerateEncryptionKeys masterSecret clientRandom serverRandom 0 prfKeyLen 4 (se_hash env (cs_HashFunc s)) of
        Err e \<Rightarrow> (s, Err e) | Panic \<Rightarrow> (s, Panic)
      | Ok keys \<Rightarrow>
          store_cipher s (bind
            (if isClient
             then ciphersuite_NewCCM (se_aes env) tagLen (ek_ClientWriteKey keys) (ek_ClientWriteIV keys)
                    (ek_ServerWriteKey keys) (ek_ServerWriteIV keys)
             else ciphersuite_NewCCM (se_aes env) tagLen (ek_ServerWriteKey keys) (ek_ServerWriteIV keys)
                    (ek_ClientWriteKey keys) (ek_ClientWriteIV keys))
            (\<lambda>c. Ok (CipherCCM c))))"

definition Gcm_init ::
  "suite_env \<Rightarrow> nat \<Rightarrow> bytes \<Rightarrow> bytes \<Rightarrow> bytes \<Rightarrow> bool \<Rightarrow> CipherSuite \<Rightarrow> CipherSuite \<times> unit res" where
  "Gcm_init env prfKeyLen masterSecret clientRandom serverRandom isClient s =
     (case GenerateEncryptionKeys masterSecret clientRandom serverRandom 0 prfKeyLen 4 (se_hash env (cs_HashFunc s)) of
        Err e \<Rightarrow> (s, Err e) | Panic \<Rightarrow> (s, Panic)
      | Ok keys \<Rightarrow>
          store_cipher s (bind
            (if isClient
             then NewGCM (se_aes env) (se_newGCM env) (ek_ClientWriteKey keys) (ek_ClientWriteIV keys)
                    (ek_ServerWriteKey keys) (ek_ServerWriteIV keys)
             else NewGCM (se_aes env) (se_newGCM env) (ek_ServerWriteKey keys) (ek_ServerWriteIV keys)
                    (ek_ClientWriteKey keys) (ek_ClientWriteIV keys))
            (\<lambda>c. Ok (CipherGCM c))))"

definition Cbc_Init ::
  "suite_env \<Rightarrow> nat \<Rightarrow> nat \<Rightarrow> nat \<Rightarrow> suite_hash \<Rightarrow> bytes \<Rightarrow> bytes \<Rightarrow> bytes \<Rightarrow> bool \<Rightarrow> CipherSuite \<Rightarrow>
   CipherSuite \<times> unit res" where
  "Cbc_Init env prfMacLen prfKeyLen prfIvLen macHash masterSecret clientRandom serverRandom isClient s =
     (case GenerateEncryptionKeys masterSecret clientRandom serverRandom prfMacLen prfKeyLen prfIvLen
             (se_hash env (cs_HashFunc s)) of
        Err e \<Rightarrow> (s, Err e) | Panic \<Rightarrow> (s, Panic)
      | Ok keys \<Rightarrow>
          store_cipher s (bind
            (if isClient
             then NewCBC (se_aes env) (ek_ClientWriteKey keys) (ek_ClientWriteIV keys) (ek_ClientMACKey keys)
                    (ek_ServerWriteKey keys) (ek_ServerWriteIV keys) (ek_ServerMACKey keys) (se_hash env macHash)
             else NewCBC (se_aes env) (ek_ServerWriteKey keys) (ek_ServerWriteIV keys) (ek_ServerMACKey keys)
                    (ek_ClientWriteKey keys) (ek_ClientWriteIV keys) (ek_ClientMACKey keys) (se_hash env macHash))
            (\<lambda>c. Ok (CipherCBC c))))"

definition suite_Init ::
  "suite_env \<Rightarrow> bytes \<Rightarrow> bytes \<Rightarrow> bytes \<Rightarrow> bool \<Rightarrow> CipherSuite \<Rightarrow> CipherSuite \<times> unit res" where
  "suite_Init env masterSecret clientRandom serverRandom isClient s =
     (case cs_kind s of
        KindCCM tagLen prfKeyLen \<Rightarrow>
          AesCcm_Init env tagLen prfKeyLen masterSecret clientRandom serverRandom isClient s
      | KindGCM prfKeyLen \<Rightarrow> Gcm_init env prfKeyLen masterSecret clientRandom serverRandom isClient s
      | KindCBC prfMacLen prfKeyLen prfIvLen macHash \<Rightarrow>
          Cbc_Init env prfMacLen prfKeyLen prfIvLen macHash masterSecret clientRandom serverRandom isClient s
      | KindCustom \<Rightarrow>
          (case se_customInit env (cs_ID s) masterSecret clientRandom serverRandom isClient of
             Ok u \<Rightarrow> (s\<lparr>cs_cipher := Some CipherCustom\<rparr>, Ok u)
           | r \<Rightarrow> (s, r)))"

definition suite_IsInitialized :: "CipherSuite \<Rightarrow> bool" where
  "suite_IsInitialized s \<longleftrightarrow> cs_cipher s \<noteq> None"

definition suite_Encrypt ::
  "suite_env \<Rightarrow> 'b cryptobyte \<Rightarrow> CipherSuite \<Rightarrow> rl_Header \<Rightarrow> bytes \<Rightarrow> bytes \<Rightarrow> bytes res" where
  "suite_Encrypt env cb s h raw rnd =
     (case cs_cipher s of
        None \<Rightarrow> Err (Crypto ErrCipherSuiteNotInit)
      | Some (CipherCCM c) \<Rightarrow> CCM_Encrypt cb c h raw rnd
      | Some (CipherGCM c) \<Rightarrow> GCM_Encrypt cb c h raw rnd
      | Some (CipherCBC c) \<Rightarrow> CBC_Encrypt cb c h raw rnd
      | Some CipherCustom \<Rightarrow> se_customEncrypt env (cs_ID s) h raw rnd
      | Some NilCipher \<Rightarrow> Panic)"

definition suite_Decrypt :: "suite_env \<Rightarrow> 'b cryptobyte \<Rightarrow> CipherSuite \<Rightarrow> rl_Header \<Rightarrow> bytes \<Rightarrow> bytes res" where
  "suite_Decrypt env cb s h inn =
     (case cs_cipher s of
        None \<Rightarrow> Err (Crypto ErrCipherSuiteNotInit)
      | Some (CipherCCM c) \<Rightarrow> CCM_Decrypt cb c h inn
      | Some (CipherGCM c) \<Rightarrow> GCM_Decrypt cb c h inn
      | Some (CipherCBC c) \<Rightarrow> CBC_Decrypt cb c h inn
      | Some CipherCustom \<Rightarrow> se_customDecrypt env (cs_ID s) h inn
      | Some NilCipher \<Rightarrow> Panic)"

subsection \<open>Selection\<close>

definition builtin_cipherSuiteForID :: "uint16 \<Rightarrow> CipherSuite option" where
  "builtin_cipherSuiteForID i =
     (if i = TLS_ECDHE_ECDSA_WITH_AES_128_CCM then Some NewTLSEcdheEcdsaWithAes128Ccm
      else if i = TLS_ECDHE_ECDSA_WITH_AES_128_CCM_8 then Some NewTLSEcdheEcdsaWithAes128Ccm8
      else if i = TLS_ECDHE_ECDSA_WITH_AES_128_GCM_SHA256 then Some TLSEcdheEcdsaWithAes128GcmSha256
      else if i = TLS_ECDHE_RSA_WITH_AES_128_GCM_SHA256 then Some TLSEcdheRsaWithAes128GcmSha256
      else if i = TLS_ECDHE_ECDSA_WITH_AES_256_CBC_SHA then Some TLSEcdheEcdsaWithAes256CbcSha
      else if i = TLS_ECDHE_RSA_WITH_AES_256_CBC_SHA then Some TLSEcdheRsaWithAes256CbcSha
      else if i = TLS_PSK_WITH_AES_128_CCM then Some NewTLSPskWithAes128Ccm
      else if i = TLS_PSK_WITH_AES_128_CCM_8 then Some NewTLSPskWithAes128Ccm8
      else if i = TLS_PSK_WITH_AES_256_CCM_8 then Some NewTLSPskWithAes256Ccm8
      else if i = TLS_PSK_WITH_AES_128_GCM_SHA256 then Some TLSPskWithAes128GcmSha256
      else if i = TLS_PSK_WITH_AES_128_CBC_SHA256 then Some TLSPskWithAes128CbcSha256
      else if i = TLS_ECDHE_ECDSA_WITH_AES_256_GCM_SHA384 then Some TLSEcdheEcdsaWithAes256GcmSha384
      else if i = TLS_ECDHE_RSA_WITH_AES_256_GCM_SHA384 then Some TLSEcdheRsaWithAes256GcmSha384
      else if i = TLS_ECDHE_PSK_WITH_AES_128_CBC_SHA256 then Some NewTLSEcdhePskWithAes128CbcSha256
      else None)"

definition cipherSuiteForID :: "uint16 \<Rightarrow> CipherSuite list option \<Rightarrow> CipherSuite option" where
  "cipherSuiteForID i customCiphers =
     (case builtin_cipherSuiteForID i of
        Some s \<Rightarrow> Some s
      | None \<Rightarrow> (case customCiphers of None \<Rightarrow> None | Some cs \<Rightarrow> List.find (\<lambda>c. cs_ID c = i) cs))"

definition defaultCipherSuites :: "CipherSuite list" where
  "defaultCipherSuites =
     [TLSEcdheEcdsaWithAes128GcmSha256, TLSEcdheRsaWithAes128GcmSha256, TLSEcdheEcdsaWithAes256CbcSha,
      TLSEcdheRsaWithAes256CbcSha, TLSEcdheEcdsaWithAes256GcmSha384, TLSEcdheRsaWithAes256GcmSha384]"

definition allCipherSuites :: "CipherSuite list" where
  "allCipherSuites =
     [NewTLSEcdheEcdsaWithAes128Ccm, NewTLSEcdheEcdsaWithAes128Ccm8, TLSEcdheEcdsaWithAes128GcmSha256,
      TLSEcdheRsaWithAes128GcmSha256, TLSEcdheEcdsaWithAes256CbcSha, TLSEcdheRsaWithAes256CbcSha,
      NewTLSPskWithAes128Ccm, NewTLSPskWithAes128Ccm8, NewTLSPskWithAes256Ccm8, TLSPskWithAes128GcmSha256,
      TLSEcdheEcdsaWithAes256GcmSha384, TLSEcdheRsaWithAes256GcmSha384]"

definition cipherSuiteIDs :: "CipherSuite list \<Rightarrow> uint16 list" where
  "cipherSuiteIDs suites = map cs_ID suites"

definition CipherSuites :: "(uint16 \<times> string) list" where
  "CipherSuites = map (\<lambda>c. (cs_ID c, cs_String c)) allCipherSuites"

fun cipherSuitesForIDs :: "uint16 list \<Rightarrow> CipherSuite list res" where
  "cipherSuitesForIDs [] = Ok []"
| "cipherSuitesForIDs (i # ids) =
     (case cipherSuiteForID i None of
        None \<Rightarrow> Err (Config (ErrInvalidCipherSuiteID i))
      | Some c \<Rightarrow> bind (cipherSuitesForIDs ids) (\<lambda>cs. Ok (c # cs)))"

text \<open>The loop that keeps suites in place: \<open>j\<close> reads, \<open>i\<close> writes, and the three flags.\<close>

record suite_flags =
  found_certificate :: bool
  found_psk :: bool
  found_anonymous :: bool

fun parseCipherSuites_loop ::
  "bool \<Rightarrow> bool \<Rightarrow> nat \<Rightarrow> nat \<Rightarrow> nat \<Rightarrow> CipherSuite list \<Rightarrow> suite_flags \<Rightarrow> nat \<times> CipherSuite list \<times> suite_flags" where
  "parseCipherSuites_loop inclCert inclPSK 0 j i xs fl = (i, xs, fl)"
| "parseCipherSuites_loop inclCert inclPSK (Suc n) j i xs fl =
     (let c = xs ! j in
      if inclCert \<and> cs_AuthenticationType c = AuthenticationTypeCertificate then
        parseCipherSuites_loop inclCert inclPSK n (Suc j) (Suc i) (xs[i := c]) (fl\<lparr>found_certificate := True\<rparr>)
      else if inclPSK \<and> cs_AuthenticationType c = AuthenticationTypePreSharedKey then
        parseCipherSuites_loop inclCert inclPSK n (Suc j) (Suc i) (xs[i := c]) (fl\<lparr>found_psk := True\<rparr>)
      else if cs_AuthenticationType c = AuthenticationTypeAnonymous then
        parseCipherSuites_loop inclCert inclPSK n (Suc j) (Suc i) (xs[i := c]) (fl\<lparr>found_anonymous := True\<rparr>)
      else parseCipherSuites_loop inclCert inclPSK n (Suc j) i xs fl)"

definition parseCipherSuites ::
  "uint16 list option \<Rightarrow> CipherSuite list option \<Rightarrow> bool \<Rightarrow> bool \<Rightarrow> CipherSuite list res" where
  "parseCipherSuites userSelectedSuites customCipherSuites inclCert inclPSK =
     bind (case userSelectedSuites of None \<Rightarrow> Ok defaultCipherSuites | Some ids \<Rightarrow> cipherSuitesForIDs ids) (\<lambda>suites.
       let suites = (case customCipherSuites of None \<Rightarrow> suites | Some cs \<Rightarrow> cs @ suites);
           (i, xs, fl) = parseCipherSuites_loop inclCert inclPSK (length suites) 0 0 suites
             \<lparr>found_certificate = False, found_psk = False, found_anonymous = False\<rparr> in
       if inclCert \<and> \<not> found_certificate fl \<and> \<not> found_anonymous fl
       then Err (Config ErrNoAvailableCertificateCipherSuite)
       else if inclPSK \<and> \<not> found_psk fl then Err (Config ErrNoAvailablePSKCipherSuite)
       else if i = 0 then Err (Config ErrNoAvailableCipherSuites)
       else Ok (take i xs))"

text \<open>The certificate is \<open>None\<close> when it or its private key is nil.\<close>

definition filterCipherSuitesForCertificate :: "private_key option \<Rightarrow> CipherSuite list \<Rightarrow> CipherSuite list" where
  "filterCipherSuitesForCertificate cert suites =
     (case cert of
        None \<Rightarrow> suites
      | Some k \<Rightarrow>
          let certType = (case k of Ed25519PrivateKey \<Rightarrow> ECDSASign | EcdsaPrivateKey \<Rightarrow> ECDSASign
                | RsaPrivateKey \<Rightarrow> RSASign | OtherPrivateKey \<Rightarrow> 0) in
          filter (\<lambda>c. cs_AuthenticationType c \<noteq> AuthenticationTypeCertificate \<or> certType = cs_CertificateType c) suites)"

fun findMatchingSRTPProfile :: "uint16 list \<Rightarrow> uint16 list \<Rightarrow> uint16 option" where
  "findMatchingSRTPProfile [] b = None"
| "findMatchingSRTPProfile (aProfile # a) b =
     (case List.find (\<lambda>bProfile. aProfile = bProfile) b of
        Some _ \<Rightarrow> Some aProfile
      | None \<Rightarrow> findMatchingSRTPProfile a b)"

fun findMatchingCipherSuite :: "CipherSuite list \<Rightarrow> CipherSuite list \<Rightarrow> CipherSuite option" where
  "findMatchingCipherSuite [] b = None"
| "findMatchingCipherSuite (aSuite # a) b =
     (case List.find (\<lambda>bSuite. cs_ID aSuite = cs_ID bSuite) b of
        Some _ \<Rightarrow> Some aSuite
      | None \<Rightarrow> findMatchingCipherSuite a b)"

subsection \<open>Facts about the selection\<close>

definition suite_included :: "bool \<Rightarrow> bool \<Rightarrow> CipherSuite \<Rightarrow> bool" where
  "suite_included inclCert inclPSK c =
     (case cs_AuthenticationType c of
        AuthenticationTypeCertificate \<Rightarrow> inclCert
      | AuthenticationTypePreSharedKey \<Rightarrow> inclPSK
      | AuthenticationTypeAnonymous \<Rightarrow> True)"

lemma parseCipherSuites_loop_filter:
  assumes "length xs = j + n" "i \<le> j" "parseCipherSuites_loop inclCert inclPSK n j i xs fl = (i', xs', fl')"
  shows "take i' xs' = take i xs @ filter (suite_included inclCert inclPSK) (drop j xs)
    \<and> i' = i + length (filter (suite_included inclCert inclPSK) (drop j xs))
    \<and> found_certificate fl' = (found_certificate fl \<or>
        (\<exists>c \<in> set (drop j xs). inclCert \<and> cs_AuthenticationType c = AuthenticationTypeCertificate))
    \<and> found_psk fl' = (found_psk fl \<or>
        (\<exists>c \<in> set (drop j xs). inclPSK \<and> cs_AuthenticationType c = AuthenticationTypePreSharedKey))
    \<and> found_anonymous fl' = (found_anonymous fl \<or>
        (\<exists>c \<in> set (drop j xs). cs_AuthenticationType c = AuthenticationTypeAnonymous))"
  using assms
proof (induction n arbitrary: j i xs fl)
  case (Suc n)
  let ?c = "xs ! j"
  have d: "drop j xs = ?c # drop (Suc j) xs" using Suc.prems by (simp add: Cons_nth_drop_Suc)
  have u: "take (Suc i) (xs[i := ?c]) = take i xs @ [?c]" "drop (Suc j) (xs[i := ?c]) = drop (Suc j) xs"
    using Suc.prems by (simp_all add: take_Suc_conv_app_nth)
  show ?case
    using Suc.prems Suc.IH [of "xs[i := ?c]" "Suc j" "Suc i"] Suc.IH [of xs "Suc j" i]
    unfolding d u
    by (cases "cs_AuthenticationType ?c") (auto simp: Let_def suite_included_def u split: if_splits)
qed simp

lemma parseCipherSuites_eq:
  "parseCipherSuites ids custom inclCert inclPSK =
     bind (case ids of None \<Rightarrow> Ok defaultCipherSuites | Some ids \<Rightarrow> cipherSuitesForIDs ids) (\<lambda>suites.
       let suites = (case custom of None \<Rightarrow> suites | Some cs \<Rightarrow> cs @ suites);
           kept = filter (suite_included inclCert inclPSK) suites in
       if inclCert \<and> (\<forall>c \<in> set kept. cs_AuthenticationType c = AuthenticationTypePreSharedKey)
       then Err (Config ErrNoAvailableCertificateCipherSuite)
       else if inclPSK \<and> (\<forall>c \<in> set kept. cs_AuthenticationType c \<noteq> AuthenticationTypePreSharedKey)
       then Err (Config ErrNoAvailablePSKCipherSuite)
       else if kept = [] then Err (Config ErrNoAvailableCipherSuites)
       else Ok kept)"
proof -
  have "(let (i, xs, fl) = parseCipherSuites_loop inclCert inclPSK (length suites) 0 0 suites
             \<lparr>found_certificate = False, found_psk = False, found_anonymous = False\<rparr> in
       if inclCert \<and> \<not> found_certificate fl \<and> \<not> found_anonymous fl
       then Err (Config ErrNoAvailableCertificateCipherSuite)
       else if inclPSK \<and> \<not> found_psk fl then Err (Config ErrNoAvailablePSKCipherSuite)
       else if i = 0 then Err (Config ErrNoAvailableCipherSuites)
       else Ok (take i xs)) =
     (let kept = filter (suite_included inclCert inclPSK) suites in
       if inclCert \<and> (\<forall>c \<in> set kept. cs_AuthenticationType c = AuthenticationTypePreSharedKey)
       then Err (Config ErrNoAvailableCertificateCipherSuite)
       else if inclPSK \<and> (\<forall>c \<in> set kept. cs_AuthenticationType c \<noteq> AuthenticationTypePreSharedKey)
       then Err (Config ErrNoAvailablePSKCipherSuite)
       else if kept = [] then Err (Config ErrNoAvailableCipherSuites)
       else Ok kept)" for suites
  proof -
    let ?fl = "\<lparr>found_certificate = False, found_psk = False, found_anonymous = False\<rparr>"
    obtain i xs fl where l: "parseCipherSuites_loop inclCert inclPSK (length suites) 0 0 suites ?fl = (i, xs, fl)"
      by (metis prod_cases3)
    have auth: "cs_AuthenticationType c \<noteq> AuthenticationTypePreSharedKey \<longleftrightarrow>
        cs_AuthenticationType c = AuthenticationTypeCertificate \<or>
        cs_AuthenticationType c = AuthenticationTypeAnonymous" for c
      by (cases "cs_AuthenticationType c") auto
    have F: "take i xs = filter (suite_included inclCert inclPSK) suites \<and>
      i = length (filter (suite_included inclCert inclPSK) suites) \<and>
      found_certificate fl = (inclCert \<and> (\<exists>c \<in> set suites. cs_AuthenticationType c = AuthenticationTypeCertificate)) \<and>
      found_psk fl = (inclPSK \<and> (\<exists>c \<in> set suites. cs_AuthenticationType c = AuthenticationTypePreSharedKey)) \<and>
      found_anonymous fl = (\<exists>c \<in> set suites. cs_AuthenticationType c = AuthenticationTypeAnonymous)"
      by (rule parseCipherSuites_loop_filter [OF _ _ l, simplified])
    note f = F [THEN conjunct1] F [THEN conjunct2, THEN conjunct1] F [THEN conjunct2, THEN conjunct2, THEN conjunct1]
      F [THEN conjunct2, THEN conjunct2, THEN conjunct2, THEN conjunct1]
      F [THEN conjunct2, THEN conjunct2, THEN conjunct2, THEN conjunct2]
    have c: "inclCert \<and> \<not> found_certificate fl \<and> \<not> found_anonymous fl \<longleftrightarrow> inclCert \<and>
        (\<forall>c \<in> set (filter (suite_included inclCert inclPSK) suites). cs_AuthenticationType c = AuthenticationTypePreSharedKey)"
      unfolding f(3,5) using auth by (auto simp: suite_included_def split: AuthenticationType.splits)
    have p: "inclPSK \<and> \<not> found_psk fl \<longleftrightarrow> inclPSK \<and>
        (\<forall>c \<in> set (filter (suite_included inclCert inclPSK) suites). cs_AuthenticationType c \<noteq> AuthenticationTypePreSharedKey)"
      unfolding f(4) by (auto simp: suite_included_def split: AuthenticationType.splits)
    have z: "i = 0 \<longleftrightarrow> filter (suite_included inclCert inclPSK) suites = []" unfolding f(2) by simp
    show ?thesis unfolding l prod.case Let_def c p z f(1) ..
  qed
  then show ?thesis unfolding parseCipherSuites_def Let_def by simp
qed

subsection \<open>Both ends of a connection\<close>

text \<open>
  What the suites rely on from the standard library: digests of a fixed size, AES for keys of 16
  and 32 bytes, and GCM with tags of 16 bytes over it.
\<close>

definition wf_suite_env :: "suite_env \<Rightarrow> bool" where
  "wf_suite_env env \<longleftrightarrow>
     (\<forall>h. wf_HashFunc (se_hash env h) \<and> hf_Size (se_hash env h) \<le> 64)
     \<and> (\<forall>k. length k \<in> {16, 32} \<longrightarrow>
          (\<exists>b. se_aes env k = Some b \<and> wf_Block b \<and> bl_Size b = 16))
     \<and> (\<forall>b. wf_Block b \<and> bl_Size b = 16 \<longrightarrow>
          (\<exists>g. se_newGCM env b = Ok g \<and> aead (ae_Seal g) (ae_Open g) 16 65535))"

lemma wf_suite_envD:
  assumes "wf_suite_env env"
  shows "wf_HashFunc (se_hash env h)" and "hf_Size (se_hash env h) \<le> 64"
    and "length k \<in> {16, 32} \<Longrightarrow> \<exists>b. se_aes env k = Some b \<and> wf_Block b \<and> bl_Size b = 16"
    and "wf_Block b \<Longrightarrow> bl_Size b = 16 \<Longrightarrow>
      \<exists>g. se_newGCM env b = Ok g \<and> aead (ae_Seal g) (ae_Open g) 16 65535"
  using assms unfolding wf_suite_env_def by blast+

text \<open>The parameters the suites of the repository use, and the random bytes each kind draws.\<close>

fun wf_suite_kind :: "suite_kind \<Rightarrow> bool" where
  "wf_suite_kind (KindCCM tagLen keyLen) \<longleftrightarrow> tagLen \<in> {8, 16} \<and> keyLen \<in> {16, 32}"
| "wf_suite_kind (KindGCM keyLen) \<longleftrightarrow> keyLen \<in> {16, 32}"
| "wf_suite_kind (KindCBC macLen keyLen ivLen h) \<longleftrightarrow> keyLen \<in> {16, 32} \<and> ivLen = 16"
| "wf_suite_kind KindCustom \<longleftrightarrow> False"

fun suite_rnd :: "suite_kind \<Rightarrow> nat" where
  "suite_rnd (KindCCM _ _) = 8"
| "suite_rnd (KindGCM _) = 8"
| "suite_rnd (KindCBC _ _ _ _) = 16"
| "suite_rnd KindCustom = 0"

lemmas suite_defs =
  NewTLSEcdheEcdsaWithAes128Ccm_def NewTLSEcdheEcdsaWithAes128Ccm8_def NewTLSPskWithAes128Ccm_def
  NewTLSPskWithAes128Ccm8_def NewTLSPskWithAes256Ccm8_def TLSEcdheEcdsaWithAes128GcmSha256_def
  TLSEcdheRsaWithAes128GcmSha256_def TLSEcdheEcdsaWithAes256GcmSha384_def TLSEcdheRsaWithAes256GcmSha384_def
  TLSPskWithAes128GcmSha256_def TLSEcdheEcdsaWithAes256CbcSha_def TLSEcdheRsaWithAes256CbcSha_def
  TLSPskWithAes128CbcSha256_def NewTLSEcdhePskWithAes128CbcSha256_def newAesCcm_def

lemma suite_IDs [simp]:
  shows "cs_ID NewTLSEcdheEcdsaWithAes128Ccm = 0xc0ac"
    and "cs_ID NewTLSEcdheEcdsaWithAes128Ccm8 = 0xc0ae"
    and "cs_ID NewTLSPskWithAes128Ccm = 0xc0a4"
    and "cs_ID NewTLSPskWithAes128Ccm8 = 0xc0a8"
    and "cs_ID NewTLSPskWithAes256Ccm8 = 0xc0a9"
    and "cs_ID TLSEcdheEcdsaWithAes128GcmSha256 = 0xc02b"
    and "cs_ID TLSEcdheRsaWithAes128GcmSha256 = 0xc02f"
    and "cs_ID TLSEcdheEcdsaWithAes256GcmSha384 = 0xc02c"
    and "cs_ID TLSEcdheRsaWithAes256GcmSha384 = 0xc030"
    and "cs_ID TLSPskWithAes128GcmSha256 = 0x00a8"
    and "cs_ID TLSEcdheEcdsaWithAes256CbcSha = 0xc00a"
    and "cs_ID TLSEcdheRsaWithAes256CbcSha = 0xc014"
    and "cs_ID TLSPskWithAes128CbcSha256 = 0x00ae"
    and "cs_ID NewTLSEcdhePskWithAes128CbcSha256 = 0xc037"
  by (simp_all add: suite_defs)

lemma suite_fresh [simp]:
  shows "cs_cipher NewTLSEcdheEcdsaWithAes128Ccm = None"
    and "cs_cipher NewTLSEcdheEcdsaWithAes128Ccm8 = None"
    and "cs_cipher NewTLSPskWithAes128Ccm = None"
    and "cs_cipher NewTLSPskWithAes128Ccm8 = None"
    and "cs_cipher NewTLSPskWithAes256Ccm8 = None"
    and "cs_cipher TLSEcdheEcdsaWithAes128GcmSha256 = None"
    and "cs_cipher TLSEcdheRsaWithAes128GcmSha256 = None"
    and "cs_cipher TLSEcdheEcdsaWithAes256GcmSha384 = None"
    and "cs_cipher TLSEcdheRsaWithAes256GcmSha384 = None"
    and "cs_cipher TLSPskWithAes128GcmSha256 = None"
    and "cs_cipher TLSEcdheEcdsaWithAes256CbcSha = None"
    and "cs_cipher TLSEcdheRsaWithAes256CbcSha = None"
    and "cs_cipher TLSPskWithAes128CbcSha256 = None"
    and "cs_cipher NewTLSEcdhePskWithAes128CbcSha256 = None"
  by (simp_all add: suite_defs)

lemma suite_ECC [simp]:
  shows "cs_ECC NewTLSEcdheEcdsaWithAes128Ccm = True"
    and "cs_ECC NewTLSEcdheEcdsaWithAes128Ccm8 = True"
    and "cs_ECC NewTLSPskWithAes128Ccm = False"
    and "cs_ECC NewTLSPskWithAes128Ccm8 = False"
    and "cs_ECC NewTLSPskWithAes256Ccm8 = False"
    and "cs_ECC TLSEcdheEcdsaWithAes128GcmSha256 = True"
    and "cs_ECC TLSEcdheRsaWithAes128GcmSha256 = True"
    and "cs_ECC TLSEcdheEcdsaWithAes256GcmSha384 = True"
    and "cs_ECC TLSEcdheRsaWithAes256GcmSha384 = True"
    and "cs_ECC TLSPskWithAes128GcmSha256 = True"
    and "cs_ECC TLSEcdheEcdsaWithAes256CbcSha = True"
    and "cs_ECC TLSEcdheRsaWithAes256CbcSha = True"
    and "cs_ECC TLSPskWithAes128CbcSha256 = False"
    and "cs_ECC NewTLSEcdhePskWithAes128CbcSha256 = True"
  by (simp_all add: suite_defs)

lemma suite_kx [simp]:
  shows "cs_KeyExchangeAlgorithm NewTLSEcdheEcdsaWithAes128Ccm = KeyExchangeAlgorithmEcdhe"
    and "cs_KeyExchangeAlgorithm NewTLSEcdheEcdsaWithAes128Ccm8 = KeyExchangeAlgorithmEcdhe"
    and "cs_KeyExchangeAlgorithm NewTLSPskWithAes128Ccm = KeyExchangeAlgorithmPsk"
    and "cs_KeyExchangeAlgorithm NewTLSPskWithAes128Ccm8 = KeyExchangeAlgorithmPsk"
    and "cs_KeyExchangeAlgorithm NewTLSPskWithAes256Ccm8 = KeyExchangeAlgorithmPsk"
    and "cs_KeyExchangeAlgorithm TLSEcdheEcdsaWithAes128GcmSha256 = KeyExchangeAlgorithmEcdhe"
    and "cs_KeyExchangeAlgorithm TLSEcdheRsaWithAes128GcmSha256 = KeyExchangeAlgorithmEcdhe"
    and "cs_KeyExchangeAlgorithm TLSEcdheEcdsaWithAes256GcmSha384 = KeyExchangeAlgorithmEcdhe"
    and "cs_KeyExchangeAlgorithm TLSEcdheRsaWithAes256GcmSha384 = KeyExchangeAlgorithmEcdhe"
    and "cs_KeyExchangeAlgorithm TLSPskWithAes128GcmSha256 = KeyExchangeAlgorithmPsk"
    and "cs_KeyExchangeAlgorithm TLSEcdheEcdsaWithAes256CbcSha = KeyExchangeAlgorithmEcdhe"
    and "cs_KeyExchangeAlgorithm TLSEcdheRsaWithAes256CbcSha = KeyExchangeAlgorithmEcdhe"
    and "cs_KeyExchangeAlgorithm TLSPskWithAes128CbcSha256 = KeyExchangeAlgorithmPsk"
    and "cs_KeyExchangeAlgorithm NewTLSEcdhePskWithAes128CbcSha256 = KeyExchangeAlgorithmPsk OR KeyExchangeAlgorithmEcdhe"
  by (simp_all add: suite_defs)

lemma builtin_suites:
  assumes "cipherSuiteForID i None = Some c"
  shows "c \<in> {NewTLSEcdheEcdsaWithAes128Ccm, NewTLSEcdheEcdsaWithAes128Ccm8, TLSEcdheEcdsaWithAes128GcmSha256,
      TLSEcdheRsaWithAes128GcmSha256, TLSEcdheEcdsaWithAes256CbcSha, TLSEcdheRsaWithAes256CbcSha,
      NewTLSPskWithAes128Ccm, NewTLSPskWithAes128Ccm8, NewTLSPskWithAes256Ccm8, TLSPskWithAes128GcmSha256,
      TLSPskWithAes128CbcSha256, TLSEcdheEcdsaWithAes256GcmSha384, TLSEcdheRsaWithAes256GcmSha384,
      NewTLSEcdhePskWithAes128CbcSha256} \<and> cs_ID c = i"
  using assms unfolding cipherSuiteForID_def builtin_cipherSuiteForID_def
  by (auto split: if_splits)

lemma builtin_kind: "cipherSuiteForID i None = Some c \<Longrightarrow> wf_suite_kind (cs_kind c)"
  using builtin_suites [of i c] by (auto simp: suite_defs)

lemma hmac_payload_Ok:
  "rl_ContentType h \<noteq> ContentTypeConnectionID \<Longrightarrow> \<exists>m. cbc_mac_for cb h payload key hf = Ok m"
  by (simp add: cbc_mac_for_def)

lemma cbc_mac_for_payload:
  assumes "cryptobyte_spec cb" "rl_ContentType h = ContentTypeConnectionID \<Longrightarrow> is_ok (InnerPlaintext_Unmarshal payload)"
  shows "\<exists>m. cbc_mac_for cb h payload key hf = Ok m"
proof (cases "rl_ContentType h = ContentTypeConnectionID")
  case True
  then obtain ip where "InnerPlaintext_Unmarshal payload = Ok ip" using assms(2) by (auto simp: is_ok_iff)
  then show ?thesis using True by (simp add: cbc_mac_for_def cryptobyte_spec.hmacCID_Ok [OF assms(1)])
qed (simp add: cbc_mac_for_def)

lemma NewCCM_total:
  assumes env: "wf_suite_env env" and len: "length lk \<in> {16, 32}" "length rk \<in> {16, 32}" "tagLen \<in> {8, 16}"
  shows "\<exists>c. ciphersuite_NewCCM (se_aes env) tagLen lk liv rk riv = Ok c"
proof -
  obtain b e where b: "se_aes env lk = Some b" "bl_Size b = 16" and e: "se_aes env rk = Some e" "bl_Size e = 16"
    using wf_suite_envD(3) [OF env len(1)] wf_suite_envD(3) [OF env len(2)] by blast
  have "\<exists>x. NewCCM q (int tagLen) 12 = Ok x" if "bl_Size q = 16" for q
    using that len(3) by (auto simp: NewCCM_def)
  then obtain x y where "NewCCM b (int tagLen) 12 = Ok x" "NewCCM e (int tagLen) 12 = Ok y" using b e by blast
  then show ?thesis using b e by (simp add: ciphersuite_NewCCM_def)
qed

lemma NewGCM_total:
  assumes env: "wf_suite_env env" and len: "length lk \<in> {16, 32}" "length rk \<in> {16, 32}"
  obtains g where "aead (ae_Seal g) (ae_Open g) 16 65535"
    and "\<exists>c. NewGCM (se_aes env) (se_newGCM env) lk liv rk riv = Ok c \<and> GCM_localGCM c = g \<and> GCM_localWriteIV c = liv"
    and "\<exists>d. NewGCM (se_aes env) (se_newGCM env) rk riv lk liv = Ok d \<and> GCM_remoteGCM d = g \<and> GCM_remoteWriteIV d = liv"
proof -
  obtain b where b: "se_aes env lk = Some b" "wf_Block b" "bl_Size b = 16"
    using wf_suite_envD(3) [OF env len(1)] by blast
  obtain e where e: "se_aes env rk = Some e" "wf_Block e" "bl_Size e = 16"
    using wf_suite_envD(3) [OF env len(2)] by blast
  obtain g where g: "se_newGCM env b = Ok g" "aead (ae_Seal g) (ae_Open g) 16 65535"
    using wf_suite_envD(4) [OF env b(2,3)] by blast
  obtain g' where g': "se_newGCM env e = Ok g'" using wf_suite_envD(4) [OF env e(2,3)] by blast
  show thesis by (rule that [OF g(2)]) (simp_all add: NewGCM_def b(1) e(1) g(1) g')
qed

lemma NewCBC_total:
  assumes env: "wf_suite_env env" and len: "length lk \<in> {16, 32}" "length rk \<in> {16, 32}"
      "length liv = 16" "length riv = 16"
  obtains c d where "NewCBC (se_aes env) lk liv lm rk riv rm (se_hash env mh) = Ok c"
    and "NewCBC (se_aes env) rk riv rm lk liv lm (se_hash env mh) = Ok d" and "cbc_peers c d"
    and "cbc_h c = se_hash env mh"
proof -
  obtain b where b: "se_aes env lk = Some b" "wf_Block b" "bl_Size b = 16"
    using wf_suite_envD(3) [OF env len(1)] by blast
  obtain e where e: "se_aes env rk = Some e" "wf_Block e" "bl_Size e = 16"
    using wf_suite_envD(3) [OF env len(2)] by blast
  let ?c = "\<lparr>cbc_writeCBC = b, cbc_readCBC = e, cbc_writeMac = lm, cbc_readMac = rm, cbc_h = se_hash env mh\<rparr>"
  let ?d = "\<lparr>cbc_writeCBC = e, cbc_readCBC = b, cbc_writeMac = rm, cbc_readMac = lm, cbc_h = se_hash env mh\<rparr>"
  show thesis
    by (rule that [of ?c ?d]) (use b e len wf_suite_envD(1) [OF env] in \<open>simp_all add: NewCBC_def cbc_peers_def\<close>)
qed

lemma store_cipher_Ok: "store_cipher s (Ok c) = (s\<lparr>cs_cipher := Some c\<rparr>, Ok ())"
  by (simp add: store_cipher_def)

text \<open>Initialising the two ends gives ciphers of which one reads what the other writes.\<close>

lemma suites_interoperate_CCM:
  assumes env: "wf_suite_env env" and kind: "wf_suite_kind (cs_kind s)" and KindCCM: "cs_kind s = KindCCM tagLen keyLen"
    and c: "suite_Init env ms cr sr isClient s = (c, rc)" and d: "suite_Init env ms cr sr (\<not> isClient) s = (d, rd)"
    and cb: "cryptobyte_spec cb" and h: "wf_rl_Header h" "rl_Header_Marshal h = Ok raw"
      "rl_ContentType h \<noteq> ContentTypeChangeCipherSpec"
    and len: "length payload < 60000" "length rnd = suite_rnd (cs_kind s)"
    and cid: "length (rl_ConnectionID h0) = length (rl_ConnectionID h)"
  shows "rc = Ok () \<and> rd = Ok () \<and>
    (\<exists>enc. suite_Encrypt env cb c h (raw @ payload) rnd = Ok enc
       \<and> suite_Decrypt env cb d h0 enc = Ok (take (length raw) enc @ payload)
       \<and> length enc \<le> length raw + length payload + 96)"
proof -
  let ?gen = "GenerateEncryptionKeys ms cr sr 0 keyLen 4 (se_hash env (cs_HashFunc s))"
  obtain k where k: "?gen = Ok k"
    and kl: "length (ek_ClientWriteKey k) = keyLen" "length (ek_ServerWriteKey k) = keyLen"
      "length (ek_ClientWriteIV k) = 4" "length (ek_ServerWriteIV k) = 4"
    by (rule GenerateEncryptionKeys_partition [OF wf_suite_envD(1) [OF env]])
  define lk liv rk riv where "lk = (if isClient then ek_ClientWriteKey k else ek_ServerWriteKey k)"
    and "liv = (if isClient then ek_ClientWriteIV k else ek_ServerWriteIV k)"
    and "rk = (if isClient then ek_ServerWriteKey k else ek_ClientWriteKey k)"
    and "riv = (if isClient then ek_ServerWriteIV k else ek_ClientWriteIV k)"
  note defs = lk_def liv_def rk_def riv_def
  have l: "length lk \<in> {16, 32}" "length rk \<in> {16, 32}" "tagLen \<in> {8, 16}" "4 \<le> length liv"
    using kind kl KindCCM by (auto simp: defs)
  obtain e f where e: "ciphersuite_NewCCM (se_aes env) tagLen lk liv rk riv = Ok e"
    and f: "ciphersuite_NewCCM (se_aes env) tagLen rk riv lk liv = Ok f"
    using NewCCM_total [OF env l(1,2,3)] NewCCM_total [OF env l(2,1,3)] by blast
  have "c = s\<lparr>cs_cipher := Some (CipherCCM e)\<rparr> \<and> rc = Ok ()" "d = s\<lparr>cs_cipher := Some (CipherCCM f)\<rparr> \<and> rd = Ok ()"
    using c d e f k
    by (cases isClient; simp add: suite_Init_def KindCCM AesCcm_Init_def defs store_cipher_Ok)+
  moreover have "\<And>b. se_aes env lk = Some b \<Longrightarrow> wf_Block b" using wf_suite_envD(3) [OF env l(1)] by auto
  from CCM_roundtrip_record [OF cb this e f h _ l(4) _ cid, of payload rnd]
  have "\<exists>enc. CCM_Encrypt cb e h (raw @ payload) rnd = Ok enc
      \<and> CCM_Decrypt cb f h0 enc = Ok (take (length raw) enc @ payload) \<and> length enc \<le> length raw + length payload + 96"
    using len l(3) KindCCM by auto
  ultimately show ?thesis by (simp add: suite_Encrypt_def suite_Decrypt_def)
qed

lemma suites_interoperate_GCM:
  assumes env: "wf_suite_env env" and kind: "wf_suite_kind (cs_kind s)" and KindGCM: "cs_kind s = KindGCM keyLen"
    and c: "suite_Init env ms cr sr isClient s = (c, rc)" and d: "suite_Init env ms cr sr (\<not> isClient) s = (d, rd)"
    and cb: "cryptobyte_spec cb" and h: "wf_rl_Header h" "rl_Header_Marshal h = Ok raw"
      "rl_ContentType h \<noteq> ContentTypeChangeCipherSpec"
    and len: "length payload < 60000" "length rnd = suite_rnd (cs_kind s)"
    and cid: "length (rl_ConnectionID h0) = length (rl_ConnectionID h)"
  shows "rc = Ok () \<and> rd = Ok () \<and>
    (\<exists>enc. suite_Encrypt env cb c h (raw @ payload) rnd = Ok enc
       \<and> suite_Decrypt env cb d h0 enc = Ok (take (length raw) enc @ payload)
       \<and> length enc \<le> length raw + length payload + 96)"
proof -
  let ?gen = "GenerateEncryptionKeys ms cr sr 0 keyLen 4 (se_hash env (cs_HashFunc s))"
  obtain k where k: "?gen = Ok k"
    and kl: "length (ek_ClientWriteKey k) = keyLen" "length (ek_ServerWriteKey k) = keyLen"
      "length (ek_ClientWriteIV k) = 4" "length (ek_ServerWriteIV k) = 4"
    by (rule GenerateEncryptionKeys_partition [OF wf_suite_envD(1) [OF env]])
  define lk liv rk riv where "lk = (if isClient then ek_ClientWriteKey k else ek_ServerWriteKey k)"
    and "liv = (if isClient then ek_ClientWriteIV k else ek_ServerWriteIV k)"
    and "rk = (if isClient then ek_ServerWriteKey k else ek_ClientWriteKey k)"
    and "riv = (if isClient then ek_ServerWriteIV k else ek_ClientWriteIV k)"
  note defs = lk_def liv_def rk_def riv_def
  have l: "length lk \<in> {16, 32}" "length rk \<in> {16, 32}" "4 \<le> length liv"
    using kind kl KindGCM by (auto simp: defs)
  obtain g e f where g: "aead (ae_Seal g) (ae_Open g) 16 65535"
    and e: "NewGCM (se_aes env) (se_newGCM env) lk liv rk riv = Ok e" "GCM_localGCM e = g" "GCM_localWriteIV e = liv"
    and f: "NewGCM (se_aes env) (se_newGCM env) rk riv lk liv = Ok f" "GCM_remoteGCM f = g" "GCM_remoteWriteIV f = liv"
    using NewGCM_total [OF env l(1,2)] by metis
  have "c = s\<lparr>cs_cipher := Some (CipherGCM e)\<rparr> \<and> rc = Ok ()" "d = s\<lparr>cs_cipher := Some (CipherGCM f)\<rparr> \<and> rd = Ok ()"
    using c d e f k
    by (cases isClient; simp add: suite_Init_def KindGCM Gcm_init_def defs store_cipher_Ok)+
  moreover from aead.AEAD_roundtrip [OF g cb h _ _ l(3) _ cid, of payload rnd] len KindGCM
  have "\<exists>enc. GCM_Encrypt cb e h (raw @ payload) rnd = Ok enc
      \<and> GCM_Decrypt cb f h0 enc = Ok (take (length raw) enc @ payload) \<and> length enc \<le> length raw + length payload + 96"
    unfolding GCM_Encrypt_def GCM_Decrypt_def e f by auto
  ultimately show ?thesis by (simp add: suite_Encrypt_def suite_Decrypt_def)
qed

lemma suites_interoperate_CBC:
  assumes env: "wf_suite_env env" and kind: "wf_suite_kind (cs_kind s)" and KindCBC: "cs_kind s = KindCBC macLen keyLen ivLen mh"
    and c: "suite_Init env ms cr sr isClient s = (c, rc)" and d: "suite_Init env ms cr sr (\<not> isClient) s = (d, rd)"
    and cb: "cryptobyte_spec cb" and h: "wf_rl_Header h" "rl_Header_Marshal h = Ok raw"
      "rl_ContentType h \<noteq> ContentTypeChangeCipherSpec"
    and len: "length payload < 60000" "length rnd = suite_rnd (cs_kind s)"
    and ip: "rl_ContentType h = ContentTypeConnectionID \<Longrightarrow> is_ok (InnerPlaintext_Unmarshal payload)"
    and cid: "length (rl_ConnectionID h0) = length (rl_ConnectionID h)"
  shows "rc = Ok () \<and> rd = Ok () \<and>
    (\<exists>enc. suite_Encrypt env cb c h (raw @ payload) rnd = Ok enc
       \<and> suite_Decrypt env cb d h0 enc = Ok (take (length raw) enc @ payload)
       \<and> length enc \<le> length raw + length payload + 96)"
proof -
  let ?gen = "GenerateEncryptionKeys ms cr sr macLen keyLen ivLen (se_hash env (cs_HashFunc s))"
  obtain k where k: "?gen = Ok k"
    and kl: "length (ek_ClientWriteKey k) = keyLen" "length (ek_ServerWriteKey k) = keyLen"
      "length (ek_ClientWriteIV k) = ivLen" "length (ek_ServerWriteIV k) = ivLen"
    by (rule GenerateEncryptionKeys_partition [OF wf_suite_envD(1) [OF env]])
  define lk liv lm rk riv rm where "lk = (if isClient then ek_ClientWriteKey k else ek_ServerWriteKey k)"
    and "liv = (if isClient then ek_ClientWriteIV k else ek_ServerWriteIV k)"
    and "lm = (if isClient then ek_ClientMACKey k else ek_ServerMACKey k)"
    and "rk = (if isClient then ek_ServerWriteKey k else ek_ClientWriteKey k)"
    and "riv = (if isClient then ek_ServerWriteIV k else ek_ClientWriteIV k)"
    and "rm = (if isClient then ek_ServerMACKey k else ek_ClientMACKey k)"
  note defs = lk_def liv_def lm_def rk_def riv_def rm_def
  have l: "length lk \<in> {16, 32}" "length rk \<in> {16, 32}" "length liv = 16" "length riv = 16"
    using kind kl KindCBC by (auto simp: defs)
  obtain e f where e: "NewCBC (se_aes env) lk liv lm rk riv rm (se_hash env mh) = Ok e"
    and f: "NewCBC (se_aes env) rk riv rm lk liv lm (se_hash env mh) = Ok f" and p: "cbc_peers e f"
      "cbc_h e = se_hash env mh"
    by (rule NewCBC_total [OF env l])
  have "c = s\<lparr>cs_cipher := Some (CipherCBC e)\<rparr> \<and> rc = Ok ()" "d = s\<lparr>cs_cipher := Some (CipherCBC f)\<rparr> \<and> rd = Ok ()"
    using c d e f k
    by (cases isClient; simp add: suite_Init_def KindCBC Cbc_Init_def defs store_cipher_Ok)+
  moreover obtain m where "cbc_mac_for cb h payload (cbc_writeMac e) (cbc_h e) = Ok m"
    using cbc_mac_for_payload [OF cb ip] by blast
  from CBC_roundtrip_record [OF cb p(1) h this _ _ cid, of rnd]
  have "\<exists>enc. CBC_Encrypt cb e h (raw @ payload) rnd = Ok enc
      \<and> CBC_Decrypt cb f h0 enc = Ok (take (length raw) enc @ payload) \<and> length enc \<le> length raw + length payload + 96"
    using len KindCBC wf_suite_envD(2) [OF env, of mh] p(2) by fastforce
  ultimately show ?thesis by (simp add: suite_Encrypt_def suite_Decrypt_def)
qed

lemma suites_interoperate:
  assumes env: "wf_suite_env env" and kind: "wf_suite_kind (cs_kind s)"
    and c: "suite_Init env ms cr sr isClient s = (c, rc)" and d: "suite_Init env ms cr sr (\<not> isClient) s = (d, rd)"
    and cb: "cryptobyte_spec cb" and h: "wf_rl_Header h" "rl_Header_Marshal h = Ok raw"
      "rl_ContentType h \<noteq> ContentTypeChangeCipherSpec"
    and len: "length payload < 60000" "length rnd = suite_rnd (cs_kind s)"
    and ip: "rl_ContentType h = ContentTypeConnectionID \<Longrightarrow> is_ok (InnerPlaintext_Unmarshal payload)"
    and cid: "length (rl_ConnectionID h0) = length (rl_ConnectionID h)"
  shows "rc = Ok () \<and> rd = Ok () \<and>
    (\<exists>enc. suite_Encrypt env cb c h (raw @ payload) rnd = Ok enc
       \<and> suite_Decrypt env cb d h0 enc = Ok (take (length raw) enc @ payload)
       \<and> length enc \<le> length raw + length payload + 96)"
proof (cases "cs_kind s")
  case (KindCCM tagLen keyLen)
  then show ?thesis using suites_interoperate_CCM [OF env kind _ c d cb h len cid] by blast
next
  case (KindGCM keyLen)
  then show ?thesis using suites_interoperate_GCM [OF env kind _ c d cb h len cid] by blast
next
  case (KindCBC macLen keyLen ivLen mh)
  then show ?thesis using suites_interoperate_CBC [OF env kind _ c d cb h len ip cid] by blast
qed (use kind in simp)

subsection \<open>Properties\<close>

text \<open>An environment in which the laws hold: the CCM of the repository stands in for GCM.\<close>

definition ex_env :: suite_env where
  "ex_env = \<lparr>se_hash = (\<lambda>_. ex_HashFunc), se_aes = (\<lambda>k. Some id_Block),
     se_newGCM = (\<lambda>b. Ok \<lparr>ae_Seal = Seal \<lparr>ccm_b = b, ccm_M = 16, ccm_L = 3\<rparr> [],
                          ae_Open = Open \<lparr>ccm_b = b, ccm_M = 16, ccm_L = 3\<rparr> []\<rparr>),
     se_customInit = (\<lambda>_ _ _ _ _. Ok ()), se_customEncrypt = (\<lambda>_ _ raw _. Ok raw),
     se_customDecrypt = (\<lambda>_ _ inn. Ok inn)\<rparr>"

lemma ex_env_wf: "wf_suite_env ex_env"
proof -
  have "aead (Seal c []) (Open c []) 16 65535"
    if "wf_Block b" "bl_Size b = 16" "c = \<lparr>ccm_b = b, ccm_M = 16, ccm_L = 3\<rparr>" for b c
    using ccm_aead [of c] that by (simp add: wf_ccm_def NonceSize_def)
  moreover have "bl_Size id_Block = 16" "hf_Size ex_HashFunc = 20"
    by (simp_all add: id_Block_def ex_HashFunc_def)
  ultimately show ?thesis
    by (simp add: wf_suite_env_def ex_env_def ex_HashFunc_wf id_Block_wf)
qed

text \<open>
  C15. The two ends of a connection understand each other. For every cipher suite of the
  repository, initialising it on client and server with the same master secret and randoms
  succeeds, and whatever record one end protects (any content but ChangeCipherSpec, with or
  without connection ID) the other end decrypts to the same payload. Protection adds at most 96
  bytes.
\<close>

theorem cipherSuite_ends_interoperate:
  assumes "wf_suite_env env" "cryptobyte_spec cb" "cipherSuiteForID i None = Some s"
    and "suite_Init env ms cr sr isClient s = (c, rc)" "suite_Init env ms cr sr (\<not> isClient) s = (d, rd)"
    and "wf_rl_Header h" "rl_Header_Marshal h = Ok raw" "rl_ContentType h \<noteq> ContentTypeChangeCipherSpec"
    and "length payload < 60000" "length rnd = suite_rnd (cs_kind s)"
    and "rl_ContentType h = ContentTypeConnectionID \<Longrightarrow> is_ok (InnerPlaintext_Unmarshal payload)"
    and "length (rl_ConnectionID h0) = length (rl_ConnectionID h)"
  shows "rc = Ok () \<and> rd = Ok () \<and>
    (\<exists>enc. suite_Encrypt env cb c h (raw @ payload) rnd = Ok enc
       \<and> suite_Decrypt env cb d h0 enc = Ok (take (length raw) enc @ payload)
       \<and> length enc \<le> length raw + length payload + 96)"
  using suites_interoperate [OF assms(1) builtin_kind [OF assms(3)] assms(4,5,2,6-12)] .

theorem cipherSuite_ends_interoperate_witness:
  "\<exists>c d enc. suite_Init ex_env [1] [2] [3] True NewTLSPskWithAes128Ccm8 = (c, Ok ())
    \<and> suite_Init ex_env [1] [2] [3] False NewTLSPskWithAes128Ccm8 = (d, Ok ())
    \<and> suite_Encrypt ex_env std_cryptobyte c ex_app_Header (ex_app_raw @ [10, 11, 12]) [9, 9, 9, 9, 9, 9, 9, 9] = Ok enc
    \<and> suite_Decrypt ex_env std_cryptobyte d ex_app_Header enc = Ok (take 13 enc @ [10, 11, 12])"
proof -
  let ?s = NewTLSPskWithAes128Ccm8 and ?rnd = "[9, 9, 9, 9, 9, 9, 9, 9] :: bytes"
  obtain c rc where c: "suite_Init ex_env [1] [2] [3] True ?s = (c, rc)" by fastforce
  obtain d rd where d: "suite_Init ex_env [1] [2] [3] (\<not> True) ?s = (d, rd)" by fastforce
  have s: "cipherSuiteForID 0xc0a8 None = Some ?s" by (simp add: cipherSuiteForID_def builtin_cipherSuiteForID_def)
  have r: "length ?rnd = suite_rnd (cs_kind ?s)" by (simp add: suite_defs)
  have "length ex_app_raw = 13" by (simp add: ex_app_raw_def)
  moreover have "rl_ContentType ex_app_Header \<noteq> ContentTypeConnectionID" by (simp add: ex_app_Header_def)
  ultimately show ?thesis
    using cipherSuite_ends_interoperate [OF ex_env_wf std_cryptobyte_spec s c d ex_app(2,1,3) _ r, where ?h0.0 = ex_app_Header
        and payload = "[10, 11, 12]"] c d by auto
qed

text \<open>
  C29. Parsing the configured cipher suites: the in-place loop keeps exactly the suites, custom
  ones first and in order, whose authentication is wanted or anonymous. It fails with the error
  for certificates when these are wanted and none of the kept suites has or replaces them, else
  with the error for PSK when PSK is wanted and missing, else when nothing is kept; and, before
  all this, for the first selected ID that no suite has.
\<close>

theorem parseCipherSuites_filter:
  "parseCipherSuites ids custom inclCert inclPSK =
     bind (case ids of None \<Rightarrow> Ok defaultCipherSuites | Some ids \<Rightarrow> cipherSuitesForIDs ids) (\<lambda>suites.
       let suites = (case custom of None \<Rightarrow> suites | Some cs \<Rightarrow> cs @ suites);
           kept = filter (suite_included inclCert inclPSK) suites in
       if inclCert \<and> \<not> list_ex (\<lambda>c. cs_AuthenticationType c \<noteq> AuthenticationTypePreSharedKey) kept
       then Err (Config ErrNoAvailableCertificateCipherSuite)
       else if inclPSK \<and> \<not> list_ex (\<lambda>c. cs_AuthenticationType c = AuthenticationTypePreSharedKey) kept
       then Err (Config ErrNoAvailablePSKCipherSuite)
       else if kept = [] then Err (Config ErrNoAvailableCipherSuites)
       else Ok kept)"
  unfolding parseCipherSuites_eq list_ex_iff by (simp only: bex_simps not_not)

text \<open>
  The table of cipher suites: a lookup returns a suite with that ID that is not initialised,
  whose \<^verbatim>\<open>ECC\<close> flag says whether it uses ECDHE except for \<^verbatim>\<open>TLS_PSK_WITH_AES_128_GCM_SHA256\<close> where
  it is set without. The public list \<^verbatim>\<open>CipherSuites\<close> names every suite of the table but two,
  \<^verbatim>\<open>TLS_PSK_WITH_AES_128_CBC_SHA256\<close> and \<^verbatim>\<open>TLS_ECDHE_PSK_WITH_AES_128_CBC_SHA256\<close>.
\<close>

lemma cipherSuiteForID_table:
  "(case cipherSuiteForID i None of
      None \<Rightarrow> i \<notin> set (map fst CipherSuites)
    | Some s \<Rightarrow> cs_ID s = i \<and> \<not> suite_IsInitialized s
        \<and> (cs_ECC s \<longleftrightarrow> kx_Has (cs_KeyExchangeAlgorithm s) KeyExchangeAlgorithmEcdhe
              \<or> i = TLS_PSK_WITH_AES_128_GCM_SHA256)
        \<and> (i \<notin> set (map fst CipherSuites) \<longleftrightarrow>
             i = TLS_PSK_WITH_AES_128_CBC_SHA256 \<or> i = TLS_ECDHE_PSK_WITH_AES_128_CBC_SHA256))"
proof (cases "cipherSuiteForID i None")
  case None
  then show ?thesis
    by (simp add: cipherSuiteForID_def builtin_cipherSuiteForID_def CipherSuites_def allCipherSuites_def
        split: if_splits)
next
  case (Some s)
  have "cs_ID s = i" using builtin_suites [OF Some] by simp
  moreover have "cs_ID s \<notin> set (map fst CipherSuites) \<longleftrightarrow> cs_ID s = 0x00ae \<or> cs_ID s = 0xc037"
    using builtin_suites [OF Some] by (auto simp: CipherSuites_def allCipherSuites_def)
  moreover have "\<not> suite_IsInitialized s"
    using builtin_suites [OF Some] by (auto simp: suite_IsInitialized_def)
  moreover have "cs_ECC s \<longleftrightarrow> kx_Has (cs_KeyExchangeAlgorithm s) KeyExchangeAlgorithmEcdhe \<or> cs_ID s = 0x00a8"
    using builtin_suites [OF Some] by (auto simp: kx_Has_def)
  ultimately show ?thesis using Some by simp
qed

end
