(* ===== verification/Handshake_Cache.thy ===== *)
theory Handshake_Cache
  imports Handshake_Messages
begin

section \<open>The handshake cache: handshake\_cache.go\<close>

text \<open>
  The cache keeps every handshake message sent and received, for the flights to read and for the
  transcript hashes. The mutex is not modelled: every operation here is one critical section of
  the code. A cipher suite enters \<open>fullPullMap\<close> only through its key exchange algorithm
  (\<open>None\<close> for a nil suite), a map from types to messages is a partial function, and the hash
  function of \<open>sessionHash\<close> is an argument.
\<close>

record handshakeCacheItem =
  ci_typ :: byte
  ci_isClient :: bool
  ci_epoch :: uint16
  ci_messageSequence :: uint16
  ci_data :: bytes

record handshakeCachePullRule =
  pr_typ :: byte
  pr_epoch :: uint16
  pr_isClient :: bool
  pr_optional :: bool

type_synonym handshakeCache = "handshakeCacheItem list"

definition newHandshakeCache :: handshakeCache where
  "newHandshakeCache = []"

definition cache_push :: "handshakeCache \<Rightarrow> bytes \<Rightarrow> uint16 \<Rightarrow> uint16 \<Rightarrow> byte \<Rightarrow> bool \<Rightarrow> handshakeCache" where
  "cache_push cache data epoch messageSequence typ isClient =
     cache @ [\<lparr>ci_typ = typ, ci_isClient = isClient, ci_epoch = epoch,
               ci_messageSequence = messageSequence, ci_data = data\<rparr>]"

definition pull_match :: "handshakeCachePullRule \<Rightarrow> handshakeCacheItem \<Rightarrow> bool" where
  "pull_match r c \<longleftrightarrow> ci_typ c = pr_typ r \<and> ci_isClient c = pr_isClient r \<and> ci_epoch c = pr_epoch r"

text \<open>The inner loop of \<^verbatim>\<open>pull\<close> and of \<^verbatim>\<open>fullPullMap\<close>: \<open>item\<close> is the variable the loop updates.\<close>

fun pull_one :: "handshakeCachePullRule \<Rightarrow> handshakeCacheItem list \<Rightarrow> handshakeCacheItem option \<Rightarrow>
    handshakeCacheItem option" where
  "pull_one r [] item = item"
| "pull_one r (c # cs) item =
     pull_one r cs
       (if pull_match r c then
          (case item of
             None \<Rightarrow> Some c
           | Some i \<Rightarrow> if ci_messageSequence i < ci_messageSequence c then Some c else Some i)
        else item)"

definition cache_pull ::
  "handshakeCache \<Rightarrow> handshakeCachePullRule list \<Rightarrow> handshakeCacheItem option list" where
  "cache_pull cache rules = map (\<lambda>r. pull_one r cache None) rules"

fun fullPullMap_items :: "handshakeCache \<Rightarrow> handshakeCachePullRule list \<Rightarrow>
    (byte \<Rightarrow> handshakeCacheItem option) \<Rightarrow> (byte \<Rightarrow> handshakeCacheItem option) option" where
  "fullPullMap_items cache [] ci = Some ci"
| "fullPullMap_items cache (r # rules) ci =
     (let item = pull_one r cache None in
      if \<not> pr_optional r \<and> item = None then None
      else fullPullMap_items cache rules (ci(pr_typ r := item)))"

fun fullPullMap_loop :: "(bytes \<Rightarrow> Handshake res) \<Rightarrow> (byte \<Rightarrow> handshakeCacheItem option) \<Rightarrow>
    handshakeCachePullRule list \<Rightarrow> int \<Rightarrow> bool \<Rightarrow> (byte \<rightharpoonup> Message) \<Rightarrow>
    (int \<times> bool \<times> (byte \<rightharpoonup> Message)) option res" where
  "fullPullMap_loop um ci [] seq ok out = Ok (Some (seq, ok, out))"
| "fullPullMap_loop um ci (r # rules) seq ok out =
     (case ci (pr_typ r) of
        None \<Rightarrow> fullPullMap_loop um ci rules seq ok out
      | Some i \<Rightarrow>
          (case um (ci_data i) of
             Err e \<Rightarrow> Ok None
           | Panic \<Rightarrow> Panic
           | Ok rawHandshake \<Rightarrow>
               if word_of_int seq \<noteq> hs_MessageSequence (hd_Header rawHandshake) then Ok None
               else fullPullMap_loop um ci rules (seq + 1) True
                      (out(pr_typ r := hd_Message rawHandshake))))"

text \<open>
  The result is the next sequence number and, when something was found, the messages by type;
  \<open>None\<close> is the third result \<^verbatim>\<open>false\<close>.
\<close>

definition fullPullMap :: "'b cryptobyte \<Rightarrow> handshakeCache \<Rightarrow> int \<Rightarrow> KeyExchangeAlgorithm option \<Rightarrow>
    handshakeCachePullRule list \<Rightarrow> (int \<times> (byte \<rightharpoonup> Message) option) res" where
  "fullPullMap cb cache startSeq cipherSuite rules =
     (case fullPullMap_items cache rules (\<lambda>_. None) of
        None \<Rightarrow> Ok (startSeq, None)
      | Some ci \<Rightarrow>
          let kx = (case cipherSuite of None \<Rightarrow> KeyExchangeAlgorithmNone | Some k \<Rightarrow> k) in
          bind (fullPullMap_loop (Handshake_Unmarshal cb kx) ci rules startSeq False Map.empty) (\<lambda>r.
            case r of
              None \<Rightarrow> Ok (startSeq, None)
            | Some (seq, ok, out) \<Rightarrow> if \<not> ok then Ok (seq, None) else Ok (seq, Some out)))"

definition merge_items :: "handshakeCacheItem option list \<Rightarrow> bytes" where
  "merge_items ps = concat (map (\<lambda>p. case p of None \<Rightarrow> [] | Some i \<Rightarrow> ci_data i) ps)"

definition pullAndMerge :: "handshakeCache \<Rightarrow> handshakeCachePullRule list \<Rightarrow> bytes" where
  "pullAndMerge cache rules = merge_items (cache_pull cache rules)"

definition pull_rule :: "byte \<Rightarrow> uint16 \<Rightarrow> bool \<Rightarrow> bool \<Rightarrow> handshakeCachePullRule" where
  "pull_rule t e c opt = \<lparr>pr_typ = t, pr_epoch = e, pr_isClient = c, pr_optional = opt\<rparr>"

definition sessionHash_rules :: "uint16 \<Rightarrow> handshakeCachePullRule list" where
  "sessionHash_rules epoch =
    [pull_rule TypeClientHello epoch True False,
     pull_rule TypeServerHello epoch False False,
     pull_rule TypeCertificate epoch False False,
     pull_rule TypeServerKeyExchange epoch False False,
     pull_rule TypeCertificateRequest epoch False False,
     pull_rule TypeServerHelloDone epoch False False,
     pull_rule TypeCertificate epoch True False,
     pull_rule TypeClientKeyExchange epoch True False]"

definition sessionHash :: "(bytes \<Rightarrow> bytes) \<Rightarrow> handshakeCache \<Rightarrow> uint16 \<Rightarrow> bytes list \<Rightarrow> bytes res" where
  "sessionHash hf cache epoch additional =
     Ok (hf (merge_items (cache_pull cache (sessionHash_rules epoch)) @ concat additional))"

subsection \<open>Pull returns the match with the greatest sequence number\<close>

lemma pull_one_sound:
  assumes "pull_one r cs item = Some i" "\<And>j. item = Some j \<Longrightarrow> P j"
    and "\<And>c. c \<in> set cs \<Longrightarrow> pull_match r c \<Longrightarrow> P c"
  shows "P i"
  using assms
proof (induction r cs item rule: pull_one.induct)
  case (2 r c cs item)
  show ?case
    by (rule "2.IH" [OF "2.prems"(1) [unfolded pull_one.simps]])
       (use "2.prems" in \<open>auto split: if_splits option.splits\<close>)
qed auto

lemma pull_one_None: "pull_one r cs item = None \<longleftrightarrow> item = None \<and> (\<forall>c \<in> set cs. \<not> pull_match r c)"
  by (induction r cs item rule: pull_one.induct) (auto split: if_splits option.splits)

lemma pull_one_max:
  assumes "pull_one r cs item = Some i"
  shows "(\<forall>j. item = Some j \<longrightarrow> ci_messageSequence j \<le> ci_messageSequence i) \<and>
    (\<forall>c \<in> set cs. pull_match r c \<longrightarrow> ci_messageSequence c \<le> ci_messageSequence i)"
  using assms
proof (induction r cs item rule: pull_one.induct)
  case (2 r c cs item)
  from "2.IH" [OF "2.prems" [unfolded pull_one.simps]] show ?case
    by (auto split: if_splits option.splits)
qed auto

lemma pull_one_spec:
  "pull_one r cache None = Some i \<Longrightarrow>
   i \<in> set cache \<and> pull_match r i \<and>
   (\<forall>c \<in> set cache. pull_match r c \<longrightarrow> ci_messageSequence c \<le> ci_messageSequence i)"
  using pull_one_sound [of r cache None i "\<lambda>x. x \<in> set cache \<and> pull_match r x"]
    pull_one_max [of r cache None i] by auto

text \<open>Pushing a message that no rule asks for changes nothing.\<close>

lemma pull_one_append:
  "pull_one r (xs @ ys) item = pull_one r ys (pull_one r xs item)"
  by (induction r xs item rule: pull_one.induct) auto

lemma pull_one_push_other:
  "\<not> pull_match r c \<Longrightarrow> pull_one r (cache @ [c]) None = pull_one r cache None"
  by (simp add: pull_one_append)

lemma pull_one_push_newer:
  assumes "pull_match r c" "\<forall>x \<in> set cache. pull_match r x \<longrightarrow> ci_messageSequence x < ci_messageSequence c"
  shows "pull_one r (cache @ [c]) None = Some c"
  using assms pull_one_spec [of r cache]
  by (auto simp: pull_one_append split: option.splits)

end
