(* ===== verification/Fragment_Buffer.thy ===== *)
theory Fragment_Buffer
  imports Record_Layer "HOL-Library.AList"
begin

section \<open>Reassembly: fragment\_buffer.go\<close>

text \<open>
  The fragment buffer collects handshake fragments by message sequence number and hands out whole
  messages in order. The Go map is an association list with distinct keys (its order is never
  observed). A failing \<open>push\<close> keeps what it has inserted so far, so it returns the buffer along
  with its result. The recursive closure of \<open>pop\<close> has fuel; \<open>appendMessage_fuel\<close> shows that
  the fuel given is enough for every buffer built by \<open>push\<close>.

  \<open>fb_inv\<close> is the invariant of the buffer: keys are distinct and agree with the headers, header
  fields fit in 24 bits, and the data held is below the 2 megabyte limit.
\<close>

abbreviation (input) fragmentBufferMaxSize :: nat where "fragmentBufferMaxSize \<equiv> 2000000"

record fragment =
  fr_recordLayerHeader :: rl_Header
  fr_handshakeHeader :: hs_Header
  fr_data :: bytes

record fragmentBuffer =
  fb_cache :: "(uint16 \<times> fragment list) list"
  fb_currentMessageSequenceNumber :: uint16

definition newFragmentBuffer :: fragmentBuffer where
  "newFragmentBuffer = \<lparr>fb_cache = [], fb_currentMessageSequenceNumber = 0\<rparr>"

definition zero_rl_Header :: rl_Header where
  "zero_rl_Header = \<lparr>rl_ContentType = 0, rl_ContentLen = 0,
     rl_Version = \<lparr>v_Major = 0, v_Minor = 0\<rparr>, rl_Epoch = 0, rl_SequenceNumber = 0,
     rl_ConnectionID = []\<rparr>"

definition fb_size :: "fragmentBuffer \<Rightarrow> nat" where
  "fb_size f = sum_list (map (\<lambda>(k, frs). sum_list (map (\<lambda>fr. length (fr_data fr)) frs)) (fb_cache f))"

definition fb_frags :: "fragmentBuffer \<Rightarrow> uint16 \<Rightarrow> fragment list" where
  "fb_frags f k = (case map_of (fb_cache f) k of None \<Rightarrow> [] | Some frs \<Rightarrow> frs)"

text \<open>
  Where the message at the front of \<open>buf\<close> ends (its \<^verbatim>\<open>Length\<close> field, not its \<^verbatim>\<open>FragmentLength\<close>,
  cut at the end of the record), and the insertion of its fragment.
\<close>

definition fragment_end :: "hs_Header \<Rightarrow> bytes \<Rightarrow> nat" where
  "fragment_end h buf =
     (let end = unat (12 + hs_Length h) in if end > length buf then length buf else end)"

definition insert_fragment :: "fragmentBuffer \<Rightarrow> rl_Header \<Rightarrow> hs_Header \<Rightarrow> bytes \<Rightarrow> fragmentBuffer" where
  "insert_fragment f rlh h buf =
     (let frag = \<lparr>fr_recordLayerHeader = rlh, fr_handshakeHeader = h,
            fr_data = take (fragment_end h buf - HeaderLength) (drop HeaderLength buf)\<rparr>;
          seq = hs_MessageSequence h in
      f\<lparr>fb_cache := AList.update seq (fb_frags f seq @ [frag]) (fb_cache f)\<rparr>)"

text \<open>
  The loop over the handshake messages of one record. \<open>rlh\<close> is the record header of the fragment
  at hand: only the first one carries the header that was read, the later ones are \<^verbatim>\<open>new(fragment)\<close>.
\<close>

function push_loop :: "fragmentBuffer \<Rightarrow> rl_Header \<Rightarrow> bytes \<Rightarrow> fragmentBuffer \<times> bool res" where
  "push_loop f rlh buf =
     (if length buf \<noteq> 0 then
        case hs_Header_Unmarshal buf of
          Err e \<Rightarrow> (f, Err e)
        | Panic \<Rightarrow> (f, Panic)
        | Ok h \<Rightarrow>
            if fragment_end h buf < HeaderLength then (f, Panic)
            else push_loop (insert_fragment f rlh h buf) zero_rl_Header
                   (drop (fragment_end h buf) buf)
      else (f, Ok True))"
  by pat_completeness auto
termination by (relation "measure (\<lambda>(f, rlh, buf). length buf)") auto

declare push_loop.simps [simp del]

definition push :: "fragmentBuffer \<Rightarrow> bytes \<Rightarrow> fragmentBuffer \<times> bool res" where
  "push f buf =
     (if fb_size f + length buf \<ge> fragmentBufferMaxSize
      then (f, Err (Conn ErrFragmentBufferOverflow))
      else case rl_Header_Unmarshal zero_rl_Header buf of
        Err e \<Rightarrow> (f, Err e)
      | Panic \<Rightarrow> (f, Panic)
      | Ok h \<Rightarrow>
          if rl_ContentType h \<noteq> ContentTypeHandshake then (f, Ok False)
          else push_loop f h (drop FixedHeaderSize buf))"

fun appendMessage :: "nat \<Rightarrow> fragment list \<Rightarrow> uint32 \<Rightarrow> bytes option" where
  "appendMessage 0 frags targetOffset = None"
| "appendMessage (Suc fuel) frags targetOffset =
     (case List.find (\<lambda>f. hs_FragmentOffset (fr_handshakeHeader f) = targetOffset) frags of
        None \<Rightarrow> None
      | Some f \<Rightarrow>
          let h = fr_handshakeHeader f; fragmentEnd = hs_FragmentOffset h + hs_FragmentLength h in
          if fragmentEnd \<noteq> hs_Length h \<and> hs_FragmentLength h \<noteq> 0
          then (case appendMessage fuel frags fragmentEnd of
                  None \<Rightarrow> None
                | Some rawMessage \<Rightarrow> Some (fr_data f @ rawMessage))
          else Some (fr_data f))"

definition pop :: "fragmentBuffer \<Rightarrow> fragmentBuffer \<times> (bytes \<times> uint16) option" where
  "pop f =
     (let cur = fb_currentMessageSequenceNumber f in
      case map_of (fb_cache f) cur of
        None \<Rightarrow> (f, None)
      | Some frags \<Rightarrow>
          (case appendMessage (Suc (length frags)) frags 0 of
             None \<Rightarrow> (f, None)
           | Some rawMessage \<Rightarrow>
               let first = hd frags;
                   firstHeader = (fr_handshakeHeader first)\<lparr>hs_FragmentOffset := 0,
                     hs_FragmentLength := hs_Length (fr_handshakeHeader first)\<rparr> in
               (case hs_Header_Marshal firstHeader of
                  Ok rawHeader \<Rightarrow>
                    (f\<lparr>fb_cache := AList.delete cur (fb_cache f),
                       fb_currentMessageSequenceNumber := cur + 1\<rparr>,
                     Some (rawHeader @ rawMessage, rl_Epoch (fr_recordLayerHeader first)))
                | _ \<Rightarrow> (f, None))))"

subsection \<open>Invariant\<close>

definition frags_size :: "fragment list \<Rightarrow> nat" where
  "frags_size frs = sum_list (map (\<lambda>fr. length (fr_data fr)) frs)"

definition cache_ok :: "(uint16 \<times> fragment list) list \<Rightarrow> bool" where
  "cache_ok c \<longleftrightarrow> distinct (map fst c) \<and>
     (\<forall>(k, frs) \<in> set c. \<forall>fr \<in> set frs.
        wf_hs_Header (fr_handshakeHeader fr) \<and> hs_MessageSequence (fr_handshakeHeader fr) = k)"

definition fb_inv :: "fragmentBuffer \<Rightarrow> bool" where
  "fb_inv f \<longleftrightarrow> cache_ok (fb_cache f) \<and> fb_size f < fragmentBufferMaxSize"

definition cache_size :: "(uint16 \<times> fragment list) list \<Rightarrow> nat" where
  "cache_size c = sum_list (map (frags_size \<circ> snd) c)"

lemma fb_size_cache: "fb_size f = cache_size (fb_cache f)"
  by (simp add: fb_size_def cache_size_def frags_size_def case_prod_unfold comp_def)

lemma frags_size_append [simp]: "frags_size (a @ b) = frags_size a + frags_size b"
  and frags_size_single [simp]: "frags_size [fr] = length (fr_data fr)"
  and frags_size_Nil [simp]: "frags_size [] = 0"
  by (simp_all add: frags_size_def)

definition lookup_frags :: "(uint16 \<times> fragment list) list \<Rightarrow> uint16 \<Rightarrow> fragment list" where
  "lookup_frags c k = (case map_of c k of None \<Rightarrow> [] | Some frs \<Rightarrow> frs)"

lemma fb_frags_lookup: "fb_frags f k = lookup_frags (fb_cache f) k"
  by (simp add: fb_frags_def lookup_frags_def)

lemma cache_size_update:
  "distinct (map fst c) \<Longrightarrow>
   cache_size (AList.update k (lookup_frags c k @ frs) c) = cache_size c + frags_size frs"
  by (induction c) (auto simp: cache_size_def lookup_frags_def)

lemma cache_size_delete: "cache_size (AList.delete k c) \<le> cache_size c"
  by (induction c) (auto simp: cache_size_def)

lemma set_update_subset: "x \<in> set (AList.update k v c) \<Longrightarrow> x = (k, v) \<or> x \<in> set c"
  by (induction c) (auto split: if_splits)

lemma set_delete_subset: "x \<in> set (AList.delete k c) \<Longrightarrow> x \<in> set c"
  by (induction c) (auto split: if_splits)

lemma cache_ok_lookup:
  "cache_ok c \<Longrightarrow> fr \<in> set (lookup_frags c k) \<Longrightarrow>
   wf_hs_Header (fr_handshakeHeader fr) \<and> hs_MessageSequence (fr_handshakeHeader fr) = k"
  by (auto simp: cache_ok_def lookup_frags_def split: option.splits dest!: map_of_SomeD)

lemma cache_ok_update:
  assumes "cache_ok c" and "wf_hs_Header (fr_handshakeHeader fr)"
    and "hs_MessageSequence (fr_handshakeHeader fr) = k"
  shows "cache_ok (AList.update k (lookup_frags c k @ [fr]) c)"
proof -
  have d: "distinct (map fst (AList.update k (lookup_frags c k @ [fr]) c))"
    using assms(1) by (simp add: cache_ok_def distinct_update)
  have "wf_hs_Header (fr_handshakeHeader x) \<and> hs_MessageSequence (fr_handshakeHeader x) = j"
    if "(j, frs) \<in> set (AList.update k (lookup_frags c k @ [fr]) c)" "x \<in> set frs" for j frs x
    using set_update_subset [OF that(1)] that(2) assms cache_ok_lookup [OF assms(1)]
    by (auto simp: cache_ok_def)
  then show ?thesis using d by (auto simp: cache_ok_def)
qed

lemma cache_ok_delete: "cache_ok c \<Longrightarrow> cache_ok (AList.delete k c)"
  by (fastforce simp: cache_ok_def distinct_delete dest: set_delete_subset)

lemma end_of_message: "wf_hs_Header h \<Longrightarrow> unat (12 + hs_Length h) = 12 + unat (hs_Length h)"
  by (simp add: wf_hs_Header_def unat_word_ariths)

lemma fragment_end_bounds:
  assumes "hs_Header_Unmarshal buf = Ok h"
  shows "12 \<le> fragment_end h buf" "fragment_end h buf \<le> length buf"
proof -
  have "unat (12 + hs_Length h) = 12 + unat (hs_Length h)" "12 \<le> length buf"
    using end_of_message [OF hs_Header_Unmarshal_wf [OF assms]] hs_Header_Unmarshal_fields [OF assms]
    by simp_all
  then show "12 \<le> fragment_end h buf" "fragment_end h buf \<le> length buf"
    by (simp_all add: fragment_end_def Let_def)
qed

lemma push_loop_step:
  assumes "hs_Header_Unmarshal buf = Ok h"
  shows "push_loop f rlh buf =
    push_loop (insert_fragment f rlh h buf) zero_rl_Header (drop (fragment_end h buf) buf)"
  using assms fragment_end_bounds [OF assms] hs_Header_Unmarshal_fields [OF assms]
  by (subst push_loop.simps) auto

lemma insert_fragment_inv:
  assumes "cache_ok (fb_cache f)" "hs_Header_Unmarshal buf = Ok h"
  shows "cache_ok (fb_cache (insert_fragment f rlh h buf))"
    "cache_size (fb_cache (insert_fragment f rlh h buf))
      = cache_size (fb_cache f) + (fragment_end h buf - 12)"
    "fb_currentMessageSequenceNumber (insert_fragment f rlh h buf) = fb_currentMessageSequenceNumber f"
proof -
  show "cache_ok (fb_cache (insert_fragment f rlh h buf))"
    using cache_ok_update [OF assms(1)] hs_Header_Unmarshal_wf [OF assms(2)]
    by (simp add: insert_fragment_def Let_def fb_frags_lookup)
  show "cache_size (fb_cache (insert_fragment f rlh h buf))
      = cache_size (fb_cache f) + (fragment_end h buf - 12)"
    using assms(1) fragment_end_bounds [OF assms(2)]
    by (simp add: insert_fragment_def Let_def fb_frags_lookup cache_size_update cache_ok_def)
qed (simp add: insert_fragment_def Let_def)

lemma push_loop_inv:
  assumes "cache_ok (fb_cache f)" and "push_loop f rlh buf = (f', r)"
  shows "cache_ok (fb_cache f') \<and> cache_size (fb_cache f') \<le> cache_size (fb_cache f) + length buf \<and>
    fb_currentMessageSequenceNumber f' = fb_currentMessageSequenceNumber f \<and> r \<noteq> Panic"
  using assms
proof (induction "length buf" arbitrary: f rlh buf rule: less_induct)
  case less
  show ?case
  proof (cases "hs_Header_Unmarshal buf")
    case (Ok h)
    note b = fragment_end_bounds [OF Ok] and ins = insert_fragment_inv [OF less.prems(1) Ok, of rlh]
    have "length (drop (fragment_end h buf) buf) < length buf" using b by simp
    from less.hyps [OF this ins(1)] less.prems(2)
    have "cache_ok (fb_cache f') \<and>
        cache_size (fb_cache f') \<le> cache_size (fb_cache (insert_fragment f rlh h buf))
          + length (drop (fragment_end h buf) buf) \<and>
        fb_currentMessageSequenceNumber f'
          = fb_currentMessageSequenceNumber (insert_fragment f rlh h buf) \<and> r \<noteq> Panic"
      by (simp add: push_loop_step [OF Ok])
    then show ?thesis using b ins by auto
  qed (use less.prems in \<open>auto simp: push_loop.simps hs_Header_Unmarshal_def split: if_splits\<close>)
qed

lemma newFragmentBuffer_inv: "fb_inv newFragmentBuffer"
  by (simp add: fb_inv_def newFragmentBuffer_def cache_ok_def fb_size_def)

lemma push_inv:
  assumes "fb_inv f" and "push f buf = (f', r)"
  shows "fb_inv f' \<and> r \<noteq> Panic \<and>
    fb_currentMessageSequenceNumber f' = fb_currentMessageSequenceNumber f"
proof -
  have np: "rl_Header_Unmarshal zero_rl_Header buf \<noteq> Panic"
    by (simp add: rl_Header_Unmarshal_def Let_def)
  show ?thesis
  proof (cases "fb_size f + length buf < 2000000 \<and> (\<exists>h. push_loop f h (drop 13 buf) = (f', r))")
    case True
    then obtain h where "push_loop f h (drop 13 buf) = (f', r)" by blast
    from push_loop_inv [OF _ this] assms(1) True show ?thesis
      by (auto simp: fb_inv_def fb_size_cache)
  next
    case False
    then show ?thesis using assms np by (auto simp: push_def split: if_splits res.splits)
  qed
qed

lemma pop_inv:
  assumes "fb_inv f" and "pop f = (f', r)"
  shows "fb_inv f' \<and> fb_size f' \<le> fb_size f"
  using assms cache_ok_delete cache_size_delete [of "fb_currentMessageSequenceNumber f" "fb_cache f"]
  by (auto simp: pop_def Let_def fb_inv_def fb_size_cache hs_Header_Marshal_def
      split: option.splits intro: le_less_trans)

subsection \<open>The fuel of the collecting recursion\<close>

text \<open>
  Each call goes to a larger offset, so a fragment is used at most once: as many calls as there are
  fragments at or behind the offset are enough.
\<close>

definition ahead :: "fragment list \<Rightarrow> uint32 \<Rightarrow> nat" where
  "ahead frs t = length (filter (\<lambda>f. t \<le> hs_FragmentOffset (fr_handshakeHeader f)) frs)"

lemma fragment_end_increases:
  assumes "wf_hs_Header h" "hs_FragmentLength h \<noteq> 0"
  shows "hs_FragmentOffset h < hs_FragmentOffset h + hs_FragmentLength h"
proof -
  have "unat (hs_FragmentLength h) \<noteq> 0" using assms(2) by (simp add: unat_eq_0)
  moreover have "unat (hs_FragmentOffset h + hs_FragmentLength h)
      = unat (hs_FragmentOffset h) + unat (hs_FragmentLength h)"
    using assms(1) by (simp add: wf_hs_Header_def unat_word_ariths)
  ultimately show ?thesis by (simp add: word_less_nat_alt)
qed

lemma ahead_less:
  assumes "f \<in> set frs" "t < t'" "hs_FragmentOffset (fr_handshakeHeader f) = t"
  shows "ahead frs t' < ahead frs t"
proof -
  have "filter (\<lambda>f. t' \<le> hs_FragmentOffset (fr_handshakeHeader f)) frs
      = filter (\<lambda>f. t' \<le> hs_FragmentOffset (fr_handshakeHeader f))
          (filter (\<lambda>f. t \<le> hs_FragmentOffset (fr_handshakeHeader f)) frs)"
    using assms(2) by (auto intro!: filter_cong)
  moreover have "f \<in> set (filter (\<lambda>f. t \<le> hs_FragmentOffset (fr_handshakeHeader f)) frs)"
    using assms by simp
  ultimately show ?thesis
    using assms unfolding ahead_def by (metis (no_types, lifting) length_filter_less linorder_not_le)
qed

lemma find_Some_in: "List.find P xs = Some x \<Longrightarrow> x \<in> set xs \<and> P x"
  by (auto simp: find_Some_iff)

lemma appendMessage_fuel:
  assumes "\<forall>f \<in> set frs. wf_hs_Header (fr_handshakeHeader f)" and "ahead frs t < n" "ahead frs t < m"
  shows "appendMessage n frs t = appendMessage m frs t"
  using assms(2,3)
proof (induction n arbitrary: m t)
  case (Suc n)
  then obtain m' where m: "m = Suc m'" by (cases m) auto
  have "appendMessage n frs (hs_FragmentOffset (fr_handshakeHeader f) + hs_FragmentLength (fr_handshakeHeader f))
      = appendMessage m' frs (hs_FragmentOffset (fr_handshakeHeader f) + hs_FragmentLength (fr_handshakeHeader f))"
    if "List.find (\<lambda>f. hs_FragmentOffset (fr_handshakeHeader f) = t) frs = Some f"
      "hs_FragmentLength (fr_handshakeHeader f) \<noteq> 0" for f
  proof -
    have f: "f \<in> set frs" "hs_FragmentOffset (fr_handshakeHeader f) = t"
      using find_Some_in [OF that(1)] by auto
    then have "t < t + hs_FragmentLength (fr_handshakeHeader f)"
      using fragment_end_increases [of "fr_handshakeHeader f"] that(2) assms(1) by auto
    from ahead_less [OF f(1) this f(2)] Suc.prems m show ?thesis
      unfolding f(2) by (intro Suc.IH) auto
  qed
  then show ?case by (auto simp: m Let_def split: option.splits)
qed simp

lemma ahead_le: "ahead frs t \<le> length frs"
  by (simp add: ahead_def)

end
