(* ===== verification/Fragmentation.thy ===== *)
theory Fragmentation
  imports Fragment_Buffer
begin

section \<open>Fragmentation of outgoing handshakes\<close>

text \<open>
  \<^verbatim>\<open>splitBytes\<close> of \<^verbatim>\<open>util.go\<close> and \<^verbatim>\<open>Conn.fragmentHandshake\<close> of \<^verbatim>\<open>conn.go\<close>. The loop of \<^verbatim>\<open>splitBytes\<close>
  never ends for a split length of zero, so it is a partial function, \<open>None\<close> when it does not
  return; \<open>splitBytes_Some\<close> shows that it returns for every positive length.
\<close>

partial_function (option) splitBytes_loop ::
  "bytes \<Rightarrow> nat \<Rightarrow> nat \<Rightarrow> bytes list \<Rightarrow> bytes list option" where
  "splitBytes_loop bytes splitLen i out =
     (if i < length bytes then
        let j = (if i + splitLen > length bytes then length bytes else i + splitLen) in
        splitBytes_loop bytes splitLen (i + splitLen) (out @ [take (j - i) (drop i bytes)])
      else Some out)"

declare splitBytes_loop.simps [code]

definition splitBytes :: "bytes \<Rightarrow> nat \<Rightarrow> bytes list option" where
  "splitBytes bytes splitLen = splitBytes_loop bytes splitLen 0 []"

fun fragmentHandshake_loop :: "hs_Header \<Rightarrow> nat \<Rightarrow> bytes list \<Rightarrow> bytes list res" where
  "fragmentHandshake_loop hdr offset [] = Ok []"
| "fragmentHandshake_loop hdr offset (contentFragment # rest) =
     bind (hs_Header_Marshal (hdr\<lparr>hs_FragmentOffset := word_of_nat offset,
              hs_FragmentLength := word_of_nat (length contentFragment)\<rparr>)) (\<lambda>raw.
       bind (fragmentHandshake_loop hdr (offset + length contentFragment) rest) (\<lambda>fs.
         Ok ((raw @ contentFragment) # fs)))"

text \<open>
  The handshake's own header gives type, length and sequence number of every fragment. A handshake
  without a message is a nil dereference; not returning from \<^verbatim>\<open>splitBytes\<close> is \<open>Panic\<close> as well.
\<close>

definition fragmentHandshake :: "'b cryptobyte \<Rightarrow> nat \<Rightarrow> Handshake \<Rightarrow> bytes list res" where
  "fragmentHandshake cb mtu h =
     (case hd_Message h of
        None \<Rightarrow> Panic
      | Some message \<Rightarrow>
          bind (Message_Marshal cb message) (\<lambda>content.
            case splitBytes content mtu of
              None \<Rightarrow> Panic
            | Some fragments \<Rightarrow>
                fragmentHandshake_loop (hd_Header h) 0
                  (if length fragments = 0 then [[]] else fragments)))"

subsection \<open>Splitting\<close>

text \<open>The specification: consecutive pieces of length \<open>n\<close>, the last one possibly shorter.\<close>

function chunks :: "nat \<Rightarrow> bytes \<Rightarrow> bytes list" where
  "chunks n xs = (if xs = [] \<or> n = 0 then [] else take n xs # chunks n (drop n xs))"
  by pat_completeness auto
termination by (relation "measure (\<lambda>(n, xs). length xs)") auto

declare chunks.simps [simp del]

lemma chunks_Nil [simp]: "chunks n [] = []"
  by (simp add: chunks.simps)

lemma chunks_ne: "xs \<noteq> [] \<Longrightarrow> 0 < n \<Longrightarrow> chunks n xs = take n xs # chunks n (drop n xs)"
  by (subst chunks.simps) simp

lemma concat_chunks: "0 < n \<Longrightarrow> concat (chunks n xs) = xs"
proof (induction n xs rule: chunks.induct)
  case (1 n xs)
  then show ?case by (cases "xs = []") (simp_all add: chunks_ne)
qed

lemma splitBytes_loop_chunks:
  "0 < n \<Longrightarrow> splitBytes_loop bytes n i out = Some (out @ chunks n (drop i bytes))"
proof (induction "length bytes - i" arbitrary: i out rule: less_induct)
  case less
  show ?case
  proof (cases "i < length bytes")
    case True
    then have "drop i bytes \<noteq> []" by simp
    moreover have "take ((if i + n > length bytes then length bytes else i + n) - i) (drop i bytes)
        = take n (drop i bytes)" by simp
    moreover have "splitBytes_loop bytes n (i + n) out' = Some (out' @ chunks n (drop (i + n) bytes))" for out'
      using less.prems True by (intro less.hyps) auto
    ultimately show ?thesis using True less.prems
      by (subst splitBytes_loop.simps) (simp add: chunks_ne Let_def add.commute)
  next
    case False
    then show ?thesis by (subst splitBytes_loop.simps) simp
  qed
qed

lemma splitBytes_Some: "0 < n \<Longrightarrow> splitBytes bytes n = Some (chunks n bytes)"
  by (simp add: splitBytes_def splitBytes_loop_chunks)

lemma chunks_props:
  "0 < n \<Longrightarrow> c \<in> set (chunks n xs) \<Longrightarrow> c \<noteq> [] \<and> length c \<le> n"
proof (induction n xs rule: chunks.induct)
  case (1 n xs)
  then show ?case by (cases "xs = []") (auto simp: chunks_ne)
qed

subsection \<open>Fragments as offsets and pieces\<close>

fun pieces_at :: "nat \<Rightarrow> bytes list \<Rightarrow> (nat \<times> bytes) list" where
  "pieces_at off [] = []"
| "pieces_at off (c # cs) = (off, c) # pieces_at (off + length c) cs"

definition frag_hdr :: "hs_Header \<Rightarrow> nat \<times> bytes \<Rightarrow> hs_Header" where
  "frag_hdr hdr p = hdr\<lparr>hs_FragmentOffset := word_of_nat (fst p),
     hs_FragmentLength := word_of_nat (length (snd p))\<rparr>"

definition hs_raw :: "hs_Header \<Rightarrow> bytes" where
  "hs_raw h = hs_Type h # PutBigEndianUint24 (hs_Length h) @ put_uint16 (hs_MessageSequence h)
     @ PutBigEndianUint24 (hs_FragmentOffset h) @ PutBigEndianUint24 (hs_FragmentLength h)"

definition frag_bytes :: "hs_Header \<Rightarrow> nat \<times> bytes \<Rightarrow> bytes" where
  "frag_bytes hdr p = hs_raw (frag_hdr hdr p) @ snd p"

lemma hs_Header_Marshal_raw: "hs_Header_Marshal h = Ok (hs_raw h)"
  by (simp add: hs_Header_Marshal_def hs_raw_def)

lemma length_hs_raw [simp]: "length (hs_raw h) = 12"
  by (simp add: hs_raw_def)

lemma fragmentHandshake_loop_pieces:
  "fragmentHandshake_loop hdr off cs = Ok (map (frag_bytes hdr) (pieces_at off cs))"
  by (induction hdr off cs rule: fragmentHandshake_loop.induct)
     (auto simp: hs_Header_Marshal_raw frag_bytes_def frag_hdr_def)

lemma pieces_at_append: "pieces_at off (xs @ ys) = pieces_at off xs @ pieces_at (off + length (concat xs)) ys"
  by (induction xs arbitrary: off) (auto simp: add.assoc)

lemma pieces_at_bounds:
  "(o', c) \<in> set (pieces_at off cs) \<Longrightarrow> off \<le> o' \<and> o' + length c \<le> off + length (concat cs)"
  by (induction cs arbitrary: off) (fastforce)+

lemma pieces_at_unique:
  "\<forall>c \<in> set cs. c \<noteq> [] \<Longrightarrow> (p, c) \<in> set (pieces_at off cs) \<Longrightarrow> (p, c') \<in> set (pieces_at off cs) \<Longrightarrow> c = c'"
proof (induction cs arbitrary: off)
  case (Cons d ds)
  have "off + length d \<le> p" if "(p, x) \<in> set (pieces_at (off + length d) ds)" for x
    using pieces_at_bounds [OF that] by simp
  moreover have "0 < length d" using Cons.prems by simp
  ultimately show ?case using Cons by fastforce
qed simp

subsection \<open>What one record does to the buffer\<close>

text \<open>A record of type handshake, with epoch \<open>e\<close> and no connection ID, that carries \<open>frag\<close>.\<close>

definition handshake_record :: "uint16 \<Rightarrow> bytes \<Rightarrow> bytes \<Rightarrow> bool" where
  "handshake_record e frag b \<longleftrightarrow>
     (\<exists>rlh raw. wf_rl_Header rlh \<and> rl_ContentType rlh = ContentTypeHandshake \<and> rl_Epoch rlh = e \<and>
        rl_Header_Marshal rlh = Ok raw \<and> b = raw @ frag)"

definition good_hdr :: "hs_Header \<Rightarrow> bytes \<Rightarrow> bool" where
  "good_hdr hdr content \<longleftrightarrow> hs_Length hdr = word_of_nat (length content) \<and> length content < 2 ^ 24"

lemma wf_frag_hdr:
  assumes "good_hdr hdr content" "fst p + length (snd p) \<le> length content"
  shows "wf_hs_Header (frag_hdr hdr p)" "unat (hs_FragmentOffset (frag_hdr hdr p)) = fst p"
    "unat (hs_FragmentLength (frag_hdr hdr p)) = length (snd p)"
    "unat (hs_Length (frag_hdr hdr p)) = length content"
  using assms by (auto simp: wf_hs_Header_def good_hdr_def frag_hdr_def unat_of_nat)

definition carries :: "uint16 \<Rightarrow> hs_Header \<Rightarrow> nat \<times> bytes \<Rightarrow> fragment \<Rightarrow> bool" where
  "carries e hdr p fr \<longleftrightarrow> fr_handshakeHeader fr = frag_hdr hdr p \<and> fr_data fr = snd p \<and>
     rl_Epoch (fr_recordLayerHeader fr) = e"

lemma push_record:
  assumes hdr: "good_hdr hdr content" "fst p + length (snd p) \<le> length content"
    and b: "handshake_record e (frag_bytes hdr p) b"
    and size: "fb_size f + length b < 2000000"
  shows "\<exists>fr. carries e hdr p fr \<and> push f b =
    (f\<lparr>fb_cache := AList.update (hs_MessageSequence hdr)
        (fb_frags f (hs_MessageSequence hdr) @ [fr]) (fb_cache f)\<rparr>, Ok True)"
proof -
  obtain rlh raw where r: "wf_rl_Header rlh" "rl_ContentType rlh = 22" "rl_Epoch rlh = e"
      "rl_Header_Marshal rlh = Ok raw" "b = raw @ frag_bytes hdr p"
    using b by (auto simp: handshake_record_def)
  have cid: "rl_ConnectionID rlh = []" using r by (simp add: wf_rl_Header_def)
  have len: "length raw = 13" using length_rl_Header_Marshal [OF r(4)] cid
    by (simp add: rl_Header_Size_def)
  define h' where "h' = rlh\<lparr>rl_ContentLen := rl_ContentLen zero_rl_Header\<rparr>"
  have un: "rl_Header_Unmarshal zero_rl_Header b = Ok h'"
    unfolding r(5) h'_def using r cid
    by (intro rl_Header_roundtrip) (simp_all add: zero_rl_Header_def)
  have hh: "rl_ContentType h' = 22" "rl_Epoch h' = e" using r by (simp_all add: h'_def)
  note wf = wf_frag_hdr [OF hdr]
  have hu: "hs_Header_Unmarshal (frag_bytes hdr p) = Ok (frag_hdr hdr p)"
    using hs_Header_roundtrip [OF wf(1) hs_Header_Marshal_raw] by (simp add: frag_bytes_def)
  have fe: "fragment_end (frag_hdr hdr p) (frag_bytes hdr p) = length (frag_bytes hdr p)"
    using hdr(2) end_of_message [OF wf(1)] wf(4)
    by (simp add: fragment_end_def Let_def frag_bytes_def)
  define fr where "fr = \<lparr>fr_recordLayerHeader = h', fr_handshakeHeader = frag_hdr hdr p, fr_data = snd p\<rparr>"
  have "push f b = push_loop f h' (frag_bytes hdr p)"
    using size un hh len r(5) by (simp add: push_def)
  also have "\<dots> = (insert_fragment f h' (frag_hdr hdr p) (frag_bytes hdr p), Ok True)"
    unfolding push_loop_step [OF hu] fe by (simp add: push_loop.simps)
  also have "insert_fragment f h' (frag_hdr hdr p) (frag_bytes hdr p)
      = f\<lparr>fb_cache := AList.update (hs_MessageSequence hdr)
          (fb_frags f (hs_MessageSequence hdr) @ [fr]) (fb_cache f)\<rparr>"
    unfolding insert_fragment_def fe Let_def by (simp add: frag_bytes_def fr_def) (simp add: frag_hdr_def)
  finally show ?thesis using hh by (intro exI [of _ fr]) (simp add: carries_def fr_def)
qed

subsection \<open>Many records in any order\<close>

definition pushes :: "fragmentBuffer \<Rightarrow> bytes list \<Rightarrow> fragmentBuffer" where
  "pushes f bs = foldl (\<lambda>f b. fst (push f b)) f bs"

lemma fb_frags_update:
  "fb_frags (f\<lparr>fb_cache := AList.update k v (fb_cache f)\<rparr>) j = (if j = k then v else fb_frags f j)"
  by (simp add: fb_frags_def update_conv)

lemma fb_size_update:
  assumes "cache_ok (fb_cache f)"
  shows "fb_size (f\<lparr>fb_cache := AList.update k (fb_frags f k @ [fr]) (fb_cache f)\<rparr>)
    = fb_size f + length (fr_data fr)"
  using assms by (simp add: fb_size_cache fb_frags_lookup cache_size_update cache_ok_def)

lemma pushes_records:
  assumes "good_hdr hdr content" "\<forall>p \<in> P. fst p + length (snd p) \<le> length content"
  shows "fb_inv f \<Longrightarrow> fb_size f + sum_list (map length bs) < 2000000 \<Longrightarrow>
    \<forall>b \<in> set bs. \<exists>p \<in> P. handshake_record e (frag_bytes hdr p) b \<Longrightarrow>
    \<exists>frs. fb_frags (pushes f bs) (hs_MessageSequence hdr) = fb_frags f (hs_MessageSequence hdr) @ frs \<and>
      list_all2 (\<lambda>b fr. \<exists>p \<in> P. handshake_record e (frag_bytes hdr p) b \<and> carries e hdr p fr) bs frs \<and>
      fb_inv (pushes f bs) \<and>
      fb_currentMessageSequenceNumber (pushes f bs) = fb_currentMessageSequenceNumber f"
proof (induction bs arbitrary: f)
  case Nil
  then show ?case by (auto simp: pushes_def)
next
  case (Cons b bs)
  obtain p where p: "p \<in> P" "handshake_record e (frag_bytes hdr p) b" using Cons.prems(3) by auto
  let ?k = "hs_MessageSequence hdr"
  obtain fr where fr: "carries e hdr p fr"
      "push f b = (f\<lparr>fb_cache := AList.update ?k (fb_frags f ?k @ [fr]) (fb_cache f)\<rparr>, Ok True)"
  proof -
    have "fst p + length (snd p) \<le> length content" "fb_size f + length b < 2000000"
      using assms(2) p(1) Cons.prems(2) by auto
    from push_record [OF assms(1) this(1) p(2) this(2)] that show ?thesis by blast
  qed
  define f1 where "f1 = f\<lparr>fb_cache := AList.update ?k (fb_frags f ?k @ [fr]) (fb_cache f)\<rparr>"
  have inv: "fb_inv f1" using push_inv [OF Cons.prems(1) fr(2)] by (simp add: f1_def)
  have "length (snd p) \<le> length b"
    using p(2) by (auto simp: handshake_record_def frag_bytes_def)
  then have "fb_size f1 \<le> fb_size f + length b"
    using fb_size_update [of f] Cons.prems(1) fr(1) by (simp add: f1_def fb_inv_def carries_def)
  then obtain frs where frs: "fb_frags (pushes f1 bs) ?k = fb_frags f1 ?k @ frs"
      "list_all2 (\<lambda>b fr. \<exists>p \<in> P. handshake_record e (frag_bytes hdr p) b \<and> carries e hdr p fr) bs frs"
      "fb_inv (pushes f1 bs)" "fb_currentMessageSequenceNumber (pushes f1 bs) = fb_currentMessageSequenceNumber f1"
    using Cons.IH [OF inv] Cons.prems by auto
  have "pushes f (b # bs) = pushes f1 bs" using fr(2) by (simp add: pushes_def f1_def)
  then show ?case using frs p fr(1)
    by (intro exI [of _ "fr # frs"]) (auto simp: f1_def fb_frags_update)
qed
subsection \<open>Collecting the message\<close>

lemma of_nat_uint32_inject:
  "n < 2 ^ 32 \<Longrightarrow> m < 2 ^ 32 \<Longrightarrow> (word_of_nat n :: uint32) = word_of_nat m \<longleftrightarrow> n = m"
  by (simp add: word_of_nat_eq_iff take_bit_nat_eq_self)

lemma appendMessage_collect:
  assumes hdr: "good_hdr hdr content"
    and ne: "\<forall>c \<in> set cs. c \<noteq> []"
    and frs: "\<forall>fr \<in> set frs. \<exists>p \<in> set (pieces_at 0 (pre @ cs)). carries e hdr p fr"
    and all: "\<forall>p \<in> set (pieces_at (length (concat pre)) cs). \<exists>fr \<in> set frs. carries e hdr p fr"
    and content: "concat (pre @ cs) = content" and cs: "cs \<noteq> []" and pre: "\<forall>c \<in> set pre. c \<noteq> []"
    and fuel: "length cs \<le> fuel"
  shows "appendMessage fuel frs (word_of_nat (length (concat pre))) = Some (concat cs)"
  using ne frs all content cs pre fuel
proof (induction cs arbitrary: pre fuel)
  case (Cons c cs)
  let ?o = "length (concat pre)" and ?P = "pieces_at 0 (pre @ c # cs)"
  have oc: "(?o, c) \<in> set ?P" by (simp add: pieces_at_append)
  have ne: "\<forall>x \<in> set (pre @ c # cs). x \<noteq> []" using Cons.prems by auto
  have bound: "fst p + length (snd p) \<le> length content" if "p \<in> set ?P" for p
    using pieces_at_bounds [of "fst p" "snd p" 0 "pre @ c # cs"] that
    unfolding Cons.prems(4) by simp
  obtain k where k: "fuel = Suc k" "length cs \<le> k" using Cons.prems(7) by (cases fuel) auto
  let ?Q = "\<lambda>f. hs_FragmentOffset (fr_handshakeHeader f) = word_of_nat ?o"
  obtain fr0 where "fr0 \<in> set frs" "carries e hdr (?o, c) fr0" using Cons.prems(3) by auto
  then have "fr0 \<in> set frs \<and> ?Q fr0" by (simp add: carries_def frag_hdr_def)
  then obtain fr where fr: "List.find ?Q frs = Some fr" by (metis (lifting) find_None_iff not_Some_eq)
  obtain p where p: "p \<in> set ?P" "carries e hdr p fr"
    using find_Some_in [OF fr] Cons.prems(2) by blast
  have "fst p = ?o"
  proof -
    have "unat (word_of_nat ?o :: uint32) = ?o"
      using wf_frag_hdr(2) [OF hdr bound [OF oc]] by (simp add: frag_hdr_def)
    then show ?thesis
      using find_Some_in [OF fr] p(2) wf_frag_hdr(2) [OF hdr bound [OF p(1)]] by (simp add: carries_def)
  qed
  then have pc: "p = (?o, c)" using pieces_at_unique [OF ne] p(1) oc by (cases p) auto
  have h: "fr_handshakeHeader fr = frag_hdr hdr (?o, c)" "fr_data fr = c"
    using p(2) pc by (auto simp: carries_def)
  note w = wf_frag_hdr [OF hdr bound [OF oc], simplified]
  have len0: "hs_FragmentLength (frag_hdr hdr (?o, c)) \<noteq> 0" using w(3) ne by force
  have fe: "hs_FragmentOffset (frag_hdr hdr (?o, c)) + hs_FragmentLength (frag_hdr hdr (?o, c))
      = word_of_nat (length (concat (pre @ [c])))"
    by (simp add: frag_hdr_def)
  have small: "length (concat (pre @ [c])) \<le> length content" using bound [OF oc] by simp
  then have L: "word_of_nat (length (concat (pre @ [c]))) = hs_Length (frag_hdr hdr (?o, c))
      \<longleftrightarrow> length (concat (pre @ [c])) = length content"
    using hdr of_nat_uint32_inject [of "length (concat (pre @ [c]))" "length content"]
    by (simp add: good_hdr_def frag_hdr_def)
  show ?case
  proof (cases "cs = []")
    case True
    then show ?thesis using Cons.prems(4) L fe
      by (simp add: k fr h Let_def del: of_nat_add)
  next
    case False
    then have "length (concat (pre @ [c])) \<noteq> length content"
      using Cons.prems(1,4) by (cases cs) (auto simp flip: Cons.prems(4))
    moreover have "appendMessage k frs (word_of_nat (length (concat (pre @ [c])))) = Some (concat cs)"
      using Cons.prems False k by (intro Cons.IH) (auto simp: pieces_at_append)
    ultimately show ?thesis using L len0 fe
      by (simp add: k fr h Let_def del: of_nat_add)
  qed
qed simp

text \<open>A missing piece stops the collection.\<close>

lemma appendMessage_missing:
  assumes hdr: "good_hdr hdr content"
    and frs: "\<forall>fr \<in> set frs. \<exists>p \<in> set (pieces_at 0 (pre @ cs)). carries e hdr p fr"
    and miss: "\<exists>p \<in> set (pieces_at (length (concat pre)) cs). \<forall>fr \<in> set frs. \<not> carries e hdr p fr"
    and content: "concat (pre @ cs) = content" and ne: "\<forall>c \<in> set (pre @ cs). c \<noteq> []"
  shows "appendMessage fuel frs (word_of_nat (length (concat pre))) = None"
  using frs miss content ne
proof (induction cs arbitrary: pre fuel)
  case (Cons c cs)
  let ?o = "length (concat pre)" and ?P = "pieces_at 0 (pre @ c # cs)"
  have oc: "(?o, c) \<in> set ?P" by (simp add: pieces_at_append)
  have bound: "fst p + length (snd p) \<le> length content" if "p \<in> set ?P" for p
    using pieces_at_bounds [of "fst p" "snd p" 0 "pre @ c # cs"] that
    unfolding Cons.prems(3) by simp
  let ?Q = "\<lambda>f. hs_FragmentOffset (fr_handshakeHeader f) = word_of_nat ?o"
  have o: "unat (word_of_nat ?o :: uint32) = ?o"
    using wf_frag_hdr(2) [OF hdr bound [OF oc]] by (simp add: frag_hdr_def)
  have Q: "carries e hdr (?o, c) fr" if "fr \<in> set frs" "?Q fr" for fr
  proof -
    obtain p where p: "p \<in> set ?P" "carries e hdr p fr" using Cons.prems(1) \<open>fr \<in> set frs\<close> by blast
    then have "fst p = ?o"
      using o \<open>?Q fr\<close> wf_frag_hdr(2) [OF hdr bound [OF p(1)]] by (simp add: carries_def)
    then have "p = (?o, c)"
      using pieces_at_unique [OF Cons.prems(4)] p(1) oc by (cases p) auto
    then show ?thesis using p(2) by simp
  qed
  show ?case
  proof (cases "List.find ?Q frs")
    case None
    then show ?thesis by (cases fuel) simp_all
  next
    case (Some fr)
    have c: "carries e hdr (?o, c) fr" using Q find_Some_in [OF Some] by blast
    then have "\<exists>p \<in> set (pieces_at (length (concat (pre @ [c]))) cs). \<forall>fr \<in> set frs. \<not> carries e hdr p fr"
      using Cons.prems(2) find_Some_in [OF Some] by auto
    then have cs: "cs \<noteq> []"
      and IH: "\<And>k. appendMessage k frs (word_of_nat (length (concat (pre @ [c])))) = None"
      using Cons.IH [of "pre @ [c]"] Cons.prems by auto
    have "length (concat (pre @ [c])) < length content"
      using cs Cons.prems(3,4) by (cases cs) (auto simp flip: Cons.prems(3))
    then have "hs_FragmentOffset (frag_hdr hdr (?o, c)) + hs_FragmentLength (frag_hdr hdr (?o, c))
        \<noteq> hs_Length (frag_hdr hdr (?o, c))"
      using hdr of_nat_uint32_inject [of "length (concat (pre @ [c]))" "length content"]
      by (simp add: good_hdr_def frag_hdr_def)
    moreover have "hs_FragmentLength (frag_hdr hdr (?o, c)) \<noteq> 0"
      using wf_frag_hdr(3) [OF hdr bound [OF oc]] Cons.prems(4) by force
    moreover have "hs_FragmentOffset (frag_hdr hdr (?o, c)) + hs_FragmentLength (frag_hdr hdr (?o, c))
        = word_of_nat (length (concat (pre @ [c])))" by (simp add: frag_hdr_def)
    ultimately show ?thesis using Some c IH
      by (cases fuel) (simp_all add: carries_def Let_def)
  qed
qed simp

subsection \<open>Fragment, send in any order, reassemble\<close>

definition split_pieces :: "nat \<Rightarrow> bytes \<Rightarrow> bytes list" where
  "split_pieces mtu content = (if content = [] then [[]] else chunks mtu content)"

lemma fragmentHandshake_pieces:
  assumes "hd_Message h = Some m" "Message_Marshal cb m = Ok content" "0 < mtu"
  shows "fragmentHandshake cb mtu h =
    Ok (map (frag_bytes (hd_Header h)) (pieces_at 0 (split_pieces mtu content)))"
  using assms
  by (auto simp: fragmentHandshake_def splitBytes_Some fragmentHandshake_loop_pieces split_pieces_def
      chunks_ne)

lemma split_pieces_props:
  assumes "0 < mtu"
  shows "concat (split_pieces mtu content) = content" "split_pieces mtu content \<noteq> []"
    "content \<noteq> [] \<Longrightarrow> \<forall>c \<in> set (split_pieces mtu content). c \<noteq> []"
proof -
  show "concat (split_pieces mtu content) = content"
    using concat_chunks [OF assms] by (simp add: split_pieces_def)
  show "split_pieces mtu content \<noteq> []"
    using assms chunks_ne by (simp add: split_pieces_def)
  show "\<forall>c \<in> set (split_pieces mtu content). c \<noteq> []" if "content \<noteq> []"
    using chunks_props [OF assms] that by (auto simp: split_pieces_def)
qed

lemma appendMessage_pieces:
  assumes hdr: "good_hdr hdr content" and mtu: "0 < mtu"
    and frs: "\<forall>fr \<in> set frs. \<exists>p \<in> set (pieces_at 0 (split_pieces mtu content)). carries e hdr p fr"
  shows "appendMessage (Suc (length frs)) frs 0 =
    (if \<forall>p \<in> set (pieces_at 0 (split_pieces mtu content)). \<exists>fr \<in> set frs. carries e hdr p fr
     then Some content else None)"
proof (cases "content = []")
  case True
  then have c: "carries e hdr (0, []) fr" if "fr \<in> set frs" for fr
    using frs that by (simp add: split_pieces_def)
  show ?thesis
  proof (cases frs)
    case Nil
    then show ?thesis using True by (simp add: split_pieces_def)
  next
    case (Cons fr rest)
    then have "carries e hdr (0, []) fr" using c by simp
    then show ?thesis using True Cons hdr
      by (auto simp: split_pieces_def carries_def frag_hdr_def good_hdr_def Let_def)
  qed
next
  case False
  let ?cs = "split_pieces mtu content"
  note sp = split_pieces_props [OF mtu, of content]
  have wf: "\<forall>f \<in> set frs. wf_hs_Header (fr_handshakeHeader f)"
  proof
    fix f assume "f \<in> set frs"
    then obtain p where p: "p \<in> set (pieces_at 0 ?cs)" "carries e hdr p f" using frs by blast
    then have "fst p + length (snd p) \<le> length content"
      using pieces_at_bounds [of "fst p" "snd p" 0 ?cs] sp(1) by simp
    from wf_frag_hdr(1) [OF hdr this] p(2) show "wf_hs_Header (fr_handshakeHeader f)"
      by (simp add: carries_def)
  qed
  have fuel: "appendMessage (Suc (length frs)) frs 0 = appendMessage (Suc (length frs + length ?cs)) frs 0"
    using ahead_le [of frs 0] by (intro appendMessage_fuel [OF wf]) auto
  show ?thesis
  proof (cases "\<forall>p \<in> set (pieces_at 0 ?cs). \<exists>fr \<in> set frs. carries e hdr p fr")
    case True
    then show ?thesis
      using appendMessage_collect [OF hdr sp(3) [OF False], of frs "[]" e] frs sp False fuel
      by (simp del: appendMessage.simps)
  next
    case False': False
    then show ?thesis
      using appendMessage_missing [OF hdr, of frs "[]" ?cs e] frs sp False
      by (auto simp del: appendMessage.simps)
  qed
qed

lemma pop_pieces:
  assumes "fb_frags f (fb_currentMessageSequenceNumber f) = frs"
    and "\<forall>fr \<in> set frs. \<exists>p. carries e hdr p fr"
  shows "pop f = (case appendMessage (Suc (length frs)) frs 0 of
      None \<Rightarrow> (f, None)
    | Some raw \<Rightarrow> (f\<lparr>fb_cache := AList.delete (fb_currentMessageSequenceNumber f) (fb_cache f),
          fb_currentMessageSequenceNumber := fb_currentMessageSequenceNumber f + 1\<rparr>,
        Some (hs_raw (hdr\<lparr>hs_FragmentOffset := 0, hs_FragmentLength := hs_Length hdr\<rparr>) @ raw, e)))"
proof (cases frs)
  case Nil
  then show ?thesis using assms(1)
    by (auto simp: pop_def Let_def fb_frags_def split: option.splits)
next
  case (Cons fr rest)
  then obtain p where p: "carries e hdr p fr" using assms(2) by auto
  have m: "map_of (fb_cache f) (fb_currentMessageSequenceNumber f) = Some frs"
    using assms(1) Cons by (auto simp: fb_frags_def split: option.splits)
  have "(fr_handshakeHeader fr)\<lparr>hs_FragmentOffset := 0,
      hs_FragmentLength := hs_Length (fr_handshakeHeader fr)\<rparr>
    = hdr\<lparr>hs_FragmentOffset := 0, hs_FragmentLength := hs_Length hdr\<rparr>"
    using p by (simp add: carries_def frag_hdr_def)
  moreover have "hd frs = fr" using Cons by simp
  ultimately show ?thesis using m p
    by (simp add: pop_def Let_def hs_Header_Marshal_raw carries_def del: appendMessage.simps
        split: option.splits)
qed

lemma Handshake_Marshal_good:
  assumes "Handshake_Marshal cb h0 = Ok (raw, h)" "length raw < 12 + 2 ^ 24"
  obtains m content where "hd_Message h = Some m" "Message_Marshal cb m = Ok content"
    "good_hdr (hd_Header h) content"
    "raw = hs_raw ((hd_Header h)\<lparr>hs_FragmentOffset := 0, hs_FragmentLength := hs_Length (hd_Header h)\<rparr>) @ content"
proof -
  obtain m where m: "hd_Message h0 = Some m" using assms(1)
    by (cases "hd_Message h0") (auto simp: Handshake_Marshal_def)
  obtain content where c: "Message_Marshal cb m = Ok content" "hs_FragmentOffset (hd_Header h0) = 0"
    using assms(1) m by (auto simp: Handshake_Marshal_def split: if_splits)
  let ?n = "word_of_nat (length content) :: uint32"
  let ?hdr = "(hd_Header h0)\<lparr>hs_Length := ?n, hs_FragmentLength := ?n, hs_Type := Message_Type m\<rparr>"
  have h: "h = h0\<lparr>hd_Header := ?hdr\<rparr>" "raw = hs_raw ?hdr @ content"
    using assms(1) m c by (auto simp: Handshake_Marshal_def hs_Header_Marshal_raw Let_def)
  have hdr: "?hdr = (hd_Header h)\<lparr>hs_FragmentOffset := 0, hs_FragmentLength := hs_Length (hd_Header h)\<rparr>"
    using c(2) by (simp add: h(1))
  have "good_hdr (hd_Header h) content" using assms(2) by (simp add: h good_hdr_def)
  moreover have "hd_Message h = Some m" using m by (simp add: h(1))
  ultimately show thesis using that [OF _ c(1)] h(2) unfolding hdr by blast
qed

lemma carries_inject:
  assumes "good_hdr hdr content" "fst p + length (snd p) \<le> length content"
    "fst q + length (snd q) \<le> length content" "carries e hdr p fr" "carries e hdr q fr"
  shows "p = q"
  using wf_frag_hdr(2) [OF assms(1,2)] wf_frag_hdr(2) [OF assms(1,3)] assms(4,5)
  by (auto simp: carries_def prod_eq_iff)

lemma frag_bytes_inject:
  assumes "good_hdr hdr content" "fst p + length (snd p) \<le> length content"
    "fst q + length (snd q) \<le> length content" "frag_bytes hdr p = frag_bytes hdr q"
  shows "p = q"
proof -
  have "hs_raw (frag_hdr hdr p) = hs_raw (frag_hdr hdr q)" "snd p = snd q"
    using assms(4) by (auto simp: frag_bytes_def)
  moreover have "hs_Header_Unmarshal (hs_raw (frag_hdr hdr p)) = Ok (frag_hdr hdr p)"
    "hs_Header_Unmarshal (hs_raw (frag_hdr hdr q)) = Ok (frag_hdr hdr q)"
    using hs_Header_roundtrip [OF wf_frag_hdr(1) [OF assms(1,2)] hs_Header_Marshal_raw, of "[]"]
      hs_Header_roundtrip [OF wf_frag_hdr(1) [OF assms(1,3)] hs_Header_Marshal_raw, of "[]"] by simp_all
  ultimately have "frag_hdr hdr p = frag_hdr hdr q" by (metis res.inject(1))
  then show ?thesis
    using wf_frag_hdr(2) [OF assms(1,2)] wf_frag_hdr(2) [OF assms(1,3)] \<open>snd p = snd q\<close>
    by (simp add: prod_eq_iff)
qed

lemma handshake_record_inject:
  "handshake_record e x b \<Longrightarrow> handshake_record e y b \<Longrightarrow> x = y"
proof -
  have len: "length raw = 13" if "wf_rl_Header rlh" "rl_ContentType rlh = 22" "rl_Header_Marshal rlh = Ok raw"
    for rlh raw using length_rl_Header_Marshal [OF that(3)] that by (simp add: wf_rl_Header_def rl_Header_Size_def)
  show "handshake_record e x b \<Longrightarrow> handshake_record e y b \<Longrightarrow> ?thesis"
    using len by (fastforce simp: handshake_record_def)
qed

text \<open>
  C1. Fragmentation and reassembly are inverse. Let a handshake message be fragmented for any
  positive MTU and its fragments be sent as handshake records of one epoch. Push any sequence of
  those records, in any order and with any repetition, into a buffer that waits for that message.
  Then \<^verbatim>\<open>pop\<close> returns the whole marshalled message with the epoch if every fragment is among them,
  and returns nothing if one is missing.
\<close>

theorem reassembly:
  assumes h: "Handshake_Marshal cb h0 = Ok (raw, h)" "length raw < 12 + 2 ^ 24" "0 < mtu"
    and fs: "fragmentHandshake cb mtu h = Ok fs"
    and f: "fb_inv f" "fb_currentMessageSequenceNumber f = hs_MessageSequence (hd_Header h)"
      "fb_frags f (hs_MessageSequence (hd_Header h)) = []"
    and bs: "fb_size f + sum_list (map length bs) < 2000000"
      "\<forall>b \<in> set bs. \<exists>fr \<in> set fs. handshake_record e fr b"
  shows "snd (pop (pushes f bs)) =
    (if \<forall>fr \<in> set fs. \<exists>b \<in> set bs. handshake_record e fr b then Some (raw, e) else None)"
proof -
  define hdr where "hdr = hd_Header h"
  obtain m content where m: "hd_Message h = Some m" "Message_Marshal cb m = Ok content"
      "good_hdr hdr content"
      "raw = hs_raw (hdr\<lparr>hs_FragmentOffset := 0, hs_FragmentLength := hs_Length hdr\<rparr>) @ content"
    using Handshake_Marshal_good [OF h(1,2)] unfolding hdr_def by blast
  define P where "P = pieces_at 0 (split_pieces mtu content)"
  have fsP: "fs = map (frag_bytes hdr) P"
    using fragmentHandshake_pieces [OF m(1,2) h(3)] fs by (simp add: P_def hdr_def)
  have bound: "\<forall>p \<in> set P. fst p + length (snd p) \<le> length content"
    using pieces_at_bounds [of _ _ 0] split_pieces_props(1) [OF h(3)] by (fastforce simp: P_def)
  have "\<forall>b \<in> set bs. \<exists>p \<in> set P. handshake_record e (frag_bytes hdr p) b" using bs(2) fsP by auto
  from pushes_records [OF m(3) bound f(1) bs(1) this] f(2,3) obtain frs where
    frs: "fb_frags (pushes f bs) (hs_MessageSequence hdr) = frs"
      "list_all2 (\<lambda>b fr. \<exists>p \<in> set P. handshake_record e (frag_bytes hdr p) b \<and> carries e hdr p fr) bs frs"
      "fb_currentMessageSequenceNumber (pushes f bs) = hs_MessageSequence hdr"
    by (auto simp: hdr_def)
  have sub: "\<forall>fr \<in> set frs. \<exists>p \<in> set P. carries e hdr p fr"
    using frs(2) by (fastforce simp: list_all2_conv_all_nth in_set_conv_nth)
  have "(\<exists>b \<in> set bs. handshake_record e (frag_bytes hdr p) b) \<longleftrightarrow> (\<exists>fr \<in> set frs. carries e hdr p fr)"
    if p: "p \<in> set P" for p
  proof
    assume "\<exists>b \<in> set bs. handshake_record e (frag_bytes hdr p) b"
    then obtain i where i: "i < length bs" "handshake_record e (frag_bytes hdr p) (bs ! i)"
      by (auto simp: in_set_conv_nth)
    then obtain q where q: "q \<in> set P" "handshake_record e (frag_bytes hdr q) (bs ! i)"
        "carries e hdr q (frs ! i)" "frs ! i \<in> set frs"
      using frs(2) by (auto simp: list_all2_conv_all_nth)
    then have "p = q"
      using frag_bytes_inject [OF m(3)] bound p handshake_record_inject [OF i(2) q(2)] by blast
    then show "\<exists>fr \<in> set frs. carries e hdr p fr" using q by blast
  next
    assume "\<exists>fr \<in> set frs. carries e hdr p fr"
    then obtain i where i: "i < length frs" "carries e hdr p (frs ! i)" by (auto simp: in_set_conv_nth)
    then obtain q where q: "q \<in> set P" "handshake_record e (frag_bytes hdr q) (bs ! i)"
        "carries e hdr q (frs ! i)" "bs ! i \<in> set bs"
      using frs(2) by (auto simp: list_all2_conv_all_nth)
    then have "p = q" using carries_inject [OF m(3)] bound p i(2) by blast
    then show "\<exists>b \<in> set bs. handshake_record e (frag_bytes hdr p) b" using q by blast
  qed
  then have all: "(\<forall>fr \<in> set fs. \<exists>b \<in> set bs. handshake_record e fr b)
      \<longleftrightarrow> (\<forall>p \<in> set P. \<exists>fr \<in> set frs. carries e hdr p fr)"
    by (auto simp: fsP)
  have am: "appendMessage (Suc (length frs)) frs 0 =
      (if \<forall>p \<in> set P. \<exists>fr \<in> set frs. carries e hdr p fr then Some content else None)"
    using appendMessage_pieces [OF m(3) h(3)] sub unfolding P_def by blast
  have "pop (pushes f bs) = (case appendMessage (Suc (length frs)) frs 0 of
      None \<Rightarrow> (pushes f bs, None)
    | Some rawM \<Rightarrow> ((pushes f bs)\<lparr>fb_cache := AList.delete (hs_MessageSequence hdr) (fb_cache (pushes f bs)),
          fb_currentMessageSequenceNumber := hs_MessageSequence hdr + 1\<rparr>,
        Some (hs_raw (hdr\<lparr>hs_FragmentOffset := 0, hs_FragmentLength := hs_Length hdr\<rparr>) @ rawM, e)))"
    using pop_pieces [of "pushes f bs" frs e hdr] frs sub by metis
  then show ?thesis unfolding am all by (simp add: m(4))
qed

text \<open>A concrete message in two fragments: the second arrives first, and again at the end.\<close>

definition ex_handshake :: Handshake where
  "ex_handshake = \<lparr>hd_Header = \<lparr>hs_Type = 20, hs_Length = 3, hs_MessageSequence = 0,
     hs_FragmentOffset = 0, hs_FragmentLength = 3\<rparr>, hd_Message = Some (MFinished [1, 2, 3])\<rparr>"

definition ex_rl_Header :: "uint64 \<Rightarrow> rl_Header" where
  "ex_rl_Header n = \<lparr>rl_ContentType = 22, rl_ContentLen = 14, rl_Version = Version1_2, rl_Epoch = 0,
     rl_SequenceNumber = n, rl_ConnectionID = []\<rparr>"

definition ex_record :: "uint64 \<Rightarrow> bytes \<Rightarrow> bytes" where
  "ex_record n frag = (case rl_Header_Marshal (ex_rl_Header n) of Ok raw \<Rightarrow> raw @ frag | _ \<Rightarrow> [])"

definition ex_fragment1 :: bytes where
  "ex_fragment1 = [20, 0, 0, 3, 0, 0, 0, 0, 0, 0, 0, 2, 1, 2]"

definition ex_fragment2 :: bytes where
  "ex_fragment2 = [20, 0, 0, 3, 0, 0, 0, 0, 2, 0, 0, 1, 3]"

lemma ex_Marshal:
  "Handshake_Marshal std_cryptobyte ex_handshake = Ok ([20, 0, 0, 3, 0, 0, 0, 0, 0, 0, 0, 3, 1, 2, 3], ex_handshake)"
  by (simp add: Handshake_Marshal_def ex_handshake_def hs_Header_Marshal_def Finished_Marshal_def
      PutBigEndianUint24_be put_uint16_def put_be_numeral)

lemma ex_fragments: "fragmentHandshake std_cryptobyte 2 ex_handshake = Ok [ex_fragment1, ex_fragment2]"
  by (simp add: fragmentHandshake_def ex_handshake_def Finished_Marshal_def splitBytes_Some chunks_ne
      hs_Header_Marshal_def PutBigEndianUint24_be put_uint16_def put_be_numeral ex_fragment1_def ex_fragment2_def)

lemma ex_record:
  assumes "n \<le> 2"
  shows "handshake_record 0 frag (ex_record n frag)" and "length (ex_record n frag) = 13 + length frag"
proof -
  have n: "n \<le> 0xFFFFFFFFFFFF" using assms by (rule order.trans) simp
  then obtain raw where raw: "rl_Header_Marshal (ex_rl_Header n) = Ok raw"
    by (simp add: rl_Header_Marshal_def ex_rl_Header_def not_less)
  have "wf_rl_Header (ex_rl_Header n)" using n by (simp add: wf_rl_Header_def ex_rl_Header_def)
  then show "handshake_record 0 frag (ex_record n frag)"
    using raw unfolding handshake_record_def ex_record_def
    by (intro exI [of _ "ex_rl_Header n"] exI [of _ raw]) (simp add: ex_rl_Header_def)
  show "length (ex_record n frag) = 13 + length frag"
    using length_rl_Header_Marshal [OF raw] raw
    by (simp add: ex_record_def ex_rl_Header_def rl_Header_Size_def)
qed

theorem reassembly_witness:
  "snd (pop (pushes newFragmentBuffer
     [ex_record 0 ex_fragment2, ex_record 1 ex_fragment1, ex_record 2 ex_fragment2]))
   = Some ([20, 0, 0, 3, 0, 0, 0, 0, 0, 0, 0, 3, 1, 2, 3], 0)"
proof -
  let ?bs = "[ex_record 0 ex_fragment2, ex_record 1 ex_fragment1, ex_record 2 ex_fragment2]"
  let ?fs = "[ex_fragment1, ex_fragment2]"
  have r: "handshake_record 0 ex_fragment2 (ex_record 0 ex_fragment2)"
    "handshake_record 0 ex_fragment1 (ex_record 1 ex_fragment1)"
    "handshake_record 0 ex_fragment2 (ex_record 2 ex_fragment2)"
    by (simp_all add: ex_record)
  have "fb_size newFragmentBuffer + sum_list (map length ?bs) < 2000000"
    by (simp add: ex_record fb_size_def newFragmentBuffer_def ex_fragment1_def ex_fragment2_def)
  from reassembly [OF ex_Marshal _ _ ex_fragments newFragmentBuffer_inv _ _ this, where e = 0]
  show ?thesis using r
    by (simp add: newFragmentBuffer_def fb_frags_def ex_handshake_def)
qed

end
