(* ===== verification/Conn_State.thy ===== *)
theory Conn_State
  imports Cipher_Suites Handshake_Cache Fragmentation
begin

section \<open>The state of a connection: state.go, session.go and connection\_id.go\<close>

text \<open>
  \<^verbatim>\<open>State\<close> with its serialisation, the export of keying material, and the two functions that read
  connection IDs from datagrams. An atomic value that was never stored reads as zero, so the epochs
  and the SRTP profile are plain values; a slice whose nil value the code tells from an empty one is
  an option. Replay detectors (a package outside the repository) are represented by the sequence
  numbers they accepted, in order; \<^verbatim>\<open>encoding/gob\<close> is a pair of functions.

  The lemmas: restoring a saved state gives back the secrets, the counters and the keys; both ends
  of a connection export the same material; the router finds the connection ID that the server
  announced.
\<close>

type_synonym replay_detector = "uint64 list"

record State =
  st_localEpoch :: uint16
  st_remoteEpoch :: uint16
  st_localSequenceNumber :: "uint64 list"
  st_localRandom :: Random
  st_remoteRandom :: Random
  st_masterSecret :: bytes
  st_cipherSuite :: "CipherSuite option"
  st_CipherSuiteID :: uint16
  st_srtpProtectionProfile :: uint16
  st_PeerCertificates :: "bytes list option"
  st_IdentityHint :: bytes
  st_SessionID :: bytes
  st_localConnectionID :: "bytes option"
  st_remoteConnectionID :: "bytes option"
  st_isClient :: bool
  st_preMasterSecret :: bytes
  st_extendedMasterSecret :: bool
  st_namedCurve :: uint16
  st_localKeypair :: "Keypair option"
  st_cookie :: bytes
  st_handshakeSendSequence :: int
  st_handshakeRecvSequence :: int
  st_serverName :: bytes
  st_remoteCertRequestAlgs :: "Algorithm list"
  st_remoteRequestedCertificate :: bool
  st_localCertificatesVerify :: bytes
  st_localVerifyData :: bytes
  st_localKeySignature :: bytes
  st_peerCertificatesVerified :: bool
  st_replayDetector :: "replay_detector list"
  st_peerSupportedProtocols :: "bytes list"
  st_NegotiatedProtocol :: bytes

text \<open>The zero value of \<^verbatim>\<open>time.Time\<close> is year 1 of the era, in Unix seconds.\<close>

definition zero_Random :: Random where
  "zero_Random = \<lparr>rd_GMTUnixTime = - 62135596800, rd_RandomBytes = replicate 28 0\<rparr>"

definition zero_State :: State where
  "zero_State =
     \<lparr>st_localEpoch = 0, st_remoteEpoch = 0, st_localSequenceNumber = [], st_localRandom = zero_Random,
      st_remoteRandom = zero_Random, st_masterSecret = [], st_cipherSuite = None, st_CipherSuiteID = 0,
      st_srtpProtectionProfile = 0, st_PeerCertificates = None, st_IdentityHint = [], st_SessionID = [],
      st_localConnectionID = None, st_remoteConnectionID = None, st_isClient = False,
      st_preMasterSecret = [], st_extendedMasterSecret = False, st_namedCurve = 0, st_localKeypair = None,
      st_cookie = [], st_handshakeSendSequence = 0, st_handshakeRecvSequence = 0, st_serverName = [],
      st_remoteCertRequestAlgs = [], st_remoteRequestedCertificate = False,
      st_localCertificatesVerify = [], st_localVerifyData = [], st_localKeySignature = [],
      st_peerCertificatesVerified = False, st_replayDetector = [], st_peerSupportedProtocols = [],
      st_NegotiatedProtocol = []\<rparr>"

text \<open>The length of a slice that may be nil.\<close>

definition opt_bytes :: "bytes option \<Rightarrow> bytes" where
  "opt_bytes b = (case b of None \<Rightarrow> [] | Some x \<Rightarrow> x)"

lemma opt_bytes_simps [simp]: "opt_bytes None = []" "opt_bytes (Some x) = x"
  by (simp_all add: opt_bytes_def)

text \<open>\<^verbatim>\<open>for len(xs) <= n { xs = append(xs, x) }\<close>.\<close>

definition grow :: "'a list \<Rightarrow> nat \<Rightarrow> 'a \<Rightarrow> 'a list" where
  "grow xs n x = xs @ replicate (Suc n - length xs) x"

lemma length_grow [simp]: "length (grow xs n x) = max (length xs) (Suc n)"
  by (simp add: grow_def)

lemma grow_nth: "i < length (grow xs n x) \<Longrightarrow> grow xs n x ! i = (if i < length xs then xs ! i else x)"
  by (auto simp: grow_def nth_append)

lemma grow_Nil_update: "(grow [] n x)[n := y] = replicate n x @ [y]"
  by (simp add: grow_def list_update_append flip: replicate_append_same)

lemma grow_id [simp]: "n < length xs \<Longrightarrow> grow xs n x = xs"
  by (simp add: grow_def)

subsection \<open>Sessions\<close>

text \<open>
  A \<^verbatim>\<open>SessionStore\<close> is supplied by the user: what its methods return may depend on the calls that
  changed it so far.
\<close>

record Session =
  ss_ID :: "bytes option"
  ss_Secret :: bytes

datatype store_op = StoreSet bytes Session | StoreDel bytes

record SessionStore =
  store_Set :: "store_op list \<Rightarrow> bytes \<Rightarrow> Session \<Rightarrow> unit res"
  store_Get :: "store_op list \<Rightarrow> bytes \<Rightarrow> Session res"
  store_Del :: "store_op list \<Rightarrow> bytes \<Rightarrow> unit res"

subsection \<open>Serialisation\<close>

record serializedState =
  sz_LocalEpoch :: uint16
  sz_RemoteEpoch :: uint16
  sz_LocalRandom :: bytes
  sz_RemoteRandom :: bytes
  sz_CipherSuiteID :: uint16
  sz_MasterSecret :: bytes
  sz_SequenceNumber :: uint64
  sz_SRTPProtectionProfile :: uint16
  sz_PeerCertificates :: "bytes list option"
  sz_IdentityHint :: bytes
  sz_SessionID :: bytes
  sz_LocalConnectionID :: "bytes option"
  sz_RemoteConnectionID :: "bytes option"
  sz_IsClient :: bool
  sz_NegotiatedProtocol :: bytes

definition serialize :: "State \<Rightarrow> serializedState res" where
  "serialize s =
     (case st_cipherSuite s of
        None \<Rightarrow> Panic
      | Some cs \<Rightarrow>
          bind (idx (st_localSequenceNumber s) (unat (st_localEpoch s))) (\<lambda>seq.
            Ok \<lparr>sz_LocalEpoch = st_localEpoch s, sz_RemoteEpoch = st_remoteEpoch s,
                sz_LocalRandom = Random_MarshalFixed (st_localRandom s),
                sz_RemoteRandom = Random_MarshalFixed (st_remoteRandom s),
                sz_CipherSuiteID = cs_ID cs, sz_MasterSecret = st_masterSecret s,
                sz_SequenceNumber = seq, sz_SRTPProtectionProfile = st_srtpProtectionProfile s,
                sz_PeerCertificates = st_PeerCertificates s, sz_IdentityHint = st_IdentityHint s,
                sz_SessionID = st_SessionID s, sz_LocalConnectionID = st_localConnectionID s,
                sz_RemoteConnectionID = st_remoteConnectionID s, sz_IsClient = st_isClient s,
                sz_NegotiatedProtocol = st_NegotiatedProtocol s\<rparr>))"

definition deserialize :: "State \<Rightarrow> serializedState \<Rightarrow> State" where
  "deserialize s z =
     s\<lparr>st_localEpoch := sz_LocalEpoch z, st_remoteEpoch := sz_RemoteEpoch z,
       st_localSequenceNumber :=
         (grow (st_localSequenceNumber s) (unat (sz_LocalEpoch z)) 0)[unat (sz_LocalEpoch z) := sz_SequenceNumber z],
       st_localRandom := Random_UnmarshalFixed (sz_LocalRandom z),
       st_remoteRandom := Random_UnmarshalFixed (sz_RemoteRandom z),
       st_isClient := sz_IsClient z, st_masterSecret := sz_MasterSecret z,
       st_CipherSuiteID := sz_CipherSuiteID z,
       st_cipherSuite := cipherSuiteForID (sz_CipherSuiteID z) None,
       st_srtpProtectionProfile := sz_SRTPProtectionProfile z,
       st_PeerCertificates := sz_PeerCertificates z, st_IdentityHint := sz_IdentityHint z,
       st_localConnectionID := sz_LocalConnectionID z, st_remoteConnectionID := sz_RemoteConnectionID z,
       st_SessionID := sz_SessionID z, st_NegotiatedProtocol := sz_NegotiatedProtocol z\<rparr>"

definition state_clone :: "State \<Rightarrow> State res" where
  "state_clone s = bind (serialize s) (\<lambda>z. Ok (deserialize zero_State z))"

definition initCipherSuite :: "suite_env \<Rightarrow> State \<Rightarrow> State \<times> unit res" where
  "initCipherSuite env s =
     (case st_cipherSuite s of
        None \<Rightarrow> (s, Panic)
      | Some cs \<Rightarrow>
          if suite_IsInitialized cs then (s, Ok ())
          else
            let localRandom = Random_MarshalFixed (st_localRandom s);
                remoteRandom = Random_MarshalFixed (st_remoteRandom s);
                (cs', r) = (if st_isClient s
                            then suite_Init env (st_masterSecret s) localRandom remoteRandom True cs
                            else suite_Init env (st_masterSecret s) remoteRandom localRandom False cs) in
            (s\<lparr>st_cipherSuite := Some cs'\<rparr>, r))"

definition State_MarshalBinary :: "(serializedState \<Rightarrow> bytes res) \<Rightarrow> State \<Rightarrow> bytes res" where
  "State_MarshalBinary gobEncode s = bind (serialize s) gobEncode"

definition State_UnmarshalBinary ::
  "suite_env \<Rightarrow> (bytes \<Rightarrow> serializedState res) \<Rightarrow> State \<Rightarrow> bytes \<Rightarrow> State \<times> unit res" where
  "State_UnmarshalBinary env gobDecode s data =
     (case gobDecode data of
        Err e \<Rightarrow> (s, Err e) | Panic \<Rightarrow> (s, Panic)
      | Ok z \<Rightarrow> initCipherSuite env (deserialize s z))"

text \<open>What \<^verbatim>\<open>gob\<close> transmits of a value: slices of length zero are not sent, so they arrive as nil.\<close>

definition gob_slice :: "'a list option \<Rightarrow> 'a list option" where
  "gob_slice x = (if x = Some [] then None else x)"

definition gob_transmitted :: "serializedState \<Rightarrow> serializedState" where
  "gob_transmitted z = z\<lparr>sz_PeerCertificates := gob_slice (sz_PeerCertificates z),
     sz_LocalConnectionID := gob_slice (sz_LocalConnectionID z),
     sz_RemoteConnectionID := gob_slice (sz_RemoteConnectionID z)\<rparr>"

subsection \<open>Exported keying material\<close>

definition invalidKeyingLabels :: "bytes list" where
  "invalidKeyingLabels =
     [ascii ''client finished'', ascii ''server finished'', ascii ''master secret'', ascii ''key expansion'']"

definition ExportKeyingMaterial :: "suite_env \<Rightarrow> State \<Rightarrow> bytes \<Rightarrow> bytes \<Rightarrow> nat \<Rightarrow> bytes res" where
  "ExportKeyingMaterial env s label context n =
     (if st_localEpoch s = 0 then Err (Conn ErrHandshakeInProgress)
      else if length context \<noteq> 0 then Err (Conn ErrContextUnsupported)
      else if label \<in> set invalidKeyingLabels then Err (Conn ErrReservedExportKeyingMaterial)
      else
        let localRandom = Random_MarshalFixed (st_localRandom s);
            remoteRandom = Random_MarshalFixed (st_remoteRandom s);
            seed = (if st_isClient s then label @ localRandom @ remoteRandom
                    else label @ remoteRandom @ localRandom) in
        case st_cipherSuite s of
          None \<Rightarrow> Panic
        | Some cs \<Rightarrow> PHash (st_masterSecret s) seed n (se_hash env (cs_HashFunc cs)))"

subsection \<open>Connection IDs in datagrams\<close>

definition cid_Header :: "nat \<Rightarrow> rl_Header" where
  "cid_Header n = zero_rl_Header\<lparr>rl_ConnectionID := replicate n 0\<rparr>"

fun cidDatagramRouter_loop :: "nat \<Rightarrow> bytes list \<Rightarrow> bytes option res" where
  "cidDatagramRouter_loop cidSize [] = Ok None"
| "cidDatagramRouter_loop cidSize (pkt # pkts) =
     (case rl_Header_Unmarshal (cid_Header cidSize) pkt of
        Err e \<Rightarrow> cidDatagramRouter_loop cidSize pkts
      | Panic \<Rightarrow> Panic
      | Ok h \<Rightarrow> if rl_ContentType h \<noteq> ContentTypeConnectionID then cidDatagramRouter_loop cidSize pkts
                else Ok (Some (rl_ConnectionID h)))"

definition cidDatagramRouter :: "nat \<Rightarrow> bytes \<Rightarrow> bytes option res" where
  "cidDatagramRouter cidSize packet =
     (case ContentAwareUnpackDatagram packet cidSize of
        Err e \<Rightarrow> Ok None
      | Panic \<Rightarrow> Panic
      | Ok pkts \<Rightarrow> if length pkts < 1 then Ok None else cidDatagramRouter_loop cidSize pkts)"

text \<open>
  The loop over the records looks for one that reads as a ServerHello. \<open>err\<close> is the error left by
  the last attempt; \<open>None\<close> as a result is an error left at the end.
\<close>

fun cidConnIdentifier_loop ::
  "'b cryptobyte \<Rightarrow> bytes list \<Rightarrow> bool \<Rightarrow> Extension list option res" where
  "cidConnIdentifier_loop cb [] err = Ok (if err then None else Some [])"
| "cidConnIdentifier_loop cb (pkt # pkts) err =
     bind (slice_from pkt FixedHeaderSize) (\<lambda>hs.
       case hs_Header_Unmarshal hs of
         Err e \<Rightarrow> cidConnIdentifier_loop cb pkts err
       | Panic \<Rightarrow> Panic
       | Ok hh \<Rightarrow>
           bind (slice_from pkt (FixedHeaderSize + HeaderLength)) (\<lambda>body.
             case ServerHello_Unmarshal cb body of
               Ok sh \<Rightarrow> Ok (Some (svh_Extensions sh))
             | Err e \<Rightarrow> cidConnIdentifier_loop cb pkts True
             | Panic \<Rightarrow> Panic))"

fun first_CID :: "Extension list \<Rightarrow> bytes option" where
  "first_CID [] = None"
| "first_CID (ConnectionID c # es) = Some c"
| "first_CID (_ # es) = first_CID es"

definition cidConnIdentifier :: "'b cryptobyte \<Rightarrow> bytes \<Rightarrow> bytes option res" where
  "cidConnIdentifier cb packet =
     (case UnpackDatagram packet of
        Err e \<Rightarrow> Ok None
      | Panic \<Rightarrow> Panic
      | Ok pkts \<Rightarrow>
          if length pkts < 1 then Ok None
          else case rl_Header_Unmarshal zero_rl_Header (pkts ! 0) of
            Err e \<Rightarrow> Ok None
          | Panic \<Rightarrow> Panic
          | Ok h \<Rightarrow>
              if rl_ContentType h \<noteq> ContentTypeHandshake then Ok None
              else bind (cidConnIdentifier_loop cb pkts False) (\<lambda>r.
                case r of None \<Rightarrow> Ok None | Some es \<Rightarrow> Ok (first_CID es)))"


subsection \<open>Restoring a state\<close>

lemma builtin_not_initialized:
  "builtin_cipherSuiteForID i = Some cs \<Longrightarrow> \<not> suite_IsInitialized cs"
  by (auto simp: builtin_cipherSuiteForID_def suite_IsInitialized_def split: if_splits)

text \<open>The keys a state's suite holds are those of its own secrets.\<close>

definition suite_of_state :: "suite_env \<Rightarrow> State \<Rightarrow> CipherSuite \<Rightarrow> CipherSuite \<times> unit res" where
  "suite_of_state env s cs =
     (let localRandom = Random_MarshalFixed (st_localRandom s); remoteRandom = Random_MarshalFixed (st_remoteRandom s) in
      if st_isClient s then suite_Init env (st_masterSecret s) localRandom remoteRandom True cs
      else suite_Init env (st_masterSecret s) remoteRandom localRandom False cs)"

lemma initCipherSuite_fresh:
  assumes "st_cipherSuite s = Some cs" "\<not> suite_IsInitialized cs"
  shows "initCipherSuite env s =
    (s\<lparr>st_cipherSuite := Some (fst (suite_of_state env s cs))\<rparr>, snd (suite_of_state env s cs))"
  using assms by (simp add: initCipherSuite_def suite_of_state_def Let_def split: prod.splits)

lemma serialize_Ok:
  assumes "st_cipherSuite s = Some cs" "unat (st_localEpoch s) < length (st_localSequenceNumber s)"
  obtains z where "serialize s = Ok z"
  using assms by (simp add: serialize_def idx_def)

lemma serialize_fields:
  assumes "serialize s = Ok z"
  shows "sz_LocalEpoch z = st_localEpoch s" "sz_RemoteEpoch z = st_remoteEpoch s"
    "sz_SequenceNumber z = st_localSequenceNumber s ! unat (st_localEpoch s)"
    "sz_LocalRandom z = Random_MarshalFixed (st_localRandom s)"
    "sz_RemoteRandom z = Random_MarshalFixed (st_remoteRandom s)"
    "sz_MasterSecret z = st_masterSecret s" "sz_IsClient z = st_isClient s"
    "sz_SessionID z = st_SessionID s" "sz_PeerCertificates z = st_PeerCertificates s"
    "sz_LocalConnectionID z = st_localConnectionID s" "sz_RemoteConnectionID z = st_remoteConnectionID s"
    "sz_SRTPProtectionProfile z = st_srtpProtectionProfile s" "sz_IdentityHint z = st_IdentityHint s"
    "sz_NegotiatedProtocol z = st_NegotiatedProtocol s"
    "st_cipherSuite s = Some cs \<Longrightarrow> sz_CipherSuiteID z = cs_ID cs"
  using assms by (auto simp: serialize_def idx_def split: option.splits if_splits)

text \<open>
  The same key derivation from the other end: what one suite protects the other recovers.
\<close>

lemma suites_of_states_interoperate:
  assumes env: "wf_suite_env env" and cb: "cryptobyte_spec cb" and fresh: "cipherSuiteForID i None = Some fresh"
    and s: "suite_of_state env s fresh = (cs, rc)" and p: "suite_of_state env p fresh = (d, rd)"
    and peer: "st_masterSecret p = st_masterSecret s" "st_isClient p = (\<not> st_isClient s)"
      "st_localRandom p = st_remoteRandom s" "st_remoteRandom p = st_localRandom s"
    and rec: "wf_rl_Header h" "rl_Header_Marshal h = Ok raw" "rl_ContentType h \<noteq> ContentTypeChangeCipherSpec"
      "length payload < 60000" "length rnd = suite_rnd (cs_kind fresh)"
      "rl_ContentType h = ContentTypeConnectionID \<Longrightarrow> is_ok (InnerPlaintext_Unmarshal payload)"
      "length (rl_ConnectionID h0) = length (rl_ConnectionID h)"
  shows "\<exists>enc. suite_Encrypt env cb cs h (raw @ payload) rnd = Ok enc \<and>
    suite_Decrypt env cb d h0 enc = Ok (take (length raw) enc @ payload)"
proof -
  let ?l = "Random_MarshalFixed (st_localRandom s)" and ?r = "Random_MarshalFixed (st_remoteRandom s)"
  let ?cr = "if st_isClient s then ?l else ?r" and ?sr = "if st_isClient s then ?r else ?l"
  have "suite_Init env (st_masterSecret s) ?cr ?sr (st_isClient s) fresh = (cs, rc)"
    "suite_Init env (st_masterSecret s) ?cr ?sr (\<not> st_isClient s) fresh = (d, rd)"
    using s p peer by (auto simp: suite_of_state_def Let_def split: if_splits)
  from suites_interoperate [OF env builtin_kind [OF fresh] this cb rec] show ?thesis by blast
qed

text \<open>
  C18. A state saved with MarshalBinary and read back with UnmarshalBinary is usable for the same
  connection: for a suite of the library whose keys come from the state's own secrets and an
  encoder that transmits what it is given, the call succeeds and the new state has the same epochs,
  randoms, master secret, role, session, SRTP profile, protocol, peer certificates and connection IDs
  (an empty list of them may become nil), the send counter of the current epoch (the counters of earlier
  epochs are zero) and the same keys in its cipher suite: records protected with the restored
  suite are decrypted by a peer that derived its keys from the same secrets.
\<close>

theorem State_save_restore:
  assumes suite: "st_cipherSuite s = Some cs" "cipherSuiteForID (cs_ID cs) None = Some fresh"
    and keys: "suite_of_state env s fresh = (cs, Ok ())"
    and counter: "unat (st_localEpoch s) < length (st_localSequenceNumber s)"
    and randoms: "wf_Random (st_localRandom s)" "wf_Random (st_remoteRandom s)"
    and gob: "\<And>z. serialize s = Ok z \<Longrightarrow> gobEncode z = Ok data"
      "\<And>z. serialize s = Ok z \<Longrightarrow> gobDecode data = Ok (gob_transmitted z)"
    and env: "wf_suite_env env" "cryptobyte_spec cb" and p: "suite_of_state env p fresh = (d, rd)"
    and peer: "st_masterSecret p = st_masterSecret s" "st_isClient p = (\<not> st_isClient s)"
      "st_localRandom p = st_remoteRandom s" "st_remoteRandom p = st_localRandom s"
    and rec: "wf_rl_Header h" "rl_Header_Marshal h = Ok raw" "rl_ContentType h \<noteq> ContentTypeChangeCipherSpec"
      "length payload < 60000" "length rnd = suite_rnd (cs_kind fresh)"
      "rl_ContentType h = ContentTypeConnectionID \<Longrightarrow> is_ok (InnerPlaintext_Unmarshal payload)"
      "length (rl_ConnectionID h0) = length (rl_ConnectionID h)"
  shows "State_MarshalBinary gobEncode s = Ok data \<and>
    (\<exists>s'. State_UnmarshalBinary env gobDecode zero_State data = (s', Ok ()) \<and>
      st_localEpoch s' = st_localEpoch s \<and> st_remoteEpoch s' = st_remoteEpoch s \<and>
      st_localSequenceNumber s' =
        replicate (unat (st_localEpoch s)) 0 @ [st_localSequenceNumber s ! unat (st_localEpoch s)] \<and>
      st_localRandom s' = st_localRandom s \<and> st_remoteRandom s' = st_remoteRandom s \<and>
      st_masterSecret s' = st_masterSecret s \<and> st_isClient s' = st_isClient s \<and>
      st_SessionID s' = st_SessionID s \<and> st_PeerCertificates s' = gob_slice (st_PeerCertificates s) \<and>
      st_srtpProtectionProfile s' = st_srtpProtectionProfile s \<and>
      st_NegotiatedProtocol s' = st_NegotiatedProtocol s \<and> st_cipherSuite s' = Some cs \<and>
      opt_bytes (st_localConnectionID s') = opt_bytes (st_localConnectionID s) \<and>
      opt_bytes (st_remoteConnectionID s') = opt_bytes (st_remoteConnectionID s) \<and>
      (\<exists>enc. suite_Encrypt env cb (the (st_cipherSuite s')) h (raw @ payload) rnd = Ok enc \<and>
         suite_Decrypt env cb d h0 enc = Ok (take (length raw) enc @ payload)))"
proof -
  obtain z where z: "serialize s = Ok z" by (rule serialize_Ok [OF suite(1) counter])
  note f = serialize_fields(1-14) [OF z] serialize_fields(15) [OF z suite(1)]
  let ?t = "deserialize zero_State (gob_transmitted z)"
  have t: "st_cipherSuite ?t = Some fresh"
    using suite(2) f by (simp add: deserialize_def gob_transmitted_def)
  have fresh: "\<not> suite_IsInitialized fresh"
    using suite(2) by (auto simp: cipherSuiteForID_def split: option.splits dest: builtin_not_initialized)
  have "suite_of_state env ?t fresh = (cs, Ok ())"
    using keys f randoms by (simp add: suite_of_state_def deserialize_def gob_transmitted_def Random_roundtrip Let_def split: if_splits)
  then have r: "initCipherSuite env ?t = (?t\<lparr>st_cipherSuite := Some cs\<rparr>, Ok ())"
    using initCipherSuite_fresh [OF t fresh, of env] by simp
  have "\<exists>enc. suite_Encrypt env cb cs h (raw @ payload) rnd = Ok enc \<and>
      suite_Decrypt env cb d h0 enc = Ok (take (length raw) enc @ payload)"
    using suites_of_states_interoperate [OF env suite(2) keys p peer rec] .
  then show ?thesis
    using z f gob(1) [OF z] gob(2) [OF z] r randoms
    by (auto simp: State_MarshalBinary_def State_UnmarshalBinary_def deserialize_def gob_transmitted_def
        Random_roundtrip zero_State_def gob_slice_def grow_Nil_update)
qed

lemma suite_Init_fields:
  assumes "suite_Init env ms cr sr c s = (s', r)"
  shows "cs_ID s' = cs_ID s" "cs_HashFunc s' = cs_HashFunc s" "cs_kind s' = cs_kind s"
    "cs_AuthenticationType s' = cs_AuthenticationType s"
    "cs_KeyExchangeAlgorithm s' = cs_KeyExchangeAlgorithm s"
  using assms
  by (auto simp: suite_Init_def AesCcm_Init_def Gcm_init_def Cbc_Init_def store_cipher_def
      split: suite_kind.splits res.splits)

lemma suite_Init_total:
  assumes env: "wf_suite_env env" and s: "cipherSuiteForID i None = Some s"
  obtains s' where "suite_Init env ms cr sr c s = (s', Ok ())"
proof -
  obtain s' r where i: "suite_Init env ms cr sr c s = (s', r)" by fastforce
  obtain d rd where d: "suite_Init env ms cr sr (\<not> c) s = (d, rd)" by fastforce
  have "rl_ContentType ex_app_Header \<noteq> ContentTypeConnectionID" by (simp add: ex_app_Header_def)
  then have "r = Ok ()"
    using suites_interoperate [OF env builtin_kind [OF s] i d std_cryptobyte_spec ex_app(2,1,3),
        where ?h0.0 = ex_app_Header and payload = "[]" and rnd = "replicate (suite_rnd (cs_kind s)) 0"]
    by auto
  with i that show ?thesis by blast
qed

definition ex_Random :: Random where
  "ex_Random = \<lparr>rd_GMTUnixTime = 1000, rd_RandomBytes = replicate 28 7\<rparr>"

lemma ex_Random_wf: "wf_Random ex_Random"
  by (simp add: ex_Random_def wf_Random_def)

definition ex_State :: State where
  "ex_State = zero_State\<lparr>st_localEpoch := 1, st_remoteEpoch := 1, st_localSequenceNumber := [3, 9],
     st_localRandom := ex_Random, st_remoteRandom := ex_Random, st_masterSecret := [1, 2, 3],
     st_isClient := True, st_remoteConnectionID := Some [5, 6]\<rparr>"

definition ex_State_suite :: CipherSuite where
  "ex_State_suite = fst (suite_of_state ex_env ex_State NewTLSPskWithAes128Ccm8)"

lemma ex_State_suite:
  "suite_of_state ex_env ex_State NewTLSPskWithAes128Ccm8 = (ex_State_suite, Ok ())"
  "cs_ID ex_State_suite = 0xc0a8" "cs_HashFunc ex_State_suite = HashSHA256"
proof -
  have s: "cipherSuiteForID 0xc0a8 None = Some NewTLSPskWithAes128Ccm8"
    by (simp add: cipherSuiteForID_def builtin_cipherSuiteForID_def)
  obtain s' where i: "suite_Init ex_env [1, 2, 3] (Random_MarshalFixed ex_Random) (Random_MarshalFixed ex_Random)
      True NewTLSPskWithAes128Ccm8 = (s', Ok ())"
    by (rule suite_Init_total [OF ex_env_wf s])
  then have e: "suite_of_state ex_env ex_State NewTLSPskWithAes128Ccm8 = (s', Ok ())"
    by (simp add: suite_of_state_def ex_State_def)
  then show "suite_of_state ex_env ex_State NewTLSPskWithAes128Ccm8 = (ex_State_suite, Ok ())"
    by (simp add: ex_State_suite_def)
  show "cs_ID ex_State_suite = 0xc0a8" "cs_HashFunc ex_State_suite = HashSHA256"
    using suite_Init_fields [OF i] e by (simp_all add: ex_State_suite_def suite_defs)
qed

lemma ex_State_fields [simp]:
  "st_localEpoch ex_State = 1" "st_localSequenceNumber ex_State = [3, 9]" "st_masterSecret ex_State = [1, 2, 3]"
  "st_localRandom ex_State = ex_Random" "st_remoteRandom ex_State = ex_Random" "st_isClient ex_State"
  "st_remoteConnectionID ex_State = Some [5, 6]"
  by (simp_all add: ex_State_def)

theorem State_save_restore_witness:
  "\<exists>s' d enc. State_UnmarshalBinary ex_env
      (\<lambda>_. bind (serialize (ex_State\<lparr>st_cipherSuite := Some ex_State_suite\<rparr>)) (\<lambda>z. Ok (gob_transmitted z)))
      zero_State [42] = (s', Ok ())
    \<and> st_localSequenceNumber s' = [0, 9] \<and> st_masterSecret s' = [1, 2, 3]
    \<and> st_cipherSuite s' = Some ex_State_suite
    \<and> suite_of_state ex_env (ex_State\<lparr>st_isClient := False\<rparr>) NewTLSPskWithAes128Ccm8 = (d, Ok ())
    \<and> suite_Encrypt ex_env std_cryptobyte (the (st_cipherSuite s')) ex_app_Header (ex_app_raw @ [10, 11, 12])
        (replicate 8 9) = Ok enc
    \<and> suite_Decrypt ex_env std_cryptobyte d ex_app_Header enc = Ok (take 13 enc @ [10, 11, 12])"
proof -
  let ?s = "ex_State\<lparr>st_cipherSuite := Some ex_State_suite\<rparr>"
  let ?p = "ex_State\<lparr>st_isClient := False\<rparr>"
  have fresh: "cipherSuiteForID (cs_ID ex_State_suite) None = Some NewTLSPskWithAes128Ccm8"
    by (simp add: ex_State_suite cipherSuiteForID_def builtin_cipherSuiteForID_def)
  have k: "suite_of_state ex_env ?s NewTLSPskWithAes128Ccm8 = (ex_State_suite, Ok ())"
    using ex_State_suite(1) by (simp add: suite_of_state_def)
  obtain d where "suite_Init ex_env [1, 2, 3] (Random_MarshalFixed ex_Random) (Random_MarshalFixed ex_Random) False
      NewTLSPskWithAes128Ccm8 = (d, Ok ())" by (rule suite_Init_total [OF ex_env_wf fresh])
  then have d: "suite_of_state ex_env ?p NewTLSPskWithAes128Ccm8 = (d, Ok ())" by (simp add: suite_of_state_def)
  have rnd: "length (replicate 8 (9 :: byte)) = suite_rnd (cs_kind NewTLSPskWithAes128Ccm8)" by (simp add: suite_defs)
  have raw: "length ex_app_raw = 13" "rl_ContentType ex_app_Header \<noteq> ContentTypeConnectionID"
    by (simp_all add: ex_app_raw_def ex_app_Header_def)
  show ?thesis
    using State_save_restore [of ?s, OF _ fresh k, where gobEncode = "\<lambda>_. Ok [42]" and data = "[42]"
        and gobDecode = "\<lambda>_. bind (serialize ?s) (\<lambda>z. Ok (gob_transmitted z))" and cb = std_cryptobyte
        and p = ?p and h = ex_app_Header and ?h0.0 = ex_app_Header and payload = "[10, 11, 12]", OF _ _ _ _ _ _ ex_env_wf
        std_cryptobyte_spec d _ _ _ _ ex_app(2,1,3) _ rnd] ex_Random_wf raw d
    by auto
qed

subsection \<open>Both ends export the same material\<close>

lemma PHash_total:
  "wf_HashFunc h \<Longrightarrow> \<exists>out. PHash secret seed n h = Ok out \<and> length out = n"
  using ceil_enough [of "hf_Size h" n]
  by (auto simp: PHash_eq_P_hash length_P_hash wf_HashFunc_def)

text \<open>
  C27. Exported keying material is the same on both ends: for a client and a server whose
  handshake is over, with the same master secret, mirrored randoms and suites with the same hash,
  the two calls agree for every label, context and length; with no context and a label that is not
  reserved they succeed with exactly the requested number of bytes, and before the first epoch
  change, with a context or with a reserved label they return the error for it.
\<close>

theorem ExportKeyingMaterial_agree:
  assumes ends: "st_isClient c" "\<not> st_isClient v" "st_masterSecret v = st_masterSecret c"
      "st_localRandom v = st_remoteRandom c" "st_remoteRandom v = st_localRandom c"
      "(st_localEpoch v = 0) = (st_localEpoch c = 0)"
    and suites: "st_cipherSuite c = Some cc" "st_cipherSuite v = Some cv" "cs_HashFunc cc = cs_HashFunc cv"
    and hash: "wf_HashFunc (se_hash env (cs_HashFunc cc))"
  shows "ExportKeyingMaterial env v label context n = ExportKeyingMaterial env c label context n \<and>
    (if st_localEpoch c = 0 then ExportKeyingMaterial env c label context n = Err (Conn ErrHandshakeInProgress)
     else if context \<noteq> [] then ExportKeyingMaterial env c label context n = Err (Conn ErrContextUnsupported)
     else if label \<in> set invalidKeyingLabels
       then ExportKeyingMaterial env c label context n = Err (Conn ErrReservedExportKeyingMaterial)
     else \<exists>out. ExportKeyingMaterial env c label context n = Ok out \<and> length out = n)"
  using assms PHash_total [OF hash] by (simp add: ExportKeyingMaterial_def)

theorem ExportKeyingMaterial_agree_witness:
  "\<exists>out. ExportKeyingMaterial ex_env (ex_State\<lparr>st_cipherSuite := Some ex_State_suite\<rparr>) [65] [] 40 = Ok out
    \<and> ExportKeyingMaterial ex_env (ex_State\<lparr>st_cipherSuite := Some ex_State_suite, st_isClient := False\<rparr>) [65] [] 40
        = Ok out \<and> length out = 40"
proof -
  have "wf_HashFunc (se_hash ex_env (cs_HashFunc ex_State_suite))" using ex_env_wf by (simp add: wf_suite_env_def)
  moreover have "[65] \<notin> set invalidKeyingLabels" by (simp add: invalidKeyingLabels_def ascii_def)
  ultimately show ?thesis
    using ExportKeyingMaterial_agree [of "ex_State\<lparr>st_cipherSuite := Some ex_State_suite\<rparr>"
      "ex_State\<lparr>st_cipherSuite := Some ex_State_suite, st_isClient := False\<rparr>" ex_State_suite ex_State_suite ex_env
      "[65]" "[]" 40]
    by auto
qed

subsection \<open>Routing by connection ID\<close>

lemma ServerHello_record_parts:
  assumes "RecordLayer_Marshal cb \<lparr>rec_Header = h, rec_Content = HandshakeC hs\<rparr> = Ok (raw, r)"
    and "hd_Message hs = Some (MServerHello sh)" "rl_ConnectionID h = []"
  obtains hdr header msg where "raw = hdr @ header @ msg" "length hdr = 13" "length header = 12"
    "rl_Header_Marshal (h\<lparr>rl_ContentLen := word_of_nat (length (header @ msg)),
       rl_ContentType := ContentTypeHandshake\<rparr>) = Ok hdr"
    "ServerHello_Marshal cb sh = Ok msg"
  using assms
  by (auto simp: RecordLayer_Marshal_def Handshake_Marshal_def hs_Header_Marshal_def Let_def
      length_rl_Header_Marshal rl_Header_Size_def split: if_splits)

lemma cidConnIdentifier_ServerHello:
  assumes cb: "cryptobyte_spec cb"
    and raw: "RecordLayer_Marshal cb \<lparr>rec_Header = h, rec_Content = HandshakeC hs\<rparr> = Ok (raw, r)"
    and h: "rl_ConnectionID h = []" "rl_Version h = Version1_2" "rl_SequenceNumber h \<le> MaxSequenceNumber"
    and hs: "hd_Message hs = Some (MServerHello sh)" "wf_ServerHello sh"
    and d: "is_datagram 0 (raw # rest)"
  shows "cidConnIdentifier cb (raw @ concat rest) = Ok (first_CID (svh_Extensions sh))"
proof -
  obtain hdr header msg where p: "raw = hdr @ header @ msg" "length hdr = 13" "length header = 12"
    "rl_Header_Marshal (h\<lparr>rl_ContentLen := word_of_nat (length (header @ msg)),
       rl_ContentType := ContentTypeHandshake\<rparr>) = Ok hdr" and m: "ServerHello_Marshal cb sh = Ok msg"
    by (rule ServerHello_record_parts [OF raw hs(1) h(1)])
  have u: "UnpackDatagram (raw @ concat rest) = Ok (raw # rest)"
    using d by (simp add: UnpackDatagram_aware unpack_iff)
  have "rl_Header_Unmarshal zero_rl_Header (hdr @ header @ msg) = Ok (h\<lparr>rl_ContentLen := 0,
       rl_ContentType := ContentTypeHandshake\<rparr>)"
    using rl_Header_roundtrip [OF _ p(4), of zero_rl_Header "header @ msg"] h
    by (simp add: zero_rl_Header_def wf_rl_Header_def)
  moreover have "ServerHello_Unmarshal cb msg = Ok sh"
    using cryptobyte_spec.ServerHello_roundtrip [OF cb hs(2)] m by simp
  moreover have "\<exists>hh. hs_Header_Unmarshal (header @ msg) = Ok hh"
    using p(3) by (simp add: hs_Header_Unmarshal_def)
  ultimately show ?thesis
    using p(2,3) by (auto simp: cidConnIdentifier_def u [unfolded p(1) append_assoc] p(1) slice_from_def)
qed

lemma cidDatagramRouter_CID:
  assumes h: "wf_rl_Header h" "rl_Header_Marshal h = Ok raw" "rl_ContentType h = ContentTypeConnectionID"
    and d: "is_datagram (length (rl_ConnectionID h)) ((raw @ payload) # rest)"
  shows "cidDatagramRouter (length (rl_ConnectionID h)) (raw @ payload @ concat rest) = Ok (Some (rl_ConnectionID h))"
proof -
  have u: "ContentAwareUnpackDatagram (raw @ payload @ concat rest) (length (rl_ConnectionID h)) = Ok ((raw @ payload) # rest)"
    using d by (simp add: unpack_iff)
  show ?thesis
    using rl_Header_roundtrip [OF h(1,2), of "cid_Header (length (rl_ConnectionID h))" payload] h(3)
    by (simp add: cidDatagramRouter_def u cid_Header_def)
qed

lemma marshalled_is_record:
  assumes raw: "rl_Header_Marshal h = Ok raw" and wf: "wf_rl_Header h"
    and len: "length payload < 65536" "rl_ContentLen h = word_of_nat (length payload)"
  shows "is_record (length (rl_ConnectionID h)) (raw @ payload)"
proof -
  define pre where "pre = [rl_ContentType h, v_Major (rl_Version h), v_Minor (rl_Version h)]
      @ put_uint16 (rl_Epoch h) @ PutBigEndianUint48 (rl_SequenceNumber h) @ rl_ConnectionID h"
  have r: "raw = pre @ put_uint16 (rl_ContentLen h)"
    using raw by (simp add: rl_Header_Marshal_def pre_def split: if_splits)
  have p: "length pre = 11 + length (rl_ConnectionID h)" "pre ! 0 = rl_ContentType h" by (simp_all add: pre_def)
  have k: "hdr_len (length (rl_ConnectionID h)) (raw @ payload) = length raw"
    using wf p by (auto simp: r hdr_len_def wf_rl_Header_def nth_append)
  have "drop (length raw - 2) (raw @ payload) = put_uint16 (rl_ContentLen h) @ payload"
    by (simp add: r)
  then have "get_uint16 (drop (length raw - 2) (raw @ payload)) = rl_ContentLen h" by simp
  then show ?thesis
    using len by (simp add: is_record_def k unat_of_nat take_bit_nat_eq_self)
qed

text \<open>
  C28. Datagrams reach the connection whose ID the server announced. When a server's datagram
  starts with a ServerHello record, the identifier registered for the connection is the connection
  ID of the ServerHello's extension; and a datagram that starts with a record carrying that ID is
  routed by the very same identifier.
\<close>

theorem cid_routing:
  assumes "cryptobyte_spec cb"
    and "RecordLayer_Marshal cb \<lparr>rec_Header = h, rec_Content = HandshakeC hs\<rparr> = Ok (raw, r)"
    and "rl_ConnectionID h = []" "rl_Version h = Version1_2" "rl_SequenceNumber h \<le> MaxSequenceNumber"
    and "hd_Message hs = Some (MServerHello sh)" "wf_ServerHello sh" "is_datagram 0 (raw # rest)"
    and "first_CID (svh_Extensions sh) = Some cid"
    and "wf_rl_Header h'" "rl_Header_Marshal h' = Ok raw'" "rl_ContentType h' = ContentTypeConnectionID"
    and "rl_ConnectionID h' = cid" "is_datagram (length cid) ((raw' @ payload) # rest')"
  shows "cidConnIdentifier cb (raw @ concat rest) = cidDatagramRouter (length cid) (raw' @ payload @ concat rest')
    \<and> cidConnIdentifier cb (raw @ concat rest) = Ok (Some cid)"
  using cidConnIdentifier_ServerHello [OF assms(1-8)] cidDatagramRouter_CID [OF assms(10-12)] assms(9,13,14)
  by simp

definition ex_ServerHello :: MessageServerHello where
  "ex_ServerHello = \<lparr>svh_Version = Version1_2, svh_Random = ex_Random, svh_SessionID = [],
     svh_CipherSuiteID = Some 0xc0a8, svh_CompressionMethod = Some (CompressionMethod 0),
     svh_Extensions = [ConnectionID [5, 6]]\<rparr>"

definition ex_ServerHello_hs :: Handshake where
  "ex_ServerHello_hs = \<lparr>hd_Header = \<lparr>hs_Type = 2, hs_Length = 0, hs_MessageSequence = 0,
     hs_FragmentOffset = 0, hs_FragmentLength = 0\<rparr>, hd_Message = Some (MServerHello ex_ServerHello)\<rparr>"

definition ex_cid_Header :: rl_Header where
  "ex_cid_Header = \<lparr>rl_ContentType = ContentTypeConnectionID, rl_ContentLen = 3, rl_Version = Version1_2,
     rl_Epoch = 1, rl_SequenceNumber = 0, rl_ConnectionID = [5, 6]\<rparr>"

lemma ex_ServerHello_wf: "wf_ServerHello ex_ServerHello"
  by (simp add: wf_ServerHello_def ex_ServerHello_def ex_Random_wf wf_extensions_def ext_enc_def)

lemma ex_ServerHello_record:
  obtains raw r where "RecordLayer_Marshal std_cryptobyte
      \<lparr>rec_Header = zero_rl_Header\<lparr>rl_Version := Version1_2\<rparr>, rec_Content = HandshakeC ex_ServerHello_hs\<rparr> = Ok (raw, r)"
    "is_datagram 0 [raw]"
proof -
  have m: "\<exists>msg. ServerHello_Marshal std_cryptobyte ex_ServerHello = Ok msg \<and> length msg < 100"
    by (simp add: ServerHello_Marshal_def ex_ServerHello_def extension_Marshal_def ConnectionID_Marshal_def
        std_cb_simps length_Random_MarshalFixed ex_Random_wf)
  then have "\<exists>x. RecordLayer_Marshal std_cryptobyte
      \<lparr>rec_Header = zero_rl_Header\<lparr>rl_Version := Version1_2\<rparr>, rec_Content = HandshakeC ex_ServerHello_hs\<rparr> = Ok x"
    by (auto simp: RecordLayer_Marshal_def Handshake_Marshal_def ex_ServerHello_hs_def hs_Header_Marshal_def
        rl_Header_Marshal_def zero_rl_Header_def Let_def)
  then obtain raw r where r: "RecordLayer_Marshal std_cryptobyte
      \<lparr>rec_Header = zero_rl_Header\<lparr>rl_Version := Version1_2\<rparr>, rec_Content = HandshakeC ex_ServerHello_hs\<rparr> = Ok (raw, r)"
    by (metis surj_pair)
  have "rl_ConnectionID (zero_rl_Header\<lparr>rl_Version := Version1_2\<rparr>) = []" by (simp add: zero_rl_Header_def)
  with r have P: "hd_Message ex_ServerHello_hs = Some (MServerHello ex_ServerHello)"
      "rl_ConnectionID (zero_rl_Header\<lparr>rl_Version := Version1_2\<rparr>) = []"
    by (simp_all add: ex_ServerHello_hs_def)
  obtain hdr header msg where p: "raw = hdr @ header @ msg" "length header = 12"
    "rl_Header_Marshal (zero_rl_Header\<lparr>rl_Version := Version1_2,
       rl_ContentLen := word_of_nat (length (header @ msg)), rl_ContentType := ContentTypeHandshake\<rparr>) = Ok hdr"
    "ServerHello_Marshal std_cryptobyte ex_ServerHello = Ok msg"
    by (rule ServerHello_record_parts [OF r P])
  have "is_record 0 raw"
    using marshalled_is_record [OF p(3), of "header @ msg"] m p by (auto simp: wf_rl_Header_def zero_rl_Header_def)
  moreover have "hdr_len 0 raw < length raw"
    using p length_rl_Header_Marshal [OF p(3)] by (simp add: hdr_len_def rl_Header_Size_def)
  ultimately show ?thesis using that r by (simp add: is_datagram_def)
qed

theorem cid_routing_witness:
  "\<exists>raw raw'. cidConnIdentifier std_cryptobyte raw = Ok (Some [5, 6])
    \<and> rl_Header_Marshal ex_cid_Header = Ok raw' \<and> cidDatagramRouter 2 (raw' @ [1, 2, 3]) = Ok (Some [5, 6])"
proof -
  obtain raw r where r: "RecordLayer_Marshal std_cryptobyte
      \<lparr>rec_Header = zero_rl_Header\<lparr>rl_Version := Version1_2\<rparr>, rec_Content = HandshakeC ex_ServerHello_hs\<rparr> = Ok (raw, r)"
    "is_datagram 0 [raw]"
    by (rule ex_ServerHello_record)
  have wf: "wf_rl_Header ex_cid_Header" by (simp add: wf_rl_Header_def ex_cid_Header_def)
  obtain raw' where r': "rl_Header_Marshal ex_cid_Header = Ok raw'" "length raw' = 15"
    by (simp add: rl_Header_Marshal_def ex_cid_Header_def)
  have "is_record 2 (raw' @ [1, 2, 3])"
    using marshalled_is_record [OF r'(1) wf, of "[1, 2, 3]"] by (simp add: ex_cid_Header_def numeral_2_eq_2)
  moreover have "hdr_len 2 (raw' @ [1, 2, 3]) < length (raw' @ [1, 2, 3])" using r'(2) by (simp add: hdr_len_def)
  ultimately have "is_datagram (length [5 :: byte, 6]) [raw' @ [1, 2, 3]]" by (simp add: is_datagram_def numeral_2_eq_2)
  moreover have "first_CID (svh_Extensions ex_ServerHello) = Some [5, 6]" by (simp add: ex_ServerHello_def)
  ultimately show ?thesis
    using cid_routing [OF std_cryptobyte_spec r(1) _ _ _ _ ex_ServerHello_wf r(2) _ wf r'(1), of "[5, 6]" "[1, 2, 3]" "[]"] r'
    by (auto simp: ex_cid_Header_def zero_rl_Header_def ex_ServerHello_hs_def numeral_2_eq_2)
qed

end
