(* ===== verification/Handshake_Config.thy ===== *)
theory Handshake_Config
  imports Conn_State
begin

section \<open>Configuration, certificates and signatures: config.go, certificate.go and crypto.go\<close>

text \<open>
  The configuration a user gives (\<^verbatim>\<open>Config\<close>), its validation, the configuration of a handshake
  made from it, the choice of certificates, and the signatures that authenticate key exchange and
  client. The standard library's certificates, certificate verification and signature schemes are
  the fields of \<open>x509_env\<close>; callbacks are functions. Names are compared in ASCII.

  The lemmas: what validation accepts; the certificate chosen for a server name; that signatures
  made by one end are accepted by the other, and which key and certificate kinds are refused.
\<close>

subsection \<open>Certificates and keys\<close>

datatype public_key = Ed25519PublicKey bytes | EcdsaPublicKey bytes | RsaPublicKey bytes | OtherPublicKey

datatype x509_SignatureAlgorithm = SHA1WithRSA | SHA256WithRSA | SHA384WithRSA | SHA512WithRSA | OtherSignatureAlgorithm

record x509_cert =
  xc_CommonName :: bytes
  xc_DNSNames :: "bytes list"
  xc_RawIssuer :: bytes
  xc_RawSubject :: bytes
  xc_PublicKey :: public_key
  xc_SignatureAlgorithm :: x509_SignatureAlgorithm

record signing_key =
  sk_kind :: private_key
  sk_key :: bytes

record certificate =
  tc_Certificate :: "bytes list option"
  tc_PrivateKey :: "signing_key option"
  tc_Leaf :: "x509_cert option"

record VerifyOptions =
  vo_Roots :: "x509_cert list option"
  vo_CurrentTime :: int
  vo_DNSName :: bytes
  vo_Intermediates :: "x509_cert list"
  vo_ClientAuth :: bool

record x509_env =
  xe_ParseCertificate :: "bytes \<Rightarrow> x509_cert res"
  xe_Verify :: "x509_cert \<Rightarrow> VerifyOptions \<Rightarrow> x509_cert list list res"
  xe_Now :: int
  xe_hashes :: hash_functions
  xe_ed25519_Sign :: "bytes \<Rightarrow> bytes \<Rightarrow> bytes res"
  xe_ecdsa_Sign :: "bytes \<Rightarrow> bytes option \<Rightarrow> uint16 \<Rightarrow> bytes res"
  xe_rsa_Sign :: "bytes \<Rightarrow> bytes option \<Rightarrow> uint16 \<Rightarrow> bytes res"
  xe_ed25519_Verify :: "bytes \<Rightarrow> bytes \<Rightarrow> bytes \<Rightarrow> bool"
  xe_asn1_Unmarshal :: "bytes \<Rightarrow> (int \<times> int) res"
  xe_ecdsa_Verify :: "bytes \<Rightarrow> bytes option \<Rightarrow> int \<Rightarrow> int \<Rightarrow> bool"
  xe_rsa_VerifyPKCS1v15 :: "bytes \<Rightarrow> uint16 \<Rightarrow> bytes option \<Rightarrow> bytes \<Rightarrow> unit res"

record ClientHelloInfo =
  chi_ServerName :: bytes
  chi_CipherSuites :: "uint16 list"
  chi_RandomBytes :: bytes

type_synonym CertificateRequestInfo = "bytes list"

subsection \<open>Configurations\<close>

text \<open>
  A generator may return another value at each call: its argument is the number of the call.
  \<^verbatim>\<open>RandomCIDGenerator\<close> panics when the random source fails.
\<close>

definition RandomCIDGenerator :: "(nat \<Rightarrow> nat \<Rightarrow> bytes res) \<Rightarrow> nat \<Rightarrow> nat \<Rightarrow> bytes option res" where
  "RandomCIDGenerator rand n = (\<lambda>k. case rand k n of Ok cid \<Rightarrow> Ok (Some cid) | _ \<Rightarrow> Panic)"

definition OnlySendCIDGenerator :: "nat \<Rightarrow> bytes option res" where
  "OnlySendCIDGenerator = (\<lambda>k. Ok None)"

datatype ClientAuthType =
  NoClientCert | RequestClientCert | RequireAnyClientCert | VerifyClientCertIfGiven | RequireAndVerifyClientCert

datatype ExtendedMasterSecretType =
  RequestExtendedMasterSecret | RequireExtendedMasterSecret | DisableExtendedMasterSecret

record Config =
  cf_Certificates :: "certificate list"
  cf_CipherSuites :: "uint16 list option"
  cf_CustomCipherSuites :: "CipherSuite list option"
  cf_SignatureSchemes :: "uint16 list"
  cf_SRTPProtectionProfiles :: "uint16 list"
  cf_ClientAuth :: ClientAuthType
  cf_ExtendedMasterSecret :: ExtendedMasterSecretType
  cf_FlightInterval :: int
  cf_PSK :: "(bytes \<Rightarrow> bytes res) option"
  cf_PSKIdentityHint :: "bytes option"
  cf_InsecureSkipVerify :: bool
  cf_InsecureHashes :: bool
  cf_VerifyPeerCertificate :: "(bytes list option \<Rightarrow> x509_cert list list \<Rightarrow> unit res) option"
  cf_VerifyConnection :: "(State \<Rightarrow> unit res) option"
  cf_RootCAs :: "x509_cert list option"
  cf_ClientCAs :: "x509_cert list option"
  cf_ServerName :: bytes
  cf_MTU :: int
  cf_ReplayProtectionWindow :: int
  cf_SessionStore :: "SessionStore option"
  cf_SupportedProtocols :: "bytes list"
  cf_EllipticCurves :: "uint16 list"
  cf_GetCertificate :: "(ClientHelloInfo \<Rightarrow> certificate option res) option"
  cf_GetClientCertificate :: "(CertificateRequestInfo \<Rightarrow> certificate option res) option"
  cf_InsecureSkipVerifyHello :: bool
  cf_ConnectionIDGenerator :: "(nat \<Rightarrow> bytes option res) option"
  cf_PaddingLengthGenerator :: "(nat \<Rightarrow> nat) option"
  cf_HelloRandomBytesGenerator :: "(nat \<Rightarrow> bytes) option"
  cf_ClientHelloMessageHook :: "(MessageClientHello \<Rightarrow> Message) option"
  cf_ServerHelloMessageHook :: "(MessageServerHello \<Rightarrow> Message) option"
  cf_CertificateRequestMessageHook :: "(MessageCertificateRequest \<Rightarrow> Message) option"

record handshakeConfig =
  hc_localPSKCallback :: "(bytes \<Rightarrow> bytes res) option"
  hc_localPSKIdentityHint :: "bytes option"
  hc_localCipherSuites :: "CipherSuite list"
  hc_localSignatureSchemes :: "Algorithm list"
  hc_extendedMasterSecret :: ExtendedMasterSecretType
  hc_localSRTPProtectionProfiles :: "uint16 list"
  hc_serverName :: bytes
  hc_supportedProtocols :: "bytes list"
  hc_clientAuth :: ClientAuthType
  hc_localCertificates :: "certificate list"
  hc_insecureSkipVerify :: bool
  hc_verifyPeerCertificate :: "(bytes list option \<Rightarrow> x509_cert list list \<Rightarrow> unit res) option"
  hc_verifyConnection :: "(State \<Rightarrow> unit res) option"
  hc_sessionStore :: "SessionStore option"
  hc_rootCAs :: "x509_cert list option"
  hc_clientCAs :: "x509_cert list option"
  hc_retransmitInterval :: int
  hc_customCipherSuites :: "CipherSuite list option"
  hc_ellipticCurves :: "uint16 list"
  hc_insecureSkipHelloVerify :: bool
  hc_connectionIDGenerator :: "(nat \<Rightarrow> bytes option res) option"
  hc_helloRandomBytesGenerator :: "(nat \<Rightarrow> bytes) option"
  hc_localGetCertificate :: "(ClientHelloInfo \<Rightarrow> certificate option res) option"
  hc_localGetClientCertificate :: "(CertificateRequestInfo \<Rightarrow> certificate option res) option"
  hc_initialEpoch :: uint16
  hc_clientHelloMessageHook :: "(MessageClientHello \<Rightarrow> Message) option"
  hc_serverHelloMessageHook :: "(MessageServerHello \<Rightarrow> Message) option"
  hc_certificateRequestMessageHook :: "(MessageCertificateRequest \<Rightarrow> Message) option"

definition includeCertificateSuites :: "Config \<Rightarrow> bool" where
  "includeCertificateSuites c \<longleftrightarrow> cf_PSK c = None \<or> length (cf_Certificates c) > 0
     \<or> cf_GetCertificate c \<noteq> None \<or> cf_GetClientCertificate c \<noteq> None"

fun validate_certificates :: "certificate list \<Rightarrow> unit res" where
  "validate_certificates [] = Ok ()"
| "validate_certificates (cert # certs) =
     (if tc_Certificate cert = None then Err (Config ErrInvalidCertificate)
      else case tc_PrivateKey cert of
        None \<Rightarrow> validate_certificates certs
      | Some k \<Rightarrow>
          (case sk_kind k of
             OtherPrivateKey \<Rightarrow> Err (Config ErrInvalidPrivateKey)
           | _ \<Rightarrow> validate_certificates certs))"

definition validateConfig :: "Config option \<Rightarrow> unit res" where
  "validateConfig config =
     (case config of
        None \<Rightarrow> Err (Config ErrNoConfigProvided)
      | Some c \<Rightarrow>
          if cf_PSKIdentityHint c \<noteq> None \<and> cf_PSK c = None then Err (Config ErrIdentityNoPSK)
          else bind (validate_certificates (cf_Certificates c)) (\<lambda>_.
            bind (parseCipherSuites (cf_CipherSuites c) (cf_CustomCipherSuites c) (includeCertificateSuites c)
                    (cf_PSK c \<noteq> None)) (\<lambda>_. Ok ())))"

subsection \<open>Choice of a certificate\<close>

definition lower :: "byte \<Rightarrow> byte" where
  "lower b = (if 0x41 \<le> b \<and> b \<le> 0x5a then b + 0x20 else b)"

definition ToLower :: "bytes \<Rightarrow> bytes" where
  "ToLower s = map lower s"

definition TrimRight_dot :: "bytes \<Rightarrow> bytes" where
  "TrimRight_dot s = rev (dropWhile (\<lambda>b. b = 0x2e) (rev s))"

fun Split_dot :: "bytes \<Rightarrow> bytes list" where
  "Split_dot [] = [[]]"
| "Split_dot (b # s) =
     (if b = 0x2e then [] # Split_dot s
      else case Split_dot s of l # ls \<Rightarrow> (b # l) # ls | [] \<Rightarrow> [[b]])"

fun Join_dot :: "bytes list \<Rightarrow> bytes" where
  "Join_dot [] = []"
| "Join_dot [l] = l"
| "Join_dot (l # ls) = l @ 0x2e # Join_dot ls"

text \<open>
  \<^verbatim>\<open>setNameToCertificateLocked\<close> computes the map that \<^verbatim>\<open>getCertificate\<close> keeps; the certificates do
  not change, so it is computed where it is read.
\<close>

fun insert_names :: "certificate \<Rightarrow> bytes list \<Rightarrow> (bytes \<rightharpoonup> certificate) \<Rightarrow> (bytes \<rightharpoonup> certificate)" where
  "insert_names cert [] m = m"
| "insert_names cert (san # sans) m = insert_names cert sans (m(ToLower san \<mapsto> cert))"

fun setNameToCertificateLocked ::
  "x509_env \<Rightarrow> certificate list \<Rightarrow> (bytes \<rightharpoonup> certificate) \<Rightarrow> (bytes \<rightharpoonup> certificate) res" where
  "setNameToCertificateLocked env [] m = Ok m"
| "setNameToCertificateLocked env (cert # certs) m =
     bind (case tc_Leaf cert of
             Some x \<Rightarrow> Ok (Some x)
           | None \<Rightarrow> bind (idx (case tc_Certificate cert of None \<Rightarrow> [] | Some cs \<Rightarrow> cs) 0) (\<lambda>raw.
               case xe_ParseCertificate env raw of Ok x \<Rightarrow> Ok (Some x) | Err _ \<Rightarrow> Ok None | Panic \<Rightarrow> Panic))
       (\<lambda>leaf. case leaf of
          None \<Rightarrow> setNameToCertificateLocked env certs m
        | Some x \<Rightarrow>
            let m' = (if length (xc_CommonName x) > 0 then m(ToLower (xc_CommonName x) \<mapsto> cert) else m) in
            setNameToCertificateLocked env certs (insert_names cert (xc_DNSNames x) m'))"

fun match_wildcards :: "(bytes \<rightharpoonup> certificate) \<Rightarrow> bytes list \<Rightarrow> bytes list \<Rightarrow> certificate option" where
  "match_wildcards m pre [] = None"
| "match_wildcards m pre (l # labels) =
     (case m (Join_dot (pre @ [0x2a] # labels)) of
        Some cert \<Rightarrow> Some cert
      | None \<Rightarrow> match_wildcards m (pre @ [[0x2a]]) labels)"

definition getLocalCertificate :: "x509_env \<Rightarrow> handshakeConfig \<Rightarrow> bytes \<Rightarrow> certificate res" where
  "getLocalCertificate env c serverName =
     bind (setNameToCertificateLocked env (hc_localCertificates c) Map.empty) (\<lambda>nameToCertificate.
       if length (hc_localCertificates c) = 0 then Err (Config ErrNoCertificates)
       else if length (hc_localCertificates c) = 1 then Ok (hc_localCertificates c ! 0)
       else if length serverName = 0 then Ok (hc_localCertificates c ! 0)
       else
         let name = TrimRight_dot (ToLower serverName) in
         case nameToCertificate name of
           Some cert \<Rightarrow> Ok cert
         | None \<Rightarrow>
             (case match_wildcards nameToCertificate [] (Split_dot name) of
                Some cert \<Rightarrow> Ok cert
              | None \<Rightarrow> Ok (hc_localCertificates c ! 0)))"

definition getCertificate :: "x509_env \<Rightarrow> handshakeConfig \<Rightarrow> ClientHelloInfo \<Rightarrow> certificate res" where
  "getCertificate env c info =
     (case hc_localGetCertificate c of
        None \<Rightarrow> getLocalCertificate env c (chi_ServerName info)
      | Some f \<Rightarrow>
          if length (hc_localCertificates c) = 0 \<or> length (chi_ServerName info) > 0
          then bind (f info) (\<lambda>cert. case cert of
                 Some cert \<Rightarrow> Ok cert
               | None \<Rightarrow> getLocalCertificate env c (chi_ServerName info))
          else getLocalCertificate env c (chi_ServerName info))"

fun SupportsCertificate_loop :: "x509_env \<Rightarrow> CertificateRequestInfo \<Rightarrow> x509_cert option \<Rightarrow> bytes list \<Rightarrow> unit res" where
  "SupportsCertificate_loop env cas leaf [] = Err (Conn ErrNotAcceptableCertificateChain)"
| "SupportsCertificate_loop env cas leaf (cert # certs) =
     bind (case leaf of Some x \<Rightarrow> Ok x | None \<Rightarrow> xe_ParseCertificate env cert) (\<lambda>x.
       if xc_RawIssuer x \<in> set cas then Ok ()
       else SupportsCertificate_loop env cas None certs)"

definition SupportsCertificate :: "x509_env \<Rightarrow> CertificateRequestInfo \<Rightarrow> certificate \<Rightarrow> unit res" where
  "SupportsCertificate env cas c =
     (if length cas = 0 then Ok ()
      else SupportsCertificate_loop env cas (tc_Leaf c) (case tc_Certificate c of None \<Rightarrow> [] | Some cs \<Rightarrow> cs))"

definition empty_certificate :: certificate where
  "empty_certificate = \<lparr>tc_Certificate = None, tc_PrivateKey = None, tc_Leaf = None\<rparr>"

fun first_supported :: "x509_env \<Rightarrow> CertificateRequestInfo \<Rightarrow> certificate list \<Rightarrow> certificate res" where
  "first_supported env cri [] = Ok empty_certificate"
| "first_supported env cri (chain # certs) =
     (case SupportsCertificate env cri chain of
        Ok _ \<Rightarrow> Ok chain | Err _ \<Rightarrow> first_supported env cri certs | Panic \<Rightarrow> Panic)"

definition getClientCertificate ::
  "x509_env \<Rightarrow> handshakeConfig \<Rightarrow> CertificateRequestInfo \<Rightarrow> certificate option res" where
  "getClientCertificate env c cri =
     (case hc_localGetClientCertificate c of
        Some f \<Rightarrow> f cri
      | None \<Rightarrow> bind (first_supported env cri (hc_localCertificates c)) (\<lambda>chain. Ok (Some chain)))"

subsection \<open>Signatures\<close>

definition valueKeyMessage :: "bytes \<Rightarrow> bytes \<Rightarrow> bytes \<Rightarrow> uint16 \<Rightarrow> bytes" where
  "valueKeyMessage clientRandom serverRandom publicKey namedCurve =
     clientRandom @ serverRandom @ 3 # put_uint16 namedCurve @ word_of_nat (length publicKey) # publicKey"

definition generateKeySignature ::
  "x509_env \<Rightarrow> bytes \<Rightarrow> bytes \<Rightarrow> bytes \<Rightarrow> uint16 \<Rightarrow> signing_key option \<Rightarrow> uint16 \<Rightarrow> bytes res" where
  "generateKeySignature env clientRandom serverRandom publicKey namedCurve privateKey hashAlgorithm =
     (let msg = valueKeyMessage clientRandom serverRandom publicKey namedCurve in
      case privateKey of
        None \<Rightarrow> Err (Conn ErrKeySignatureGenerateUnimplemented)
      | Some p \<Rightarrow>
          (case sk_kind p of
             Ed25519PrivateKey \<Rightarrow> xe_ed25519_Sign env (sk_key p) msg
           | EcdsaPrivateKey \<Rightarrow>
               xe_ecdsa_Sign env (sk_key p) (hash_Digest (xe_hashes env) hashAlgorithm msg) hashAlgorithm
           | RsaPrivateKey \<Rightarrow>
               xe_rsa_Sign env (sk_key p) (hash_Digest (xe_hashes env) hashAlgorithm msg) hashAlgorithm
           | OtherPrivateKey \<Rightarrow> Err (Conn ErrKeySignatureGenerateUnimplemented)))"

definition verifyKeySignature :: "x509_env \<Rightarrow> bytes \<Rightarrow> bytes \<Rightarrow> uint16 \<Rightarrow> bytes list \<Rightarrow> unit res" where
  "verifyKeySignature env message remoteKeySignature hashAlgorithm rawCertificates =
     (if length rawCertificates = 0 then Err (Conn ErrConnLengthMismatch)
      else bind (xe_ParseCertificate env (rawCertificates ! 0)) (\<lambda>certificate.
        case xc_PublicKey certificate of
          Ed25519PublicKey p \<Rightarrow>
            if \<not> xe_ed25519_Verify env p message remoteKeySignature then Err (Conn ErrKeySignatureMismatch) else Ok ()
        | EcdsaPublicKey p \<Rightarrow>
            bind (xe_asn1_Unmarshal env remoteKeySignature) (\<lambda>(r, s).
              if r \<le> 0 \<or> s \<le> 0 then Err (Conn ErrInvalidECDSASignature)
              else if \<not> xe_ecdsa_Verify env p (hash_Digest (xe_hashes env) hashAlgorithm message) r s
              then Err (Conn ErrKeySignatureMismatch) else Ok ())
        | RsaPublicKey p \<Rightarrow>
            if xc_SignatureAlgorithm certificate \<noteq> OtherSignatureAlgorithm
            then xe_rsa_VerifyPKCS1v15 env p hashAlgorithm (hash_Digest (xe_hashes env) hashAlgorithm message)
                   remoteKeySignature
            else Err (Conn ErrKeySignatureVerifyUnimplemented)
        | OtherPublicKey \<Rightarrow> Err (Conn ErrKeySignatureVerifyUnimplemented)))"

definition generateCertificateVerify :: "x509_env \<Rightarrow> bytes \<Rightarrow> signing_key option \<Rightarrow> uint16 \<Rightarrow> bytes res" where
  "generateCertificateVerify env handshakeBodies privateKey hashAlgorithm =
     (case privateKey of
        None \<Rightarrow> Err (Conn ErrConnInvalidSignatureAlgorithm)
      | Some p \<Rightarrow>
          if sk_kind p = Ed25519PrivateKey then xe_ed25519_Sign env (sk_key p) handshakeBodies
          else
            let hashed = hash_Digest (xe_hashes env) hashAlgorithm handshakeBodies in
            case sk_kind p of
              EcdsaPrivateKey \<Rightarrow> xe_ecdsa_Sign env (sk_key p) hashed hashAlgorithm
            | RsaPrivateKey \<Rightarrow> xe_rsa_Sign env (sk_key p) hashed hashAlgorithm
            | _ \<Rightarrow> Err (Conn ErrConnInvalidSignatureAlgorithm))"

definition verifyCertificateVerify :: "x509_env \<Rightarrow> bytes \<Rightarrow> uint16 \<Rightarrow> bytes \<Rightarrow> bytes list \<Rightarrow> unit res" where
  "verifyCertificateVerify env handshakeBodies hashAlgorithm remoteKeySignature rawCertificates =
     (if length rawCertificates = 0 then Err (Conn ErrConnLengthMismatch)
      else bind (xe_ParseCertificate env (rawCertificates ! 0)) (\<lambda>certificate.
        case xc_PublicKey certificate of
          Ed25519PublicKey p \<Rightarrow>
            if \<not> xe_ed25519_Verify env p handshakeBodies remoteKeySignature
            then Err (Conn ErrKeySignatureMismatch) else Ok ()
        | EcdsaPublicKey p \<Rightarrow>
            bind (xe_asn1_Unmarshal env remoteKeySignature) (\<lambda>(r, s).
              if r \<le> 0 \<or> s \<le> 0 then Err (Conn ErrInvalidECDSASignature)
              else if \<not> xe_ecdsa_Verify env p (hash_Digest (xe_hashes env) hashAlgorithm handshakeBodies) r s
              then Err (Conn ErrKeySignatureMismatch) else Ok ())
        | RsaPublicKey p \<Rightarrow>
            if xc_SignatureAlgorithm certificate \<noteq> OtherSignatureAlgorithm
            then xe_rsa_VerifyPKCS1v15 env p hashAlgorithm (hash_Digest (xe_hashes env) hashAlgorithm handshakeBodies)
                   remoteKeySignature
            else Err (Conn ErrKeySignatureVerifyUnimplemented)
        | OtherPublicKey \<Rightarrow> Err (Conn ErrKeySignatureVerifyUnimplemented)))"

definition loadCerts :: "x509_env \<Rightarrow> bytes list \<Rightarrow> x509_cert list res" where
  "loadCerts env rawCertificates =
     (if length rawCertificates = 0 then Err (Conn ErrConnLengthMismatch)
      else map_res (xe_ParseCertificate env) rawCertificates)"

definition verifyClientCert :: "x509_env \<Rightarrow> bytes list \<Rightarrow> x509_cert list option \<Rightarrow> x509_cert list list res" where
  "verifyClientCert env rawCertificates roots =
     bind (loadCerts env rawCertificates) (\<lambda>certificate.
       xe_Verify env (certificate ! 0)
         \<lparr>vo_Roots = roots, vo_CurrentTime = xe_Now env, vo_DNSName = [], vo_Intermediates = drop 1 certificate,
          vo_ClientAuth = True\<rparr>)"

definition verifyServerCert ::
  "x509_env \<Rightarrow> bytes list \<Rightarrow> x509_cert list option \<Rightarrow> bytes \<Rightarrow> x509_cert list list res" where
  "verifyServerCert env rawCertificates roots serverName =
     bind (loadCerts env rawCertificates) (\<lambda>certificate.
       xe_Verify env (certificate ! 0)
         \<lparr>vo_Roots = roots, vo_CurrentTime = xe_Now env, vo_DNSName = serverName,
          vo_Intermediates = drop 1 certificate, vo_ClientAuth = False\<rparr>)"

lemma put_uint16_inj [simp]: "put_uint16 a @ xs = put_uint16 b @ ys \<longleftrightarrow> a = b \<and> xs = ys"
  using get_put_uint16 by (metis append_eq_append_conv length_put_uint(1))

subsection \<open>Signatures of one end are accepted by the other\<close>

text \<open>
  The documented law of the signature schemes for a key, the certificate that carries its public
  half and a hash algorithm: what the key signs, the certificate's key verifies. Ed25519 signs the
  message itself. The other keys sign digests that the hash algorithm makes; nothing is said of
  other byte strings, which PKCS1 refuses when they do not have the digest's length.
\<close>

definition signs_for :: "x509_env \<Rightarrow> uint16 \<Rightarrow> signing_key \<Rightarrow> x509_cert \<Rightarrow> bool" where
  "signs_for env a key cert =
     (case xc_PublicKey cert of
        Ed25519PublicKey p \<Rightarrow> sk_kind key = Ed25519PrivateKey \<and>
          (\<forall>msg. \<exists>sig. xe_ed25519_Sign env (sk_key key) msg = Ok sig \<and> xe_ed25519_Verify env p msg sig)
      | EcdsaPublicKey p \<Rightarrow> sk_kind key = EcdsaPrivateKey \<and>
          (\<forall>msg. \<exists>d sig r s. hash_Digest (xe_hashes env) a msg = Some d \<and> xe_ecdsa_Sign env (sk_key key) (Some d) a = Ok sig
             \<and> xe_asn1_Unmarshal env sig = Ok (r, s) \<and> 0 < r \<and> 0 < s \<and> xe_ecdsa_Verify env p (Some d) r s)
      | RsaPublicKey p \<Rightarrow> sk_kind key = RsaPrivateKey \<and>
          (\<forall>msg. \<exists>d sig. hash_Digest (xe_hashes env) a msg = Some d \<and> xe_rsa_Sign env (sk_key key) (Some d) a = Ok sig
             \<and> xe_rsa_VerifyPKCS1v15 env p a (Some d) sig = Ok ())
      | OtherPublicKey \<Rightarrow> False)"

text \<open>What both verifications return on a genuine signature.\<close>

definition genuine_result :: "x509_cert \<Rightarrow> unit res" where
  "genuine_result cert =
     (case xc_PublicKey cert of
        RsaPublicKey p \<Rightarrow> if xc_SignatureAlgorithm cert = OtherSignatureAlgorithm
                          then Err (Conn ErrKeySignatureVerifyUnimplemented) else Ok ()
      | _ \<Rightarrow> Ok ())"

lemma key_signature_accepted:
  assumes "signs_for env a key cert" "xe_ParseCertificate env raw = Ok cert"
  shows "\<exists>sig. generateKeySignature env cr sr pk nc (Some key) a = Ok sig \<and>
    verifyKeySignature env (valueKeyMessage cr sr pk nc) sig a (raw # chain) = genuine_result cert"
proof (cases "xc_PublicKey cert")
  case (Ed25519PublicKey p)
  then show ?thesis
    using assms by (fastforce simp: signs_for_def generateKeySignature_def verifyKeySignature_def genuine_result_def)
next
  case (EcdsaPublicKey p)
  then obtain d sig r s where "hash_Digest (xe_hashes env) a (valueKeyMessage cr sr pk nc) = Some d"
    "xe_ecdsa_Sign env (sk_key key) (Some d) a = Ok sig" "xe_asn1_Unmarshal env sig = Ok (r, s)" "0 < r" "0 < s"
    "xe_ecdsa_Verify env p (Some d) r s"
    using assms(1) by (fastforce simp: signs_for_def)
  then show ?thesis
    using assms EcdsaPublicKey by (simp add: signs_for_def generateKeySignature_def verifyKeySignature_def genuine_result_def)
next
  case (RsaPublicKey p)
  then obtain d sig where "hash_Digest (xe_hashes env) a (valueKeyMessage cr sr pk nc) = Some d"
    "xe_rsa_Sign env (sk_key key) (Some d) a = Ok sig" "xe_rsa_VerifyPKCS1v15 env p a (Some d) sig = Ok ()"
    using assms(1) by (fastforce simp: signs_for_def)
  then show ?thesis
    using assms RsaPublicKey by (simp add: signs_for_def generateKeySignature_def verifyKeySignature_def genuine_result_def)
qed (use assms in \<open>simp add: signs_for_def\<close>)

lemma certificate_verify_accepted:
  assumes "signs_for env a key cert" "xe_ParseCertificate env raw = Ok cert"
  shows "\<exists>sig. generateCertificateVerify env bodies (Some key) a = Ok sig \<and>
    verifyCertificateVerify env bodies a sig (raw # chain) = genuine_result cert"
proof (cases "xc_PublicKey cert")
  case (Ed25519PublicKey p)
  then show ?thesis
    using assms by (fastforce simp: signs_for_def generateCertificateVerify_def verifyCertificateVerify_def genuine_result_def)
next
  case (EcdsaPublicKey p)
  then obtain d sig r s where "hash_Digest (xe_hashes env) a bodies = Some d"
    "xe_ecdsa_Sign env (sk_key key) (Some d) a = Ok sig" "xe_asn1_Unmarshal env sig = Ok (r, s)" "0 < r" "0 < s"
    "xe_ecdsa_Verify env p (Some d) r s"
    using assms(1) by (fastforce simp: signs_for_def)
  then show ?thesis
    using assms EcdsaPublicKey by (simp add: signs_for_def generateCertificateVerify_def verifyCertificateVerify_def genuine_result_def)
next
  case (RsaPublicKey p)
  then obtain d sig where "hash_Digest (xe_hashes env) a bodies = Some d"
    "xe_rsa_Sign env (sk_key key) (Some d) a = Ok sig" "xe_rsa_VerifyPKCS1v15 env p a (Some d) sig = Ok ()"
    using assms(1) by (fastforce simp: signs_for_def)
  then show ?thesis
    using assms RsaPublicKey by (simp add: signs_for_def generateCertificateVerify_def verifyCertificateVerify_def genuine_result_def)
qed (use assms in \<open>simp add: signs_for_def\<close>)

text \<open>
  C26. Signatures made by one end are verified by the other. For a key, the certificate of its
  public half at the head of the chain and, unless the key is Ed25519, a hash algorithm the library
  computes, signing succeeds and the verification accepts, for the server's key exchange
  parameters and for the client's CertificateVerify, with one exception: a certificate with an RSA
  key whose issuer did not sign it with RSA PKCS1 is refused as unimplemented, although the
  signature is genuine. The signed parameters determine the randoms, the curve and the public key
  (of less than 256 bytes).
\<close>

theorem signatures_agree:
  assumes "signs_for env a key cert" "xe_ParseCertificate env raw = Ok cert"
    and "length cr = 32" "length sr = 32" "length pk < 256"
  shows "(\<exists>sig. generateKeySignature env cr sr pk nc (Some key) a = Ok sig \<and>
      verifyKeySignature env (valueKeyMessage cr sr pk nc) sig a (raw # chain) = genuine_result cert) \<and>
    (\<exists>sig. generateCertificateVerify env bodies (Some key) a = Ok sig \<and>
      verifyCertificateVerify env bodies a sig (raw # chain) = genuine_result cert) \<and>
    (\<forall>cr' sr' pk' nc'. valueKeyMessage cr' sr' pk' nc' = valueKeyMessage cr sr pk nc \<longrightarrow>
      length cr' = 32 \<longrightarrow> length sr' = 32 \<longrightarrow> length pk' < 256 \<longrightarrow> cr' = cr \<and> sr' = sr \<and> pk' = pk \<and> nc' = nc)"
  using key_signature_accepted [OF assms(1,2)] certificate_verify_accepted [OF assms(1,2)] assms(3-5)
  by (auto simp: valueKeyMessage_def append_eq_append_conv)

definition ex_x509_env :: x509_env where
  "ex_x509_env = \<lparr>xe_ParseCertificate = (\<lambda>raw. Ok \<lparr>xc_CommonName = raw, xc_DNSNames = [], xc_RawIssuer = [],
       xc_RawSubject = [], xc_PublicKey = Ed25519PublicKey raw, xc_SignatureAlgorithm = OtherSignatureAlgorithm\<rparr>),
     xe_Verify = (\<lambda>c _. Ok [[c]]), xe_Now = 0,
     xe_hashes = \<lparr>md5_Sum = id, sha1_Sum = id, sha256_Sum224 = id, sha256_Sum256 = id, sha512_Sum384 = id, sha512_Sum512 = id\<rparr>,
     xe_ed25519_Sign = (\<lambda>k m. Ok (k @ m)), xe_ecdsa_Sign = (\<lambda>_ _ _. Ok []), xe_rsa_Sign = (\<lambda>_ _ _. Ok []),
     xe_ed25519_Verify = (\<lambda>p m s. s = p @ m), xe_asn1_Unmarshal = (\<lambda>_. Ok (1, 1)),
     xe_ecdsa_Verify = (\<lambda>_ _ _ _. True), xe_rsa_VerifyPKCS1v15 = (\<lambda>_ _ _ _. Ok ())\<rparr>"

definition ex_key :: signing_key where
  "ex_key = \<lparr>sk_kind = Ed25519PrivateKey, sk_key = [1, 2]\<rparr>"

text \<open>
  A library for examples with all three kinds of keys. The first byte of a certificate tells the
  kind, and the issuer signed with RSA only where the second byte is zero. PKCS1 takes SHA-256 digests
  of 32 bytes only.
\<close>

definition ex_sig_cert :: "bytes \<Rightarrow> x509_cert" where
  "ex_sig_cert raw = \<lparr>xc_CommonName = raw, xc_DNSNames = [], xc_RawIssuer = [], xc_RawSubject = [],
     xc_PublicKey = (if raw ! 0 = 1 then Ed25519PublicKey raw else if raw ! 0 = 2 then EcdsaPublicKey raw else RsaPublicKey raw),
     xc_SignatureAlgorithm = (if raw ! 1 = 0 then SHA256WithRSA else OtherSignatureAlgorithm)\<rparr>"

definition ex_sig_env :: x509_env where
  "ex_sig_env = ex_x509_env\<lparr>xe_ParseCertificate := (\<lambda>raw. Ok (ex_sig_cert raw)),
     xe_hashes := (xe_hashes ex_x509_env)\<lparr>sha256_Sum256 := (\<lambda>m. take 32 (m @ replicate 32 0))\<rparr>,
     xe_ecdsa_Sign := (\<lambda>k d a. case d of Some d \<Rightarrow> Ok (k @ d) | None \<Rightarrow> Err (ErrOther 0)),
     xe_asn1_Unmarshal := (\<lambda>sig. Ok (int (length sig), 1)),
     xe_ecdsa_Verify := (\<lambda>p d r s. case d of Some d \<Rightarrow> r = int (length (p @ d)) \<and> s = 1 | None \<Rightarrow> False),
     xe_rsa_Sign := (\<lambda>k d a. case d of
        Some d \<Rightarrow> if a = hash_SHA256 \<and> length d = 32 then Ok (k @ d) else Err (ErrOther 0) | None \<Rightarrow> Err (ErrOther 0)),
     xe_rsa_VerifyPKCS1v15 := (\<lambda>p a d sig. case d of
        Some d \<Rightarrow> if a = hash_SHA256 \<and> length d = 32 \<and> sig = p @ d then Ok () else Err (ErrOther 0) | None \<Rightarrow> Err (ErrOther 0))\<rparr>"

lemma ex_sig:
  "signs_for ex_sig_env hash_Ed25519 \<lparr>sk_kind = Ed25519PrivateKey, sk_key = [1, 5]\<rparr> (ex_sig_cert [1, 5])"
  "signs_for ex_sig_env hash_SHA256 \<lparr>sk_kind = EcdsaPrivateKey, sk_key = [2, 5]\<rparr> (ex_sig_cert [2, 5])"
  "signs_for ex_sig_env hash_SHA256 \<lparr>sk_kind = RsaPrivateKey, sk_key = [3, n]\<rparr> (ex_sig_cert [3, n])"
  "xe_ParseCertificate ex_sig_env raw = Ok (ex_sig_cert raw)"
  by (simp_all add: signs_for_def ex_sig_env_def ex_sig_cert_def ex_x509_env_def hash_Digest_def min_def)

theorem signatures_agree_witness:
  "\<exists>ed ec rsa rsa'.
     generateCertificateVerify ex_sig_env [8] (Some \<lparr>sk_kind = Ed25519PrivateKey, sk_key = [1, 5]\<rparr>) hash_Ed25519 = Ok ed \<and>
     verifyCertificateVerify ex_sig_env [8] hash_Ed25519 ed [[1, 5]] = Ok () \<and>
     generateCertificateVerify ex_sig_env [8] (Some \<lparr>sk_kind = EcdsaPrivateKey, sk_key = [2, 5]\<rparr>) hash_SHA256 = Ok ec \<and>
     verifyCertificateVerify ex_sig_env [8] hash_SHA256 ec [[2, 5]] = Ok () \<and>
     generateCertificateVerify ex_sig_env [8] (Some \<lparr>sk_kind = RsaPrivateKey, sk_key = [3, 0]\<rparr>) hash_SHA256 = Ok rsa \<and>
     verifyCertificateVerify ex_sig_env [8] hash_SHA256 rsa [[3, 0]] = Ok () \<and>
     generateCertificateVerify ex_sig_env [8] (Some \<lparr>sk_kind = RsaPrivateKey, sk_key = [3, 1]\<rparr>) hash_SHA256 = Ok rsa' \<and>
     verifyCertificateVerify ex_sig_env [8] hash_SHA256 rsa' [[3, 1]] = Err (Conn ErrKeySignatureVerifyUnimplemented)"
proof -
  have result: "genuine_result (ex_sig_cert [1, 5]) = Ok ()" "genuine_result (ex_sig_cert [2, 5]) = Ok ()"
    "genuine_result (ex_sig_cert [3, 0]) = Ok ()"
    "genuine_result (ex_sig_cert [3, 1]) = Err (Conn ErrKeySignatureVerifyUnimplemented)"
    by (simp_all add: genuine_result_def ex_sig_cert_def)
  have agree: "\<exists>sig. generateCertificateVerify ex_sig_env [8] (Some key) a = Ok sig \<and>
      verifyCertificateVerify ex_sig_env [8] a sig [raw] = genuine_result (ex_sig_cert raw)"
    if "signs_for ex_sig_env a key (ex_sig_cert raw)" for a key raw
    using signatures_agree [OF that ex_sig(4), of "replicate 32 0" "replicate 32 1" "[7]" 23 "[]" "[8]"] by simp
  show ?thesis
    using agree [OF ex_sig(1)] agree [OF ex_sig(2)] agree [OF ex_sig(3) [of 0]] agree [OF ex_sig(3) [of 1]]
    unfolding result by blast
qed

subsection \<open>Validation\<close>

lemma validate_certificates_iff:
  "validate_certificates certs = Ok () \<longleftrightarrow>
     (\<forall>c \<in> set certs. tc_Certificate c \<noteq> None \<and> (\<forall>k. tc_PrivateKey c = Some k \<longrightarrow> sk_kind k \<noteq> OtherPrivateKey))"
  by (induction certs) (auto split: option.splits private_key.splits)

definition leafless_empty :: "certificate \<Rightarrow> bool" where
  "leafless_empty c \<longleftrightarrow> tc_Leaf c = None \<and> (tc_Certificate c = None \<or> tc_Certificate c = Some [])"

lemma setNameToCertificateLocked_panic:
  assumes "\<And>raw. xe_ParseCertificate env raw \<noteq> Panic"
  shows "setNameToCertificateLocked env certs m = Panic \<longleftrightarrow> (\<exists>c \<in> set certs. leafless_empty c)"
proof (induction certs arbitrary: m)
  case (Cons c certs)
  show ?case
  proof (cases "tc_Leaf c")
    case None
    show ?thesis
    proof (cases "tc_Certificate c")
      case None
      with \<open>tc_Leaf c = None\<close> show ?thesis by (simp add: leafless_empty_def idx_def)
    next
      case (Some raws)
      with \<open>tc_Leaf c = None\<close> assms Cons show ?thesis
        by (cases raws; cases "xe_ParseCertificate env (raws ! 0)")
           (auto simp: leafless_empty_def idx_def Let_def)
    qed
  next
    case (Some x)
    with Cons show ?thesis by (simp add: leafless_empty_def Let_def)
  qed
qed simp

lemma setNameToCertificateLocked_no_Err: "setNameToCertificateLocked env certs m \<noteq> Err e"
proof (induction certs arbitrary: m)
  case (Cons c certs)
  then show ?case
    by (cases "tc_Leaf c"; cases "idx (case tc_Certificate c of None \<Rightarrow> [] | Some cs \<Rightarrow> cs) 0")
       (auto simp: Let_def idx_def split: res.splits if_splits)
qed simp

subsection \<open>The certificate for a name\<close>

text \<open>
  The specification: the names a certificate carries, in lower case, and the names tried for a
  request, the name itself before the ones with more and more leading labels replaced by a star.
\<close>

definition cert_leaf :: "x509_env \<Rightarrow> certificate \<Rightarrow> x509_cert option" where
  "cert_leaf env cert =
     (case tc_Leaf cert of
        Some x \<Rightarrow> Some x
      | None \<Rightarrow> (case tc_Certificate cert of
          Some (raw # _) \<Rightarrow> (case xe_ParseCertificate env raw of Ok x \<Rightarrow> Some x | _ \<Rightarrow> None)
        | _ \<Rightarrow> None))"

definition cert_names :: "x509_env \<Rightarrow> certificate \<Rightarrow> bytes list" where
  "cert_names env cert =
     (case cert_leaf env cert of
        None \<Rightarrow> []
      | Some x \<Rightarrow> map ToLower ((if xc_CommonName x = [] then [] else [xc_CommonName x]) @ xc_DNSNames x))"

definition candidate_names :: "bytes \<Rightarrow> bytes list" where
  "candidate_names serverName =
     (let name = TrimRight_dot (ToLower serverName); labels = Split_dot name in
      name # map (\<lambda>k. Join_dot (replicate (Suc k) [0x2a] @ drop (Suc k) labels)) [0..<length labels])"

definition last_with_name :: "x509_env \<Rightarrow> certificate list \<Rightarrow> bytes \<Rightarrow> certificate option" where
  "last_with_name env certs n =
     (case filter (\<lambda>c. n \<in> set (cert_names env c)) certs of [] \<Rightarrow> None | cs \<Rightarrow> Some (last cs))"

lemma insert_names_lookup:
  "insert_names cert sans m n = (if n \<in> ToLower ` set sans then Some cert else m n)"
  by (induction sans arbitrary: m) auto

lemma setNameToCertificateLocked_step:
  assumes "setNameToCertificateLocked env (c # certs) m = Ok m'"
  shows "setNameToCertificateLocked env certs (case cert_leaf env c of None \<Rightarrow> m
       | Some x \<Rightarrow> insert_names c (xc_DNSNames x)
           (if length (xc_CommonName x) > 0 then m(ToLower (xc_CommonName x) \<mapsto> c) else m)) = Ok m'"
proof (cases "tc_Leaf c")
  case leaf: None
  show ?thesis
  proof (cases "tc_Certificate c")
    case None
    with leaf assms show ?thesis by (simp add: idx_def)
  next
    case (Some raws)
    with leaf assms show ?thesis
      by (cases raws; cases "xe_ParseCertificate env (raws ! 0)") (simp_all add: idx_def cert_leaf_def Let_def)
  qed
next
  case (Some x)
  with assms show ?thesis by (simp add: cert_leaf_def Let_def)
qed

lemma setNameToCertificateLocked_lookup:
  "setNameToCertificateLocked env certs m = Ok m' \<Longrightarrow>
   m' n = (case last_with_name env certs n of Some c \<Rightarrow> Some c | None \<Rightarrow> m n)"
proof (induction certs arbitrary: m)
  case (Cons c certs)
  have "(case cert_leaf env c of None \<Rightarrow> m | Some x \<Rightarrow> insert_names c (xc_DNSNames x)
           (if length (xc_CommonName x) > 0 then m(ToLower (xc_CommonName x) \<mapsto> c) else m)) n
      = (if n \<in> set (cert_names env c) then Some c else m n)"
    by (auto simp: cert_names_def insert_names_lookup split: option.splits)
  with Cons.IH [OF setNameToCertificateLocked_step [OF Cons.prems]] show ?case
    by (auto simp: last_with_name_def split: option.splits list.splits)
qed (simp add: last_with_name_def)

fun first_match :: "('a \<Rightarrow> 'b option) \<Rightarrow> 'a list \<Rightarrow> 'b option" where
  "first_match f [] = None"
| "first_match f (x # xs) = (case f x of Some y \<Rightarrow> Some y | None \<Rightarrow> first_match f xs)"

lemma match_wildcards_first:
  "match_wildcards m (replicate i [0x2a]) labels =
     first_match m (map (\<lambda>k. Join_dot (replicate (Suc i + k) [0x2a] @ drop (Suc k) labels)) [0..<length labels])"
proof (induction labels arbitrary: i)
  case (Cons l labels)
  have e: "replicate i [0x2a] @ [0x2a] # labels = replicate (Suc i) [0x2a] @ labels"
    "replicate i [0x2a] @ [[0x2a]] = replicate (Suc i) ([0x2a :: byte])"
    by (simp_all add: replicate_app_Cons_same replicate_append_same)
  have s: "[0..<length (l # labels)] = 0 # map Suc [0..<length labels]"
    by (simp add: map_Suc_upt upt_conv_Cons del: upt_Suc)
  show ?case unfolding match_wildcards.simps e s Cons.IH by (simp add: comp_def split: option.splits)
qed simp

text \<open>
  C30. The server's certificate for a requested name. With at least two certificates that can be
  read and no callback, it is the one the reference definition picks: among the requested name in
  lower case without trailing dots and its variants with leading labels replaced by stars, the
  first that any certificate carries as common name or DNS name decides, the last certificate with
  that name is taken, and the first configured one when no candidate is known.
\<close>

theorem getCertificate_by_name:
  assumes "hc_localGetCertificate c = None" "length (hc_localCertificates c) \<ge> 2" "chi_ServerName info \<noteq> []"
    and "\<forall>cert \<in> set (hc_localCertificates c). \<not> leafless_empty cert"
    and "\<And>raw. xe_ParseCertificate env raw \<noteq> Panic"
  shows "getCertificate env c info =
    Ok (case first_match (last_with_name env (hc_localCertificates c)) (candidate_names (chi_ServerName info)) of
          Some cert \<Rightarrow> cert | None \<Rightarrow> hd (hc_localCertificates c))"
proof -
  let ?certs = "hc_localCertificates c" and ?name = "TrimRight_dot (ToLower (chi_ServerName info))"
  obtain m where m: "setNameToCertificateLocked env ?certs Map.empty = Ok m"
    using setNameToCertificateLocked_panic [OF assms(5)] setNameToCertificateLocked_no_Err assms(4)
    by (metis res.exhaust)
  have "m = last_with_name env ?certs"
    using setNameToCertificateLocked_lookup [OF m] by (fastforce split: option.splits)
  moreover have "hd ?certs = ?certs ! 0" using assms(2) by (intro hd_conv_nth) auto
  ultimately show ?thesis
    using assms(1-3) match_wildcards_first [of m 0 "Split_dot ?name"]
    by (auto simp: getCertificate_def getLocalCertificate_def m candidate_names_def Let_def split: option.splits)
qed

definition ex_named_cert :: "bytes \<Rightarrow> certificate" where
  "ex_named_cert n = \<lparr>tc_Certificate = Some [n], tc_PrivateKey = Some ex_key, tc_Leaf = None\<rparr>"

definition ex_handshakeConfig :: handshakeConfig where
  "ex_handshakeConfig =
     \<lparr>hc_localPSKCallback = None, hc_localPSKIdentityHint = None, hc_localCipherSuites = defaultCipherSuites,
      hc_localSignatureSchemes = signaturehash_Algorithms, hc_extendedMasterSecret = RequestExtendedMasterSecret,
      hc_localSRTPProtectionProfiles = [], hc_serverName = [], hc_supportedProtocols = [], hc_clientAuth = NoClientCert,
      hc_localCertificates = [ex_named_cert (ascii ''b.c''), ex_named_cert (ascii ''*.c'')],
      hc_insecureSkipVerify = False, hc_verifyPeerCertificate = None, hc_verifyConnection = None,
      hc_sessionStore = None, hc_rootCAs = None, hc_clientCAs = None, hc_retransmitInterval = 1,
      hc_customCipherSuites = None, hc_ellipticCurves = [X25519, P256, P384], hc_insecureSkipHelloVerify = False,
      hc_connectionIDGenerator = None, hc_helloRandomBytesGenerator = None, hc_localGetCertificate = None,
      hc_localGetClientCertificate = None, hc_initialEpoch = 0, hc_clientHelloMessageHook = None,
      hc_serverHelloMessageHook = None, hc_certificateRequestMessageHook = None\<rparr>"

theorem getCertificate_by_name_witness:
  "getCertificate ex_x509_env ex_handshakeConfig
     \<lparr>chi_ServerName = ascii ''A.C.'', chi_CipherSuites = [], chi_RandomBytes = []\<rparr>
   = Ok (ex_named_cert (ascii ''*.c''))"
proof -
  let ?info = "\<lparr>chi_ServerName = ascii ''A.C.'', chi_CipherSuites = [], chi_RandomBytes = []\<rparr>"
  have n: "candidate_names (ascii ''A.C.'') = [[0x61, 0x2e, 0x63], [0x2a, 0x2e, 0x63], [0x2a, 0x2e, 0x2a]]"
    by (simp add: candidate_names_def ToLower_def lower_def ascii_def TrimRight_dot_def upt_rec)
  have l: "cert_names ex_x509_env (ex_named_cert r) = (if r = [] then [] else [ToLower r])" for r
    by (simp add: cert_names_def cert_leaf_def ex_named_cert_def ex_x509_env_def)
  have "\<forall>cert \<in> set (hc_localCertificates ex_handshakeConfig). \<not> leafless_empty cert"
    "\<And>raw. xe_ParseCertificate ex_x509_env raw \<noteq> Panic"
    by (simp_all add: ex_handshakeConfig_def leafless_empty_def ex_named_cert_def ex_x509_env_def)
  moreover have "first_match (last_with_name ex_x509_env (hc_localCertificates ex_handshakeConfig))
      (candidate_names (ascii ''A.C.'')) = Some (ex_named_cert (ascii ''*.c''))"
    unfolding n by (simp add: last_with_name_def l ex_handshakeConfig_def ToLower_def lower_def ascii_def)
  moreover have "hc_localGetCertificate ex_handshakeConfig = None" "length (hc_localCertificates ex_handshakeConfig) \<ge> 2"
    by (simp_all add: ex_handshakeConfig_def)
  ultimately show ?thesis
    using getCertificate_by_name [of ex_handshakeConfig ?info ex_x509_env] by (simp add: ascii_def)
qed

lemma match_wildcards_Some: "match_wildcards m pre labels = Some c \<Longrightarrow> \<exists>n. m n = Some c"
  by (induction labels arbitrary: pre) (auto split: option.splits)

lemma last_with_name_mem: "last_with_name env certs n = Some c \<Longrightarrow> c \<in> set certs"
  by (auto simp: last_with_name_def split: list.splits if_splits dest: filter_eq_ConsD)
     (metis filter_is_subset last_in_set list.distinct(1) subsetD list.set_intros(2))+

text \<open>
  C38. Reading the certificates of a validated server configuration: without a callback and with
  a certificate parser that does not panic, the choice of a certificate panics exactly when some
  configured certificate has an empty chain and no parsed leaf, which validation lets through (it
  refuses only a missing chain); it returns the error for missing certificates exactly when none is
  configured, and otherwise one of the configured certificates.
\<close>

theorem validated_getCertificate:
  assumes "validateConfig (Some config) = Ok ()" "hc_localCertificates c = cf_Certificates config"
    and "hc_localGetCertificate c = None" "\<And>raw. xe_ParseCertificate env raw \<noteq> Panic"
  shows "(getCertificate env c info = Panic \<longleftrightarrow>
      (\<exists>cert \<in> set (cf_Certificates config). tc_Leaf cert = None \<and> tc_Certificate cert = Some [])) \<and>
    (getCertificate env c info = Err e \<longleftrightarrow> e = Config ErrNoCertificates \<and> cf_Certificates config = []) \<and>
    (\<forall>cert. getCertificate env c info = Ok cert \<longrightarrow> cert \<in> set (cf_Certificates config))"
proof -
  let ?certs = "cf_Certificates config"
  have v: "\<forall>cert \<in> set ?certs. tc_Certificate cert \<noteq> None"
    using assms(1) by (auto simp: validateConfig_def validate_certificates_iff split: if_splits)
  have p: "setNameToCertificateLocked env ?certs Map.empty = Panic \<longleftrightarrow>
      (\<exists>cert \<in> set ?certs. tc_Leaf cert = None \<and> tc_Certificate cert = Some [])"
    using v by (auto simp: setNameToCertificateLocked_panic [OF assms(4)] leafless_empty_def)
  have g: "getCertificate env c info = getLocalCertificate env c (chi_ServerName info)"
    using assms(3) by (simp add: getCertificate_def)
  show ?thesis
  proof (cases "setNameToCertificateLocked env ?certs Map.empty")
    case (Ok m)
    have mem: "cert \<in> set ?certs" if "m n = Some cert" for n cert
      using that setNameToCertificateLocked_lookup [OF Ok, of n] last_with_name_mem
      by (fastforce split: option.splits)
    have "x \<in> set ?certs" if "match_wildcards m [] ls = Some x" for ls x
      using match_wildcards_Some [OF that] mem by blast
    then show ?thesis
      using p mem
      by (auto simp: g getLocalCertificate_def assms(2) Ok Let_def split: option.splits if_splits)
  next
    case Panic
    then show ?thesis using p by (auto simp: g getLocalCertificate_def assms(2))
  qed (simp add: setNameToCertificateLocked_no_Err)
qed

definition ex_Config :: Config where
  "ex_Config =
     \<lparr>cf_Certificates = [\<lparr>tc_Certificate = Some [], tc_PrivateKey = Some ex_key, tc_Leaf = None\<rparr>],
      cf_CipherSuites = None, cf_CustomCipherSuites = None, cf_SignatureSchemes = [], cf_SRTPProtectionProfiles = [],
      cf_ClientAuth = NoClientCert, cf_ExtendedMasterSecret = RequestExtendedMasterSecret, cf_FlightInterval = 0,
      cf_PSK = None, cf_PSKIdentityHint = None, cf_InsecureSkipVerify = False, cf_InsecureHashes = False,
      cf_VerifyPeerCertificate = None, cf_VerifyConnection = None, cf_RootCAs = None, cf_ClientCAs = None,
      cf_ServerName = [], cf_MTU = 0, cf_ReplayProtectionWindow = 0, cf_SessionStore = None,
      cf_SupportedProtocols = [], cf_EllipticCurves = [], cf_GetCertificate = None, cf_GetClientCertificate = None,
      cf_InsecureSkipVerifyHello = False, cf_ConnectionIDGenerator = None, cf_PaddingLengthGenerator = None,
      cf_HelloRandomBytesGenerator = None, cf_ClientHelloMessageHook = None, cf_ServerHelloMessageHook = None,
      cf_CertificateRequestMessageHook = None\<rparr>"

lemma default_suites_certificate:
  "\<forall>c \<in> set defaultCipherSuites. cs_AuthenticationType c = AuthenticationTypeCertificate"
  "TLSEcdheEcdsaWithAes128GcmSha256 \<in> set defaultCipherSuites"
  by (simp_all add: defaultCipherSuites_def suite_defs)

lemma default_suites_parse: "parseCipherSuites None None True False = Ok defaultCipherSuites"
proof -
  have "filter (suite_included True False) defaultCipherSuites = defaultCipherSuites"
    using default_suites_certificate(1) by (auto simp: filter_id_conv suite_included_def)
  moreover have "\<exists>c. c \<in> set defaultCipherSuites \<and> suite_included True False c \<and>
      cs_AuthenticationType c \<noteq> AuthenticationTypePreSharedKey"
    using default_suites_certificate by (fastforce simp: suite_included_def)
  moreover have "defaultCipherSuites \<noteq> []" using default_suites_certificate(2) by auto
  ultimately show ?thesis by (simp add: parseCipherSuites_eq Let_def)
qed

lemma ex_Config_valid: "validateConfig (Some ex_Config) = Ok ()"
  by (simp add: validateConfig_def ex_Config_def ex_key_def includeCertificateSuites_def default_suites_parse)

theorem validated_getCertificate_witness:
  "validateConfig (Some ex_Config) = Ok () \<and>
   getCertificate ex_x509_env (ex_handshakeConfig\<lparr>hc_localCertificates := cf_Certificates ex_Config\<rparr>)
     \<lparr>chi_ServerName = [], chi_CipherSuites = [], chi_RandomBytes = []\<rparr> = Panic"
proof -
  have "xe_ParseCertificate ex_x509_env raw \<noteq> Panic" for raw by (simp add: ex_x509_env_def)
  moreover have "hc_localGetCertificate ex_handshakeConfig = None" by (simp add: ex_handshakeConfig_def)
  moreover have "\<exists>cert \<in> set (cf_Certificates ex_Config). tc_Leaf cert = None \<and> tc_Certificate cert = Some []"
    by (simp add: ex_Config_def)
  ultimately show ?thesis
    using validated_getCertificate [OF ex_Config_valid, of "ex_handshakeConfig\<lparr>hc_localCertificates := cf_Certificates ex_Config\<rparr>"
      ex_x509_env] ex_Config_valid by simp
qed

end
