(* ===== verification/Connection.thy ===== *)
theory Connection
  imports Handshake_Config
begin

section \<open>The connection: conn.go and packet.go\<close>

text \<open>
  \<^verbatim>\<open>Conn\<close> and what it does to send and receive: records made from packets and packed into
  datagrams, incoming records checked, decrypted and dispatched, alerts, closing, \<^verbatim>\<open>Read\<close> and
  \<^verbatim>\<open>Write\<close>. Each operation is a function from the connection to the new one and a result; the
  locks make each of them one step.
  \<^item> \<open>conn_env\<close> is what lies outside the repository: the network (the results of the writes, in
    order), the random source, the replay detectors, the choice of a \<^verbatim>\<open>select\<close> with several ready
    cases, and the environments of the cipher suites and of the certificates. A replay detector is
    represented by the numbers it accepted.
  \<^item> The connection records the datagrams handed to the network (\<open>cn_sent\<close>), the values sent on the
    channel that \<^verbatim>\<open>Read\<close> receives from (\<open>cn_decrypted\<close>), and the calls to the session store.
  \<^item> The buffers that datagrams are read into come from a pool and go back to it after each read.
    Packets waiting for keys are slices of such a buffer, so a queued packet is a buffer number, an
    offset and a length, and its bytes are those the buffer has when the queue is processed.
    Decryption works in place; that it overwrites the bytes of the record it decrypts is not
    represented, and shows only when two queued packets share bytes.
\<close>

subsection \<open>State\<close>

type_synonym addr = bytes

record addrPkt =
  ap_rAddr :: addr
  ap_buf :: nat
  ap_off :: nat
  ap_len :: nat

record packet =
  pk_record :: RecordLayer
  pk_shouldEncrypt :: bool
  pk_shouldWrapCID :: bool
  pk_resetLocalSequenceNumber :: bool

record Conn =
  cn_fragmentBuffer :: fragmentBuffer
  cn_handshakeCache :: handshakeCache
  cn_decrypted :: "bytes res list"
  cn_rAddr :: addr
  cn_state :: State
  cn_maximumTransmissionUnit :: nat
  cn_paddingLengthGenerator :: "nat \<Rightarrow> nat"
  cn_handshakeCompletedSuccessfully :: bool
  cn_encryptedPackets :: "addrPkt list"
  cn_connectionClosedByUser :: bool
  cn_closed :: bool
  cn_replayProtectionWindow :: nat
  cn_buffers :: "bytes list"
  cn_sent :: "(bytes \<times> addr) list"
  cn_nextConnClosed :: bool
  cn_draws :: nat
  cn_storeLog :: "store_op list"

record 'b conn_env =
  ce_cb :: "'b cryptobyte"
  ce_suites :: suite_env
  ce_x509 :: x509_env
  ce_nonce :: "nat \<Rightarrow> nat \<Rightarrow> bytes"
  ce_WriteTo :: "nat \<Rightarrow> unit res"
  ce_Close :: "unit res"
  ce_Check :: "nat \<Rightarrow> replay_detector \<Rightarrow> uint64 \<Rightarrow> bool"
  ce_Latest :: "nat \<Rightarrow> replay_detector \<Rightarrow> uint64 \<Rightarrow> bool"
  ce_Deliver :: "nat \<Rightarrow> bool"

text \<open>\<open>upd_state\<close> changes the connection's \<^verbatim>\<open>State\<close>.\<close>

abbreviation upd_state :: "(State \<Rightarrow> State) \<Rightarrow> Conn \<Rightarrow> Conn" where
  "upd_state f c \<equiv> c\<lparr>cn_state := f (cn_state c)\<rparr>"

definition setLocalEpoch :: "uint16 \<Rightarrow> Conn \<Rightarrow> Conn" where
  "setLocalEpoch epoch c = upd_state (\<lambda>s. s\<lparr>st_localEpoch := epoch\<rparr>) c"

definition setRemoteEpoch :: "uint16 \<Rightarrow> Conn \<Rightarrow> Conn" where
  "setRemoteEpoch epoch c = upd_state (\<lambda>s. s\<lparr>st_remoteEpoch := epoch\<rparr>) c"

subsection \<open>Sending\<close>

fun compactRawPackets_loop :: "nat \<Rightarrow> bytes list \<Rightarrow> bytes list \<Rightarrow> bytes \<Rightarrow> bytes list" where
  "compactRawPackets_loop mtu [] combined current = combined @ [current]"
| "compactRawPackets_loop mtu (rawPacket # rawPackets) combined current =
     (if length current > 0 \<and> length current + length rawPacket \<ge> mtu
      then compactRawPackets_loop mtu rawPackets (combined @ [current]) rawPacket
      else compactRawPackets_loop mtu rawPackets combined (current @ rawPacket))"

definition compactRawPackets :: "nat \<Rightarrow> bytes list \<Rightarrow> bytes list" where
  "compactRawPackets mtu rawPackets =
     (if length rawPackets = 1 then rawPackets else compactRawPackets_loop mtu rawPackets [] [])"

text \<open>
  \<open>next_seq\<close> is the loop that extends the counters up to the epoch and the atomic increment: the
  number for the record and the connection with the counter advanced.
\<close>

definition next_seq :: "uint16 \<Rightarrow> Conn \<Rightarrow> uint64 \<times> Conn" where
  "next_seq epoch c =
     (let seqs = grow (st_localSequenceNumber (cn_state c)) (unat epoch) 0; seq = seqs ! unat epoch in
      (seq, upd_state (\<lambda>s. s\<lparr>st_localSequenceNumber := seqs[unat epoch := seq + 1]\<rparr>) c))"

definition cid_record_header :: "Conn \<Rightarrow> rl_Header \<Rightarrow> bytes \<Rightarrow> rl_Header" where
  "cid_record_header c h rawInner =
     \<lparr>rl_ContentType = ContentTypeConnectionID, rl_ContentLen = word_of_nat (length rawInner),
      rl_Version = rl_Version h, rl_Epoch = rl_Epoch h, rl_SequenceNumber = rl_SequenceNumber h,
      rl_ConnectionID = opt_bytes (st_remoteConnectionID (cn_state c))\<rparr>"

definition encrypt_raw :: "'b conn_env \<Rightarrow> Conn \<Rightarrow> packet \<Rightarrow> bytes \<Rightarrow> Conn \<times> bytes res" where
  "encrypt_raw env c p rawPacket =
     (if \<not> pk_shouldEncrypt p then (c, Ok rawPacket)
      else case st_cipherSuite (cn_state c) of
        None \<Rightarrow> (c, Panic)
      | Some cs \<Rightarrow>
          (c\<lparr>cn_draws := cn_draws c + 1\<rparr>,
           suite_Encrypt (ce_suites env) (ce_cb env) cs (rec_Header (pk_record p)) rawPacket
             (ce_nonce env (cn_draws c) (suite_rnd (cs_kind cs)))))"

text \<open>The record of a packet on the wire, before encryption, and the packet as it is then.\<close>

definition packet_raw :: "'b conn_env \<Rightarrow> Conn \<Rightarrow> packet \<Rightarrow> (bytes \<times> packet) res" where
  "packet_raw env c p =
     bind (RecordLayer_Marshal (ce_cb env) (pk_record p)) (\<lambda>(raw, rec).
       if pk_shouldWrapCID p then
         bind (Content_Marshal (ce_cb env) (rec_Content rec)) (\<lambda>(content, content').
           bind (InnerPlaintext_Marshal (ce_cb env)
                   \<lparr>ip_Content = content, ip_RealType = rl_ContentType (rec_Header rec), ip_Zeros = 0\<rparr>) (\<lambda>rawInner.
             let cidHeader = cid_record_header c (rec_Header rec) rawInner in
             bind (rl_Header_Marshal cidHeader) (\<lambda>rawHeader.
               Ok (rawHeader @ rawInner, p\<lparr>pk_record := \<lparr>rec_Header = cidHeader, rec_Content = content'\<rparr>\<rparr>))))
       else Ok (raw, p\<lparr>pk_record := rec\<rparr>))"

definition processPacket :: "'b conn_env \<Rightarrow> Conn \<Rightarrow> packet \<Rightarrow> Conn \<times> packet \<times> bytes res" where
  "processPacket env c p =
     (let (seq, c) = next_seq (rl_Epoch (rec_Header (pk_record p))) c in
      if seq > MaxSequenceNumber then (c, p, Err (Conn ErrConnSequenceNumberOverflow))
      else
        let p = p\<lparr>pk_record := (pk_record p)\<lparr>rec_Header := (rec_Header (pk_record p))\<lparr>rl_SequenceNumber := seq\<rparr>\<rparr>\<rparr> in
        case packet_raw env c p of
          Err e \<Rightarrow> (c, p, Err e) | Panic \<Rightarrow> (c, p, Panic)
        | Ok (rawPacket, p) \<Rightarrow> (let (c, r) = encrypt_raw env c p rawPacket in (c, p, r)))"

text \<open>One fragment of a handshake message on the wire, before encryption.\<close>

definition fragment_raw :: "'b conn_env \<Rightarrow> Conn \<Rightarrow> packet \<Rightarrow> uint64 \<Rightarrow> bytes \<Rightarrow> (bytes \<times> rl_Header) res" where
  "fragment_raw env c p seq handshakeFragment =
     (let h = rec_Header (pk_record p) in
      if pk_shouldWrapCID p then
        bind (InnerPlaintext_Marshal (ce_cb env)
                \<lparr>ip_Content = handshakeFragment, ip_RealType = ContentTypeHandshake,
                 ip_Zeros = cn_paddingLengthGenerator c (length handshakeFragment)\<rparr>) (\<lambda>rawInner.
          let cidHeader = cid_record_header c h rawInner in
          bind (rl_Header_Marshal cidHeader) (\<lambda>raw. Ok (raw @ rawInner, cidHeader)))
      else
        let recordlayerHeader = \<lparr>rl_ContentType = rl_ContentType h,
              rl_ContentLen = word_of_nat (length handshakeFragment), rl_Version = rl_Version h,
              rl_Epoch = rl_Epoch h, rl_SequenceNumber = seq, rl_ConnectionID = []\<rparr> in
        bind (rl_Header_Marshal recordlayerHeader) (\<lambda>raw. Ok (raw @ handshakeFragment, recordlayerHeader)))"

fun processHandshakePacket_loop ::
  "'b conn_env \<Rightarrow> uint16 \<Rightarrow> Conn \<Rightarrow> packet \<Rightarrow> bytes list \<Rightarrow> bytes list \<Rightarrow> Conn \<times> packet \<times> bytes list res" where
  "processHandshakePacket_loop env epoch c p [] rawPackets = (c, p, Ok rawPackets)"
| "processHandshakePacket_loop env epoch c p (handshakeFragment # fragments) rawPackets =
     (let (seq, c) = next_seq epoch c in
      if seq > MaxSequenceNumber then (c, p, Err (Conn ErrConnSequenceNumberOverflow))
      else case fragment_raw env c p seq handshakeFragment of
        Err e \<Rightarrow> (c, p, Err e) | Panic \<Rightarrow> (c, p, Panic)
      | Ok (rawPacket, hdr) \<Rightarrow>
          let p = p\<lparr>pk_record := (pk_record p)\<lparr>rec_Header := hdr\<rparr>\<rparr>;
              (c, r) = encrypt_raw env c p rawPacket in
          (case r of
             Err e \<Rightarrow> (c, p, Err e) | Panic \<Rightarrow> (c, p, Panic)
           | Ok rawPacket \<Rightarrow> processHandshakePacket_loop env epoch c p fragments (rawPackets @ [rawPacket])))"

definition processHandshakePacket ::
  "'b conn_env \<Rightarrow> Conn \<Rightarrow> packet \<Rightarrow> Handshake \<Rightarrow> Conn \<times> packet \<times> bytes list res" where
  "processHandshakePacket env c p h =
     (case fragmentHandshake (ce_cb env) (cn_maximumTransmissionUnit c) h of
        Err e \<Rightarrow> (c, p, Err e) | Panic \<Rightarrow> (c, p, Panic)
      | Ok fragments \<Rightarrow>
          let epoch = rl_Epoch (rec_Header (pk_record p)) in
          processHandshakePacket_loop env epoch
            (upd_state (\<lambda>s. s\<lparr>st_localSequenceNumber := grow (st_localSequenceNumber s) (unat epoch) 0\<rparr>) c)
            p fragments [])"

text \<open>
  One packet of \<^verbatim>\<open>writePackets\<close>. Marshalling the record completes the headers in the packet; a
  handshake message also goes to the cache, from the thirteenth byte of the marshalled record on.
\<close>

definition write_packet :: "'b conn_env \<Rightarrow> Conn \<Rightarrow> packet \<Rightarrow> Conn \<times> packet \<times> bytes list res" where
  "write_packet env c p =
     (case rec_Content (pk_record p) of
        HandshakeC _ \<Rightarrow>
          (case RecordLayer_Marshal (ce_cb env) (pk_record p) of
             Err e \<Rightarrow> (c, p, Err e) | Panic \<Rightarrow> (c, p, Panic)
           | Ok (handshakeRaw, rec) \<Rightarrow>
               let p = p\<lparr>pk_record := rec\<rparr> in
               (case rec_Content rec of
                  HandshakeC h \<Rightarrow>
                    processHandshakePacket env
                      (c\<lparr>cn_handshakeCache := cache_push (cn_handshakeCache c) (drop FixedHeaderSize handshakeRaw)
                           (rl_Epoch (rec_Header rec)) (hs_MessageSequence (hd_Header h)) (hs_Type (hd_Header h))
                           (st_isClient (cn_state c))\<rparr>) p h
                | _ \<Rightarrow> (c, p, Panic)))
      | _ \<Rightarrow>
          (let (c, p, r) = processPacket env c p in
           (c, p, bind r (\<lambda>rawPacket. Ok [rawPacket]))))"

fun write_packets_loop ::
  "'b conn_env \<Rightarrow> Conn \<Rightarrow> packet list \<Rightarrow> bytes list \<Rightarrow> Conn \<times> packet list \<times> bytes list res" where
  "write_packets_loop env c [] rawPackets = (c, [], Ok rawPackets)"
| "write_packets_loop env c (p # pkts) rawPackets =
     (let (c, p, r) = write_packet env c p in
      case r of
        Err e \<Rightarrow> (c, p # pkts, Err e) | Panic \<Rightarrow> (c, p # pkts, Panic)
      | Ok raws \<Rightarrow>
          (let (c, pkts, r) = write_packets_loop env c pkts (rawPackets @ raws) in (c, p # pkts, r)))"

fun send_datagrams :: "'b conn_env \<Rightarrow> Conn \<Rightarrow> bytes list \<Rightarrow> Conn \<times> unit res" where
  "send_datagrams env c [] = (c, Ok ())"
| "send_datagrams env c (d # ds) =
     (let r = ce_WriteTo env (length (cn_sent c)); c = c\<lparr>cn_sent := cn_sent c @ [(d, cn_rAddr c)]\<rparr> in
      case r of
        Ok _ \<Rightarrow> send_datagrams env c ds
      | Err e \<Rightarrow> (c, Err e) | Panic \<Rightarrow> (c, Panic))"

definition writePackets :: "'b conn_env \<Rightarrow> Conn \<Rightarrow> packet list \<Rightarrow> Conn \<times> packet list \<times> unit res" where
  "writePackets env c pkts =
     (let (c, pkts, r) = write_packets_loop env c pkts [] in
      case r of
        Err e \<Rightarrow> (c, pkts, Err e) | Panic \<Rightarrow> (c, pkts, Panic)
      | Ok rawPackets \<Rightarrow>
          if length rawPackets = 0 then (c, pkts, Ok ())
          else
            (let (c, r) = send_datagrams env c (compactRawPackets (cn_maximumTransmissionUnit c) rawPackets) in
             (c, pkts, r)))"

definition sessionKey :: "handshakeConfig \<Rightarrow> Conn \<Rightarrow> bytes" where
  "sessionKey cfg c =
     (if st_isClient (cn_state c) then cn_rAddr c @ ascii ''_'' @ hc_serverName cfg
      else st_SessionID (cn_state c))"

definition plain_header :: "uint16 \<Rightarrow> rl_Header" where
  "plain_header epoch = zero_rl_Header\<lparr>rl_Epoch := epoch, rl_Version := Version1_2\<rparr>"

definition hasRemoteCID :: "Conn \<Rightarrow> bool" where
  "hasRemoteCID c \<longleftrightarrow> length (opt_bytes (st_remoteConnectionID (cn_state c))) > 0"

definition notify :: "'b conn_env \<Rightarrow> handshakeConfig \<Rightarrow> Conn \<Rightarrow> byte \<Rightarrow> byte \<Rightarrow> Conn \<times> unit res" where
  "notify env cfg c level desc =
     (let (c, r) =
        (if level = alert_Fatal \<and> length (st_SessionID (cn_state c)) > 0 then
           case hc_sessionStore cfg of
             None \<Rightarrow> (c, Ok ())
           | Some ss \<Rightarrow>
               (c\<lparr>cn_storeLog := cn_storeLog c @ [StoreDel (sessionKey cfg c)]\<rparr>,
                store_Del ss (cn_storeLog c) (sessionKey cfg c))
         else (c, Ok ())) in
      case r of
        Err e \<Rightarrow> (c, Err e) | Panic \<Rightarrow> (c, Panic)
      | Ok _ \<Rightarrow>
          (let (c, pkts, r) = writePackets env c
             [\<lparr>pk_record = \<lparr>rec_Header = plain_header (st_localEpoch (cn_state c)),
                             rec_Content = AlertC \<lparr>al_Level = level, al_Description = desc\<rparr>\<rparr>,
               pk_shouldEncrypt = cn_handshakeCompletedSuccessfully c, pk_shouldWrapCID = hasRemoteCID c,
               pk_resetLocalSequenceNumber = False\<rparr>] in (c, r)))"

definition Conn_Write :: "'b conn_env \<Rightarrow> Conn \<Rightarrow> bool \<Rightarrow> bytes \<Rightarrow> Conn \<times> nat \<times> unit res" where
  "Conn_Write env c writeDeadlineDone p =
     (if cn_closed c then (c, 0, Err (Conn ErrConnClosed))
      else if writeDeadlineDone then (c, 0, Err (Conn ErrDeadlineExceeded))
      else if \<not> cn_handshakeCompletedSuccessfully c then (c, 0, Err (Conn ErrHandshakeInProgress))
      else
        (let (c, pkts, r) = writePackets env c
           [\<lparr>pk_record = \<lparr>rec_Header = plain_header (st_localEpoch (cn_state c)), rec_Content = ApplicationDataC p\<rparr>,
             pk_shouldEncrypt = True, pk_shouldWrapCID = hasRemoteCID c, pk_resetLocalSequenceNumber = False\<rparr>] in
         (c, length p, r)))"

subsection \<open>Receiving\<close>

definition maxAppDataPacketQueueSize :: nat where
  "maxAppDataPacketQueueSize = 100"

definition enqueueEncryptedPackets :: "Conn \<Rightarrow> addrPkt \<Rightarrow> Conn \<times> bool" where
  "enqueueEncryptedPackets c packet =
     (if length (cn_encryptedPackets c) < maxAppDataPacketQueueSize
      then (c\<lparr>cn_encryptedPackets := cn_encryptedPackets c @ [packet]\<rparr>, True)
      else (c, False))"

text \<open>\<open>replay_check\<close> extends the detectors up to the epoch and asks the one of the epoch; \<open>mark_valid\<close> is the
  closure it returned: the accepted number is recorded, and whether it is the latest one returned.\<close>

definition grow_detectors :: "uint16 \<Rightarrow> Conn \<Rightarrow> Conn" where
  "grow_detectors epoch c =
     upd_state (\<lambda>s. s\<lparr>st_replayDetector := grow (st_replayDetector s) (unat epoch) []\<rparr>) c"

definition replay_check :: "'b conn_env \<Rightarrow> Conn \<Rightarrow> rl_Header \<Rightarrow> bool" where
  "replay_check env c h =
     ce_Check env (cn_replayProtectionWindow c) (st_replayDetector (cn_state c) ! unat (rl_Epoch h)) (rl_SequenceNumber h)"

definition mark_valid :: "'b conn_env \<Rightarrow> Conn \<Rightarrow> rl_Header \<Rightarrow> Conn \<times> bool" where
  "mark_valid env c h =
     (let ds = st_replayDetector (cn_state c); e = unat (rl_Epoch h) in
      (upd_state (\<lambda>s. s\<lparr>st_replayDetector := ds[e := ds ! e @ [rl_SequenceNumber h]]\<rparr>) c,
       ce_Latest env (cn_replayProtectionWindow c) (ds ! e) (rl_SequenceNumber h)))"

text \<open>\<^verbatim>\<open>for out, epoch := pop(); out != nil; ...\<close>: the complete messages move to the cache.\<close>

lemma pop_shrinks:
  assumes "pop f = (f', Some r)"
  shows "length (fb_cache f') < length (fb_cache f)"
proof -
  have "map_of (fb_cache f) (fb_currentMessageSequenceNumber f) \<noteq> None"
    and "fb_cache f' = AList.delete (fb_currentMessageSequenceNumber f) (fb_cache f)"
    using assms by (auto simp: pop_def Let_def hs_Header_Marshal_def split: option.splits)
  moreover have "length (AList.delete k al) < length al" if "map_of al k \<noteq> None" for k and al :: "('k \<times> 'v) list"
    using that length_filter_less [of _ al] unfolding AList.delete_eq
    by (metis (mono_tags, lifting) case_prod_conv map_of_SomeD option.exhaust)
  ultimately show ?thesis by simp
qed

function drain_fragments :: "fragmentBuffer \<Rightarrow> handshakeCache \<Rightarrow> bool \<Rightarrow> fragmentBuffer \<times> handshakeCache" where
  "drain_fragments f cache isClient =
     (case pop f of
        (f', None) \<Rightarrow> (f', cache)
      | (f', Some (out, epoch)) \<Rightarrow>
          (case hs_Header_Unmarshal out of
             Ok header \<Rightarrow>
               drain_fragments f' (cache_push cache out epoch (hs_MessageSequence header) (hs_Type header) (\<not> isClient)) isClient
           | _ \<Rightarrow> drain_fragments f' cache isClient))"
  by pat_completeness auto
termination
  by (relation "measure (\<lambda>(f, cache, isClient). length (fb_cache f))") (auto dest!: pop_shrinks [OF sym])

declare drain_fragments.simps [simp del]

text \<open>
  What an incoming record leads to: whether it carried handshake messages, an alert to send, an
  error. \<open>discard\<close> is \<^verbatim>\<open>return false, nil, nil\<close>.
\<close>

type_synonym incoming = "(bool \<times> Alert option \<times> error option) res"

abbreviation discard :: incoming where
  "discard \<equiv> Ok (False, None, None)"

definition suite_ready :: "Conn \<Rightarrow> CipherSuite option" where
  "suite_ready c =
     (case st_cipherSuite (cn_state c) of
        Some cs \<Rightarrow> if suite_IsInitialized cs then Some cs else None
      | None \<Rightarrow> None)"

text \<open>
  The decryption of a record of an encrypted epoch: \<open>None\<close> discards the record, otherwise the
  record to process further and whether it came with a connection ID.
\<close>

definition decrypt_record :: "'b conn_env \<Rightarrow> Conn \<Rightarrow> CipherSuite \<Rightarrow> rl_Header \<Rightarrow> bytes \<Rightarrow> (bytes \<times> bool) option res" where
  "decrypt_record env c cs h buf =
     (let cid = opt_bytes (st_localConnectionID (cn_state c)); isCID = (rl_ContentType h = ContentTypeConnectionID) in
      if length cid > 0 \<and> \<not> isCID then Ok None
      else case suite_Decrypt (ce_suites env) (ce_cb env) cs (cid_Header (if isCID then length cid else 0)) buf of
        Err e \<Rightarrow> Ok None
      | Panic \<Rightarrow> Panic
      | Ok buf \<Rightarrow>
          bind (if isCID then
                  bind (slice_from buf (rl_Header_Size h)) (\<lambda>inner.
                    case InnerPlaintext_Unmarshal inner of
                      Err e \<Rightarrow> Ok None
                    | Panic \<Rightarrow> Panic
                    | Ok ip \<Rightarrow>
                        (case rl_Header_Marshal \<lparr>rl_ContentType = ip_RealType ip,
                                rl_ContentLen = word_of_nat (length (ip_Content ip)), rl_Version = rl_Version h,
                                rl_Epoch = rl_Epoch h, rl_SequenceNumber = rl_SequenceNumber h, rl_ConnectionID = []\<rparr> of
                           Err e \<Rightarrow> Ok None
                         | Panic \<Rightarrow> Panic
                         | Ok raw \<Rightarrow> Ok (Some (raw @ ip_Content ip))))
                else Ok (Some buf))
            (\<lambda>r. case r of
               None \<Rightarrow> Ok None
             | Some buf \<Rightarrow> if cid \<noteq> rl_ConnectionID h then Ok None else Ok (Some (buf, isCID))))"

text \<open>The dispatch on the content of a record that holds no handshake messages.\<close>

definition update_rAddr :: "bool \<Rightarrow> bool \<Rightarrow> addr \<Rightarrow> Conn \<Rightarrow> Conn" where
  "update_rAddr originalCID isLatestSeqNum rAddr c =
     (if originalCID \<and> isLatestSeqNum \<and> rAddr \<noteq> cn_rAddr c then c\<lparr>cn_rAddr := rAddr\<rparr> else c)"

definition handle_content ::
  "'b conn_env \<Rightarrow> Conn \<Rightarrow> rl_Header \<Rightarrow> addrPkt \<Rightarrow> bool \<Rightarrow> bool \<Rightarrow> Content \<Rightarrow> Conn \<times> incoming" where
  "handle_content env c h pkt enqueue originalCID content =
     (case content of
        AlertC a \<Rightarrow>
          (fst (mark_valid env c h),
           Ok (False,
               (if al_Description a = CloseNotify
                then Some \<lparr>al_Level = alert_Warning, al_Description = CloseNotify\<rparr> else None),
               Some (ErrAlert (al_Level a) (al_Description a))))
      | ChangeCipherSpecC \<Rightarrow>
          (case suite_ready c of
             None \<Rightarrow> ((if enqueue then fst (enqueueEncryptedPackets c pkt) else c), discard)
           | Some cs \<Rightarrow>
               let newRemoteEpoch = rl_Epoch h + 1 in
               if st_remoteEpoch (cn_state c) + 1 = newRemoteEpoch
               then (let (c, latest) = mark_valid env (setRemoteEpoch newRemoteEpoch c) h in
                     (update_rAddr originalCID latest (ap_rAddr pkt) c, discard))
               else (c, discard))
      | ApplicationDataC data \<Rightarrow>
          if rl_Epoch h = 0
          then (c, Ok (False, Some \<lparr>al_Level = alert_Fatal, al_Description = UnexpectedMessage\<rparr>,
                       Some (Conn ErrApplicationDataEpochZero)))
          else
            (let (c, latest) = mark_valid env c h;
                 c = (if ce_Deliver env (length (cn_decrypted c))
                      then c\<lparr>cn_decrypted := cn_decrypted c @ [Ok data]\<rparr> else c) in
             (update_rAddr originalCID latest (ap_rAddr pkt) c, discard))
      | HandshakeC _ \<Rightarrow>
          (c, Ok (False, Some \<lparr>al_Level = alert_Fatal, al_Description = UnexpectedMessage\<rparr>,
                  Some (Conn ErrUnhandledContextType))))"

text \<open>A record in the clear, decrypted if it had to be.\<close>

definition handle_plain ::
  "'b conn_env \<Rightarrow> Conn \<Rightarrow> rl_Header \<Rightarrow> addrPkt \<Rightarrow> bool \<Rightarrow> bool \<Rightarrow> bytes \<Rightarrow> Conn \<times> incoming" where
  "handle_plain env c h pkt enqueue originalCID buf =
     (let (f, r) = push (cn_fragmentBuffer c) buf; c = c\<lparr>cn_fragmentBuffer := f\<rparr> in
      case r of
        Err e \<Rightarrow> (c, discard)
      | Panic \<Rightarrow> (c, Panic)
      | Ok True \<Rightarrow>
          (let (c, latest) = mark_valid env c h;
               (f, cache) = drain_fragments (cn_fragmentBuffer c) (cn_handshakeCache c) (st_isClient (cn_state c)) in
           (c\<lparr>cn_fragmentBuffer := f, cn_handshakeCache := cache\<rparr>, Ok (True, None, None)))
      | Ok False \<Rightarrow>
          (case RecordLayer_Unmarshal (ce_cb env) zero_rl_Header buf of
             Err e \<Rightarrow> (c, Ok (False, Some \<lparr>al_Level = alert_Fatal, al_Description = DecodeError\<rparr>, Some e))
           | Panic \<Rightarrow> (c, Panic)
           | Ok rec \<Rightarrow> handle_content env c h pkt enqueue originalCID (rec_Content rec)))"

definition handleIncomingPacket ::
  "'b conn_env \<Rightarrow> Conn \<Rightarrow> bytes \<Rightarrow> addrPkt \<Rightarrow> bool \<Rightarrow> Conn \<times> incoming" where
  "handleIncomingPacket env c buf pkt enqueue =
     (case rl_Header_Unmarshal (cid_Header (length (opt_bytes (st_localConnectionID (cn_state c))))) buf of
        Err e \<Rightarrow> (c, discard)
      | Panic \<Rightarrow> (c, Panic)
      | Ok h \<Rightarrow>
          let remoteEpoch = st_remoteEpoch (cn_state c) in
          if rl_Epoch h > remoteEpoch then
            if rl_Epoch h > remoteEpoch + 1 then (c, discard)
            else ((if enqueue then fst (enqueueEncryptedPackets c pkt) else c), discard)
          else
            let c = grow_detectors (rl_Epoch h) c in
            if \<not> replay_check env c h then (c, discard)
            else if rl_Epoch h = 0 then handle_plain env c h pkt enqueue False buf
            else case suite_ready c of
              None \<Rightarrow> ((if enqueue then fst (enqueueEncryptedPackets c pkt) else c), discard)
            | Some cs \<Rightarrow>
                (case decrypt_record env c cs h buf of
                   Err e \<Rightarrow> (c, Err e) | Panic \<Rightarrow> (c, Panic)
                 | Ok None \<Rightarrow> (c, discard)
                 | Ok (Some (buf, originalCID)) \<Rightarrow> handle_plain env c h pkt enqueue originalCID buf))"

text \<open>
  The error of a record with the reply to its alert: the alert is sent, and an error of the
  sending counts only when there was none.
\<close>

definition answer :: "'b conn_env \<Rightarrow> handshakeConfig \<Rightarrow> Conn \<times> incoming \<Rightarrow> Conn \<times> bool res" where
  "answer env cfg r =
     (case r of
        (c, Err e) \<Rightarrow> (c, Err e) | (c, Panic) \<Rightarrow> (c, Panic)
      | (c, Ok (hs, None, None)) \<Rightarrow> (c, Ok hs)
      | (c, Ok (hs, None, Some e)) \<Rightarrow> (c, Err e)
      | (c, Ok (hs, Some a, err)) \<Rightarrow>
          (case notify env cfg c (al_Level a) (al_Description a) of
             (c, Panic) \<Rightarrow> (c, Panic)
           | (c, Ok _) \<Rightarrow> (c, case err of None \<Rightarrow> Ok hs | Some e \<Rightarrow> Err e)
           | (c, Err ae) \<Rightarrow> (c, case err of None \<Rightarrow> Err ae | Some e \<Rightarrow> Err e)))"

definition slice_bytes :: "Conn \<Rightarrow> addrPkt \<Rightarrow> bytes" where
  "slice_bytes c pkt = take (ap_len pkt) (drop (ap_off pkt) (cn_buffers c ! ap_buf pkt))"

fun handleQueuedPackets_loop :: "'b conn_env \<Rightarrow> handshakeConfig \<Rightarrow> Conn \<Rightarrow> addrPkt list \<Rightarrow> Conn \<times> unit res" where
  "handleQueuedPackets_loop env cfg c [] = (c, Ok ())"
| "handleQueuedPackets_loop env cfg c (p # pkts) =
     (case answer env cfg (handleIncomingPacket env c (slice_bytes c p) p False) of
        (c, Ok _) \<Rightarrow> handleQueuedPackets_loop env cfg c pkts
      | (c, Err e) \<Rightarrow> (c, Err e) | (c, Panic) \<Rightarrow> (c, Panic))"

definition handleQueuedPackets :: "'b conn_env \<Rightarrow> handshakeConfig \<Rightarrow> Conn \<Rightarrow> Conn \<times> unit res" where
  "handleQueuedPackets env cfg c =
     handleQueuedPackets_loop env cfg (c\<lparr>cn_encryptedPackets := []\<rparr>) (cn_encryptedPackets c)"

text \<open>
  One datagram: \<open>k\<close> is the buffer the pool returned, a new one when it is the number of buffers.
  The result is whether the handshake is to be told.
\<close>

definition inboundBufferSize :: nat where
  "inboundBufferSize = 8192"

definition read_into :: "nat \<Rightarrow> bytes \<Rightarrow> Conn \<Rightarrow> Conn" where
  "read_into k data c =
     (let bufs = (if k < length (cn_buffers c) then cn_buffers c else cn_buffers c @ [replicate inboundBufferSize 0]) in
      c\<lparr>cn_buffers := bufs[k := data @ drop (length data) (bufs ! k)]\<rparr>)"

fun readAndBuffer_loop ::
  "'b conn_env \<Rightarrow> handshakeConfig \<Rightarrow> Conn \<Rightarrow> nat \<Rightarrow> addr \<Rightarrow> nat \<Rightarrow> bytes list \<Rightarrow> bool \<Rightarrow> Conn \<times> bool res" where
  "readAndBuffer_loop env cfg c k rAddr off [] hasHandshake = (c, Ok hasHandshake)"
| "readAndBuffer_loop env cfg c k rAddr off (p # pkts) hasHandshake =
     (case answer env cfg (handleIncomingPacket env c p
             \<lparr>ap_rAddr = rAddr, ap_buf = k, ap_off = off, ap_len = length p\<rparr> True) of
        (c, Ok hs) \<Rightarrow> readAndBuffer_loop env cfg c k rAddr (off + length p) pkts (hasHandshake \<or> hs)
      | (c, Err e) \<Rightarrow> (c, Err e) | (c, Panic) \<Rightarrow> (c, Panic))"

definition readAndBuffer ::
  "'b conn_env \<Rightarrow> handshakeConfig \<Rightarrow> Conn \<Rightarrow> nat \<Rightarrow> (bytes \<times> addr) res \<Rightarrow> Conn \<times> bool res" where
  "readAndBuffer env cfg c k input =
     (case input of
        Err e \<Rightarrow> (c, Err e) | Panic \<Rightarrow> (c, Panic)
      | Ok (datagram, rAddr) \<Rightarrow>
          let b = take inboundBufferSize datagram; c = read_into k b c in
          (case ContentAwareUnpackDatagram b (length (opt_bytes (st_localConnectionID (cn_state c)))) of
             Err e \<Rightarrow> (c, Err e) | Panic \<Rightarrow> (c, Panic)
           | Ok pkts \<Rightarrow> readAndBuffer_loop env cfg c k rAddr 0 pkts False))"

subsection \<open>Closing and reading\<close>

definition IsFatalOrCloseNotify :: "byte \<Rightarrow> byte \<Rightarrow> bool" where
  "IsFatalOrCloseNotify level desc \<longleftrightarrow> level = alert_Fatal \<or> desc = CloseNotify"

definition Conn_close :: "'b conn_env \<Rightarrow> handshakeConfig \<Rightarrow> Conn \<Rightarrow> bool \<Rightarrow> Conn \<times> unit res" where
  "Conn_close env cfg c byUser =
     (let (c, r) = (if cn_handshakeCompletedSuccessfully c \<and> byUser
                    then notify env cfg c alert_Warning CloseNotify else (c, Ok ())) in
      if r = Panic then (c, Panic)
      else
        let closedByUser = cn_connectionClosedByUser c; isClosed = cn_closed c;
            c = c\<lparr>cn_connectionClosedByUser := closedByUser \<or> byUser, cn_closed := True\<rparr> in
        if closedByUser then (c, Err (Conn ErrConnClosed))
        else if isClosed then (c, Ok ())
        else (c\<lparr>cn_nextConnClosed := True\<rparr>, ce_Close env))"

text \<open>\<^verbatim>\<open>Read\<close> with a value on the channel, with the channel closed, or with the deadline passed.\<close>

datatype read_event = ReadDeadline | ChannelClosed | ChannelValue "bytes res"

definition Conn_Read :: "Conn \<Rightarrow> read_event \<Rightarrow> nat \<Rightarrow> bytes res" where
  "Conn_Read c ev n =
     (if \<not> cn_handshakeCompletedSuccessfully c then Err (Conn ErrHandshakeInProgress)
      else case ev of
        ReadDeadline \<Rightarrow> Err (Conn ErrDeadlineExceeded)
      | ChannelClosed \<Rightarrow> Err (Net ErrEOF)
      | ChannelValue out \<Rightarrow>
          (case out of
             Ok val \<Rightarrow> if n < length val then Err (Conn ErrConnBufferTooSmall) else Ok val
           | r \<Rightarrow> r))"

text \<open>
  One turn of the reading loop of \<^verbatim>\<open>handshake\<close>: the connection, the error reported as the first one
  if any, and whether the loop goes on.
\<close>

definition pass_to_Read :: "'b conn_env \<Rightarrow> Conn \<Rightarrow> error \<Rightarrow> Conn" where
  "pass_to_Read env c e =
     (if ce_Deliver env (length (cn_decrypted c)) then c\<lparr>cn_decrypted := cn_decrypted c @ [Err e]\<rparr> else c)"

definition stop_errors :: "error set" where
  "stop_errors = {Net ErrContextDeadlineExceeded, Net ErrCanceled, Net ErrEOF, Net ErrNetClosed}"

definition readLoop_turn ::
  "'b conn_env \<Rightarrow> handshakeConfig \<Rightarrow> Conn \<Rightarrow> nat \<Rightarrow> (bytes \<times> addr) res \<Rightarrow> Conn \<times> (error option \<times> bool) res" where
  "readLoop_turn env cfg c k input =
     (case readAndBuffer env cfg c k input of
        (c, Panic) \<Rightarrow> (c, Panic)
      | (c, Ok _) \<Rightarrow> (c, Ok (None, True))
      | (c, Err e) \<Rightarrow>
          (case e of
             ErrAlert level desc \<Rightarrow>
               if \<not> IsFatalOrCloseNotify level desc then
                 ((if cn_handshakeCompletedSuccessfully c then pass_to_Read env c e else c), Ok (None, True))
               else (fst (Conn_close env cfg c False), Ok (Some e, False))
           | _ \<Rightarrow>
               if e \<in> stop_errors then
                 ((if \<not> cn_closed c \<and> e = Net ErrCanceled then fst (Conn_close env cfg c False) else c), Ok (Some e, False))
               else if e = Codec ErrInvalidPacketLength then (c, Ok (None, True))
               else if cn_handshakeCompletedSuccessfully c then (pass_to_Read env c e, Ok (None, True))
               else (c, Ok (Some e, False))))"

definition translateHandshakeCtxError :: "Conn \<Rightarrow> error option \<Rightarrow> error option" where
  "translateHandshakeCtxError c err =
     (case err of
        None \<Rightarrow> None
      | Some e \<Rightarrow> if e = Net ErrCanceled \<and> cn_handshakeCompletedSuccessfully c then None else Some e)"

end
