(* ===== verification/Conn_Sending.thy ===== *)
theory Conn_Sending
  imports Connection
begin

section \<open>What a connection sends\<close>

text \<open>
  Properties of the sending half of \<^verbatim>\<open>conn.go\<close>: the datagrams hold exactly the records, the
  sequence numbers on the wire, and what \<^verbatim>\<open>Write\<close> does in each state of the connection.
\<close>

subsection \<open>Datagrams\<close>

definition small_group :: "nat \<Rightarrow> bytes list \<Rightarrow> bytes list \<Rightarrow> bool" where
  "small_group mtu rs g \<longleftrightarrow> length (concat g) < mtu \<or> concat g \<in> set rs"

lemma compact_loop_groups:
  assumes "g = [] \<or> small_group mtu rs g" "set rawPackets \<subseteq> set rs" "g \<noteq> [] \<or> rawPackets \<noteq> []"
  shows "\<exists>gs. compactRawPackets_loop mtu rawPackets combined (concat g) = combined @ map concat gs
    \<and> concat gs = g @ rawPackets \<and> (\<forall>x \<in> set gs. small_group mtu rs x)"
  using assms
proof (induction rawPackets arbitrary: combined g)
  case Nil
  then show ?case by (intro exI [of _ "[g]"]) auto
next
  case (Cons r rawPackets)
  show ?case
  proof (cases "length (concat g) > 0 \<and> length (concat g) + length r \<ge> mtu")
    case True
    have "small_group mtu rs [r]" using Cons.prems(2) by (simp add: small_group_def)
    with Cons.IH [of "[r]" "combined @ [concat g]"] Cons.prems(2)
    obtain gs where "compactRawPackets_loop mtu rawPackets (combined @ [concat g]) (concat [r]) = (combined @ [concat g]) @ map concat gs"
      "concat gs = [r] @ rawPackets" "\<forall>x \<in> set gs. small_group mtu rs x" by auto
    then show ?thesis
      using True Cons.prems(1) by (intro exI [of _ "g # gs"]) auto
  next
    case False
    have "small_group mtu rs (g @ [r])"
      using False Cons.prems(2) by (cases "concat g = []") (auto simp: small_group_def simp del: concat_eq_Nil_conv)
    with Cons.IH [of "g @ [r]" combined] Cons.prems(2)
    obtain gs where "compactRawPackets_loop mtu rawPackets combined (concat (g @ [r])) = combined @ map concat gs"
      "concat gs = (g @ [r]) @ rawPackets" "\<forall>x \<in> set gs. small_group mtu rs x" by auto
    then show ?thesis using False by (intro exI [of _ gs]) auto
  qed
qed

lemma compact_groups:
  assumes "rawPackets \<noteq> []"
  shows "\<exists>gs. compactRawPackets mtu rawPackets = map concat gs \<and> concat gs = rawPackets
    \<and> (\<forall>x \<in> set gs. small_group mtu rawPackets x)"
proof (cases "length rawPackets = 1")
  case True
  then obtain r where "rawPackets = [r]" by (auto simp: length_Suc_conv)
  then show ?thesis by (intro exI [of _ "[[r]]"]) (simp add: compactRawPackets_def small_group_def)
next
  case False
  then show ?thesis
    using compact_loop_groups [of "[]" mtu rawPackets rawPackets "[]"] assms by (simp add: compactRawPackets_def)
qed

lemma sublist_datagram:
  assumes "\<forall>r \<in> set g. is_record n r \<and> hdr_len n r < length r"
  shows "is_datagram n g"
  using assms by (auto simp: is_datagram_def list_all_iff)

text \<open>
  C22. Packing records into datagrams loses and reorders nothing and respects the MTU: the peer
  splits the datagrams into exactly the records that were packed, in order, for records with a
  content; and every datagram is shorter than the MTU unless it is one record alone.
\<close>

theorem datagrams_carry_records:
  assumes "rawPackets \<noteq> []" "\<forall>r \<in> set rawPackets. is_record cidLength r \<and> hdr_len cidLength r < length r"
  shows "\<exists>groups. map (\<lambda>d. ContentAwareUnpackDatagram d cidLength) (compactRawPackets mtu rawPackets) = map Ok groups
    \<and> concat groups = rawPackets
    \<and> (\<forall>d \<in> set (compactRawPackets mtu rawPackets). length d < mtu \<or> d \<in> set rawPackets)"
proof -
  obtain gs where gs: "compactRawPackets mtu rawPackets = map concat gs" "concat gs = rawPackets"
    "\<forall>x \<in> set gs. small_group mtu rawPackets x"
    using compact_groups [OF assms(1)] by blast
  have "ContentAwareUnpackDatagram (concat g) cidLength = Ok g" if "g \<in> set gs" for g
    using that gs(2) assms(2) sublist_datagram [of g cidLength] by (auto simp: unpack_iff)
  then show ?thesis using gs by (intro exI [of _ gs]) (auto simp: small_group_def)
qed

theorem datagrams_carry_records_witness:
  "\<exists>groups. map (\<lambda>d. ContentAwareUnpackDatagram d 0) (compactRawPackets 40 [ex_app_raw @ [1, 2, 3], ex_app_raw @ [4, 5, 6]])
     = map Ok groups \<and> concat groups = [ex_app_raw @ [1, 2, 3], ex_app_raw @ [4, 5, 6]]"
proof -
  have a: "is_record 0 (ex_app_raw @ x) \<and> hdr_len 0 (ex_app_raw @ x) < length (ex_app_raw @ x)" if "length x = 3" for x
    using marshalled_is_record [OF ex_app(1,2), of x] that
    by (simp add: ex_app_Header_def) (simp add: hdr_len_def ex_app_raw_def)
  have "\<forall>r \<in> set [ex_app_raw @ [1, 2, 3], ex_app_raw @ [4, 5, 6]]. is_record 0 r \<and> hdr_len 0 r < length r"
    using a [of "[1, 2, 3]"] a [of "[4, 5, 6]"] by simp
  from datagrams_carry_records [OF _ this, of 40] show ?thesis by blast
qed

subsection \<open>Header fields on the wire\<close>

definition wire_epoch :: "bytes \<Rightarrow> uint16" where
  "wire_epoch d = get_uint16 (drop 3 d)"

definition wire_seq :: "bytes \<Rightarrow> uint64" where
  "wire_seq d = get_uint64 ([0, 0] @ take 6 (drop 5 d))"

lemma wire_take:
  assumes "take 11 a = take 11 b"
  shows "wire_seq a = wire_seq b" "wire_epoch a = wire_epoch b"
proof -
  have "take 6 (drop 5 a) = take 6 (drop 5 b)" "take 2 (drop 3 a) = take 2 (drop 3 b)"
    using arg_cong [OF assms, of "drop 5"] arg_cong [OF assms, of "\<lambda>x. take 2 (drop 3 x)"]
    by (simp_all add: drop_take)
  then show "wire_seq a = wire_seq b" "wire_epoch a = wire_epoch b"
    by (simp_all add: wire_seq_def wire_epoch_def get_uint16_def)
qed

lemma wire_header:
  assumes "rl_Header_Marshal h = Ok raw"
  shows "wire_seq (raw @ x) = rl_SequenceNumber h" "wire_epoch (raw @ x) = rl_Epoch h"
    "rl_SequenceNumber h \<le> MaxSequenceNumber"
proof -
  have s: "rl_SequenceNumber h \<le> MaxSequenceNumber"
    and r: "raw = [rl_ContentType h, v_Major (rl_Version h), v_Minor (rl_Version h)]
      @ put_uint16 (rl_Epoch h) @ PutBigEndianUint48 (rl_SequenceNumber h)
      @ rl_ConnectionID h @ put_uint16 (rl_ContentLen h)"
    using assms by (auto simp: rl_Header_Marshal_def split: if_splits)
  show "rl_SequenceNumber h \<le> MaxSequenceNumber" by (rule s)
  show "wire_seq (raw @ x) = rl_SequenceNumber h" "wire_epoch (raw @ x) = rl_Epoch h"
    using seq48 [OF s] by (simp_all add: wire_seq_def wire_epoch_def r)
qed

lemma set_length_take:
  "set_length n raw = Ok enc \<Longrightarrow> take (n - 2) enc = take (n - 2) raw"
  by (auto simp: set_length_def put_at_def split: if_splits)

lemma suite_Encrypt_header:
  assumes "suite_Encrypt senv cb cs h raw rnd = Ok enc" "cs_cipher cs \<noteq> Some CipherCustom"
  shows "take (rl_Header_Size h - 2) enc = take (rl_Header_Size h - 2) raw"
proof -
  obtain body where "rl_Header_Size h \<le> length raw"
    "set_length (rl_Header_Size h) (take (rl_Header_Size h) raw @ body) = Ok enc"
    using assms
    by (auto simp: suite_Encrypt_def CCM_Encrypt_def GCM_Encrypt_def AEAD_Encrypt_def CBC_Encrypt_def Let_def
        slice_from_def split: option.splits suite_cipher.splits if_splits)
  from set_length_take [OF this(2)] this(1) show ?thesis by simp
qed

lemma suite_Encrypt_wire:
  assumes "suite_Encrypt senv cb cs h raw rnd = Ok enc" "cs_cipher cs \<noteq> Some CipherCustom"
  shows "wire_seq enc = wire_seq raw" "wire_epoch enc = wire_epoch raw"
proof -
  have "11 \<le> rl_Header_Size h - 2" by (simp add: rl_Header_Size_def)
  then have "take 11 enc = take 11 raw"
    using arg_cong [OF suite_Encrypt_header [OF assms], of "take 11"] by (simp add: min_def)
  then show "wire_seq enc = wire_seq raw" "wire_epoch enc = wire_epoch raw" by (rule wire_take)+
qed

lemma encrypt_raw_wire:
  assumes "encrypt_raw env c p raw = (c', Ok enc)"
    and "\<And>cs. st_cipherSuite (cn_state c) = Some cs \<Longrightarrow> cs_cipher cs \<noteq> Some CipherCustom"
  shows "wire_seq enc = wire_seq raw" "wire_epoch enc = wire_epoch raw" "cn_state c' = cn_state c"
  using assms suite_Encrypt_wire by (auto simp: encrypt_raw_def split: if_splits option.splits)

subsection \<open>Sequence numbers\<close>

definition seq_counter :: "Conn \<Rightarrow> uint16 \<Rightarrow> uint64" where
  "seq_counter c epoch = (grow (st_localSequenceNumber (cn_state c)) (unat epoch) 0) ! unat epoch"

lemma next_seq_counter:
  assumes "next_seq epoch c = (seq, c')"
  shows "seq = seq_counter c epoch" "seq_counter c' epoch = seq_counter c epoch + 1"
    "st_cipherSuite (cn_state c') = st_cipherSuite (cn_state c)"
    "st_remoteConnectionID (cn_state c') = st_remoteConnectionID (cn_state c)"
    "e \<noteq> epoch \<Longrightarrow> seq_counter c' e = seq_counter c e"
proof -
  have u: "unat e = unat epoch \<longleftrightarrow> e = epoch" for e :: uint16 by (simp add: word_unat_eq_iff)
  show "seq = seq_counter c epoch" "seq_counter c' epoch = seq_counter c epoch + 1"
    "st_cipherSuite (cn_state c') = st_cipherSuite (cn_state c)"
    "st_remoteConnectionID (cn_state c') = st_remoteConnectionID (cn_state c)"
    using assms by (auto simp: next_seq_def seq_counter_def Let_def)
  show "e \<noteq> epoch \<Longrightarrow> seq_counter c' e = seq_counter c e"
    using assms u [of e] by (auto simp: next_seq_def seq_counter_def Let_def grow_nth nth_list_update)
qed

lemma seq_counter_state: "cn_state c = cn_state c' \<Longrightarrow> seq_counter c e = seq_counter c' e"
  by (simp add: seq_counter_def)

lemma fragment_raw_wire:
  assumes "fragment_raw env c p seq frag = Ok (raw, hdr)"
  shows "wire_seq raw = (if pk_shouldWrapCID p then rl_SequenceNumber (rec_Header (pk_record p)) else seq)"
    "wire_epoch raw = rl_Epoch (rec_Header (pk_record p))" "rl_Epoch hdr = rl_Epoch (rec_Header (pk_record p))"
    "pk_shouldWrapCID p \<Longrightarrow> rl_SequenceNumber hdr = rl_SequenceNumber (rec_Header (pk_record p))"
  using assms wire_header
  by (auto simp: fragment_raw_def Let_def cid_record_header_def split: if_splits)

lemma unat_next_seq: "seq \<le> MaxSequenceNumber \<Longrightarrow> unat (seq + 1) = unat seq + 1 \<and> unat seq < 2 ^ 48"
  for seq :: uint64
proof -
  assume "seq \<le> MaxSequenceNumber"
  then have "unat seq < 2 ^ 48" by (simp add: word_le_nat_alt)
  then show ?thesis by (simp add: unat_word_ariths)
qed

lemma upt_Cons_Suc: "[m..<m + Suc n] = m # [Suc m..<Suc m + n]"
  by (simp add: upt_conv_Cons del: upt_Suc)

lemma fragment_numbers:
  assumes "processHandshakePacket_loop env epoch c p frags raws0 = (c', p', Ok raws)"
    and "epoch = rl_Epoch (rec_Header (pk_record p))"
    and "\<And>cs. st_cipherSuite (cn_state c) = Some cs \<Longrightarrow> cs_cipher cs \<noteq> Some CipherCustom"
  shows "\<exists>new. raws = raws0 @ new \<and> length new = length frags \<and> (\<forall>d \<in> set new. wire_epoch d = epoch) \<and>
    map (\<lambda>d. unat (wire_seq d)) new =
      (if pk_shouldWrapCID p then replicate (length frags) (unat (rl_SequenceNumber (rec_Header (pk_record p))))
       else [unat (seq_counter c epoch)..<unat (seq_counter c epoch) + length frags]) \<and>
    unat (seq_counter c' epoch) = unat (seq_counter c epoch) + length frags \<and>
    (frags \<noteq> [] \<longrightarrow> unat (seq_counter c' epoch) \<le> 2 ^ 48)"
  using assms
proof (induction frags arbitrary: c p raws0)
  case (Cons f frags)
  obtain seq c1 where n: "next_seq epoch c = (seq, c1)" by fastforce
  note nc = next_seq_counter [OF n]
  from Cons.prems(1) n obtain raw hdr where le: "seq \<le> MaxSequenceNumber"
    and fr: "fragment_raw env c1 p seq f = Ok (raw, hdr)"
    by (auto simp: not_less split: if_splits res.splits prod.splits)
  define p1 where "p1 = p\<lparr>pk_record := (pk_record p)\<lparr>rec_Header := hdr\<rparr>\<rparr>"
  from Cons.prems(1) n le fr obtain enc c2 where en: "encrypt_raw env c1 p1 raw = (c2, Ok enc)"
    and rest: "processHandshakePacket_loop env epoch c2 p1 frags (raws0 @ [enc]) = (c', p', Ok raws)"
    by (auto simp: p1_def Let_def split: if_splits res.splits prod.splits)
  have c1: "cs_cipher cs \<noteq> Some CipherCustom" if "st_cipherSuite (cn_state c1) = Some cs" for cs
    using that nc Cons.prems(3) by simp
  have w: "wire_seq enc = wire_seq raw" "wire_epoch enc = wire_epoch raw" "cn_state c2 = cn_state c1"
    using encrypt_raw_wire [OF en c1] by blast+
  note fw = fragment_raw_wire [OF fr]
  have p1: "epoch = rl_Epoch (rec_Header (pk_record p1))" "pk_shouldWrapCID p1 = pk_shouldWrapCID p"
    "pk_shouldWrapCID p \<Longrightarrow> rl_SequenceNumber (rec_Header (pk_record p1)) = rl_SequenceNumber (rec_Header (pk_record p))"
    using Cons.prems(2) fw(3,4) by (auto simp: p1_def)
  have c2: "cs_cipher cs \<noteq> Some CipherCustom" if "st_cipherSuite (cn_state c2) = Some cs" for cs
    using that w(3) c1 by simp
  have k: "unat (seq_counter c2 epoch) = Suc (unat (seq_counter c epoch))" "unat (seq_counter c epoch) < 2 ^ 48"
    using unat_next_seq [OF le] nc(1,2) seq_counter_state [OF w(3), of epoch] by auto
  from Cons.IH [OF rest p1(1) c2] obtain new where new: "raws = (raws0 @ [enc]) @ new" "length new = length frags"
    "\<forall>d \<in> set new. wire_epoch d = epoch"
    "map (\<lambda>d. unat (wire_seq d)) new =
      (if pk_shouldWrapCID p1 then replicate (length frags) (unat (rl_SequenceNumber (rec_Header (pk_record p1))))
       else [unat (seq_counter c2 epoch)..<unat (seq_counter c2 epoch) + length frags])"
    "unat (seq_counter c' epoch) = unat (seq_counter c2 epoch) + length frags"
    "frags \<noteq> [] \<longrightarrow> unat (seq_counter c' epoch) \<le> 2 ^ 48" by blast
  show ?case
  proof (intro exI [of _ "enc # new"] conjI)
    show "map (\<lambda>d. unat (wire_seq d)) (enc # new) =
      (if pk_shouldWrapCID p then replicate (length (f # frags)) (unat (rl_SequenceNumber (rec_Header (pk_record p))))
       else [unat (seq_counter c epoch)..<unat (seq_counter c epoch) + length (f # frags)])"
      using new(4) p1 fw(1) w(1) nc(1) k(1) upt_Cons_Suc [of "unat (seq_counter c epoch)" "length frags"] by auto
    show "f # frags \<noteq> [] \<longrightarrow> unat (seq_counter c' epoch) \<le> 2 ^ 48" using new(5,6) k by (cases frags) auto
  qed (use new k w(2) fw(2) Cons.prems(2) in auto)
qed auto

text \<open>
  C35. The sequence numbers of a handshake message's records. Without connection ID the fragments
  carry consecutive numbers starting at the epoch's counter, so no number is used twice, and none
  exceeds 48 bits; the counter advances by the number of fragments. With a connection ID all the
  fragments carry one and the same number, the one the packet's header had before, although the
  counter advances in the same way.
\<close>

theorem handshake_record_numbers:
  assumes "processHandshakePacket env c p h = (c', p', Ok raws)"
    and "\<And>cs. st_cipherSuite (cn_state c) = Some cs \<Longrightarrow> cs_cipher cs \<noteq> Some CipherCustom"
  shows "(\<forall>d \<in> set raws. wire_epoch d = rl_Epoch (rec_Header (pk_record p))) \<and>
    map (\<lambda>d. unat (wire_seq d)) raws =
      (if pk_shouldWrapCID p then replicate (length raws) (unat (rl_SequenceNumber (rec_Header (pk_record p))))
       else [unat (seq_counter c (rl_Epoch (rec_Header (pk_record p))))
             ..<unat (seq_counter c (rl_Epoch (rec_Header (pk_record p)))) + length raws]) \<and>
    unat (seq_counter c' (rl_Epoch (rec_Header (pk_record p)))) =
      unat (seq_counter c (rl_Epoch (rec_Header (pk_record p)))) + length raws \<and>
    (raws \<noteq> [] \<longrightarrow> unat (seq_counter c' (rl_Epoch (rec_Header (pk_record p)))) \<le> 2 ^ 48)"
proof -
  let ?e = "rl_Epoch (rec_Header (pk_record p))"
  let ?c = "upd_state (\<lambda>s. s\<lparr>st_localSequenceNumber := grow (st_localSequenceNumber s) (unat ?e) 0\<rparr>) c"
  obtain frags where l: "processHandshakePacket_loop env ?e ?c p frags [] = (c', p', Ok raws)"
    using assms(1) by (auto simp: processHandshakePacket_def Let_def split: res.splits)
  have "seq_counter ?c ?e = seq_counter c ?e" by (simp add: seq_counter_def)
  moreover have "cs_cipher cs \<noteq> Some CipherCustom" if "st_cipherSuite (cn_state ?c) = Some cs" for cs
    using assms(2) that by simp
  ultimately show ?thesis using fragment_numbers [OF l refl] by (metis append_Nil length_0_conv)
qed

lemma suite_Init_cipher:
  assumes "suite_Init env ms cr sr c s = (s', Ok ())" "cs_kind s \<noteq> KindCustom"
  shows "cs_cipher s' \<noteq> Some CipherCustom" "cs_cipher s' \<noteq> None" "cs_cipher s' \<noteq> Some NilCipher"
  using assms
  by (auto simp: suite_Init_def AesCcm_Init_def Gcm_init_def Cbc_Init_def store_cipher_def
      split: suite_kind.splits res.splits)

lemma ex_State_suite_cipher: "cs_cipher ex_State_suite \<noteq> Some CipherCustom" "suite_IsInitialized ex_State_suite"
  using ex_State_suite(1) suite_Init_cipher
  by (auto simp: suite_of_state_def suite_defs suite_IsInitialized_def)

definition ex_Conn :: Conn where
  "ex_Conn = \<lparr>cn_fragmentBuffer = newFragmentBuffer, cn_handshakeCache = newHandshakeCache, cn_decrypted = [],
     cn_rAddr = [49], cn_state = ex_State\<lparr>st_cipherSuite := Some ex_State_suite\<rparr>, cn_maximumTransmissionUnit = 2,
     cn_paddingLengthGenerator = (\<lambda>_. 0), cn_handshakeCompletedSuccessfully = True, cn_encryptedPackets = [],
     cn_connectionClosedByUser = False, cn_closed = False, cn_replayProtectionWindow = 64, cn_buffers = [],
     cn_sent = [], cn_nextConnClosed = False, cn_draws = 0, cn_storeLog = []\<rparr>"

definition ex_conn_env :: "bytes res conn_env" where
  "ex_conn_env = \<lparr>ce_cb = std_cryptobyte, ce_suites = ex_env, ce_x509 = ex_x509_env, ce_nonce = (\<lambda>k n. replicate n 9),
     ce_WriteTo = (\<lambda>_. Ok ()), ce_Close = Ok (), ce_Check = (\<lambda>w acc n. n \<notin> set acc), ce_Latest = (\<lambda>w acc n. \<forall>a \<in> set acc. a < n),
     ce_Deliver = (\<lambda>_. True)\<rparr>"

definition ex_packet :: packet where
  "ex_packet = \<lparr>pk_record = \<lparr>rec_Header = plain_header 1, rec_Content = HandshakeC ex_handshake\<rparr>, pk_shouldEncrypt = False,
     pk_shouldWrapCID = True, pk_resetLocalSequenceNumber = False\<rparr>"

theorem handshake_record_numbers_witness:
  "\<exists>c' p' raws. processHandshakePacket ex_conn_env ex_Conn ex_packet ex_handshake = (c', p', Ok raws) \<and> length raws = 2
    \<and> map (\<lambda>d. unat (wire_seq d)) raws = [0, 0] \<and> unat (seq_counter c' 1) = 11"
proof -
  obtain c' p' raws where r: "processHandshakePacket ex_conn_env ex_Conn ex_packet ex_handshake = (c', p', Ok raws)"
    "length raws = 2"
    using ex_fragments
    by (simp add: processHandshakePacket_def ex_conn_env_def ex_Conn_def ex_packet_def Let_def next_seq_def
        fragment_raw_def std_cb_simps InnerPlaintext_Marshal_def cid_record_header_def plain_header_def zero_rl_Header_def
        rl_Header_Marshal_def encrypt_raw_def)
  have "cs_cipher cs \<noteq> Some CipherCustom" if "st_cipherSuite (cn_state ex_Conn) = Some cs" for cs
    using that ex_State_suite_cipher(1) by (simp add: ex_Conn_def)
  note numbers = handshake_record_numbers [OF r(1) this]
  have two: "replicate 2 (0 :: nat) = [0, 0]" by (simp add: numeral_2_eq_2)
  from numbers r two show ?thesis
    by (simp add: ex_packet_def plain_header_def zero_rl_Header_def seq_counter_def ex_Conn_def)
qed

end
