(* ===== verification/Conn_Receiving.thy ===== *)
theory Conn_Receiving
  imports Conn_Sending
begin

section \<open>What the connection accepts\<close>

text \<open>
  Lemmas on the receiving half of \<^verbatim>\<open>conn.go\<close>: sending leaves it alone (\<open>writePackets_frame\<close>), a
  record is either passed on by the checks (\<open>handleIncomingPacket_passes\<close>) or changes nothing but the
  queue (\<open>handleIncomingPacket_rejects\<close>), and what reaches \<^verbatim>\<open>Read\<close> was decrypted and counted
  (\<open>handleIncomingPacket_delivers\<close>). The locale \<open>conn_preorder\<close> extends a relation between a
  connection and its later states from single records to all operations; \<open>progress\<close>, which
  keeps the invariant and the accepted numbers, is an instance.
\<close>

subsection \<open>Sending leaves the receiving side alone\<close>

text \<open>The connection without what sending changes.\<close>

definition receiver :: "Conn \<Rightarrow> Conn" where
  "receiver c = c\<lparr>cn_handshakeCache := newHandshakeCache, cn_sent := [], cn_draws := 0, cn_storeLog := [],
     cn_state := (cn_state c)\<lparr>st_localSequenceNumber := []\<rparr>\<rparr>"

abbreviation same_receiver :: "Conn \<Rightarrow> Conn \<Rightarrow> bool" where
  "same_receiver c c' \<equiv> receiver c' = receiver c"

lemma receiver_updates [simp]:
  "receiver (c\<lparr>cn_handshakeCache := a\<rparr>) = receiver c" "receiver (c\<lparr>cn_sent := s\<rparr>) = receiver c"
  "receiver (c\<lparr>cn_draws := n\<rparr>) = receiver c" "receiver (c\<lparr>cn_storeLog := l\<rparr>) = receiver c"
  "receiver (upd_state (\<lambda>s. s\<lparr>st_localSequenceNumber := x\<rparr>) c) = receiver c"
  by (simp_all add: receiver_def)

lemma same_receiverD:
  assumes "same_receiver c c'"
  shows "cn_fragmentBuffer c' = cn_fragmentBuffer c" "cn_decrypted c' = cn_decrypted c" "cn_rAddr c' = cn_rAddr c"
    "cn_encryptedPackets c' = cn_encryptedPackets c" "cn_closed c' = cn_closed c"
    "cn_handshakeCompletedSuccessfully c' = cn_handshakeCompletedSuccessfully c"
    "cn_connectionClosedByUser c' = cn_connectionClosedByUser c" "cn_nextConnClosed c' = cn_nextConnClosed c"
    "cn_replayProtectionWindow c' = cn_replayProtectionWindow c" "cn_buffers c' = cn_buffers c"
  using arg_cong [OF assms, of cn_fragmentBuffer] arg_cong [OF assms, of cn_decrypted]
    arg_cong [OF assms, of cn_rAddr] arg_cong [OF assms, of cn_encryptedPackets] arg_cong [OF assms, of cn_closed]
    arg_cong [OF assms, of cn_handshakeCompletedSuccessfully] arg_cong [OF assms, of cn_connectionClosedByUser]
    arg_cong [OF assms, of cn_nextConnClosed] arg_cong [OF assms, of cn_replayProtectionWindow]
    arg_cong [OF assms, of cn_buffers]
  by (simp_all add: receiver_def)

lemma same_receiver_stateD:
  assumes "same_receiver c c'"
  shows "st_replayDetector (cn_state c') = st_replayDetector (cn_state c)"
    "st_remoteEpoch (cn_state c') = st_remoteEpoch (cn_state c)"
    "st_localEpoch (cn_state c') = st_localEpoch (cn_state c)"
    "st_cipherSuite (cn_state c') = st_cipherSuite (cn_state c)"
    "st_localConnectionID (cn_state c') = st_localConnectionID (cn_state c)"
    "st_isClient (cn_state c') = st_isClient (cn_state c)"
  using arg_cong [OF assms, of "\<lambda>c. st_replayDetector (cn_state c)"] arg_cong [OF assms, of "\<lambda>c. st_remoteEpoch (cn_state c)"]
    arg_cong [OF assms, of "\<lambda>c. st_localEpoch (cn_state c)"] arg_cong [OF assms, of "\<lambda>c. st_cipherSuite (cn_state c)"]
    arg_cong [OF assms, of "\<lambda>c. st_localConnectionID (cn_state c)"] arg_cong [OF assms, of "\<lambda>c. st_isClient (cn_state c)"]
  by (simp_all add: receiver_def)

lemma next_seq_frame: "next_seq epoch c = (seq, c') \<Longrightarrow> same_receiver c c'"
  by (auto simp: next_seq_def Let_def)

lemma encrypt_raw_frame: "encrypt_raw env c p raw = (c', r) \<Longrightarrow> same_receiver c c'"
  by (auto simp: encrypt_raw_def split: if_splits option.splits)

lemma processPacket_frame: "processPacket env c p = (c', p', r) \<Longrightarrow> same_receiver c c'"
  by (auto simp: processPacket_def Let_def split: prod.splits if_splits res.splits
      dest!: next_seq_frame encrypt_raw_frame)

lemma processHandshakePacket_loop_frame:
  "processHandshakePacket_loop env epoch c p frags raws = (c', p', r) \<Longrightarrow> same_receiver c c'"
proof (induction env epoch c p frags raws rule: processHandshakePacket_loop.induct)
  case (2 env epoch c p frag frags raws)
  obtain seq c1 where n: "next_seq epoch c = (seq, c1)" by fastforce
  note f = next_seq_frame [OF n]
  show ?case
  proof (cases "fragment_raw env c1 p seq frag")
    case (Ok x)
    obtain raw hdr where x: "x = (raw, hdr)" by fastforce
    let ?p = "p\<lparr>pk_record := (pk_record p)\<lparr>rec_Header := hdr\<rparr>\<rparr>"
    obtain c2 r2 where e: "encrypt_raw env c1 ?p raw = (c2, r2)" by fastforce
    have "same_receiver c c2" using f encrypt_raw_frame [OF e] by simp
    then show ?thesis
      using 2 n Ok x e f by (cases r2) (auto simp: Let_def split: if_splits)
  qed (use 2 n f in \<open>auto split: if_splits\<close>)
qed simp

lemma processHandshakePacket_frame:
  assumes "processHandshakePacket env c p h = (c', p', r)"
  shows "same_receiver c c'"
  using assms
  by (auto simp: processHandshakePacket_def Let_def split: res.splits
        dest!: processHandshakePacket_loop_frame)

lemma write_packet_frame:
  assumes "write_packet env c p = (c', p', r)"
  shows "same_receiver c c'"
  using assms
  by (auto simp: write_packet_def Let_def split: Content.splits res.splits prod.splits
        dest!: processHandshakePacket_frame processPacket_frame)

lemma write_packets_loop_frame:
  "write_packets_loop env c pkts raws = (c', pkts', r) \<Longrightarrow> same_receiver c c'"
  by (induction env c pkts raws arbitrary: c' pkts' r rule: write_packets_loop.induct)
    (auto split: prod.splits res.splits dest!: write_packet_frame)

lemma send_datagrams_frame: "send_datagrams env c ds = (c', r) \<Longrightarrow> same_receiver c c'"
proof (induction env c ds rule: send_datagrams.induct)
  case (2 env c d ds)
  then show ?case by (auto simp: Let_def split: res.splits)
qed simp

lemma writePackets_frame: "writePackets env c pkts = (c', pkts', r) \<Longrightarrow> same_receiver c c'"
  by (auto simp: writePackets_def Let_def split: prod.splits res.splits if_splits
      dest!: write_packets_loop_frame send_datagrams_frame)

lemma notify_frame:
  assumes "notify env cfg c level desc = (c', r)"
  shows "same_receiver c c'"
  using assms
  by (auto simp: notify_def Let_def split: prod.splits res.splits if_splits option.splits
        dest!: writePackets_frame)

lemma Conn_Write_frame: "Conn_Write env c dl p = (c', n, r) \<Longrightarrow> same_receiver c c'"
  by (auto simp: Conn_Write_def split: prod.splits if_splits dest!: writePackets_frame)


subsection \<open>Records that pass the checks\<close>

definition incoming_header :: "Conn \<Rightarrow> bytes \<Rightarrow> rl_Header res" where
  "incoming_header c buf = rl_Header_Unmarshal (cid_Header (length (opt_bytes (st_localConnectionID (cn_state c))))) buf"

definition passes :: "'b conn_env \<Rightarrow> Conn \<Rightarrow> bytes \<Rightarrow> rl_Header \<Rightarrow> bytes \<Rightarrow> bool \<Rightarrow> bool" where
  "passes env c buf h plain cid \<longleftrightarrow>
     incoming_header c buf = Ok h \<and> rl_Epoch h \<le> st_remoteEpoch (cn_state c) \<and>
     replay_check env (grow_detectors (rl_Epoch h) c) h \<and>
     (if rl_Epoch h = 0 then plain = buf \<and> \<not> cid
      else \<exists>cs. suite_ready c = Some cs \<and> decrypt_record env c cs h buf = Ok (Some (plain, cid)))"

lemma grow_detectors_frame [simp]:
  "suite_ready (grow_detectors e c) = suite_ready c"
  "decrypt_record env (grow_detectors e c) cs h buf = decrypt_record env c cs h buf"
  "cn_decrypted (grow_detectors e c) = cn_decrypted c" "cn_encryptedPackets (grow_detectors e c) = cn_encryptedPackets c"
  "cn_fragmentBuffer (grow_detectors e c) = cn_fragmentBuffer c" "cn_handshakeCache (grow_detectors e c) = cn_handshakeCache c"
  "cn_rAddr (grow_detectors e c) = cn_rAddr c" "cn_sent (grow_detectors e c) = cn_sent c"
  "cn_buffers (grow_detectors e c) = cn_buffers c" "cn_replayProtectionWindow (grow_detectors e c) = cn_replayProtectionWindow c"
  "st_remoteEpoch (cn_state (grow_detectors e c)) = st_remoteEpoch (cn_state c)"
  "st_localConnectionID (cn_state (grow_detectors e c)) = st_localConnectionID (cn_state c)"
  "st_isClient (cn_state (grow_detectors e c)) = st_isClient (cn_state c)"
  "st_replayDetector (cn_state (grow_detectors e c)) = grow (st_replayDetector (cn_state c)) (unat e) []"
  by (simp_all add: grow_detectors_def suite_ready_def decrypt_record_def)

lemma decrypt_record_no_Err: "decrypt_record env c cs h buf \<noteq> Err e"
  by (auto simp: decrypt_record_def Let_def slice_from_def split: res.splits option.splits if_splits)

lemma passes_unique:
  "passes env c buf h plain cid \<Longrightarrow> passes env c buf h' plain' cid' \<Longrightarrow> h' = h \<and> plain' = plain \<and> cid' = cid"
  by (auto simp: passes_def split: if_splits)

text \<open>A record that passes the checks goes to \<open>handle_plain\<close>; any other one leaves at most an entry in the queue.\<close>

definition only_queued :: "bool \<Rightarrow> addrPkt \<Rightarrow> Conn \<Rightarrow> Conn \<Rightarrow> bool" where
  "only_queued enqueue pkt c c' \<longleftrightarrow>
     (\<exists>d. (d = c \<or> (\<exists>e. d = grow_detectors e c)) \<and> (c' = d \<or> (enqueue \<and> c' = fst (enqueueEncryptedPackets d pkt))))"

lemma handleIncomingPacket_passes:
  assumes "passes env c buf h plain cid"
  shows "handleIncomingPacket env c buf pkt enqueue = handle_plain env (grow_detectors (rl_Epoch h) c) h pkt enqueue cid plain"
  using assms by (auto simp: passes_def handleIncomingPacket_def incoming_header_def Let_def split: if_splits)

lemma handleIncomingPacket_rejects:
  assumes "\<nexists>h plain cid. passes env c buf h plain cid" "handleIncomingPacket env c buf pkt enqueue = (c', r)"
  shows "r \<in> {discard, Panic} \<and> only_queued enqueue pkt c c'"
proof (cases "incoming_header c buf")
  case (Ok h)
  let ?d = "grow_detectors (rl_Epoch h) c"
  consider "rl_Epoch h > st_remoteEpoch (cn_state c)" | "rl_Epoch h \<le> st_remoteEpoch (cn_state c)" "\<not> replay_check env ?d h"
    | "rl_Epoch h \<le> st_remoteEpoch (cn_state c)" "replay_check env ?d h" "rl_Epoch h \<noteq> 0"
    using assms(1) Ok by (fastforce simp: passes_def not_le)
  then show ?thesis
  proof cases
    case 1
    then show ?thesis using assms(2) Ok
      by (auto simp: handleIncomingPacket_def incoming_header_def only_queued_def Let_def split: if_splits)
  next
    case 2
    then show ?thesis using assms(2) Ok
      by (auto simp: handleIncomingPacket_def incoming_header_def only_queued_def Let_def split: if_splits)
  next
    case 3
    then have "suite_ready c = None \<or> (\<exists>cs. suite_ready c = Some cs \<and> decrypt_record env c cs h buf \<in> {Panic, Ok None})"
      using assms(1) Ok decrypt_record_no_Err [of env c _ h buf]
      by (cases "suite_ready c"; simp add: passes_def) (metis not_None_eq prod.exhaust res.exhaust)
    then show ?thesis using assms(2) Ok 3
      by (auto simp: handleIncomingPacket_def incoming_header_def only_queued_def Let_def split: if_splits)
  qed
qed (use assms(2) in \<open>auto simp: handleIncomingPacket_def incoming_header_def only_queued_def\<close>)


subsection \<open>The numbers accepted so far\<close>

definition accepted :: "Conn \<Rightarrow> uint16 \<Rightarrow> uint64 list" where
  "accepted c e =
     (let ds = st_replayDetector (cn_state c) in if unat e < length ds then ds ! unat e else [])"

lemma accepted_state: "st_replayDetector (cn_state c') = st_replayDetector (cn_state c) \<Longrightarrow> accepted c' e = accepted c e"
  by (simp add: accepted_def)

lemma accepted_grow [simp]: "accepted (grow_detectors e' c) e = accepted c e"
  by (auto simp: accepted_def Let_def grow_nth)

lemma accepted_detector:
  "replay_check env (grow_detectors (rl_Epoch h) c) h \<longleftrightarrow>
   ce_Check env (cn_replayProtectionWindow c) (accepted c (rl_Epoch h)) (rl_SequenceNumber h)"
  by (simp add: replay_check_def accepted_def grow_nth)

lemma mark_valid_accepted:
  assumes "mark_valid env c h = (c', l)" "unat (rl_Epoch h) < length (st_replayDetector (cn_state c))"
  shows "accepted c' e = accepted c e @ (if e = rl_Epoch h then [rl_SequenceNumber h] else [])"
  using assms by (auto simp: mark_valid_def accepted_def Let_def nth_list_update word_unat_eq_iff)

lemma mark_valid_frame:
  assumes "mark_valid env c h = (c', l)"
  shows "cn_decrypted c' = cn_decrypted c" "cn_encryptedPackets c' = cn_encryptedPackets c"
    "cn_fragmentBuffer c' = cn_fragmentBuffer c" "cn_replayProtectionWindow c' = cn_replayProtectionWindow c"
    "cn_closed c' = cn_closed c" "cn_handshakeCache c' = cn_handshakeCache c" "cn_rAddr c' = cn_rAddr c"
    "cn_sent c' = cn_sent c" "st_remoteEpoch (cn_state c') = st_remoteEpoch (cn_state c)"
    "l = ce_Latest env (cn_replayProtectionWindow c) (st_replayDetector (cn_state c) ! unat (rl_Epoch h)) (rl_SequenceNumber h)"
    "st_localConnectionID (cn_state c') = st_localConnectionID (cn_state c)"
    "st_cipherSuite (cn_state c') = st_cipherSuite (cn_state c)"
    "cn_connectionClosedByUser c' = cn_connectionClosedByUser c"
  using assms by (auto simp: mark_valid_def Let_def)

text \<open>How a step of the receiving side moves on: values and accepted numbers are only added, the invariant is kept.\<close>

definition conn_inv :: "Conn \<Rightarrow> bool" where
  "conn_inv c \<longleftrightarrow> length (cn_encryptedPackets c) \<le> maxAppDataPacketQueueSize \<and> fb_inv (cn_fragmentBuffer c)"

definition progress :: "Conn \<Rightarrow> Conn \<Rightarrow> bool" where
  "progress c c' \<longleftrightarrow> (\<forall>e. \<exists>ns. accepted c' e = accepted c e @ ns) \<and> (\<exists>vs. cn_decrypted c' = cn_decrypted c @ vs) \<and>
     (conn_inv c \<longrightarrow> conn_inv c') \<and> cn_replayProtectionWindow c' = cn_replayProtectionWindow c \<and>
     (cn_closed c \<longrightarrow> cn_closed c') \<and> (cn_connectionClosedByUser c \<longrightarrow> cn_connectionClosedByUser c')"

lemma progress_refl [simp]: "progress c c"
  by (simp add: progress_def)

lemma progress_trans [trans]: "progress a b \<Longrightarrow> progress b c \<Longrightarrow> progress a c"
  unfolding progress_def by (intro conjI allI) (metis append_assoc)+

lemma progress_receiver: "same_receiver c c' \<Longrightarrow> progress c c'"
  using same_receiverD [of c' c] same_receiver_stateD [of c' c]
  by (simp add: progress_def conn_inv_def accepted_def)

lemma drain_fragments_inv: "fb_inv f \<Longrightarrow> drain_fragments f cache b = (f', cache') \<Longrightarrow> fb_inv f'"
proof (induction f cache b rule: drain_fragments.induct)
  case (1 f cache b)
  obtain g r where p: "pop f = (g, r)" by fastforce
  then have g: "fb_inv g" using pop_inv "1.prems"(1) by blast
  note d = "1.prems"(2) [unfolded drain_fragments.simps [of f] p]
  show ?case
  proof (cases r)
    case (Some x)
    then show ?thesis using d g "1.IH" [OF p [symmetric] Some] by (cases x) (auto split: res.splits)
  qed (use d g in simp)
qed


lemma update_rAddr_frame [simp]:
  "cn_state (update_rAddr a b r c) = cn_state c" "cn_decrypted (update_rAddr a b r c) = cn_decrypted c"
  "cn_fragmentBuffer (update_rAddr a b r c) = cn_fragmentBuffer c" "cn_closed (update_rAddr a b r c) = cn_closed c"
  "cn_encryptedPackets (update_rAddr a b r c) = cn_encryptedPackets c" "cn_sent (update_rAddr a b r c) = cn_sent c"
  "cn_replayProtectionWindow (update_rAddr a b r c) = cn_replayProtectionWindow c"
  "cn_handshakeCache (update_rAddr a b r c) = cn_handshakeCache c"
  "cn_connectionClosedByUser (update_rAddr a b r c) = cn_connectionClosedByUser c"
  by (simp_all add: update_rAddr_def)

lemma enqueue_frame:
  "accepted (fst (enqueueEncryptedPackets c pkt)) e = accepted c e"
  "cn_decrypted (fst (enqueueEncryptedPackets c pkt)) = cn_decrypted c"
  "cn_fragmentBuffer (fst (enqueueEncryptedPackets c pkt)) = cn_fragmentBuffer c"
  "cn_state (fst (enqueueEncryptedPackets c pkt)) = cn_state c"
  "cn_closed (fst (enqueueEncryptedPackets c pkt)) = cn_closed c"
  "cn_connectionClosedByUser (fst (enqueueEncryptedPackets c pkt)) = cn_connectionClosedByUser c"
  "cn_handshakeCache (fst (enqueueEncryptedPackets c pkt)) = cn_handshakeCache c"
  "cn_rAddr (fst (enqueueEncryptedPackets c pkt)) = cn_rAddr c" "cn_sent (fst (enqueueEncryptedPackets c pkt)) = cn_sent c"
  "cn_replayProtectionWindow (fst (enqueueEncryptedPackets c pkt)) = cn_replayProtectionWindow c"
  by (simp_all add: enqueueEncryptedPackets_def accepted_def)

lemma enqueue_bound:
  "conn_inv c \<Longrightarrow> conn_inv (fst (enqueueEncryptedPackets c pkt))"
  by (simp add: enqueueEncryptedPackets_def conn_inv_def)

lemma progress_enqueue: "progress c (fst (enqueueEncryptedPackets c pkt))"
  by (simp add: progress_def enqueue_frame enqueue_bound)

lemma progress_grow: "progress c (grow_detectors e c)"
  by (simp add: progress_def conn_inv_def) (simp add: grow_detectors_def)

lemma progress_mark:
  assumes "mark_valid env c h = (c', l)" "unat (rl_Epoch h) < length (st_replayDetector (cn_state c))"
  shows "progress c c'"
proof -
  have e: "\<exists>ns. accepted c' e = accepted c e @ ns" for e by (metis mark_valid_accepted [OF assms])
  then show ?thesis using mark_valid_frame [OF assms(1)] by (simp add: progress_def conn_inv_def)
qed

lemma progress_fields:
  assumes "st_replayDetector (cn_state c') = st_replayDetector (cn_state c)" "cn_decrypted c' = cn_decrypted c @ vs"
    "cn_encryptedPackets c' = cn_encryptedPackets c" "fb_inv (cn_fragmentBuffer c) \<Longrightarrow> fb_inv (cn_fragmentBuffer c')"
    "cn_replayProtectionWindow c' = cn_replayProtectionWindow c" "cn_closed c \<Longrightarrow> cn_closed c'"
    "cn_connectionClosedByUser c \<Longrightarrow> cn_connectionClosedByUser c'"
  shows "progress c c'"
  using assms by (auto simp: progress_def conn_inv_def accepted_def Let_def)

lemma handle_content_progress:
  assumes "handle_content env c h pkt q cid content = (c', r)" "unat (rl_Epoch h) < length (st_replayDetector (cn_state c))"
  shows "progress c c'"
proof (cases content)
  case (AlertC a)
  then show ?thesis using assms progress_mark [OF prod.collapse [symmetric] assms(2)] by (auto simp: handle_content_def)
next
  case ChangeCipherSpecC
  let ?c = "setRemoteEpoch (rl_Epoch h + 1) c"
  obtain d l where m: "mark_valid env ?c h = (d, l)" by fastforce
  have p: "progress c ?c" by (rule progress_fields [where vs = "[]"]) (simp_all add: setRemoteEpoch_def)
  have "progress ?c d" using progress_mark [OF m] assms(2) by (simp add: setRemoteEpoch_def)
  moreover have "progress d (update_rAddr cid l (ap_rAddr pkt) d)" by (rule progress_fields [where vs = "[]"]) simp_all
  ultimately have "progress c (update_rAddr cid l (ap_rAddr pkt) d)" using p progress_trans by blast
  then show ?thesis
    using assms(1) ChangeCipherSpecC m progress_enqueue [of c pkt]
    by (auto simp: handle_content_def Let_def split: option.splits if_splits)
next
  case (ApplicationDataC data)
  obtain d l where m: "mark_valid env c h = (d, l)" by fastforce
  have "progress c d" by (rule progress_mark [OF m assms(2)])
  moreover have "progress d (update_rAddr cid l (ap_rAddr pkt) d)" by (rule progress_fields [where vs = "[]"]) simp_all
  moreover have "progress d (update_rAddr cid l (ap_rAddr pkt) (d\<lparr>cn_decrypted := cn_decrypted d @ [Ok data]\<rparr>))"
    by (rule progress_fields [where vs = "[Ok data]"]) simp_all
  ultimately have "progress c (update_rAddr cid l (ap_rAddr pkt) d)"
    "progress c (update_rAddr cid l (ap_rAddr pkt) (d\<lparr>cn_decrypted := cn_decrypted d @ [Ok data]\<rparr>))"
    using progress_trans by blast+
  then show ?thesis
    using assms(1) ApplicationDataC m by (auto simp: handle_content_def Let_def split: if_splits)
qed (use assms(1) in \<open>auto simp: handle_content_def\<close>)

lemma handle_plain_progress:
  assumes "handle_plain env c h pkt q cid buf = (c', r)" "unat (rl_Epoch h) < length (st_replayDetector (cn_state c))"
  shows "progress c c'"
proof -
  obtain f rp where f: "push (cn_fragmentBuffer c) buf = (f, rp)" by fastforce
  let ?c = "c\<lparr>cn_fragmentBuffer := f\<rparr>"
  have pc: "progress c ?c"
    using push_inv [OF _ f] by (intro progress_fields [where vs = "[]"]) auto
  have l: "unat (rl_Epoch h) < length (st_replayDetector (cn_state ?c))" using assms(2) by simp
  obtain d lt where m: "mark_valid env ?c h = (d, lt)" by fastforce
  obtain g cache where g: "drain_fragments (cn_fragmentBuffer d) (cn_handshakeCache d) (st_isClient (cn_state d)) = (g, cache)"
    by fastforce
  have "progress d (d\<lparr>cn_fragmentBuffer := g, cn_handshakeCache := cache\<rparr>)"
    using drain_fragments_inv [OF _ g] by (intro progress_fields [where vs = "[]"]) auto
  then have hs: "progress c (d\<lparr>cn_fragmentBuffer := g, cn_handshakeCache := cache\<rparr>)"
    using pc progress_mark [OF m l] progress_trans by blast
  have "progress c c'" if "handle_content env ?c h pkt q cid content = (c', r)" for content
    using pc handle_content_progress [OF that l] by (rule progress_trans)
  then show ?thesis
    using assms(1) f m g pc hs by (auto simp: handle_plain_def Let_def split: res.splits bool.splits)
qed

lemma handleIncomingPacket_progress:
  assumes "handleIncomingPacket env c buf pkt q = (c', r)"
  shows "progress c c'"
proof (cases "\<exists>h plain cid. passes env c buf h plain cid")
  case True
  then obtain h plain cid where p: "passes env c buf h plain cid" by blast
  have "progress (grow_detectors (rl_Epoch h) c) c'"
    using handle_plain_progress [OF assms [unfolded handleIncomingPacket_passes [OF p]]] by simp
  with progress_grow show ?thesis by (rule progress_trans)
next
  case False
  from handleIncomingPacket_rejects [OF this assms] have "only_queued q pkt c c'" by simp
  then show ?thesis
    using progress_trans [OF progress_grow progress_enqueue] progress_grow progress_enqueue
    by (auto simp: only_queued_def)
qed


subsection \<open>Steps of a connection\<close>

text \<open>
  The operations of a connection in any order: datagrams read, the queue processed, packets of the
  handshake written, application data written, the connection closed.
\<close>

inductive conn_step :: "'b conn_env \<Rightarrow> handshakeConfig \<Rightarrow> Conn \<Rightarrow> Conn \<Rightarrow> bool" for env cfg where
  Step_read: "readAndBuffer env cfg c k input = (c', r) \<Longrightarrow> conn_step env cfg c c'"
| Step_queued: "handleQueuedPackets env cfg c = (c', q) \<Longrightarrow> conn_step env cfg c c'"
| Step_packets: "writePackets env c pkts = (c', pkts', q) \<Longrightarrow> conn_step env cfg c c'"
| Step_Write: "Conn_Write env c dl data = (c', n, q) \<Longrightarrow> conn_step env cfg c c'"
| Step_close: "Conn_close env cfg c byUser = (c', q) \<Longrightarrow> conn_step env cfg c c'"

text \<open>
  A relation between a connection and its later states: it holds for every operation when it is a
  preorder and holds for one record handled, for packets and alerts written, and for the small
  updates the operations make around them.
\<close>

locale conn_preorder =
  fixes R :: "Conn \<Rightarrow> Conn \<Rightarrow> bool" and env :: "'b conn_env"
  assumes R_refl: "R c c"
    and R_trans: "R c c' \<Longrightarrow> R c' d \<Longrightarrow> R c d"
    and R_incoming: "handleIncomingPacket env c buf pkt q = (c', inc) \<Longrightarrow> R c c'"
    and R_packets: "writePackets env c pkts = (c', pkts', u) \<Longrightarrow> R c c'"
    and R_store: "R c (c\<lparr>cn_storeLog := l\<rparr>)"
    and R_queue: "R c (c\<lparr>cn_encryptedPackets := []\<rparr>)"
    and R_read_into: "R c (read_into k data c)"
    and R_closed: "R c (c\<lparr>cn_connectionClosedByUser := cn_connectionClosedByUser c \<or> b, cn_closed := True\<rparr>)"
    and R_nextConn: "R c (c\<lparr>cn_nextConnClosed := True\<rparr>)"
begin

lemma related_notify: "notify env cfg c level desc = (c', r) \<Longrightarrow> R c c'"
  using R_trans [OF R_store R_packets]
  by (auto simp: notify_def Let_def intro: R_refl R_store R_packets split: prod.splits res.splits if_splits option.splits)

lemma related_answer:
  assumes "answer env cfg (handleIncomingPacket env c buf pkt q) = (c', r)"
  shows "R c c'"
proof -
  obtain d inc where h: "handleIncomingPacket env c buf pkt q = (d, inc)" by fastforce
  have "R d c'"
    using assms related_notify R_refl unfolding h
    by (auto simp: answer_def split: res.splits option.splits prod.splits)
  with R_incoming [OF h] show ?thesis by (rule R_trans)
qed

lemma related_queued_loop: "handleQueuedPackets_loop env cfg c pkts = (c', r) \<Longrightarrow> R c c'"
proof (induction pkts arbitrary: c r)
  case (Cons p pkts)
  obtain d a where a: "answer env cfg (handleIncomingPacket env c (slice_bytes c p) p False) = (d, a)" by fastforce
  show ?case
    using Cons a R_trans [OF related_answer [OF a]] related_answer [OF a] by (auto split: res.splits)
qed (simp add: R_refl)

lemma related_queued: "handleQueuedPackets env cfg c = (c', r) \<Longrightarrow> R c c'"
  unfolding handleQueuedPackets_def by (rule R_trans [OF R_queue related_queued_loop])

lemma related_read_loop: "readAndBuffer_loop env cfg c k rAddr off pkts hs = (c', r) \<Longrightarrow> R c c'"
proof (induction pkts arbitrary: c off hs r)
  case (Cons p pkts)
  obtain d a where a: "answer env cfg (handleIncomingPacket env c p
      \<lparr>ap_rAddr = rAddr, ap_buf = k, ap_off = off, ap_len = length p\<rparr> True) = (d, a)" by fastforce
  show ?case
    using Cons a R_trans [OF related_answer [OF a]] related_answer [OF a] by (auto split: res.splits)
qed (simp add: R_refl)

lemma related_read: "readAndBuffer env cfg c k input = (c', r) \<Longrightarrow> R c c'"
  by (auto simp: readAndBuffer_def Let_def intro: R_refl R_read_into R_trans [OF R_read_into related_read_loop]
      split: res.splits)

lemma related_Write: "Conn_Write env c dl data = (c', n, r) \<Longrightarrow> R c c'"
  by (auto simp: Conn_Write_def intro: R_refl R_packets split: if_splits prod.splits)

lemma related_close:
  assumes "Conn_close env cfg c byUser = (c', r)"
  shows "R c c'"
proof -
  obtain d q where d: "(if cn_handshakeCompletedSuccessfully c \<and> byUser
      then notify env cfg c alert_Warning CloseNotify else (c, Ok ())) = (d, q)" by fastforce
  have "R c d" using d related_notify R_refl by (auto split: if_splits)
  moreover have "R d c'"
    using assms d R_refl [of d] R_closed [of d byUser] R_trans [OF R_closed [of d byUser] R_nextConn]
    by (auto simp: Conn_close_def Let_def split: if_splits)
  ultimately show ?thesis by (rule R_trans)
qed

lemma related_step: "conn_step env cfg c c' \<Longrightarrow> R c c'"
  by (induction rule: conn_step.induct)
    (auto intro: related_read related_queued R_packets related_Write related_close)

lemma related_steps: "(conn_step env cfg)\<^sup>*\<^sup>* c c' \<Longrightarrow> R c c'"
  by (induction rule: rtranclp_induct) (auto intro: R_refl R_trans related_step)

end

interpretation progressing: conn_preorder progress env for env :: "'b conn_env"
proof (unfold_locales, goal_cases)
  case (2 c c' d) then show ?case by (rule progress_trans)
next
  case (3 c buf pkt q c' inc) then show ?case by (rule handleIncomingPacket_progress)
next
  case (4 c pkts c' pkts' u) then show ?case by (rule progress_receiver [OF writePackets_frame])
next
  case (6 c) show ?case by (simp add: progress_def conn_inv_def accepted_def)
qed (auto intro!: progress_fields [where vs = "[]"] simp: read_into_def Let_def)

lemmas conn_steps_progress = progressing.related_steps

lemma Conn_close_progress:
  assumes "Conn_close env cfg c byUser = (c', r)"
  shows "progress c c' \<and> (r \<noteq> Panic \<longrightarrow> cn_closed c' \<and> (byUser \<longrightarrow> cn_connectionClosedByUser c'))"
  using progressing.related_close [OF assms] assms
  by (auto simp: Conn_close_def Let_def split: prod.splits if_splits)


subsection \<open>What reaches Read\<close>

lemma RecordLayer_ApplicationData:
  assumes "RecordLayer_Unmarshal cb zero_rl_Header buf = Ok rec" "rec_Content rec = ApplicationDataC data"
  shows "buf ! 0 = ContentTypeApplicationData \<and> drop FixedHeaderSize buf = data"
  using assms
  by (auto simp: RecordLayer_Unmarshal_def rl_Header_Unmarshal_def Let_def zero_rl_Header_def slice_from_def
      ApplicationData_Unmarshal_def rl_Header_Size_def split: if_splits)

lemma handle_content_delivers:
  assumes "handle_content env c h pkt q cid content = (c', r)" "unat (rl_Epoch h) < length (st_replayDetector (cn_state c))"
    and "cn_decrypted c' \<noteq> cn_decrypted c"
  shows "\<exists>data. content = ApplicationDataC data \<and> rl_Epoch h \<noteq> 0 \<and> r = discard \<and> cn_decrypted c' = cn_decrypted c @ [Ok data] \<and>
    accepted c' (rl_Epoch h) = accepted c (rl_Epoch h) @ [rl_SequenceNumber h] \<and>
    cn_rAddr c' = (if cid \<and> ce_Latest env (cn_replayProtectionWindow c) (accepted c (rl_Epoch h)) (rl_SequenceNumber h)
                   then ap_rAddr pkt else cn_rAddr c)"
proof (cases content)
  case (ApplicationDataC data)
  obtain d l where m: "mark_valid env c h = (d, l)" by fastforce
  have a: "accepted d (rl_Epoch h) = accepted c (rl_Epoch h) @ [rl_SequenceNumber h]"
    using mark_valid_accepted [OF m assms(2)] by simp
  have l: "l = ce_Latest env (cn_replayProtectionWindow c) (accepted c (rl_Epoch h)) (rl_SequenceNumber h)"
    using mark_valid_frame(10) [OF m] assms(2) by (simp add: accepted_def)
  define e where "e = update_rAddr cid l (ap_rAddr pkt) (d\<lparr>cn_decrypted := cn_decrypted d @ [Ok data]\<rparr>)"
  have e: "c' = e" "r = discard" "rl_Epoch h \<noteq> 0"
    using assms(1,3) ApplicationDataC m mark_valid_frame(1) [OF m]
    by (auto simp: handle_content_def Let_def e_def split: if_splits)
  have "accepted e x = accepted d x" for x by (rule accepted_state) (simp add: e_def)
  moreover have "cn_rAddr e = (if cid \<and> l then ap_rAddr pkt else cn_rAddr c)"
    using mark_valid_frame(7) [OF m] by (auto simp: e_def update_rAddr_def)
  ultimately show ?thesis
    using ApplicationDataC a l e mark_valid_frame(1) [OF m] by (simp add: e_def)
next
  case (AlertC x)
  obtain d l where m: "mark_valid env c h = (d, l)" by fastforce
  then show ?thesis using assms(1,3) AlertC mark_valid_frame(1) [OF m] by (auto simp: handle_content_def)
next
  case ChangeCipherSpecC
  obtain d l where m: "mark_valid env (setRemoteEpoch (rl_Epoch h + 1) c) h = (d, l)" by fastforce
  then show ?thesis using assms(1,3) ChangeCipherSpecC mark_valid_frame(1) [OF m] enqueue_frame(2) [of c pkt]
    by (auto simp: handle_content_def Let_def setRemoteEpoch_def split: option.splits if_splits)
qed (use assms(1,3) in \<open>auto simp: handle_content_def\<close>)

lemma handle_plain_content:
  assumes "handle_plain env c h pkt q cid buf = (c', r)" "cn_decrypted c' \<noteq> cn_decrypted c"
  obtains f rec where "RecordLayer_Unmarshal (ce_cb env) zero_rl_Header buf = Ok rec"
    "handle_content env (c\<lparr>cn_fragmentBuffer := f\<rparr>) h pkt q cid (rec_Content rec) = (c', r)"
proof -
  obtain f rp where f: "push (cn_fragmentBuffer c) buf = (f, rp)" by fastforce
  obtain d l where m: "mark_valid env (c\<lparr>cn_fragmentBuffer := f\<rparr>) h = (d, l)" by fastforce
  show thesis
    using assms that f m mark_valid_frame(1) [OF m]
    by (auto simp: handle_plain_def Let_def split: res.splits bool.splits prod.splits)
qed

lemma handleIncomingPacket_delivers:
  assumes "handleIncomingPacket env c buf pkt q = (c', r)" "cn_decrypted c' \<noteq> cn_decrypted c"
  shows "\<exists>h plain cid. passes env c buf h plain cid \<and> rl_Epoch h \<noteq> 0 \<and> r = discard \<and>
    plain ! 0 = ContentTypeApplicationData \<and> cn_decrypted c' = cn_decrypted c @ [Ok (drop FixedHeaderSize plain)] \<and>
    accepted c' (rl_Epoch h) = accepted c (rl_Epoch h) @ [rl_SequenceNumber h] \<and>
    cn_rAddr c' = (if cid \<and> ce_Latest env (cn_replayProtectionWindow c) (accepted c (rl_Epoch h)) (rl_SequenceNumber h)
                   then ap_rAddr pkt else cn_rAddr c)"
proof (cases "\<exists>h plain cid. passes env c buf h plain cid")
  case True
  then obtain h plain cid where p: "passes env c buf h plain cid" by blast
  let ?c = "grow_detectors (rl_Epoch h) c"
  have ne: "cn_decrypted c' \<noteq> cn_decrypted ?c" using assms(2) by simp
  obtain f rec where rec: "RecordLayer_Unmarshal (ce_cb env) zero_rl_Header plain = Ok rec"
    "handle_content env (?c\<lparr>cn_fragmentBuffer := f\<rparr>) h pkt q cid (rec_Content rec) = (c', r)"
    by (rule handle_plain_content [OF assms(1) [unfolded handleIncomingPacket_passes [OF p]] ne])
  have "accepted (?c\<lparr>cn_fragmentBuffer := f\<rparr>) e = accepted c e" for e
    using accepted_grow [of "rl_Epoch h" c e] by (simp add: accepted_def)
  moreover have l: "unat (rl_Epoch h) < length (st_replayDetector (cn_state (?c\<lparr>cn_fragmentBuffer := f\<rparr>)))" by simp
  moreover have "cn_rAddr (?c\<lparr>cn_fragmentBuffer := f\<rparr>) = cn_rAddr c" by simp
  ultimately obtain data where "rec_Content rec = ApplicationDataC data" "rl_Epoch h \<noteq> 0" "r = discard"
    "cn_decrypted c' = cn_decrypted c @ [Ok data]" "accepted c' (rl_Epoch h) = accepted c (rl_Epoch h) @ [rl_SequenceNumber h]"
    "cn_rAddr c' = (if cid \<and> ce_Latest env (cn_replayProtectionWindow c) (accepted c (rl_Epoch h)) (rl_SequenceNumber h)
       then ap_rAddr pkt else cn_rAddr c)"
    using handle_content_delivers [OF rec(2) l] assms(2) by auto
  with RecordLayer_ApplicationData [OF rec(1)] p show ?thesis by blast
next
  case False
  from handleIncomingPacket_rejects [OF this assms(1)] assms(2) enqueue_frame(2) show ?thesis
    by (auto simp: only_queued_def)
qed

end
