(* ===== verification/Conn_Delivery.thy ===== *)
theory Conn_Delivery
  imports Conn_Receiving
begin

section \<open>From Write to Read\<close>

text \<open>
  The two halves of the connection together: a datagram that \<^verbatim>\<open>Write\<close> sends is split, checked,
  decrypted and delivered by the peer. The properties of the receiving side stand here: what
  reaches \<^verbatim>\<open>Read\<close>, that nothing is delivered twice, the invariant of the receiving side, and what
  records that are not authentic can do.
\<close>

subsection \<open>A protected record on the wire\<close>

lemma suite_Encrypt_body:
  assumes "suite_Encrypt senv cb cs h (raw @ payload) rnd = Ok enc" "cs_cipher cs \<noteq> Some CipherCustom"
    and "length raw = rl_Header_Size h" "0 < length rnd"
  obtains body where "set_length (rl_Header_Size h) (raw @ body) = Ok enc" "body \<noteq> []"
proof -
  have "\<exists>x. set_length (rl_Header_Size h) (raw @ rnd @ x) = Ok enc"
    using assms
    by (auto simp: suite_Encrypt_def CCM_Encrypt_def GCM_Encrypt_def AEAD_Encrypt_def CBC_Encrypt_def Let_def
        slice_from_def split: option.splits suite_cipher.splits if_splits)
  then show thesis using that assms(4) by auto
qed

lemma set_length_length: "set_length n raw = Ok enc \<Longrightarrow> length enc = length raw"
  by (auto simp: set_length_def put_at_def split: if_splits)

lemma protected_record:
  assumes enc: "suite_Encrypt senv cb cs h (raw @ payload) rnd = Ok enc" "cs_cipher cs \<noteq> Some CipherCustom" "0 < length rnd"
    and h: "rl_Header_Marshal h = Ok raw" "wf_rl_Header h" and len: "length enc \<le> inboundBufferSize"
  obtains h' raw' body where "h' = h\<lparr>rl_ContentLen := rl_ContentLen h'\<rparr>" "rl_Header_Marshal h' = Ok raw'" "enc = raw' @ body"
    "length raw' = length raw" "wf_rl_Header h'" "is_datagram (length (rl_ConnectionID h)) [enc]"
proof -
  have size: "length raw = rl_Header_Size h" using length_rl_Header_Marshal [OF h(1)] .
  obtain body where b: "set_length (rl_Header_Size h) (raw @ body) = Ok enc" "body \<noteq> []"
    by (rule suite_Encrypt_body [OF enc(1,2) size enc(3)])
  have n: "length body < 65536" using set_length_length [OF b(1)] len by (simp add: inboundBufferSize_def)
  let ?h = "h\<lparr>rl_ContentLen := word_of_nat (length body)\<rparr>"
  obtain raw' where r: "rl_Header_Marshal ?h = Ok raw'" "enc = raw' @ body" "length raw' = length raw"
    using set_length_header [OF h(1) n] b(1) by auto
  have wf: "wf_rl_Header ?h" using h(2) by (simp add: wf_rl_Header_def)
  have "is_record (length (rl_ConnectionID h)) enc"
    using marshalled_is_record [OF r(1) wf n] r(2) by simp
  moreover have "hdr_len (length (rl_ConnectionID h)) enc \<le> length raw'"
    using r size h(2) by (auto simp: hdr_len_def rl_Header_Size_def)
  moreover have "length raw' < length enc" using b(2) r(2) by simp
  ultimately have "is_datagram (length (rl_ConnectionID h)) [enc]" by (simp add: is_datagram_def)
  then show thesis using that [of ?h raw' body] r wf by simp
qed

text \<open>The record that application data becomes, before encryption.\<close>

definition app_header :: "Conn \<Rightarrow> uint64 \<Rightarrow> bytes \<Rightarrow> rl_Header" where
  "app_header c seq data =
     (let cid = opt_bytes (st_remoteConnectionID (cn_state c)) in
      \<lparr>rl_ContentType = (if cid = [] then ContentTypeApplicationData else ContentTypeConnectionID),
       rl_ContentLen = word_of_nat (length data + (if cid = [] then 0 else 1)), rl_Version = Version1_2,
       rl_Epoch = st_localEpoch (cn_state c), rl_SequenceNumber = seq, rl_ConnectionID = cid\<rparr>)"

definition app_payload :: "Conn \<Rightarrow> bytes \<Rightarrow> bytes" where
  "app_payload c data =
     (if opt_bytes (st_remoteConnectionID (cn_state c)) = [] then data else data @ [ContentTypeApplicationData])"

definition app_packet :: "Conn \<Rightarrow> bytes \<Rightarrow> packet" where
  "app_packet c data =
     \<lparr>pk_record = \<lparr>rec_Header = plain_header (st_localEpoch (cn_state c)), rec_Content = ApplicationDataC data\<rparr>,
      pk_shouldEncrypt = True, pk_shouldWrapCID = hasRemoteCID c, pk_resetLocalSequenceNumber = False\<rparr>"

lemma app_packet_raw:
  assumes cb: "cryptobyte_spec (ce_cb env)" and seq: "seq \<le> MaxSequenceNumber"
    and p: "p = (app_packet c data)\<lparr>pk_record := (pk_record (app_packet c data))
      \<lparr>rec_Header := (rec_Header (pk_record (app_packet c data)))\<lparr>rl_SequenceNumber := seq\<rparr>\<rparr>\<rparr>"
    and c': "st_remoteConnectionID (cn_state c') = st_remoteConnectionID (cn_state c)"
  obtains raw p' where "packet_raw env c' p = Ok (raw @ app_payload c data, p')" "rl_Header_Marshal (app_header c seq data) = Ok raw"
    "wf_rl_Header (app_header c seq data)" "rec_Header (pk_record p') = app_header c seq data" "pk_shouldEncrypt p'"
proof -
  obtain raw where r: "rl_Header_Marshal (app_header c seq data) = Ok raw"
    using seq by (fastforce simp: rl_Header_Marshal_def app_header_def Let_def not_less)
  moreover have "wf_rl_Header (app_header c seq data)"
    using seq by (simp add: wf_rl_Header_def app_header_def Let_def)
  moreover have "\<exists>p'. packet_raw env c' p = Ok (raw @ app_payload c data, p') \<and>
      rec_Header (pk_record p') = app_header c seq data \<and> pk_shouldEncrypt p'"
  proof (cases "opt_bytes (st_remoteConnectionID (cn_state c)) = []")
    case True
    then have h: "app_header c seq data = (plain_header (st_localEpoch (cn_state c)))\<lparr>rl_SequenceNumber := seq,
        rl_ContentLen := word_of_nat (length data), rl_ContentType := ContentTypeApplicationData\<rparr>"
      by (simp add: app_header_def plain_header_def zero_rl_Header_def)
    show ?thesis
      using True r by (simp add: packet_raw_def p app_packet_def RecordLayer_Marshal_def ApplicationData_Marshal_def
          app_payload_def hasRemoteCID_def h)
  next
    case False
    have "\<exists>x. rl_Header_Marshal ((plain_header (st_localEpoch (cn_state c)))\<lparr>rl_SequenceNumber := seq,
        rl_ContentLen := word_of_nat (length data), rl_ContentType := ContentTypeApplicationData\<rparr>) = Ok x"
      using seq by (simp add: rl_Header_Marshal_def)
    moreover have "cid_record_header c' ((plain_header (st_localEpoch (cn_state c)))\<lparr>rl_SequenceNumber := seq,
        rl_ContentLen := word_of_nat (length data), rl_ContentType := ContentTypeApplicationData\<rparr>)
        (data @ [ContentTypeApplicationData]) = app_header c seq data"
      using False by (simp add: cid_record_header_def app_header_def plain_header_def c' zero_rl_Header_def)
    ultimately show ?thesis
      using False r by (auto simp: packet_raw_def p app_packet_def RecordLayer_Marshal_def ApplicationData_Marshal_def
          app_payload_def hasRemoteCID_def InnerPlaintext_Marshal_enc [OF cb])
  qed
  ultimately show thesis using that by blast
qed


subsection \<open>Sending\<close>

lemma Conn_Write_sends:
  assumes open_conn: "\<not> cn_closed c" "cn_handshakeCompletedSuccessfully c" and cb: "cryptobyte_spec (ce_cb env)"
    and seq: "seq = seq_counter c (st_localEpoch (cn_state c))" "seq \<le> MaxSequenceNumber"
    and suite: "st_cipherSuite (cn_state c) = Some cs"
    and raw: "rl_Header_Marshal (app_header c seq data) = Ok raw"
    and enc: "suite_Encrypt (ce_suites env) (ce_cb env) cs (app_header c seq data) (raw @ app_payload c data)
       (ce_nonce env (cn_draws c) (suite_rnd (cs_kind cs))) = Ok enc"
    and net: "ce_WriteTo env (length (cn_sent c)) = Ok ()"
  obtains c' where "Conn_Write env c False data = (c', length data, Ok ())" "cn_sent c' = cn_sent c @ [(enc, cn_rAddr c)]"
    "st_localEpoch (cn_state c') = st_localEpoch (cn_state c)" "seq_counter c' (st_localEpoch (cn_state c)) = seq + 1"
proof -
  let ?e = "st_localEpoch (cn_state c)" and ?p = "app_packet c data"
  obtain n c1 where n: "next_seq ?e c = (n, c1)" by fastforce
  have c1: "n = seq" "seq_counter c1 ?e = seq + 1" "st_cipherSuite (cn_state c1) = Some cs"
    "st_remoteConnectionID (cn_state c1) = st_remoteConnectionID (cn_state c)"
    using next_seq_counter(1-4) [OF n] seq suite by auto
  have f: "cn_draws c1 = cn_draws c" "cn_sent c1 = cn_sent c" "cn_rAddr c1 = cn_rAddr c"
    "st_localEpoch (cn_state c1) = ?e"
    using n by (auto simp: next_seq_def Let_def)
  let ?q = "?p\<lparr>pk_record := (pk_record ?p)\<lparr>rec_Header := (rec_Header (pk_record ?p))\<lparr>rl_SequenceNumber := seq\<rparr>\<rparr>\<rparr>"
  obtain raw1 p' where q: "packet_raw env c1 ?q = Ok (raw1 @ app_payload c data, p')"
    "rl_Header_Marshal (app_header c seq data) = Ok raw1" "rec_Header (pk_record p') = app_header c seq data" "pk_shouldEncrypt p'"
    by (rule app_packet_raw [OF cb seq(2) refl c1(4)])
  let ?c = "c1\<lparr>cn_draws := cn_draws c + 1\<rparr>"
  have "processPacket env c ?p = (?c, p', Ok enc)"
  proof -
    have "rl_Epoch (rec_Header (pk_record ?p)) = ?e" by (simp add: app_packet_def plain_header_def)
    moreover have "encrypt_raw env c1 p' (raw1 @ app_payload c data) = (?c, Ok enc)"
      using c1(3) q raw enc f(1) by (simp add: encrypt_raw_def)
    ultimately show ?thesis using n c1(1) q(1) seq(2) by (simp add: processPacket_def not_less)
  qed
  then have "write_packets_loop env c [?p] [] = (?c, [p'], Ok [enc])"
    by (simp add: write_packet_def) (simp add: app_packet_def)
  moreover have "Conn_Write env c False data = (let (c, pkts, r) = writePackets env c [?p] in (c, length data, r))"
    using open_conn by (simp add: Conn_Write_def app_packet_def)
  ultimately have "Conn_Write env c False data = (?c\<lparr>cn_sent := cn_sent c @ [(enc, cn_rAddr c)]\<rparr>, length data, Ok ())"
    using net f by (simp add: writePackets_def compactRawPackets_def Let_def)
  moreover have "seq_counter (?c\<lparr>cn_sent := cn_sent c @ [(enc, cn_rAddr c)]\<rparr>) ?e = seq + 1"
    using c1(2) seq_counter_state [of "?c\<lparr>cn_sent := cn_sent c @ [(enc, cn_rAddr c)]\<rparr>" c1 ?e] by simp
  ultimately show thesis using that f by simp
qed

subsection \<open>Receiving\<close>

lemma handle_plain_app:
  assumes "rl_Header_Marshal h' = Ok raw" "wf_rl_Header h'" "rl_ContentType h' = ContentTypeApplicationData"
    and "fb_size (cn_fragmentBuffer c) + length (raw @ data) < fragmentBufferMaxSize"
  shows "handle_plain env c h pkt q cid (raw @ data) = handle_content env c h pkt q cid (ApplicationDataC data)"
proof -
  have cid: "rl_ConnectionID h' = []" using assms(2,3) by (simp add: wf_rl_Header_def)
  have u: "rl_Header_Unmarshal zero_rl_Header (raw @ data) = Ok (h'\<lparr>rl_ContentLen := 0\<rparr>)"
    using rl_Header_roundtrip [OF assms(2,1), of zero_rl_Header data] cid by (simp add: zero_rl_Header_def)
  have len: "length raw = 13" using length_rl_Header_Marshal [OF assms(1)] cid by (simp add: rl_Header_Size_def)
  have "push (cn_fragmentBuffer c) (raw @ data) = (cn_fragmentBuffer c, Ok False)"
    using assms(3,4) u by (simp add: push_def)
  moreover have "\<exists>rec. RecordLayer_Unmarshal (ce_cb env) zero_rl_Header (raw @ data) = Ok rec \<and> rec_Content rec = ApplicationDataC data"
    using assms(3) u cid len by (simp add: RecordLayer_Unmarshal_def ApplicationData_Unmarshal_def rl_Header_Size_def Let_def)
  ultimately show ?thesis by (auto simp: handle_plain_def)
qed


lemma decrypt_app_record:
  assumes ends: "opt_bytes (st_localConnectionID (cn_state d)) = opt_bytes (st_remoteConnectionID (cn_state c))"
    and data: "data \<noteq> [] \<or> opt_bytes (st_remoteConnectionID (cn_state c)) = []"
    and h: "h' = (app_header c seq data)\<lparr>rl_ContentLen := n\<rparr>" "rl_Header_Marshal h' = Ok raw'" "seq \<le> MaxSequenceNumber"
    and dec: "suite_Decrypt (ce_suites env) (ce_cb env) ds (cid_Header (length (opt_bytes (st_remoteConnectionID (cn_state c)))))
      (raw' @ body) = Ok (raw' @ app_payload c data)"
  obtains h2 raw2 where "rl_Header_Marshal h2 = Ok raw2" "wf_rl_Header h2" "rl_ContentType h2 = ContentTypeApplicationData"
    "decrypt_record env d ds (h'\<lparr>rl_ContentLen := m\<rparr>) (raw' @ body) =
       Ok (Some (raw2 @ data, opt_bytes (st_remoteConnectionID (cn_state c)) \<noteq> []))"
    "length raw2 = 13"
proof (cases "opt_bytes (st_remoteConnectionID (cn_state c)) = []")
  case True
  have "wf_rl_Header h'" "rl_ContentType h' = ContentTypeApplicationData" "length raw' = 13"
    using True h length_rl_Header_Marshal [OF h(2)] by (auto simp: wf_rl_Header_def app_header_def rl_Header_Size_def)
  moreover have "decrypt_record env d ds (h'\<lparr>rl_ContentLen := m\<rparr>) (raw' @ body) = Ok (Some (raw' @ data, False))"
    using True ends h(1) dec by (simp add: decrypt_record_def app_header_def app_payload_def)
  ultimately show thesis using that [OF h(2)] True by simp
next
  case False
  let ?h2 = "\<lparr>rl_ContentType = ContentTypeApplicationData, rl_ContentLen = word_of_nat (length data), rl_Version = Version1_2,
     rl_Epoch = st_localEpoch (cn_state c), rl_SequenceNumber = seq, rl_ConnectionID = []\<rparr>"
  obtain raw2 where r: "rl_Header_Marshal ?h2 = Ok raw2" using h(3) by (fastforce simp: rl_Header_Marshal_def not_less)
  have "wf_rl_Header ?h2" using h(3) by (simp add: wf_rl_Header_def)
  moreover have "length raw2 = 13" using length_rl_Header_Marshal [OF r] by (simp add: rl_Header_Size_def)
  moreover have "InnerPlaintext_Unmarshal (data @ [ContentTypeApplicationData]) =
      Ok \<lparr>ip_Content = data, ip_RealType = ContentTypeApplicationData, ip_Zeros = 0\<rparr>"
    using InnerPlaintext_Unmarshal_enc [of "\<lparr>ip_Content = data, ip_RealType = ContentTypeApplicationData, ip_Zeros = 0\<rparr>"] data False
    by simp
  moreover have "rl_Header_Size (h'\<lparr>rl_ContentLen := m\<rparr>) = length raw'"
    using length_rl_Header_Marshal [OF h(2)] by (simp add: rl_Header_Size_def)
  ultimately have "decrypt_record env d ds (h'\<lparr>rl_ContentLen := m\<rparr>) (raw' @ body) = Ok (Some (raw2 @ data, True))"
    using False ends h(1) dec r by (simp add: decrypt_record_def app_header_def app_payload_def)
  then show thesis using that [OF r] False \<open>wf_rl_Header ?h2\<close> \<open>length raw2 = 13\<close> by simp
qed

lemma passes_state:
  assumes "cn_state c' = cn_state c" "cn_replayProtectionWindow c' = cn_replayProtectionWindow c"
  shows "passes env c' buf h plain cid \<longleftrightarrow> passes env c buf h plain cid"
proof -
  have "suite_ready c' = suite_ready c" "\<And>cs. decrypt_record env c' cs h buf = decrypt_record env c cs h buf"
    "incoming_header c' buf = incoming_header c buf"
    "replay_check env (grow_detectors (rl_Epoch h) c') h = replay_check env (grow_detectors (rl_Epoch h) c) h"
    using assms by (simp_all add: suite_ready_def decrypt_record_def incoming_header_def replay_check_def)
  then show ?thesis using assms(1) by (simp add: passes_def)
qed

text \<open>The receiver of a record that it decrypts to application data.\<close>

lemma handleIncomingPacket_app:
  assumes p: "passes env d enc h (raw2 @ data) cid" "rl_Epoch h \<noteq> 0"
    and plain: "rl_Header_Marshal h2 = Ok raw2" "wf_rl_Header h2" "rl_ContentType h2 = ContentTypeApplicationData"
    and room: "fb_size (cn_fragmentBuffer d) + length (raw2 @ data) < fragmentBufferMaxSize"
    and deliver: "ce_Deliver env (length (cn_decrypted d))"
  obtains d' where "handleIncomingPacket env d enc pkt q = (d', discard)" "cn_decrypted d' = cn_decrypted d @ [Ok data]"
    "accepted d' (rl_Epoch h) = accepted d (rl_Epoch h) @ [rl_SequenceNumber h]"
    "st_localConnectionID (cn_state d') = st_localConnectionID (cn_state d)"
proof -
  let ?g = "grow_detectors (rl_Epoch h) d"
  obtain d1 l where m: "mark_valid env ?g h = (d1, l)" by fastforce
  let ?e = "update_rAddr cid l (ap_rAddr pkt) (d1\<lparr>cn_decrypted := cn_decrypted d1 @ [Ok data]\<rparr>)"
  have d1: "cn_decrypted d1 = cn_decrypted d" using mark_valid_frame(1) [OF m] by simp
  have "accepted d1 (rl_Epoch h) = accepted d (rl_Epoch h) @ [rl_SequenceNumber h]"
    using mark_valid_accepted [OF m] by simp
  then have acc: "accepted ?e (rl_Epoch h) = accepted d (rl_Epoch h) @ [rl_SequenceNumber h]"
    using accepted_state [of ?e d1] by simp
  have g: "fb_size (cn_fragmentBuffer ?g) + length (raw2 @ data) < fragmentBufferMaxSize" using room by simp
  have "handleIncomingPacket env d enc pkt q = (?e, discard)"
    using p(2) m d1 deliver
    by (simp add: handleIncomingPacket_passes [OF p(1)] handle_plain_app [OF plain g] handle_content_def)
  moreover have "st_localConnectionID (cn_state ?e) = st_localConnectionID (cn_state d)"
    using mark_valid_frame(11) [OF m] by simp
  ultimately show thesis using that d1 acc by simp
qed

lemma readAndBuffer_app:
  assumes dgram: "is_datagram (length (opt_bytes (st_localConnectionID (cn_state d)))) [enc]" "length enc \<le> inboundBufferSize"
    and p: "passes env d enc h (raw2 @ data) cid" "rl_Epoch h \<noteq> 0"
    and plain: "rl_Header_Marshal h2 = Ok raw2" "wf_rl_Header h2" "rl_ContentType h2 = ContentTypeApplicationData"
    and room: "fb_size (cn_fragmentBuffer d) + length (raw2 @ data) < fragmentBufferMaxSize"
    and deliver: "ce_Deliver env (length (cn_decrypted d))"
  obtains d' where "readAndBuffer env cfg d k (Ok (enc, a)) = (d', Ok False)" "cn_decrypted d' = cn_decrypted d @ [Ok data]"
    "accepted d' (rl_Epoch h) = accepted d (rl_Epoch h) @ [rl_SequenceNumber h]"
proof -
  let ?d = "read_into k enc d" and ?pkt = "\<lparr>ap_rAddr = a, ap_buf = k, ap_off = 0, ap_len = length enc\<rparr>"
  have frame: "cn_state ?d = cn_state d" "cn_fragmentBuffer ?d = cn_fragmentBuffer d" "cn_decrypted ?d = cn_decrypted d"
    "cn_replayProtectionWindow ?d = cn_replayProtectionWindow d" by (simp_all add: read_into_def Let_def)
  have p': "passes env ?d enc h (raw2 @ data) cid"
    using p(1) by (simp add: passes_state [OF frame(1,4)])
  have r: "fb_size (cn_fragmentBuffer ?d) + length (raw2 @ data) < fragmentBufferMaxSize"
    and dl: "ce_Deliver env (length (cn_decrypted ?d))" using room deliver frame by simp_all
  obtain e where e: "handleIncomingPacket env ?d enc ?pkt True = (e, discard)" "cn_decrypted e = cn_decrypted ?d @ [Ok data]"
    "accepted e (rl_Epoch h) = accepted ?d (rl_Epoch h) @ [rl_SequenceNumber h]"
    by (rule handleIncomingPacket_app [OF p' p(2) plain r dl])
  have "readAndBuffer_loop env cfg ?d k a 0 [enc] False = (e, Ok False)" using e(1) by (simp add: answer_def)
  moreover have "ContentAwareUnpackDatagram enc (length (opt_bytes (st_localConnectionID (cn_state d)))) = Ok [enc]"
    using dgram(1) by (simp add: unpack_iff)
  ultimately have "readAndBuffer env cfg d k (Ok (enc, a)) = (e, Ok False)"
    using dgram(2) frame(1) by (simp add: readAndBuffer_def Let_def)
  then show thesis using that e(2,3) frame accepted_state [of ?d d] by simp
qed

subsection \<open>The two ends\<close>

text \<open>
  The sending half of \<open>c\<close> and the receiving half of \<open>d\<close> belong together: both have the suite of one
  identifier initialised from the same secrets, in opposite roles; the sender uses the connection ID
  the receiver asked for, and the receiver has entered the sender's epoch.
\<close>

definition ends :: "suite_env \<Rightarrow> Conn \<Rightarrow> Conn \<Rightarrow> bool" where
  "ends senv c d \<longleftrightarrow>
     (\<exists>i s ms cr sr isClient cs ds. cipherSuiteForID i None = Some s \<and>
        suite_Init senv ms cr sr isClient s = (cs, Ok ()) \<and> suite_Init senv ms cr sr (\<not> isClient) s = (ds, Ok ()) \<and>
        st_cipherSuite (cn_state c) = Some cs \<and> st_cipherSuite (cn_state d) = Some ds) \<and>
     opt_bytes (st_localConnectionID (cn_state d)) = opt_bytes (st_remoteConnectionID (cn_state c)) \<and>
     0 < st_localEpoch (cn_state c) \<and> st_localEpoch (cn_state c) \<le> st_remoteEpoch (cn_state d)"

lemma suite_Init_kind:
  assumes "suite_Init env ms cr sr c s = (s', r)"
  shows "cs_kind s' = cs_kind s"
  using assms
  by (auto simp: suite_Init_def AesCcm_Init_def Gcm_init_def Cbc_Init_def store_cipher_def
      split: suite_kind.splits res.splits)

lemma ends_protect:
  assumes senv: "wf_suite_env (ce_suites env)" and cb: "cryptobyte_spec (ce_cb env)" and e: "ends (ce_suites env) c d"
    and h: "wf_rl_Header (app_header c seq data)" "rl_Header_Marshal (app_header c seq data) = Ok raw"
    and data: "length data < 59999" "data \<noteq> [] \<or> opt_bytes (st_remoteConnectionID (cn_state c)) = []"
    and rnd: "\<And>k n. length (ce_nonce env k n) = n"
  obtains cs ds enc where "st_cipherSuite (cn_state c) = Some cs" "suite_ready d = Some ds"
    "suite_Encrypt (ce_suites env) (ce_cb env) cs (app_header c seq data) (raw @ app_payload c data)
       (ce_nonce env (cn_draws c) (suite_rnd (cs_kind cs))) = Ok enc"
    "suite_Decrypt (ce_suites env) (ce_cb env) ds (cid_Header (length (opt_bytes (st_remoteConnectionID (cn_state c))))) enc =
       Ok (take (length raw) enc @ app_payload c data)"
    "cs_cipher cs \<noteq> Some CipherCustom" "0 < suite_rnd (cs_kind cs)" "length enc \<le> length raw + length data + 97"
proof -
  obtain i s ms cr sr isClient cs ds where s: "cipherSuiteForID i None = Some s"
    and cs: "suite_Init (ce_suites env) ms cr sr isClient s = (cs, Ok ())"
    and ds: "suite_Init (ce_suites env) ms cr sr (\<not> isClient) s = (ds, Ok ())"
    and st: "st_cipherSuite (cn_state c) = Some cs" "st_cipherSuite (cn_state d) = Some ds"
    using e by (auto simp: ends_def)
  have k: "wf_suite_kind (cs_kind s)" "cs_kind cs = cs_kind s" using builtin_kind [OF s] suite_Init_kind [OF cs] by auto
  then have k': "cs_kind s \<noteq> KindCustom" "0 < suite_rnd (cs_kind s)" by (cases "cs_kind s"; simp)+
  have ct: "rl_ContentType (app_header c seq data) \<noteq> ContentTypeChangeCipherSpec"
    and len: "length (app_payload c data) < 60000" "length (app_payload c data) \<le> length data + 1"
    and cid: "length (rl_ConnectionID (cid_Header (length (opt_bytes (st_remoteConnectionID (cn_state c)))))) =
      length (rl_ConnectionID (app_header c seq data))"
    using data(1) by (simp_all add: app_header_def app_payload_def cid_Header_def Let_def)
  have ip: "is_ok (InnerPlaintext_Unmarshal (app_payload c data))"
    if "rl_ContentType (app_header c seq data) = ContentTypeConnectionID"
    using that data(2)
      InnerPlaintext_Unmarshal_enc [of "\<lparr>ip_Content = data, ip_RealType = ContentTypeApplicationData, ip_Zeros = 0\<rparr>"]
    by (auto simp: app_header_def app_payload_def is_ok_iff Let_def split: if_splits)
  have r: "length (ce_nonce env (cn_draws c) (suite_rnd (cs_kind s))) = suite_rnd (cs_kind s)" by (rule rnd)
  have "suite_ready d = Some ds"
    using st(2) suite_Init_cipher(2) [OF ds k'(1)] by (simp add: suite_ready_def suite_IsInitialized_def)
  with suites_interoperate [OF senv k(1) cs ds cb h ct len(1) r ip cid] st(1) suite_Init_cipher(1) [OF cs k'(1)] k k'(2) len(2)
  show thesis using that by fastforce
qed

lemma protected_data_passes:
  assumes seq: "seq \<le> MaxSequenceNumber"
    and raw: "rl_Header_Marshal (app_header c seq data) = Ok raw" "wf_rl_Header (app_header c seq data)"
    and e: "ends (ce_suites env) c d" and s: "suite_ready d = Some ds"
    and enc: "suite_Encrypt (ce_suites env) (ce_cb env) cs (app_header c seq data) (raw @ app_payload c data) rnd = Ok enc"
    and dec: "suite_Decrypt (ce_suites env) (ce_cb env) ds (cid_Header (length (opt_bytes (st_remoteConnectionID (cn_state c)))))
      enc = Ok (take (length raw) enc @ app_payload c data)"
    and cs: "cs_cipher cs \<noteq> Some CipherCustom" "0 < suite_rnd (cs_kind cs)" "length rnd = suite_rnd (cs_kind cs)"
    and len: "length enc \<le> inboundBufferSize"
    and data: "data \<noteq> [] \<or> opt_bytes (st_remoteConnectionID (cn_state c)) = []"
    and new: "ce_Check env (cn_replayProtectionWindow d) (accepted d (st_localEpoch (cn_state c))) seq"
  obtains h h2 raw2 where "passes env d enc h (raw2 @ data) (opt_bytes (st_remoteConnectionID (cn_state c)) \<noteq> [])"
    "rl_Epoch h = st_localEpoch (cn_state c)" "rl_SequenceNumber h = seq" "rl_Epoch h \<noteq> 0"
    "rl_Header_Marshal h2 = Ok raw2" "wf_rl_Header h2" "rl_ContentType h2 = ContentTypeApplicationData" "length raw2 = 13"
    "is_datagram (length (opt_bytes (st_localConnectionID (cn_state d)))) [enc]"
proof -
  let ?e = "st_localEpoch (cn_state c)" and ?cid = "opt_bytes (st_remoteConnectionID (cn_state c))"
  have rnd: "0 < length rnd" using cs by simp
  obtain h' raw' body where h': "h' = (app_header c seq data)\<lparr>rl_ContentLen := rl_ContentLen h'\<rparr>" "rl_Header_Marshal h' = Ok raw'"
    "enc = raw' @ body" "length raw' = length raw" "wf_rl_Header h'" "is_datagram (length (rl_ConnectionID (app_header c seq data))) [enc]"
    by (rule protected_record [OF enc cs(1) rnd raw len])
  have cid: "opt_bytes (st_localConnectionID (cn_state d)) = ?cid" "?e \<noteq> 0" "?e \<le> st_remoteEpoch (cn_state d)"
    using e by (auto simp: ends_def)
  let ?h = "h'\<lparr>rl_ContentLen := 0\<rparr>"
  have hf: "rl_ConnectionID h' = ?cid" "rl_Epoch h' = ?e" "rl_SequenceNumber h' = seq"
    by (subst h'(1), simp add: app_header_def Let_def)+
  have "suite_Decrypt (ce_suites env) (ce_cb env) ds (cid_Header (length ?cid)) (raw' @ body) = Ok (raw' @ app_payload c data)"
    using dec h'(3,4) by simp
  from decrypt_app_record [OF cid(1) data h'(1,2) seq this, of 0]
  obtain h2 raw2 where h2: "rl_Header_Marshal h2 = Ok raw2" "wf_rl_Header h2" "rl_ContentType h2 = ContentTypeApplicationData"
    "decrypt_record env d ds ?h (raw' @ body) = Ok (Some (raw2 @ data, ?cid \<noteq> []))" "length raw2 = 13" by blast
  have hdr: "incoming_header d enc = Ok ?h"
    using rl_Header_roundtrip [OF h'(5,2), of "cid_Header (length ?cid)" body] cid(1) h'(3) hf(1)
    by (simp add: incoming_header_def cid_Header_def zero_rl_Header_def)
  have check: "replay_check env (grow_detectors (rl_Epoch ?h) d) ?h" using new hf unfolding accepted_detector by simp
  have p: "passes env d enc ?h (raw2 @ data) (?cid \<noteq> [])"
    unfolding passes_def using hdr check hf(2) cid(2,3) s h2(4) h'(3) by simp
  have dg: "is_datagram (length (opt_bytes (st_localConnectionID (cn_state d)))) [enc]"
    using h'(6) cid(1) by (simp add: app_header_def Let_def)
  have e0: "rl_Epoch ?h \<noteq> 0" using hf(2) cid(2) by simp
  show thesis by (rule that [OF p _ _ e0 h2(1-3,5) dg]) (use hf in simp_all)
qed

lemma protected_data_read:
  assumes seq: "seq \<le> MaxSequenceNumber"
    and raw: "rl_Header_Marshal (app_header c seq data) = Ok raw" "wf_rl_Header (app_header c seq data)"
    and e: "ends (ce_suites env) c d" and s: "suite_ready d = Some ds"
    and enc: "suite_Encrypt (ce_suites env) (ce_cb env) cs (app_header c seq data) (raw @ app_payload c data) rnd = Ok enc"
    and dec: "suite_Decrypt (ce_suites env) (ce_cb env) ds (cid_Header (length (opt_bytes (st_remoteConnectionID (cn_state c)))))
      enc = Ok (take (length raw) enc @ app_payload c data)"
    and cs: "cs_cipher cs \<noteq> Some CipherCustom" "0 < suite_rnd (cs_kind cs)" "length rnd = suite_rnd (cs_kind cs)"
    and len: "length enc \<le> inboundBufferSize"
    and data: "data \<noteq> [] \<or> opt_bytes (st_remoteConnectionID (cn_state c)) = []"
    and new: "ce_Check env (cn_replayProtectionWindow d) (accepted d (st_localEpoch (cn_state c))) seq"
    and room: "fb_size (cn_fragmentBuffer d) + (length data + 13) < fragmentBufferMaxSize"
    and deliver: "ce_Deliver env (length (cn_decrypted d))"
  shows "\<exists>d'. readAndBuffer env cfg d k (Ok (enc, a)) = (d', Ok False) \<and> cn_decrypted d' = cn_decrypted d @ [Ok data] \<and>
    seq \<in> set (accepted d' (st_localEpoch (cn_state c)))"
proof -
  obtain h h2 raw2 where p: "passes env d enc h (raw2 @ data) (opt_bytes (st_remoteConnectionID (cn_state c)) \<noteq> [])"
    and h: "rl_Epoch h = st_localEpoch (cn_state c)" "rl_SequenceNumber h = seq" "rl_Epoch h \<noteq> 0"
    and h2: "rl_Header_Marshal h2 = Ok raw2" "wf_rl_Header h2" "rl_ContentType h2 = ContentTypeApplicationData" "length raw2 = 13"
    and dg: "is_datagram (length (opt_bytes (st_localConnectionID (cn_state d)))) [enc]"
    by (rule protected_data_passes [OF assms(1-13)])
  have room': "fb_size (cn_fragmentBuffer d) + length (raw2 @ data) < fragmentBufferMaxSize" using room h2(4) by simp
  obtain d' where "readAndBuffer env cfg d k (Ok (enc, a)) = (d', Ok False)" "cn_decrypted d' = cn_decrypted d @ [Ok data]"
    "accepted d' (rl_Epoch h) = accepted d (rl_Epoch h) @ [rl_SequenceNumber h]"
    by (rule readAndBuffer_app [OF dg len p h(3) h2(1-3) room' deliver])
  then show ?thesis using h by simp
qed

text \<open>
  C6. What one end writes the other end reads. On a connection whose two ends share their secrets,
  writing data succeeds, sends one datagram and advances the record counter; when the number is
  fresh to the peer's replay detector and the peer's fragment buffer is not full, then reading the
  datagram delivers exactly the data to the peer's Read, with no error, and records the number. Data
  and connection ID of at most 8082 bytes together fit the peer's read buffer under every cipher
  suite; with a connection ID the data must not be empty.
\<close>

theorem written_data_is_read:
  assumes "wf_suite_env (ce_suites env)" "cryptobyte_spec (ce_cb env)" "ends (ce_suites env) c d"
    and "\<And>k n. length (ce_nonce env k n) = n" "ce_WriteTo env (length (cn_sent c)) = Ok ()"
    and "\<not> cn_closed c" "cn_handshakeCompletedSuccessfully c" "cn_handshakeCompletedSuccessfully d"
    and "length data + length (opt_bytes (st_remoteConnectionID (cn_state c))) \<le> 8082" "data \<noteq> [] \<or> opt_bytes (st_remoteConnectionID (cn_state c)) = []"
    and "seq_counter c (st_localEpoch (cn_state c)) \<le> MaxSequenceNumber"
    and "ce_Check env (cn_replayProtectionWindow d) (accepted d (st_localEpoch (cn_state c))) (seq_counter c (st_localEpoch (cn_state c)))"
    and "fb_size (cn_fragmentBuffer d) + length data + 13 < fragmentBufferMaxSize" "ce_Deliver env (length (cn_decrypted d))"
  shows "\<exists>c' datagram. Conn_Write env c False data = (c', length data, Ok ()) \<and>
    cn_sent c' = cn_sent c @ [(datagram, cn_rAddr c)] \<and>
    seq_counter c' (st_localEpoch (cn_state c)) = seq_counter c (st_localEpoch (cn_state c)) + 1 \<and>
    (\<exists>d'. readAndBuffer env cfg d k (Ok (datagram, a)) = (d', Ok False) \<and> cn_decrypted d' = cn_decrypted d @ [Ok data] \<and>
      seq_counter c (st_localEpoch (cn_state c)) \<in> set (accepted d' (st_localEpoch (cn_state c))) \<and>
      Conn_Read d (ChannelValue (last (cn_decrypted d'))) (length data + n) = Ok data)"
proof -
  let ?e = "st_localEpoch (cn_state c)" and ?cid = "opt_bytes (st_remoteConnectionID (cn_state c))"
  define seq where "seq = seq_counter c ?e"
  let ?h = "app_header c seq data"
  have seq: "seq \<le> MaxSequenceNumber" and small: "length data < 59999" using assms(9,11) by (simp_all add: seq_def)
  obtain raw where raw: "rl_Header_Marshal ?h = Ok raw"
    using seq by (fastforce simp: rl_Header_Marshal_def app_header_def Let_def not_less)
  have wf: "wf_rl_Header ?h" using seq by (simp add: wf_rl_Header_def app_header_def Let_def)
  obtain cs ds enc where s: "st_cipherSuite (cn_state c) = Some cs" "suite_ready d = Some ds"
    and enc: "suite_Encrypt (ce_suites env) (ce_cb env) cs ?h (raw @ app_payload c data)
       (ce_nonce env (cn_draws c) (suite_rnd (cs_kind cs))) = Ok enc"
    and dec: "suite_Decrypt (ce_suites env) (ce_cb env) ds (cid_Header (length ?cid)) enc = Ok (take (length raw) enc @ app_payload c data)"
    and nc: "cs_cipher cs \<noteq> Some CipherCustom" "0 < suite_rnd (cs_kind cs)" "length enc \<le> length raw + length data + 97"
    by (rule ends_protect [OF assms(1-3) wf raw small assms(10,4)])
  have fits: "length enc \<le> inboundBufferSize"
    using nc(3) length_rl_Header_Marshal [OF raw] assms(9)
    by (simp add: inboundBufferSize_def rl_Header_Size_def app_header_def Let_def)
  obtain c' where c': "Conn_Write env c False data = (c', length data, Ok ())" "cn_sent c' = cn_sent c @ [(enc, cn_rAddr c)]"
    "seq_counter c' ?e = seq + 1"
    by (rule Conn_Write_sends [OF assms(6,7,2) seq_def seq s(1) raw enc assms(5)])
  have room: "fb_size (cn_fragmentBuffer d) + (length data + 13) < fragmentBufferMaxSize" using assms(13) by simp
  have "\<exists>d'. readAndBuffer env cfg d k (Ok (enc, a)) = (d', Ok False) \<and> cn_decrypted d' = cn_decrypted d @ [Ok data] \<and>
      seq \<in> set (accepted d' ?e)"
    using protected_data_read [OF seq raw wf assms(3) s(2) enc dec nc(1,2) _ fits assms(10) _ room assms(14)] assms(4,12)
    by (simp add: seq_def)
  moreover have "Conn_Read d (ChannelValue (last (vs @ [Ok data]))) (length data + n) = Ok data" for vs
    using assms(8) by (simp add: Conn_Read_def)
  ultimately show ?thesis
    using c' unfolding seq_def [symmetric] by (intro exI [of _ c'] exI [of _ enc]) auto
qed


text \<open>A client and its server, with a connection ID for the server's end.\<close>

definition ex_peer_suite :: CipherSuite where
  "ex_peer_suite = fst (suite_of_state ex_env (ex_State\<lparr>st_isClient := False\<rparr>) NewTLSPskWithAes128Ccm8)"

definition ex_peer :: Conn where
  "ex_peer = ex_Conn\<lparr>cn_state := ex_State\<lparr>st_isClient := False, st_cipherSuite := Some ex_peer_suite,
     st_remoteConnectionID := None, st_localConnectionID := Some [5, 6]\<rparr>\<rparr>"

lemma ex_ends: "ends ex_env ex_Conn ex_peer"
proof -
  let ?s = NewTLSPskWithAes128Ccm8 and ?r = "Random_MarshalFixed ex_Random"
  have s: "cipherSuiteForID 0xc0a8 None = Some ?s" by (simp add: cipherSuiteForID_def builtin_cipherSuiteForID_def)
  have c: "suite_Init ex_env [1, 2, 3] ?r ?r True ?s = (ex_State_suite, Ok ())"
    using ex_State_suite(1) by (simp add: suite_of_state_def)
  obtain d where "suite_Init ex_env [1, 2, 3] ?r ?r (\<not> True) ?s = (d, Ok ())"
    by (rule suite_Init_total [OF ex_env_wf s])
  then have "suite_Init ex_env [1, 2, 3] ?r ?r (\<not> True) ?s = (ex_peer_suite, Ok ())"
    by (simp add: ex_peer_suite_def suite_of_state_def)
  with s c have "\<exists>i s ms cr sr isClient. cipherSuiteForID i None = Some s \<and>
      suite_Init ex_env ms cr sr isClient s = (ex_State_suite, Ok ()) \<and>
      suite_Init ex_env ms cr sr (\<not> isClient) s = (ex_peer_suite, Ok ())" by blast
  moreover have "st_remoteEpoch ex_State = 1" by (simp add: ex_State_def)
  ultimately show ?thesis by (simp add: ends_def ex_Conn_def ex_peer_def)
qed

lemma ex_conn_env_simps:
  "ce_suites ex_conn_env = ex_env" "ce_cb ex_conn_env = std_cryptobyte" "length (ce_nonce ex_conn_env k n) = n"
  "ce_WriteTo ex_conn_env k = Ok ()" "ce_Deliver ex_conn_env k" "ce_Check ex_conn_env w acc m \<longleftrightarrow> m \<notin> set acc"
  by (simp_all add: ex_conn_env_def)

lemma ex_numbers: "seq_counter ex_Conn 1 = 9" "accepted ex_peer e = []"
  by (simp_all add: seq_counter_def ex_Conn_def accepted_def ex_peer_def) (simp add: ex_State_def zero_State_def)

theorem written_data_is_read_witness:
  "\<exists>c' datagram d'. Conn_Write ex_conn_env ex_Conn False [10, 11, 12] = (c', 3, Ok ()) \<and>
    cn_sent c' = [(datagram, [49])] \<and>
    readAndBuffer ex_conn_env ex_handshakeConfig ex_peer 0 (Ok (datagram, [50])) = (d', Ok False) \<and>
    cn_decrypted d' = [Ok [10, 11, 12]]"
proof -
  have f: "\<not> cn_closed ex_Conn" "cn_handshakeCompletedSuccessfully ex_Conn" "cn_handshakeCompletedSuccessfully ex_peer"
    "st_remoteConnectionID (cn_state ex_Conn) = Some [5, 6]" "st_localEpoch (cn_state ex_Conn) = 1"
    "cn_rAddr ex_Conn = [49]" "cn_sent ex_Conn = []" "cn_decrypted ex_peer = []" "fb_size (cn_fragmentBuffer ex_peer) = 0"
    by (simp_all add: ex_Conn_def ex_peer_def newFragmentBuffer_def fb_size_def)
  have e: "ends (ce_suites ex_conn_env) ex_Conn ex_peer" using ex_ends by (simp add: ex_conn_env_simps)
  have w: "wf_suite_env (ce_suites ex_conn_env)" "cryptobyte_spec (ce_cb ex_conn_env)"
    using ex_env_wf std_cryptobyte_spec by (simp_all add: ex_conn_env_simps)
  show ?thesis
    using written_data_is_read [OF w e, of "[10, 11, 12]" ex_handshakeConfig 0 "[50]" 0] f ex_numbers
    by (simp add: ex_conn_env_simps numeral_3_eq_3) blast
qed


lemma ex_peer_fields:
  "\<not> cn_closed ex_Conn" "cn_handshakeCompletedSuccessfully ex_Conn" "cn_handshakeCompletedSuccessfully ex_peer"
  "st_remoteConnectionID (cn_state ex_Conn) = Some [5, 6]" "st_localEpoch (cn_state ex_Conn) = 1"
  "cn_rAddr ex_Conn = [49]" "cn_sent ex_Conn = []" "cn_decrypted ex_peer = []" "fb_size (cn_fragmentBuffer ex_peer) = 0"
  by (simp_all add: ex_Conn_def ex_peer_def newFragmentBuffer_def fb_size_def)

lemma ex_delivery:
  obtains enc d' h where "handleIncomingPacket ex_conn_env ex_peer enc pkt q = (d', discard)"
    "cn_decrypted d' = [Ok [10, 11, 12]]" "incoming_header ex_peer enc = Ok h" "incoming_header d' enc = Ok h"
    "rl_Epoch h = 1" "rl_SequenceNumber h = 9"
proof -
  let ?data = "[10, 11, 12] :: bytes" and ?h = "app_header ex_Conn 9 [10, 11, 12]" and ?env = ex_conn_env
  have env: "wf_suite_env (ce_suites ?env)" "cryptobyte_spec (ce_cb ?env)" "ends (ce_suites ?env) ex_Conn ex_peer"
    using ex_env_wf std_cryptobyte_spec ex_ends by (simp_all add: ex_conn_env_simps)
  obtain raw where raw: "rl_Header_Marshal ?h = Ok raw" by (simp add: rl_Header_Marshal_def app_header_def Let_def)
  have wf: "wf_rl_Header ?h" by (simp add: wf_rl_Header_def app_header_def Let_def)
  have data: "length ?data < 59999" "?data \<noteq> [] \<or> opt_bytes (st_remoteConnectionID (cn_state ex_Conn)) = []" by simp_all
  obtain cs ds enc where s: "st_cipherSuite (cn_state ex_Conn) = Some cs" "suite_ready ex_peer = Some ds"
    and enc: "suite_Encrypt (ce_suites ?env) (ce_cb ?env) cs ?h (raw @ app_payload ex_Conn ?data)
       (ce_nonce ?env (cn_draws ex_Conn) (suite_rnd (cs_kind cs))) = Ok enc"
    and dec: "suite_Decrypt (ce_suites ?env) (ce_cb ?env) ds (cid_Header (length (opt_bytes (st_remoteConnectionID (cn_state ex_Conn)))))
       enc = Ok (take (length raw) enc @ app_payload ex_Conn ?data)"
    and nc: "cs_cipher cs \<noteq> Some CipherCustom" "0 < suite_rnd (cs_kind cs)" "length enc \<le> length raw + length ?data + 97"
    by (rule ends_protect [OF env wf raw data]) (simp add: ex_conn_env_simps)
  have fits: "length enc \<le> inboundBufferSize"
    using nc(3) length_rl_Header_Marshal [OF raw]
    by (simp add: inboundBufferSize_def rl_Header_Size_def app_header_def Let_def ex_peer_fields)
  obtain h h2 raw2 where p: "passes ?env ex_peer enc h (raw2 @ ?data) (opt_bytes (st_remoteConnectionID (cn_state ex_Conn)) \<noteq> [])"
    and h: "rl_Epoch h = st_localEpoch (cn_state ex_Conn)" "rl_SequenceNumber h = 9" "rl_Epoch h \<noteq> 0"
    and h2: "rl_Header_Marshal h2 = Ok raw2" "wf_rl_Header h2" "rl_ContentType h2 = ContentTypeApplicationData" "length raw2 = 13"
    by (rule protected_data_passes [OF _ raw wf env(3) s(2) enc dec nc(1,2) _ fits data(2)])
      (auto simp: ex_conn_env_simps ex_numbers)
  have room: "fb_size (cn_fragmentBuffer ex_peer) + length (raw2 @ ?data) < fragmentBufferMaxSize"
    using h2(4) by (simp add: ex_peer_fields)
  obtain d' where d': "handleIncomingPacket ?env ex_peer enc pkt q = (d', discard)" "cn_decrypted d' = cn_decrypted ex_peer @ [Ok ?data]"
    "st_localConnectionID (cn_state d') = st_localConnectionID (cn_state ex_peer)"
    by (rule handleIncomingPacket_app [OF p h(3) h2(1-3) room]) (auto simp: ex_conn_env_simps)
  have "incoming_header ex_peer enc = Ok h" using p by (simp add: passes_def)
  moreover from this have "incoming_header d' enc = Ok h" using d'(3) by (simp add: incoming_header_def)
  ultimately show thesis using that [OF d'(1)] d'(2) h ex_peer_fields(5,8) by simp
qed

text \<open>
  C7. What reaches Read is authentic: when a record makes the connection deliver something, it is
  one value, the application data that the initialised cipher suite decrypted from this record; the
  record is of an encrypted epoch the connection has entered, its number was accepted by the replay
  detector of the epoch and is recorded there, and the address of the peer changes only to the
  sender of a record with connection ID that is the latest one.
\<close>

theorem delivered_data:
  assumes "handleIncomingPacket env c buf pkt enqueue = (c', r)" "cn_decrypted c' \<noteq> cn_decrypted c"
  shows "\<exists>h cs plain cid.
    rl_Header_Unmarshal (cid_Header (length (opt_bytes (st_localConnectionID (cn_state c))))) buf = Ok h \<and>
    0 < rl_Epoch h \<and> rl_Epoch h \<le> st_remoteEpoch (cn_state c) \<and>
    st_cipherSuite (cn_state c) = Some cs \<and> suite_IsInitialized cs \<and>
    decrypt_record env c cs h buf = Ok (Some (plain, cid)) \<and> plain ! 0 = ContentTypeApplicationData \<and>
    cn_decrypted c' = cn_decrypted c @ [Ok (drop FixedHeaderSize plain)] \<and>
    ce_Check env (cn_replayProtectionWindow c) (accepted c (rl_Epoch h)) (rl_SequenceNumber h) \<and>
    accepted c' (rl_Epoch h) = accepted c (rl_Epoch h) @ [rl_SequenceNumber h] \<and>
    (cn_rAddr c' \<noteq> cn_rAddr c \<longrightarrow> cid \<and> cn_rAddr c' = ap_rAddr pkt \<and>
       ce_Latest env (cn_replayProtectionWindow c) (accepted c (rl_Epoch h)) (rl_SequenceNumber h))"
proof -
  obtain h plain cid where p: "passes env c buf h plain cid" "rl_Epoch h \<noteq> 0" "plain ! 0 = ContentTypeApplicationData"
      "cn_decrypted c' = cn_decrypted c @ [Ok (drop FixedHeaderSize plain)]"
      "accepted c' (rl_Epoch h) = accepted c (rl_Epoch h) @ [rl_SequenceNumber h]"
      "cn_rAddr c' = (if cid \<and> ce_Latest env (cn_replayProtectionWindow c) (accepted c (rl_Epoch h)) (rl_SequenceNumber h)
                   then ap_rAddr pkt else cn_rAddr c)"
    using handleIncomingPacket_delivers [OF assms] by blast
  from p(1,2) obtain cs where "suite_ready c = Some cs" "decrypt_record env c cs h buf = Ok (Some (plain, cid))"
    "incoming_header c buf = Ok h" "rl_Epoch h \<le> st_remoteEpoch (cn_state c)"
    "ce_Check env (cn_replayProtectionWindow c) (accepted c (rl_Epoch h)) (rl_SequenceNumber h)"
    by (auto simp: passes_def accepted_detector)
  with p(2-) show ?thesis
    by (intro exI [of _ h] exI [of _ cs] exI [of _ plain] exI [of _ cid])
      (auto simp: suite_ready_def incoming_header_def word_gt_0 split: option.splits if_splits)
qed


theorem delivered_data_witness:
  "\<exists>enc d'. handleIncomingPacket ex_conn_env ex_peer enc \<lparr>ap_rAddr = [50], ap_buf = 0, ap_off = 0, ap_len = 40\<rparr> True = (d', discard) \<and>
    cn_decrypted d' = [Ok [10, 11, 12]] \<and> length (accepted d' 1) = 1"
proof -
  obtain enc d' h where d: "handleIncomingPacket ex_conn_env ex_peer enc \<lparr>ap_rAddr = [50], ap_buf = 0, ap_off = 0, ap_len = 40\<rparr> True =
      (d', discard)" "cn_decrypted d' = [Ok [10, 11, 12]]" "incoming_header ex_peer enc = Ok h" "rl_Epoch h = 1"
    by (rule ex_delivery)
  have "cn_decrypted d' \<noteq> cn_decrypted ex_peer" using d(2) ex_peer_fields(8) by simp
  from delivered_data [OF d(1) this] have "accepted d' 1 = [rl_SequenceNumber h]"
    using d(3,4) ex_numbers(2) by (auto simp: incoming_header_def)
  with d(1,2) show ?thesis by (intro exI [of _ enc] exI [of _ d']) simp
qed

text \<open>
  C8. Nothing is delivered twice. Once a record has been delivered, then whatever operations the
  connection performs afterwards, no record of the same epoch and number is delivered, provided
  that the replay detectors refuse numbers they have accepted.
\<close>

theorem no_second_delivery:
  assumes law: "\<And>w acc n. ce_Check env w acc n \<Longrightarrow> n \<notin> set acc"
    and first: "handleIncomingPacket env c buf pkt q = (c1, r)" "cn_decrypted c1 \<noteq> cn_decrypted c"
    and hdr: "incoming_header c buf = Ok h"
    and later: "(conn_step env cfg)\<^sup>*\<^sup>* c1 c2"
    and again: "incoming_header c2 buf' = Ok h'" "rl_Epoch h' = rl_Epoch h" "rl_SequenceNumber h' = rl_SequenceNumber h"
  shows "cn_decrypted (fst (handleIncomingPacket env c2 buf' pkt' q')) = cn_decrypted c2"
proof (rule ccontr)
  assume d: "\<not> ?thesis"
  obtain c3 r' where s: "handleIncomingPacket env c2 buf' pkt' q' = (c3, r')" by fastforce
  obtain h1 plain cid where p: "passes env c buf h1 plain cid" "accepted c1 (rl_Epoch h1) = accepted c (rl_Epoch h1) @ [rl_SequenceNumber h1]"
    using handleIncomingPacket_delivers [OF first] by blast
  then have "rl_SequenceNumber h \<in> set (accepted c1 (rl_Epoch h))" using hdr by (auto simp: passes_def)
  moreover obtain ns where "accepted c2 (rl_Epoch h) = accepted c1 (rl_Epoch h) @ ns"
    using conn_steps_progress [OF later] by (auto simp: progress_def)
  ultimately have known: "rl_SequenceNumber h' \<in> set (accepted c2 (rl_Epoch h'))" using again by simp
  obtain h2 plain' cid' where "passes env c2 buf' h2 plain' cid'"
    using handleIncomingPacket_delivers [OF s] d s by auto
  then show False using law known again(1) by (auto simp: passes_def accepted_detector)
qed

theorem no_second_delivery_witness:
  "\<exists>enc d' d''. handleIncomingPacket ex_conn_env ex_peer enc \<lparr>ap_rAddr = [50], ap_buf = 0, ap_off = 0, ap_len = 40\<rparr> True = (d', discard) \<and>
    cn_decrypted d' = [Ok [10, 11, 12]] \<and>
    fst (handleIncomingPacket ex_conn_env d' enc \<lparr>ap_rAddr = [50], ap_buf = 0, ap_off = 0, ap_len = 40\<rparr> True) = d'' \<and>
    cn_decrypted d'' = [Ok [10, 11, 12]]"
proof -
  let ?pkt = "\<lparr>ap_rAddr = [50], ap_buf = 0, ap_off = 0, ap_len = 40\<rparr>"
  obtain enc d' h where d: "handleIncomingPacket ex_conn_env ex_peer enc ?pkt True = (d', discard)"
    "cn_decrypted d' = [Ok [10, 11, 12]]" "incoming_header ex_peer enc = Ok h" "incoming_header d' enc = Ok h"
    by (rule ex_delivery)
  have "cn_decrypted d' \<noteq> cn_decrypted ex_peer" using d(2) ex_peer_fields(8) by simp
  from no_second_delivery [where cfg = ex_handshakeConfig, OF _ d(1) this d(3) rtranclp.rtrancl_refl d(4)]
  have "cn_decrypted (fst (handleIncomingPacket ex_conn_env d' enc ?pkt True)) = cn_decrypted d'"
    by (simp add: ex_conn_env_simps)
  with d show ?thesis by auto
qed

text \<open>
  C9. The receiving side stays within its bounds: from a connection with at most a hundred queued
  packets and a consistent fragment buffer below its limit, every sequence of operations (datagrams
  of any content read, the queue processed, packets and data written, closing) leads to one again,
  the values given to Read and the numbers accepted are only added to, and a closed connection stays
  closed.
\<close>

theorem connection_invariant:
  assumes "(conn_step env cfg)\<^sup>*\<^sup>* c c'" "length (cn_encryptedPackets c) \<le> 100" "fb_inv (cn_fragmentBuffer c)"
  shows "length (cn_encryptedPackets c') \<le> 100 \<and> fb_inv (cn_fragmentBuffer c') \<and>
    (\<exists>vs. cn_decrypted c' = cn_decrypted c @ vs) \<and> (\<forall>e. \<exists>ns. accepted c' e = accepted c e @ ns) \<and>
    (cn_closed c \<longrightarrow> cn_closed c')"
  using conn_steps_progress [OF assms(1)] assms(2,3)
  by (simp add: progress_def conn_inv_def maxAppDataPacketQueueSize_def)


theorem connection_invariant_witness:
  "\<exists>c'. (conn_step ex_conn_env ex_handshakeConfig)\<^sup>*\<^sup>* ex_peer c' \<and> cn_closed c' \<and> fb_inv (cn_fragmentBuffer c') \<and>
    length (cn_encryptedPackets c') \<le> 100"
proof -
  let ?c = "ex_peer\<lparr>cn_connectionClosedByUser := False, cn_closed := True, cn_nextConnClosed := True\<rparr>"
  have "Conn_close ex_conn_env ex_handshakeConfig ex_peer False = (?c, Ok ())"
    by (simp add: Conn_close_def ex_peer_def ex_Conn_def ex_conn_env_def)
  then have r: "(conn_step ex_conn_env ex_handshakeConfig)\<^sup>*\<^sup>* ex_peer ?c" using Step_close by blast
  have "length (cn_encryptedPackets ex_peer) \<le> 100" "fb_inv (cn_fragmentBuffer ex_peer)"
    by (simp_all add: ex_peer_def ex_Conn_def newFragmentBuffer_def fb_inv_def cache_ok_def fb_size_def)
  from connection_invariant [OF r this] r show ?thesis by (intro exI [of _ ?c]) simp
qed

end
