(* ===== verification/Conn_Robustness.thy ===== *)
theory Conn_Robustness
  imports Conn_Delivery
begin

section \<open>Records that nobody authenticated\<close>

text \<open>
  What records outside the protocol do to a connection: records that fail the checks change nothing
  but the queue, closing is final; a ChangeCipherSpec in an encrypted epoch and an alert in epoch
  zero are obeyed without authentication; a packet waiting in the queue is overwritten by the next
  datagram read into its buffer; with a connection ID a handshake record is sent again under its
  old number, so that the peer drops it.
\<close>

subsection \<open>Records that fail the checks\<close>

lemma incoming_header_no_Panic: "incoming_header c buf \<noteq> Panic"
  by (simp add: incoming_header_def rl_Header_Unmarshal_def Let_def)

lemma handleIncomingPacket_panics:
  assumes "handleIncomingPacket env c buf pkt enqueue = (c', Panic)" "\<nexists>h plain cid. passes env c buf h plain cid"
  shows "\<exists>h cs. incoming_header c buf = Ok h \<and> rl_Epoch h \<noteq> 0 \<and> suite_ready c = Some cs \<and> decrypt_record env c cs h buf = Panic"
proof (cases "incoming_header c buf")
  case (Ok h)
  note i = assms(1) [unfolded handleIncomingPacket_def incoming_header_def [symmetric] Ok, simplified]
  have "\<not> st_remoteEpoch (cn_state c) < rl_Epoch h" "replay_check env (grow_detectors (rl_Epoch h) c) h"
    using i by (auto simp: Let_def split: if_splits)
  moreover from this have "rl_Epoch h \<noteq> 0" using assms(2) Ok by (fastforce simp: passes_def not_less)
  moreover from calculation obtain cs where "suite_ready c = Some cs" using i by (auto simp: Let_def split: option.splits)
  moreover from calculation have "decrypt_record env c cs h buf \<in> {Panic, Ok None}"
    using assms(2) Ok decrypt_record_no_Err [of env c cs h buf]
    by (cases "decrypt_record env c cs h buf") (auto simp: passes_def not_less, metis option.exhaust surj_pair)
  ultimately show ?thesis using i Ok by (auto simp: Let_def)
qed (use assms incoming_header_no_Panic [of c buf] in \<open>auto simp: handleIncomingPacket_def incoming_header_def\<close>)

text \<open>
  C24. A record that fails a check is dropped: one that is not a record, of an epoch that the
  connection has not entered, with a number the replay detector refuses, or that the cipher suite
  does not decrypt, changes neither what Read gets nor epochs, peer address, handshake messages,
  fragments, accepted numbers or the network; at most it is queued. The only other outcome is a
  panic, and only when the decryption of the record panics.
\<close>

theorem rejected_record_ignored:
  assumes "handleIncomingPacket env c buf pkt enqueue = (c', r)" "\<nexists>h plain cid. passes env c buf h plain cid"
  shows "cn_decrypted c' = cn_decrypted c \<and> st_remoteEpoch (cn_state c') = st_remoteEpoch (cn_state c) \<and>
    cn_rAddr c' = cn_rAddr c \<and> cn_handshakeCache c' = cn_handshakeCache c \<and> cn_fragmentBuffer c' = cn_fragmentBuffer c \<and>
    cn_sent c' = cn_sent c \<and> cn_closed c' = cn_closed c \<and> (\<forall>e. accepted c' e = accepted c e) \<and>
    (cn_encryptedPackets c' = cn_encryptedPackets c \<or> enqueue \<and> cn_encryptedPackets c' = cn_encryptedPackets c @ [pkt]) \<and>
    (r = discard \<or> r = Panic \<and> (\<exists>h cs. incoming_header c buf = Ok h \<and> rl_Epoch h \<noteq> 0 \<and> suite_ready c = Some cs \<and>
       decrypt_record env c cs h buf = Panic))"
proof -
  from handleIncomingPacket_rejects [OF assms(2,1)] have q: "only_queued enqueue pkt c c'" and r: "r \<in> {discard, Panic}" by auto
  note handleIncomingPacket_panics [OF _ assms(2)]
  moreover have "cn_closed (grow_detectors e c) = cn_closed c" for e by (simp add: grow_detectors_def)
  ultimately show ?thesis
    using q r assms(1) by (auto simp: only_queued_def enqueue_frame) (auto simp: enqueueEncryptedPackets_def split: if_splits)
qed


theorem rejected_record_ignored_witness:
  "\<exists>c' r. handleIncomingPacket ex_conn_env ex_peer [1, 2, 3] \<lparr>ap_rAddr = [50], ap_buf = 0, ap_off = 0, ap_len = 3\<rparr> True = (c', r) \<and>
    (\<nexists>h plain cid. passes ex_conn_env ex_peer [1, 2, 3] h plain cid) \<and> cn_decrypted c' = [] \<and> r = discard"
proof -
  let ?pkt = "\<lparr>ap_rAddr = [50], ap_buf = 0, ap_off = 0, ap_len = 3\<rparr>"
  have h: "incoming_header ex_peer [1, 2, 3] = Err (Codec ErrBufferTooSmall)"
    by (simp add: incoming_header_def rl_Header_Unmarshal_def)
  obtain c' r where c: "handleIncomingPacket ex_conn_env ex_peer [1, 2, 3] ?pkt True = (c', r)" by fastforce
  have n: "\<nexists>h plain cid. passes ex_conn_env ex_peer [1, 2, 3] h plain cid" using h by (simp add: passes_def)
  from rejected_record_ignored [OF c n] c n h ex_peer_fields(8) show ?thesis by auto
qed

subsection \<open>Closing\<close>

text \<open>
  C25. Closing is final. After the user closed the connection, and whatever it does afterwards,
  writing fails with the error for closed connections and changes nothing, and closing again by the
  user or by the read loop returns that error (or the panic of sending the close alert). The first
  close itself does not return this error: it returns nothing when the read loop had closed the
  connection before, and otherwise what closing the network connection returns.
\<close>

theorem closed_connection:
  assumes "Conn_close env cfg c True = (c1, r)" "r \<noteq> Panic" "\<not> cn_connectionClosedByUser c"
    and "(conn_step env cfg)\<^sup>*\<^sup>* c1 c2"
  shows "r = (if cn_closed c then Ok () else ce_Close env) \<and>
    Conn_Write env c2 deadline p = (c2, 0, Err (Conn ErrConnClosed)) \<and>
    snd (Conn_close env cfg c2 byUser) \<in> {Err (Conn ErrConnClosed), Panic}"
proof -
  have "cn_closed c2" "cn_connectionClosedByUser c2"
    using Conn_close_progress [OF assms(1)] assms(2) conn_steps_progress [OF assms(4)] by (auto simp: progress_def)
  moreover have "cn_connectionClosedByUser d = cn_connectionClosedByUser b" "cn_closed d = cn_closed b"
    if "notify env cfg b l a = (d, q)" for b l a d q
    using same_receiverD(5,7) [OF notify_frame [OF that]] by simp_all
  ultimately show ?thesis
    using assms(1-3) by (auto simp: Conn_Write_def Conn_close_def Let_def split: if_splits prod.splits)
qed

theorem closed_connection_witness:
  "\<exists>c1. Conn_close ex_conn_env ex_handshakeConfig (ex_peer\<lparr>cn_handshakeCompletedSuccessfully := False\<rparr>) True = (c1, Ok ()) \<and>
    Conn_Write ex_conn_env c1 False [1] = (c1, 0, Err (Conn ErrConnClosed))"
proof -
  let ?c = "ex_peer\<lparr>cn_handshakeCompletedSuccessfully := False\<rparr>"
  obtain c1 r where c: "Conn_close ex_conn_env ex_handshakeConfig ?c True = (c1, r)" by fastforce
  then have "r \<noteq> Panic" "r = Ok ()" by (auto simp: Conn_close_def ex_peer_def ex_Conn_def ex_conn_env_def)
  moreover have "\<not> cn_connectionClosedByUser ?c" by (simp add: ex_peer_def ex_Conn_def)
  ultimately show ?thesis using closed_connection [OF c _ _ rtranclp.rtrancl_refl] c by blast
qed


subsection \<open>Forged records\<close>

text \<open>Records in the clear, as anybody can make them.\<close>

definition clear_header :: "ContentType \<Rightarrow> uint16 \<Rightarrow> uint64 \<Rightarrow> nat \<Rightarrow> rl_Header" where
  "clear_header t e n len = \<lparr>rl_ContentType = t, rl_ContentLen = word_of_nat len, rl_Version = Version1_2, rl_Epoch = e,
     rl_SequenceNumber = n, rl_ConnectionID = []\<rparr>"

definition clear_record :: "ContentType \<Rightarrow> uint16 \<Rightarrow> uint64 \<Rightarrow> bytes \<Rightarrow> bytes" where
  "clear_record t e n content =
     [t, 0xfe, 0xfd] @ put_uint16 e @ PutBigEndianUint48 n @ put_uint16 (word_of_nat (length content)) @ content"

lemma clear_record_header:
  assumes "t \<noteq> ContentTypeConnectionID" "n \<le> MaxSequenceNumber"
  obtains raw where "rl_Header_Marshal (clear_header t e n (length content)) = Ok raw" "clear_record t e n content = raw @ content"
    "wf_rl_Header (clear_header t e n (length content))" "length raw = 13"
proof -
  let ?raw = "[t, 0xfe, 0xfd] @ put_uint16 e @ PutBigEndianUint48 n @ put_uint16 (word_of_nat (length content))"
  show thesis
    using assms by (intro that [of ?raw]) (simp_all add: clear_header_def clear_record_def rl_Header_Marshal_def wf_rl_Header_def not_less Version1_2_def)
qed

lemma clear_record_incoming:
  assumes "t \<noteq> ContentTypeConnectionID" "n \<le> MaxSequenceNumber"
  obtains h where "incoming_header c (clear_record t e n content) = Ok h" "rl_ContentType h = t" "rl_Epoch h = e"
    "rl_SequenceNumber h = n" "length (rl_ConnectionID h) = length (opt_bytes (st_localConnectionID (cn_state c)))"
    "rl_Header_Unmarshal zero_rl_Header (clear_record t e n content) = Ok (clear_header t e n 0)"
    "opt_bytes (st_localConnectionID (cn_state c)) = [] \<Longrightarrow> h = clear_header t e n 0"
proof -
  obtain raw where r: "rl_Header_Marshal (clear_header t e n (length content)) = Ok raw" "clear_record t e n content = raw @ content"
    "wf_rl_Header (clear_header t e n (length content))" by (rule clear_record_header [OF assms])
  have z: "rl_Header_Unmarshal zero_rl_Header (clear_record t e n content) = Ok (clear_header t e n 0)"
    using rl_Header_roundtrip [OF r(3,1), of zero_rl_Header content] r(2) by (simp add: clear_header_def zero_rl_Header_def)
  let ?l = "length (opt_bytes (st_localConnectionID (cn_state c)))"
  have "clear_record t e n content ! 0 = t" by (simp add: clear_record_def)
  with z assms(1) have "incoming_header c (clear_record t e n content) = Ok ((clear_header t e n 0)\<lparr>rl_ConnectionID := replicate ?l 0\<rparr>)"
    by (auto simp: incoming_header_def rl_Header_Unmarshal_def Let_def cid_Header_def zero_rl_Header_def clear_header_def split: if_splits)
  with z show thesis by (intro that [of "(clear_header t e n 0)\<lparr>rl_ConnectionID := replicate ?l 0\<rparr>"]) (simp_all add: clear_header_def)
qed

lemma suite_Decrypt_ChangeCipherSpec:
  assumes "rl_Header_Unmarshal h0 buf = Ok h" "rl_ContentType h = ContentTypeChangeCipherSpec" "rl_Header_Size h \<le> length buf"
    and "cs_cipher cs \<notin> {None, Some CipherCustom, Some NilCipher}"
  shows "suite_Decrypt senv cb cs h0 buf = Ok buf"
  using assms
  by (auto simp: suite_Decrypt_def CCM_Decrypt_def GCM_Decrypt_def AEAD_Decrypt_def CBC_Decrypt_def Let_def slice_from_def
      split: option.splits suite_cipher.splits)

definition forged_ccs :: "uint16 \<Rightarrow> uint64 \<Rightarrow> bytes" where
  "forged_ccs e n = clear_record ContentTypeChangeCipherSpec e n [1]"

lemma forged_ccs_passes:
  assumes "opt_bytes (st_localConnectionID (cn_state c)) = []" "suite_ready c = Some cs"
    and "cs_cipher cs \<notin> {None, Some CipherCustom, Some NilCipher}" "e \<le> st_remoteEpoch (cn_state c)" "e \<noteq> 0"
    and "n \<le> MaxSequenceNumber" "ce_Check env (cn_replayProtectionWindow c) (accepted c e) n"
  shows "passes env c (forged_ccs e n) (clear_header ContentTypeChangeCipherSpec e n 0) (forged_ccs e n) False"
proof -
  let ?h = "clear_header ContentTypeChangeCipherSpec e n 0"
  have i: "incoming_header c (forged_ccs e n) = Ok ?h"
    unfolding forged_ccs_def using assms(1) by (rule_tac clear_record_incoming [OF _ assms(6), of 20 c e "[1]"]) simp_all
  have "rl_Header_Unmarshal (cid_Header 0) (forged_ccs e n) = Ok ?h" using i assms(1) by (simp add: incoming_header_def)
  from suite_Decrypt_ChangeCipherSpec [OF this _ _ assms(3)]
  have "suite_Decrypt (ce_suites env) (ce_cb env) cs (cid_Header 0) (forged_ccs e n) = Ok (forged_ccs e n)"
    by (simp add: clear_header_def rl_Header_Size_def forged_ccs_def clear_record_def)
  then have "decrypt_record env c cs ?h (forged_ccs e n) = Ok (Some (forged_ccs e n, False))"
    using assms(1) by (simp add: decrypt_record_def clear_header_def)
  moreover have "replay_check env (grow_detectors (rl_Epoch ?h) c) ?h"
    using assms(7) unfolding accepted_detector by (simp add: clear_header_def)
  ultimately show ?thesis using i assms(2,4,5) by (simp add: passes_def clear_header_def)
qed


lemma handle_plain_other:
  assumes "rl_Header_Unmarshal zero_rl_Header buf = Ok h'" "rl_ContentType h' \<noteq> ContentTypeHandshake"
    and "fb_size (cn_fragmentBuffer c) + length buf < fragmentBufferMaxSize"
    and "RecordLayer_Unmarshal (ce_cb env) zero_rl_Header buf = Ok rec"
  shows "handle_plain env c h pkt q cid buf = handle_content env c h pkt q cid (rec_Content rec)"
  using assms by (simp add: handle_plain_def push_def)

lemma clear_record_content:
  assumes "n \<le> MaxSequenceNumber" "t = ContentTypeChangeCipherSpec \<and> content = [1] \<and> x = ChangeCipherSpecC \<or>
      t = ContentTypeAlert \<and> content = [l, d] \<and> x = AlertC \<lparr>al_Level = l, al_Description = d\<rparr>"
  shows "\<exists>rec. RecordLayer_Unmarshal cb zero_rl_Header (clear_record t e n content) = Ok rec \<and> rec_Content rec = x"
proof -
  have "t \<noteq> ContentTypeConnectionID" using assms(2) by auto
  note t = clear_record_header [OF this assms(1), of e content] clear_record_incoming [OF this assms(1), of c e content]
  obtain raw where "clear_record t e n content = raw @ content" "length raw = 13" by (rule t(1))
  moreover have u: "rl_Header_Unmarshal zero_rl_Header (clear_record t e n content) = Ok (clear_header t e n 0)" by (rule t(2))
  ultimately have "slice_from (clear_record t e n content) 13 = Ok content" by simp
  with u assms(2) show ?thesis
    by (elim disjE conjE) (simp_all add: RecordLayer_Unmarshal_def clear_header_def rl_Header_Size_def
        ChangeCipherSpec_Unmarshal_def Alert_Unmarshal_def Let_def)
qed

lemma forged_ccs_accepted:
  assumes "opt_bytes (st_localConnectionID (cn_state c)) = []" "suite_ready c = Some cs"
    and "cs_cipher cs \<notin> {None, Some CipherCustom, Some NilCipher}" "st_remoteEpoch (cn_state c) = e" "e \<noteq> 0"
    and "n \<le> MaxSequenceNumber" "ce_Check env (cn_replayProtectionWindow c) (accepted c e) n"
    and "fb_size (cn_fragmentBuffer c) + 14 < fragmentBufferMaxSize"
  obtains c' where "handleIncomingPacket env c (forged_ccs e n) pkt q = (c', discard)" "st_remoteEpoch (cn_state c') = e + 1"
    "n \<in> set (accepted c' e)" "cn_replayProtectionWindow c' = cn_replayProtectionWindow c"
proof -
  let ?h = "clear_header ContentTypeChangeCipherSpec e n 0" and ?g = "grow_detectors e c"
  have p: "passes env c (forged_ccs e n) ?h (forged_ccs e n) False"
    using forged_ccs_passes [OF assms(1-3) _ assms(5-7)] assms(4) by simp
  obtain rec where rec: "RecordLayer_Unmarshal (ce_cb env) zero_rl_Header (forged_ccs e n) = Ok rec" "rec_Content rec = ChangeCipherSpecC"
    using clear_record_content [OF assms(6)] unfolding forged_ccs_def by blast
  have u: "rl_Header_Unmarshal zero_rl_Header (forged_ccs e n) = Ok ?h"
    unfolding forged_ccs_def by (rule clear_record_incoming [OF _ assms(6), of 20 c e "[1]"]) simp_all
  have f: "fb_size (cn_fragmentBuffer ?g) + length (forged_ccs e n) < fragmentBufferMaxSize"
    using assms(8) by (simp add: forged_ccs_def clear_record_def)
  obtain d l where m: "mark_valid env (setRemoteEpoch (e + 1) ?g) ?h = (d, l)" by fastforce
  have "handle_plain env ?g ?h pkt q False (forged_ccs e n) = (d, discard)"
    using assms(2,4) m rec(2) handle_plain_other [OF u _ f rec(1)]
    by (simp add: handle_content_def clear_header_def update_rAddr_def)
  then have "handleIncomingPacket env c (forged_ccs e n) pkt q = (d, discard)"
    using handleIncomingPacket_passes [OF p] by (simp add: clear_header_def)
  moreover have "st_remoteEpoch (cn_state d) = e + 1" "cn_replayProtectionWindow d = cn_replayProtectionWindow c"
    using mark_valid_frame(4,9) [OF m] by (simp_all add: setRemoteEpoch_def)
  moreover have "accepted d e = accepted (setRemoteEpoch (e + 1) ?g) e @ [n]"
    using mark_valid_accepted [OF m, of e] by (simp add: clear_header_def setRemoteEpoch_def)
  ultimately show thesis using that by simp
qed

lemma progress_accepted: "progress c c' \<Longrightarrow> n \<in> set (accepted c e) \<Longrightarrow> n \<in> set (accepted c' e)"
  unfolding progress_def by (metis Un_iff set_append)

text \<open>
  C32. One forged record ends the traffic of a connection. A ChangeCipherSpec record in the clear, of
  the current epoch and with the largest number, needs no key: an established connection without
  connection ID accepts it, moves on to the next remote epoch and records its number. When the
  replay detector works with a window, as RFC 6347 describes, then from there on, whatever happens,
  no record of that epoch whose number lies below the window is delivered any more: all of the
  peer's records are dropped.
\<close>

theorem forged_ChangeCipherSpec_blocks:
  assumes ready: "opt_bytes (st_localConnectionID (cn_state c)) = []" "suite_ready c = Some cs"
      "cs_cipher cs \<notin> {None, Some CipherCustom, Some NilCipher}" "st_remoteEpoch (cn_state c) = e" "e \<noteq> 0"
    and new: "ce_Check env (cn_replayProtectionWindow c) (accepted c e) MaxSequenceNumber"
    and room: "fb_size (cn_fragmentBuffer c) + 14 < fragmentBufferMaxSize"
    and window: "\<And>w acc n m. ce_Check env w acc n \<Longrightarrow> m \<in> set acc \<Longrightarrow> unat m < unat n + w"
  shows "\<exists>c'. handleIncomingPacket env c (forged_ccs e MaxSequenceNumber) pkt enqueue = (c', discard) \<and>
    st_remoteEpoch (cn_state c') = e + 1 \<and>
    (\<forall>c2 buf h pkt' enqueue'. (conn_step env cfg)\<^sup>*\<^sup>* c' c2 \<longrightarrow> incoming_header c2 buf = Ok h \<longrightarrow> rl_Epoch h = e \<longrightarrow>
       unat (rl_SequenceNumber h) + cn_replayProtectionWindow c < 2 ^ 48 \<longrightarrow>
       cn_decrypted (fst (handleIncomingPacket env c2 buf pkt' enqueue')) = cn_decrypted c2)"
proof -
  obtain c' where c': "handleIncomingPacket env c (forged_ccs e MaxSequenceNumber) pkt enqueue = (c', discard)"
    "st_remoteEpoch (cn_state c') = e + 1" "MaxSequenceNumber \<in> set (accepted c' e)"
    "cn_replayProtectionWindow c' = cn_replayProtectionWindow c"
    by (rule forged_ccs_accepted [OF ready order.refl new room])
  have "cn_decrypted c3 = cn_decrypted c2"
    if s: "(conn_step env cfg)\<^sup>*\<^sup>* c' c2" and h: "incoming_header c2 buf = Ok h" "rl_Epoch h = e"
      and n: "unat (rl_SequenceNumber h) + cn_replayProtectionWindow c < 2 ^ 48"
      and c3: "handleIncomingPacket env c2 buf pkt' enqueue' = (c3, r)"
    for c2 buf h pkt' enqueue' c3 r
  proof (rule ccontr)
    assume "cn_decrypted c3 \<noteq> cn_decrypted c2"
    then obtain h2 plain cid where "passes env c2 buf h2 plain cid" using handleIncomingPacket_delivers [OF c3] by blast
    then have "ce_Check env (cn_replayProtectionWindow c2) (accepted c2 e) (rl_SequenceNumber h)"
      using h by (auto simp: passes_def accepted_detector)
    moreover have "MaxSequenceNumber \<in> set (accepted c2 e)" "cn_replayProtectionWindow c2 = cn_replayProtectionWindow c"
      using progress_accepted [OF conn_steps_progress [OF s] c'(3)] conn_steps_progress [OF s] c'(4) by (simp_all add: progress_def)
    ultimately have "unat (MaxSequenceNumber :: uint64) < unat (rl_SequenceNumber h) + cn_replayProtectionWindow c"
      using window by metis
    with n show False by simp
  qed
  then have "cn_decrypted (fst (handleIncomingPacket env c2 buf pkt' enqueue')) = cn_decrypted c2"
    if "(conn_step env cfg)\<^sup>*\<^sup>* c' c2" "incoming_header c2 buf = Ok h" "rl_Epoch h = e"
      "unat (rl_SequenceNumber h) + cn_replayProtectionWindow c < 2 ^ 48" for c2 buf h pkt' enqueue'
    using that by (cases "handleIncomingPacket env c2 buf pkt' enqueue'") simp
  with c'(1,2) show ?thesis by blast
qed


text \<open>An established connection without connection IDs, and a detector with a window.\<close>

definition ex_plain :: Conn where
  "ex_plain = ex_peer\<lparr>cn_state := (cn_state ex_peer)\<lparr>st_localConnectionID := None\<rparr>\<rparr>"

definition ex_window_env :: "bytes res conn_env" where
  "ex_window_env = ex_conn_env\<lparr>ce_Check := (\<lambda>w acc n. \<forall>m \<in> set acc. unat m < unat n + w \<and> m \<noteq> n)\<rparr>"

lemma ex_plain_fields:
  "opt_bytes (st_localConnectionID (cn_state ex_plain)) = []" "suite_ready ex_plain = Some ex_peer_suite"
  "cs_cipher ex_peer_suite \<notin> {None, Some CipherCustom, Some NilCipher}" "st_remoteEpoch (cn_state ex_plain) = 1"
  "accepted ex_plain e = []" "fb_size (cn_fragmentBuffer ex_plain) = 0" "cn_handshakeCompletedSuccessfully ex_plain"
  "cn_decrypted ex_plain = []" "\<not> cn_closed ex_plain" "\<not> cn_connectionClosedByUser ex_plain"
proof -
  let ?s = NewTLSPskWithAes128Ccm8 and ?r = "Random_MarshalFixed ex_Random"
  have s: "cipherSuiteForID 0xc0a8 None = Some ?s" by (simp add: cipherSuiteForID_def builtin_cipherSuiteForID_def)
  obtain d where "suite_Init ex_env [1, 2, 3] ?r ?r False ?s = (d, Ok ())"
    by (rule suite_Init_total [OF ex_env_wf s])
  then have i: "suite_Init ex_env [1, 2, 3] ?r ?r False ?s = (ex_peer_suite, Ok ())"
    by (simp add: ex_peer_suite_def suite_of_state_def)
  show c: "cs_cipher ex_peer_suite \<notin> {None, Some CipherCustom, Some NilCipher}"
    using suite_Init_cipher [OF i] by (auto simp: suite_defs)
  then show "suite_ready ex_plain = Some ex_peer_suite"
    by (simp add: suite_ready_def ex_plain_def ex_peer_def suite_IsInitialized_def)
  show "accepted ex_plain e = []" using ex_numbers(2) [of e] by (simp add: accepted_def ex_plain_def)
qed (simp_all add: ex_plain_def ex_peer_def ex_Conn_def newFragmentBuffer_def fb_size_def ex_State_def)

theorem forged_ChangeCipherSpec_blocks_witness:
  "\<exists>c'. handleIncomingPacket ex_window_env ex_plain (forged_ccs 1 MaxSequenceNumber)
      \<lparr>ap_rAddr = [66], ap_buf = 0, ap_off = 0, ap_len = 14\<rparr> True = (c', discard) \<and>
    st_remoteEpoch (cn_state c') = 2"
proof -
  let ?pkt = "\<lparr>ap_rAddr = [66], ap_buf = 0, ap_off = 0, ap_len = 14\<rparr>"
  have w: "unat m < unat n + w" if "ce_Check ex_window_env w acc n" "m \<in> set acc" for w acc n m
    using that by (simp add: ex_window_env_def)
  have n: "ce_Check ex_window_env (cn_replayProtectionWindow ex_plain) (accepted ex_plain 1) MaxSequenceNumber"
    by (simp add: ex_window_env_def ex_plain_fields)
  have "(1 :: uint16) \<noteq> 0" "fb_size (cn_fragmentBuffer ex_plain) + 14 < fragmentBufferMaxSize" by (simp_all add: ex_plain_fields)
  then have "\<exists>c'. handleIncomingPacket ex_window_env ex_plain (forged_ccs 1 MaxSequenceNumber) ?pkt True = (c', discard) \<and>
      st_remoteEpoch (cn_state c') = 1 + 1 \<and> (\<forall>c2 buf h pkt' enqueue'. (conn_step ex_window_env ex_handshakeConfig)\<^sup>*\<^sup>* c' c2 \<longrightarrow>
       incoming_header c2 buf = Ok h \<longrightarrow> rl_Epoch h = 1 \<longrightarrow> unat (rl_SequenceNumber h) + cn_replayProtectionWindow ex_plain < 2 ^ 48 \<longrightarrow>
       cn_decrypted (fst (handleIncomingPacket ex_window_env c2 buf pkt' enqueue')) = cn_decrypted c2)"
    by (rule forged_ChangeCipherSpec_blocks [OF ex_plain_fields(1-4) _ n]) (rule w)
  then show ?thesis by auto
qed

subsection \<open>Forged alerts\<close>

text \<open>
  C33. An alert in the clear closes an established connection. A fatal alert in a record of epoch
  zero, with a number the connection has not seen there, is obeyed although the traffic of the
  connection is encrypted: the read loop reports the alert, closes the connection and the network
  connection below it, and ends.
\<close>

theorem forged_alert_closes:
  assumes "ce_Check env (cn_replayProtectionWindow c) (accepted c 0) n" "n \<le> MaxSequenceNumber" "desc \<noteq> CloseNotify"
    and "fb_size (cn_fragmentBuffer c) + 15 < fragmentBufferMaxSize" "\<not> cn_closed c" "\<not> cn_connectionClosedByUser c"
  shows "\<exists>c'. readLoop_turn env cfg c k (Ok (clear_record ContentTypeAlert 0 n [alert_Fatal, desc], a)) =
      (c', Ok (Some (ErrAlert alert_Fatal desc), False)) \<and> cn_closed c' \<and> cn_nextConnClosed c'"
proof -
  let ?rec = "clear_record ContentTypeAlert 0 n [alert_Fatal, desc]" and ?d = "read_into k (clear_record ContentTypeAlert 0 n [alert_Fatal, desc]) c"
  have frame: "cn_state ?d = cn_state c" "cn_fragmentBuffer ?d = cn_fragmentBuffer c" "cn_closed ?d = cn_closed c"
    "cn_connectionClosedByUser ?d = cn_connectionClosedByUser c"
    "cn_replayProtectionWindow ?d = cn_replayProtectionWindow c" by (simp_all add: read_into_def Let_def)
  obtain h where h: "incoming_header ?d ?rec = Ok h" "rl_Epoch h = 0" "rl_SequenceNumber h = n"
    and u: "rl_Header_Unmarshal zero_rl_Header ?rec = Ok (clear_header ContentTypeAlert 0 n 0)"
    by (rule clear_record_incoming [OF _ assms(2), of ContentTypeAlert ?d 0 "[alert_Fatal, desc]"]) simp_all
  have "replay_check env (grow_detectors (rl_Epoch h) ?d) h"
    unfolding accepted_detector using h assms(1) frame accepted_state [of ?d c] by simp
  then have p: "passes env ?d ?rec h ?rec False" using h by (simp add: passes_def)
  obtain rec where rec: "RecordLayer_Unmarshal (ce_cb env) zero_rl_Header ?rec = Ok rec"
    "rec_Content rec = AlertC \<lparr>al_Level = alert_Fatal, al_Description = desc\<rparr>"
    using clear_record_content [OF assms(2), of ContentTypeAlert "[alert_Fatal, desc]" _ alert_Fatal desc] by blast
  let ?g = "grow_detectors 0 ?d" and ?pkt = "\<lparr>ap_rAddr = a, ap_buf = k, ap_off = 0, ap_len = length ?rec\<rparr>"
  obtain e l where m: "mark_valid env ?g h = (e, l)" by fastforce
  have len: "length ?rec = 15" by (simp add: clear_record_def)
  have "fb_size (cn_fragmentBuffer ?g) + length ?rec < fragmentBufferMaxSize" using assms(4) frame len by simp
  from handle_plain_other [OF u _ this rec(1), where h = h and pkt = ?pkt and q = True and cid = False]
  have "handleIncomingPacket env ?d ?rec ?pkt True = (e, Ok (False, None, Some (ErrAlert alert_Fatal desc)))"
    using rec(2) m h(2) assms(3) by (simp add: handleIncomingPacket_passes [OF p] handle_content_def clear_header_def)
  moreover have "is_datagram l' [?rec]" for l'
    using len by (simp add: is_datagram_def is_record_def hdr_len_def clear_record_def)
  then have "ContentAwareUnpackDatagram ?rec l' = Ok [?rec]" for l' by (simp add: unpack_iff)
  ultimately have "readAndBuffer env cfg c k (Ok (?rec, a)) = (e, Err (ErrAlert alert_Fatal desc))"
    using len by (simp add: readAndBuffer_def Let_def answer_def inboundBufferSize_def)
  moreover have "\<not> cn_closed e" "\<not> cn_connectionClosedByUser e"
    using mark_valid_frame(5,13) [OF m] frame assms(5,6) by (simp_all add: grow_detectors_def)
  ultimately show ?thesis by (simp add: readLoop_turn_def IsFatalOrCloseNotify_def Conn_close_def)
qed

theorem forged_alert_closes_witness:
  "\<exists>c'. readLoop_turn ex_window_env ex_handshakeConfig ex_plain 0 (Ok (clear_record ContentTypeAlert 0 7 [2, 80], [66])) =
      (c', Ok (Some (ErrAlert 2 80), False)) \<and> cn_closed c' \<and> cn_handshakeCompletedSuccessfully ex_plain"
proof -
  have "ce_Check ex_window_env (cn_replayProtectionWindow ex_plain) (accepted ex_plain 0) 7"
    by (simp add: ex_window_env_def ex_plain_fields)
  from forged_alert_closes [OF this, where desc = 80 and cfg = ex_handshakeConfig and k = 0 and a = "[66]"] show ?thesis
    by (auto simp: ex_plain_fields)
qed


subsection \<open>Packets waiting for keys\<close>

lemma readAndBuffer_queues:
  assumes "is_datagram (length (opt_bytes (st_localConnectionID (cn_state c)))) [d]" "length d \<le> inboundBufferSize"
    and "incoming_header c d = Ok h" "st_remoteEpoch (cn_state c) < rl_Epoch h" "rl_Epoch h \<le> st_remoteEpoch (cn_state c) + 1"
    and "length (cn_encryptedPackets c) < maxAppDataPacketQueueSize"
  shows "readAndBuffer env cfg c k (Ok (d, a)) =
    ((read_into k d c)\<lparr>cn_encryptedPackets := cn_encryptedPackets c @ [\<lparr>ap_rAddr = a, ap_buf = k, ap_off = 0, ap_len = length d\<rparr>]\<rparr>, Ok False)"
proof -
  have f: "cn_state (read_into k d c) = cn_state c" "cn_encryptedPackets (read_into k d c) = cn_encryptedPackets c"
    by (simp_all add: read_into_def Let_def)
  have "ContentAwareUnpackDatagram d (length (opt_bytes (st_localConnectionID (cn_state c)))) = Ok [d]"
    using assms(1) by (simp add: unpack_iff)
  then show ?thesis
    using assms f
    by (simp add: readAndBuffer_def Let_def handleIncomingPacket_def incoming_header_def enqueueEncryptedPackets_def answer_def)
qed

text \<open>
  C37. A packet that waits for keys can lose its bytes. Two datagrams of one record each, of the
  next epoch, are read one after the other and queued. When the pool hands out the same buffer for
  both reads, the first queued packet consists, from then on, of the bytes of the second datagram
  (followed by its own where it is longer); only with different buffers it is what was received.
\<close>

theorem queued_packet_overwritten:
  assumes "cn_encryptedPackets c = []" "k1 < length (cn_buffers c)" "k2 < length (cn_buffers c)"
    and "length (cn_buffers c ! k1) = inboundBufferSize" "length (cn_buffers c ! k2) = inboundBufferSize"
    and "is_datagram (length (opt_bytes (st_localConnectionID (cn_state c)))) [d1]" "length d1 \<le> inboundBufferSize"
    and "is_datagram (length (opt_bytes (st_localConnectionID (cn_state c)))) [d2]" "length d2 \<le> inboundBufferSize"
    and "incoming_header c d1 = Ok h1" "st_remoteEpoch (cn_state c) < rl_Epoch h1" "rl_Epoch h1 \<le> st_remoteEpoch (cn_state c) + 1"
    and "incoming_header c d2 = Ok h2" "st_remoteEpoch (cn_state c) < rl_Epoch h2" "rl_Epoch h2 \<le> st_remoteEpoch (cn_state c) + 1"
  shows "\<exists>c1 c2. readAndBuffer env cfg c k1 (Ok (d1, a1)) = (c1, Ok False) \<and> readAndBuffer env cfg c1 k2 (Ok (d2, a2)) = (c2, Ok False) \<and>
    map (slice_bytes c1) (cn_encryptedPackets c1) = [d1] \<and>
    map (slice_bytes c2) (cn_encryptedPackets c2) = [if k1 = k2 then take (length d1) (d2 @ drop (length d2) d1) else d1, d2]"
proof -
  let ?p1 = "\<lparr>ap_rAddr = a1, ap_buf = k1, ap_off = 0, ap_len = length d1\<rparr>" and ?p2 = "\<lparr>ap_rAddr = a2, ap_buf = k2, ap_off = 0, ap_len = length d2\<rparr>"
  define c1 where "c1 = (read_into k1 d1 c)\<lparr>cn_encryptedPackets := [?p1]\<rparr>"
  define c2 where "c2 = (read_into k2 d2 c1)\<lparr>cn_encryptedPackets := [?p1, ?p2]\<rparr>"
  have r1: "readAndBuffer env cfg c k1 (Ok (d1, a1)) = (c1, Ok False)"
    using readAndBuffer_queues [OF assms(6,7,10-12), where env = env and cfg = cfg and k = k1 and a = a1] assms(1)
    by (simp add: c1_def maxAppDataPacketQueueSize_def)
  have st: "cn_state c1 = cn_state c" "cn_encryptedPackets c1 = [?p1]" by (simp_all add: c1_def read_into_def Let_def)
  have "readAndBuffer env cfg c1 k2 (Ok (d2, a2)) = (c2, Ok False)"
    using readAndBuffer_queues [of c1 d2 h2, where env = env and cfg = cfg and k = k2 and a = a2] assms(8,9,13-15) st
    by (simp add: c2_def maxAppDataPacketQueueSize_def incoming_header_def)
  moreover have b1: "cn_buffers c1 = (cn_buffers c)[k1 := d1 @ drop (length d1) (cn_buffers c ! k1)]"
    using assms(2) by (simp add: c1_def read_into_def Let_def)
  moreover have b2: "cn_buffers c2 = (cn_buffers c1)[k2 := d2 @ drop (length d2) (cn_buffers c1 ! k2)]"
    using assms(3) b1 by (simp add: c2_def read_into_def Let_def)
  have "slice_bytes c1 ?p1 = d1" using b1 assms(2) by (simp add: slice_bytes_def)
  moreover have "slice_bytes c2 ?p2 = d2" using b2 b1 assms(3) by (simp add: slice_bytes_def)
  moreover have "slice_bytes c2 ?p1 = (if k1 = k2 then take (length d1) (d2 @ drop (length d2) d1) else d1)"
    using b1 b2 assms(2,3) by (auto simp: slice_bytes_def)
  moreover have "cn_encryptedPackets c2 = [?p1, ?p2]" by (simp add: c2_def)
  ultimately show ?thesis using r1 st(2) by (intro exI [of _ c1] exI [of _ c2]) simp
qed


theorem queued_packet_overwritten_witness:
  "\<exists>c1 c2. readAndBuffer ex_conn_env ex_handshakeConfig (ex_plain\<lparr>cn_buffers := [replicate inboundBufferSize 0]\<rparr>) 0
      (Ok (clear_record ContentTypeApplicationData 2 0 [1], [50])) = (c1, Ok False) \<and>
    readAndBuffer ex_conn_env ex_handshakeConfig c1 0 (Ok (clear_record ContentTypeApplicationData 2 1 [9], [50])) = (c2, Ok False) \<and>
    map (slice_bytes c2) (cn_encryptedPackets c2) =
      [clear_record ContentTypeApplicationData 2 1 [9], clear_record ContentTypeApplicationData 2 1 [9]]"
proof -
  let ?c = "ex_plain\<lparr>cn_buffers := [replicate inboundBufferSize 0]\<rparr>"
  let ?d1 = "clear_record ContentTypeApplicationData 2 0 [1]" and ?d2 = "clear_record ContentTypeApplicationData 2 1 [9]"
  have len: "length ?d1 = 14" "length ?d2 = 14" by (simp_all add: clear_record_def)
  have dg: "is_datagram n [?d1]" "is_datagram n [?d2]" for n
    by (simp_all add: is_datagram_def is_record_def hdr_len_def clear_record_def)
  obtain h1 where h1: "incoming_header ?c ?d1 = Ok h1" "rl_Epoch h1 = 2"
    by (rule clear_record_incoming [of ContentTypeApplicationData 0 ?c 2 "[1]"]) simp_all
  obtain h2 where h2: "incoming_header ?c ?d2 = Ok h2" "rl_Epoch h2 = 2"
    by (rule clear_record_incoming [of ContentTypeApplicationData 1 ?c 2 "[9]"]) simp_all
  have "cn_encryptedPackets ?c = []" "st_remoteEpoch (cn_state ?c) = 1"
    by (simp_all add: ex_plain_fields) (simp add: ex_plain_def ex_peer_def ex_Conn_def)
  then have "\<exists>c1 c2. readAndBuffer ex_conn_env ex_handshakeConfig ?c 0 (Ok (?d1, [50])) = (c1, Ok False) \<and>
      readAndBuffer ex_conn_env ex_handshakeConfig c1 0 (Ok (?d2, [50])) = (c2, Ok False) \<and>
      map (slice_bytes c1) (cn_encryptedPackets c1) = [?d1] \<and> map (slice_bytes c2) (cn_encryptedPackets c2) =
        [if 0 = (0 :: nat) then take (length ?d1) (?d2 @ drop (length ?d2) ?d1) else ?d1, ?d2]"
    using h1(2) h2(2) len
    by (intro queued_packet_overwritten [OF _ _ _ _ _ dg(1) _ dg(2) _ h1(1) _ _ h2(1)]) (simp_all add: inboundBufferSize_def)
  then obtain c1 c2 where "readAndBuffer ex_conn_env ex_handshakeConfig ?c 0 (Ok (?d1, [50])) = (c1, Ok False)"
    "readAndBuffer ex_conn_env ex_handshakeConfig c1 0 (Ok (?d2, [50])) = (c2, Ok False)"
    "map (slice_bytes c2) (cn_encryptedPackets c2) = [take (length ?d1) (?d2 @ drop (length ?d2) ?d1), ?d2]" by auto
  moreover from this(3) have "map (slice_bytes c2) (cn_encryptedPackets c2) = [?d2, ?d2]" by (simp only: len) (simp add: len)
  ultimately show ?thesis by (intro exI [of _ c1] exI [of _ c2] conjI)
qed

subsection \<open>Handshake records sent again\<close>

lemma processHandshakePacket_loop_packet:
  assumes "processHandshakePacket_loop env epoch c p frags raws = (c', p', r)" "pk_shouldWrapCID p"
  shows "pk_shouldWrapCID p' \<and> rl_Epoch (rec_Header (pk_record p')) = rl_Epoch (rec_Header (pk_record p)) \<and>
    rl_SequenceNumber (rec_Header (pk_record p')) = rl_SequenceNumber (rec_Header (pk_record p))"
  using assms
proof (induction env epoch c p frags raws rule: processHandshakePacket_loop.induct)
  case (2 env epoch c p frag frags raws)
  obtain seq c1 where n: "next_seq epoch c = (seq, c1)" by fastforce
  show ?case
  proof (cases "fragment_raw env c1 p seq frag")
    case (Ok x)
    obtain raw hdr where x: "x = (raw, hdr)" by fastforce
    let ?p = "p\<lparr>pk_record := (pk_record p)\<lparr>rec_Header := hdr\<rparr>\<rparr>"
    have hdr: "rl_Epoch hdr = rl_Epoch (rec_Header (pk_record p))" "rl_SequenceNumber hdr = rl_SequenceNumber (rec_Header (pk_record p))"
      using fragment_raw_wire(3,4) [of env c1 p seq frag raw hdr] Ok x "2.prems"(2) by simp_all
    obtain c2 r2 where e: "encrypt_raw env c1 ?p raw = (c2, r2)" by fastforce
    have w: "pk_shouldWrapCID ?p" using "2.prems"(2) by simp
    show ?thesis
    proof (cases r2)
      case (Ok raw')
      have "\<not> MaxSequenceNumber < seq \<or> p' = p" using "2.prems"(1) n by (auto split: if_splits)
      then show ?thesis
      proof
        assume le: "\<not> MaxSequenceNumber < seq"
        then have "processHandshakePacket_loop env epoch c2 ?p frags (raws @ [raw']) = (c', p', r)"
          using "2.prems"(1) n \<open>fragment_raw env c1 p seq frag = Ok x\<close> x e Ok by (simp add: Let_def)
        from "2.IH" [OF n [symmetric] refl le \<open>fragment_raw env c1 p seq frag = Ok x\<close> x [symmetric] refl e [symmetric] refl Ok this w]
        show ?thesis using hdr by simp
      qed (use "2.prems"(2) in simp)
    qed (use "2.prems" n \<open>fragment_raw env c1 p seq frag = Ok x\<close> x e hdr in \<open>auto simp: Let_def split: if_splits\<close>)
  qed (use "2.prems" n in \<open>auto split: if_splits\<close>)
qed auto

lemma processHandshakePacket_packet:
  assumes "processHandshakePacket env c p h = (c', p', r)" "pk_shouldWrapCID p"
  shows "pk_shouldWrapCID p' \<and> rl_Epoch (rec_Header (pk_record p')) = rl_Epoch (rec_Header (pk_record p)) \<and>
    rl_SequenceNumber (rec_Header (pk_record p')) = rl_SequenceNumber (rec_Header (pk_record p))"
proof (cases "fragmentHandshake (ce_cb env) (cn_maximumTransmissionUnit c) h")
  case (Ok frags)
  note l = assms(1) [unfolded processHandshakePacket_def Ok res.case Let_def]
  show ?thesis by (rule processHandshakePacket_loop_packet [OF l assms(2)])
qed (use assms in \<open>auto simp: processHandshakePacket_def\<close>)

lemma incoming_header_wire:
  "incoming_header c buf = Ok h \<Longrightarrow> rl_Epoch h = wire_epoch buf \<and> rl_SequenceNumber h = wire_seq buf"
  by (auto simp: incoming_header_def rl_Header_Unmarshal_def wire_epoch_def wire_seq_def Let_def split: if_splits)

lemma replayed_record:
  assumes "incoming_header c buf = Ok h" "\<not> replay_check env (grow_detectors (rl_Epoch h) c) h"
  shows "snd (handleIncomingPacket env c buf pkt q) = discard \<and>
    cn_handshakeCache (fst (handleIncomingPacket env c buf pkt q)) = cn_handshakeCache c"
  using assms enqueue_frame(7) [of c pkt] by (simp add: handleIncomingPacket_def incoming_header_def Let_def)

lemma cid_record_numbers:
  assumes "processHandshakePacket env c p h = (c1, p1, Ok raws)" "pk_shouldWrapCID p"
    and "\<And>cs. st_cipherSuite (cn_state c) = Some cs \<Longrightarrow> cs_cipher cs \<noteq> Some CipherCustom" "raw \<in> set raws"
  shows "wire_seq raw = rl_SequenceNumber (rec_Header (pk_record p))" "wire_epoch raw = rl_Epoch (rec_Header (pk_record p))"
proof -
  obtain frags where l: "processHandshakePacket_loop env (rl_Epoch (rec_Header (pk_record p)))
      (upd_state (\<lambda>s. s\<lparr>st_localSequenceNumber := grow (st_localSequenceNumber s) (unat (rl_Epoch (rec_Header (pk_record p)))) 0\<rparr>) c)
      p frags [] = (c1, p1, Ok raws)"
    using assms(1) by (auto simp: processHandshakePacket_def Let_def split: res.splits)
  have "cs_cipher cs \<noteq> Some CipherCustom" if "st_cipherSuite (cn_state (upd_state (\<lambda>s. s\<lparr>st_localSequenceNumber :=
      grow (st_localSequenceNumber s) (unat (rl_Epoch (rec_Header (pk_record p)))) 0\<rparr>) c)) = Some cs" for cs
    using assms(3) that by simp
  from fragment_numbers [OF l refl this] assms(2)
  have e: "\<forall>d \<in> set raws. wire_epoch d = rl_Epoch (rec_Header (pk_record p))"
    and n: "map (\<lambda>d. unat (wire_seq d)) raws = replicate (length frags) (unat (rl_SequenceNumber (rec_Header (pk_record p))))"
    by auto
  from arg_cong [OF n, of set] assms(4) have "unat (wire_seq raw) = unat (rl_SequenceNumber (rec_Header (pk_record p)))"
    by (auto split: if_splits)
  then show "wire_seq raw = rl_SequenceNumber (rec_Header (pk_record p))" by (simp add: word_unat_eq_iff)
  show "wire_epoch raw = rl_Epoch (rec_Header (pk_record p))" using e assms(4) by blast
qed


text \<open>
  C36. A handshake record with connection ID that is sent again is dropped. The packet keeps the
  number of its first transmission, so all records of the second one carry it too, whatever was sent
  in between; a peer that accepted the first transmission, with a detector that refuses accepted
  numbers, drops every record of the second without noticing a retransmission.
\<close>

theorem retransmission_with_cid_dropped:
  assumes "processHandshakePacket env c p h = (c1, p1, Ok raws)" "processHandshakePacket env c2 p1 h = (c3, p2, Ok raws2)"
    and "pk_shouldWrapCID p" "raw \<in> set raws" "raw2 \<in> set raws2"
    and "\<And>cs. st_cipherSuite (cn_state c) = Some cs \<Longrightarrow> cs_cipher cs \<noteq> Some CipherCustom"
    and "\<And>cs. st_cipherSuite (cn_state c2) = Some cs \<Longrightarrow> cs_cipher cs \<noteq> Some CipherCustom"
    and "incoming_header d raw2 = Ok h2" "wire_seq raw \<in> set (accepted d (wire_epoch raw))"
    and "\<And>w acc n. ce_Check env' w acc n \<Longrightarrow> n \<notin> set acc"
  shows "wire_seq raw2 = wire_seq raw \<and> wire_epoch raw2 = wire_epoch raw \<and>
    snd (handleIncomingPacket env' d raw2 pkt q) = discard \<and>
    cn_handshakeCache (fst (handleIncomingPacket env' d raw2 pkt q)) = cn_handshakeCache d"
proof -
  have p1: "pk_shouldWrapCID p1" "rl_Epoch (rec_Header (pk_record p1)) = rl_Epoch (rec_Header (pk_record p))"
    "rl_SequenceNumber (rec_Header (pk_record p1)) = rl_SequenceNumber (rec_Header (pk_record p))"
    using processHandshakePacket_packet [OF assms(1,3)] by simp_all
  have same: "wire_seq raw2 = wire_seq raw" "wire_epoch raw2 = wire_epoch raw"
    using cid_record_numbers [OF assms(1,3,6,4)] cid_record_numbers [OF assms(2) p1(1) assms(7,5)] p1(2,3) by simp_all
  have "\<not> replay_check env' (grow_detectors (rl_Epoch h2) d) h2"
    using incoming_header_wire [OF assms(8)] assms(9,10) same unfolding accepted_detector by auto
  from replayed_record [OF assms(8) this] same show ?thesis by simp
qed


lemma ex_cid_packet:
  assumes "pk_shouldWrapCID p" "\<not> pk_shouldEncrypt p" "rl_Epoch (rec_Header (pk_record p)) = 1"
    "rl_SequenceNumber (rec_Header (pk_record p)) = 0" "rl_Version (rec_Header (pk_record p)) = Version1_2"
  obtains c' p' raws hd raw body where "processHandshakePacket ex_conn_env ex_Conn p ex_handshake = (c', p', Ok ((raw @ body) # raws))"
    "\<not> pk_shouldEncrypt p'" "rl_Version (rec_Header (pk_record p')) = Version1_2"
    "rl_Header_Marshal hd = Ok raw" "wf_rl_Header hd" "rl_ConnectionID hd = [5, 6]"
proof -
  let ?hd = "ex_cid_Header\<lparr>rl_ContentLen := 1 + word_of_nat (length ex_fragment1)\<rparr>"
  obtain raw where raw: "rl_Header_Marshal ?hd = Ok raw" by (simp add: rl_Header_Marshal_def ex_cid_Header_def)
  have "\<exists>c' p' raws. processHandshakePacket ex_conn_env ex_Conn p ex_handshake = (c', p', Ok ((raw @ ex_fragment1 @ [22]) # raws)) \<and>
      \<not> pk_shouldEncrypt p' \<and> rl_Version (rec_Header (pk_record p')) = Version1_2"
    using ex_fragments assms raw
    by (auto simp add: processHandshakePacket_def ex_conn_env_def ex_Conn_def Let_def next_seq_def
        fragment_raw_def std_cb_simps InnerPlaintext_Marshal_def cid_record_header_def ex_cid_Header_def
        rl_Header_Marshal_def encrypt_raw_def)
  moreover have "wf_rl_Header ?hd" "rl_ConnectionID ?hd = [5, 6]" by (simp_all add: wf_rl_Header_def ex_cid_Header_def)
  ultimately show thesis using that raw by blast
qed

theorem retransmission_with_cid_dropped_witness:
  "\<exists>c1 p1 raw raws c3 p2 raw2 raws2 d'.
    processHandshakePacket ex_conn_env ex_Conn ex_packet ex_handshake = (c1, p1, Ok (raw # raws)) \<and>
    processHandshakePacket ex_conn_env ex_Conn p1 ex_handshake = (c3, p2, Ok (raw2 # raws2)) \<and>
    handleIncomingPacket ex_conn_env (ex_peer\<lparr>cn_state := (cn_state ex_peer)\<lparr>st_replayDetector := [[], [0]]\<rparr>\<rparr>) raw2
      \<lparr>ap_rAddr = [50], ap_buf = 0, ap_off = 0, ap_len = 40\<rparr> True = (d', discard)"
proof -
  let ?d = "ex_peer\<lparr>cn_state := (cn_state ex_peer)\<lparr>st_replayDetector := [[], [0]]\<rparr>\<rparr>"
    and ?pkt = "\<lparr>ap_rAddr = [50], ap_buf = 0, ap_off = 0, ap_len = 40\<rparr>"
  have p: "pk_shouldWrapCID ex_packet" "\<not> pk_shouldEncrypt ex_packet" "rl_Epoch (rec_Header (pk_record ex_packet)) = 1"
    "rl_SequenceNumber (rec_Header (pk_record ex_packet)) = 0" "rl_Version (rec_Header (pk_record ex_packet)) = Version1_2"
    by (simp_all add: ex_packet_def plain_header_def zero_rl_Header_def)
  obtain c1 p1 raws hd raw body where r: "processHandshakePacket ex_conn_env ex_Conn ex_packet ex_handshake = (c1, p1, Ok ((raw @ body) # raws))"
    "\<not> pk_shouldEncrypt p1" "rl_Version (rec_Header (pk_record p1)) = Version1_2"
    by (rule ex_cid_packet [OF p])
  have p1: "pk_shouldWrapCID p1" "rl_Epoch (rec_Header (pk_record p1)) = 1" "rl_SequenceNumber (rec_Header (pk_record p1)) = 0"
    using processHandshakePacket_packet [OF r(1) p(1)] p(3,4) by simp_all
  obtain c3 p2 raws2 hd2 raw2 body2 where r2: "processHandshakePacket ex_conn_env ex_Conn p1 ex_handshake = (c3, p2, Ok ((raw2 @ body2) # raws2))"
    and hd: "rl_Header_Marshal hd2 = Ok raw2" "wf_rl_Header hd2" "rl_ConnectionID hd2 = [5, 6]"
    by (rule ex_cid_packet [OF p1(1) r(2) p1(2,3) r(3)])
  have cs: "cs_cipher cs \<noteq> Some CipherCustom" if "st_cipherSuite (cn_state ex_Conn) = Some cs" for cs
    using that ex_State_suite_cipher(1) by (simp add: ex_Conn_def)
  have "wire_seq (raw @ body) = 0" "wire_epoch (raw @ body) = 1" using cid_record_numbers [OF r(1) p(1) cs] p(3,4) by auto
  moreover have "accepted ?d 1 = [0]" by (simp add: accepted_def)
  ultimately have n: "wire_seq (raw @ body) \<in> set (accepted ?d (wire_epoch (raw @ body)))" by simp
  have h: "incoming_header ?d (raw2 @ body2) = Ok (hd2\<lparr>rl_ContentLen := 0\<rparr>)"
    using rl_Header_roundtrip [OF hd(2,1), of "cid_Header 2" body2] hd(3)
    by (simp add: incoming_header_def ex_peer_def cid_Header_def zero_rl_Header_def numeral_2_eq_2)
  have c: "n \<notin> set acc" if "ce_Check ex_conn_env w acc n" for w acc n using that by (simp add: ex_conn_env_simps)
  have "snd (handleIncomingPacket ex_conn_env ?d (raw2 @ body2) ?pkt True) = discard"
    using retransmission_with_cid_dropped [OF r(1) r2 p(1) _ _ cs cs h n, where env' = ex_conn_env and pkt = ?pkt and q = True] c by simp
  then have "handleIncomingPacket ex_conn_env ?d (raw2 @ body2) ?pkt True =
      (fst (handleIncomingPacket ex_conn_env ?d (raw2 @ body2) ?pkt True), discard)"
    by (metis prod.collapse)
  with r(1) r2 show ?thesis by blast
qed

end
