(* ===== verification/Handshake_Flights.thy ===== *)
theory Handshake_Flights
  imports Connection
begin

section \<open>The flights of the handshake: flight.go and the flight handlers\<close>

text \<open>
  One parser and one generator per flight. They work on the connection's own state and cache, so
  each is a function from the connection to the new one and an outcome.
  \<^item> \<open>outcome\<close> is what a handler returns: \<open>Next x\<close> is \<^verbatim>\<open>x, nil, nil\<close>, \<open>Fail a e\<close> an alert, an
    error or both, \<open>Abort\<close> a panic. A parser that needs more messages returns \<open>Next noFlight\<close>.
  \<^item> \<open>hs_env\<close> adds to \<open>conn_env\<close> what the flights use from outside the repository: the random
    source and the clock (by the number of the draw), the generation of keys on a curve and the
    operations on it, whether a string reads as an IP address. A generator of the configuration is called with the number of the draw.
  \<^item> The lines written to the key log are not represented.
\<close>

datatype flightVal =
  noFlight | flight0 | flight1 | flight2 | flight3 | flight4 | flight4b | flight5 | flight5b | flight6

fun isLastSendFlight :: "flightVal \<Rightarrow> bool" where
  "isLastSendFlight f \<longleftrightarrow> f = flight6 \<or> f = flight5b"

fun isLastRecvFlight :: "flightVal \<Rightarrow> bool" where
  "isLastRecvFlight f \<longleftrightarrow> f = flight5 \<or> f = flight4b"

subsection \<open>Outcomes and environment\<close>

datatype 'r outcome = Next 'r | Fail "Alert option" "error option" | Abort

abbreviation fatal :: "byte \<Rightarrow> error \<Rightarrow> 'r outcome" where
  "fatal desc e \<equiv> Fail (Some \<lparr>al_Level = alert_Fatal, al_Description = desc\<rparr>) (Some e)"

abbreviation fatal_alert :: "byte \<Rightarrow> 'r outcome" where
  "fatal_alert desc \<equiv> Fail (Some \<lparr>al_Level = alert_Fatal, al_Description = desc\<rparr>) None"

abbreviation keep_reading :: "flightVal outcome" where
  "keep_reading \<equiv> Next noFlight"

text \<open>
  \<open>check\<close> is \<^verbatim>\<open>if err != nil { return 0, &alert.Alert{alert.Fatal, desc}, err }\<close>, \<open>andThen\<close> goes on
  with the value.
\<close>

definition check :: "Conn \<Rightarrow> byte \<Rightarrow> 'a res \<Rightarrow> Conn \<times> 'a outcome" where
  "check c desc r = (c, case r of Ok x \<Rightarrow> Next x | Err e \<Rightarrow> fatal desc e | Panic \<Rightarrow> Abort)"

definition andThen :: "Conn \<times> 'a outcome \<Rightarrow> (Conn \<Rightarrow> 'a \<Rightarrow> Conn \<times> 'b outcome) \<Rightarrow> Conn \<times> 'b outcome" where
  "andThen r k = (case r of (c, Next x) \<Rightarrow> k c x | (c, Fail a e) \<Rightarrow> (c, Fail a e) | (c, Abort) \<Rightarrow> (c, Abort))"

lemma check_simps [simp]:
  "check c desc (Ok x) = (c, Next x)"
  "check c desc (Err e) = (c, fatal desc e)"
  "check c desc Panic = (c, Abort)"
  by (simp_all add: check_def)

lemma andThen_simps [simp]:
  "andThen (c, Next x) k = k c x"
  "andThen (c, Fail a e) k = (c, Fail a e)"
  "andThen (c, Abort) k = (c, Abort)"
  by (simp_all add: andThen_def)

lemma andThen_eq_Next:
  "andThen r k = (c, Next y) \<longleftrightarrow> (\<exists>c' x. r = (c', Next x) \<and> k c' x = (c, Next y))"
  by (auto simp: andThen_def split: prod.splits outcome.splits)

lemma check_eq_Next: "check c desc r = (c', Next x) \<longleftrightarrow> c' = c \<and> r = Ok x"
  by (auto simp: check_def split: res.splits)

lemma andThen_check_eq_Next:
  "andThen (check c desc r) k = (c', Next y) \<longleftrightarrow> (\<exists>x. r = Ok x \<and> k c x = (c', Next y))"
  by (cases r) auto

record 'b hs_env =
  he_conn :: "'b conn_env"
  he_rand :: "nat \<Rightarrow> nat \<Rightarrow> bytes res"
  he_Now :: "nat \<Rightarrow> int"
  he_baseMult :: "bytes \<Rightarrow> bytes"
  he_genKey :: "nat \<Rightarrow> uint16 \<Rightarrow> (bytes \<times> bytes) res"
  he_curves :: curve_ops
  he_ParseIP :: "bytes \<Rightarrow> bool"

definition draw :: "Conn \<Rightarrow> Conn" where
  "draw c = c\<lparr>cn_draws := cn_draws c + 1\<rparr>"

definition suite_HashFunc :: "'b hs_env \<Rightarrow> CipherSuite \<Rightarrow> HashFunc" where
  "suite_HashFunc env cs = se_hash (ce_suites (he_conn env)) (cs_HashFunc cs)"

text \<open>\<^verbatim>\<open>x, err = f()\<close>: the variable is overwritten also when there is an error.\<close>

definition res_bytes :: "bytes res \<Rightarrow> bytes" where
  "res_bytes r = (case r of Ok x \<Rightarrow> x | _ \<Rightarrow> [])"

text \<open>\<^verbatim>\<open>cache.fullPullMap\<close> with the state's cipher suite.\<close>

definition pull ::
  "'b hs_env \<Rightarrow> Conn \<Rightarrow> int \<Rightarrow> handshakeCachePullRule list \<Rightarrow>
   (int \<Rightarrow> (byte \<rightharpoonup> Message) option \<Rightarrow> Conn \<times> 'r outcome) \<Rightarrow> Conn \<times> 'r outcome" where
  "pull env c startSeq rules k =
     (case fullPullMap (ce_cb (he_conn env)) (cn_handshakeCache c) startSeq
             (map_option cs_KeyExchangeAlgorithm (st_cipherSuite (cn_state c))) rules of
        Ok (seq, msgs) \<Rightarrow> k seq msgs
      | _ \<Rightarrow> (c, Abort))"

text \<open>\<^verbatim>\<open>elliptic.GenerateKeypair\<close> into \<^verbatim>\<open>state.localKeypair\<close>.\<close>

definition set_keypair :: "'b hs_env \<Rightarrow> uint16 \<Rightarrow> byte \<Rightarrow> Conn \<Rightarrow> Conn \<times> Keypair outcome" where
  "set_keypair env curve desc c =
     (let r = GenerateKeypair (he_rand env (cn_draws c) 32) (he_baseMult env) (he_genKey env (cn_draws c)) curve;
          c = upd_state (\<lambda>s. s\<lparr>st_localKeypair := (case r of Ok k \<Rightarrow> Some k | _ \<Rightarrow> None)\<rparr>) (draw c) in
      check c desc r)"

text \<open>\<^verbatim>\<open>cfg.verifyConnection(state.clone())\<close>, when there is such a callback.\<close>

definition verify_connection :: "handshakeConfig \<Rightarrow> Conn \<Rightarrow> Conn \<times> unit outcome" where
  "verify_connection cfg c =
     (case hc_verifyConnection cfg of
        None \<Rightarrow> (c, Next ())
      | Some f \<Rightarrow>
          (case state_clone (cn_state c) of
             Ok s \<Rightarrow> check c BadCertificate (f s)
           | _ \<Rightarrow> (c, Abort)))"

definition verify_peer_certificate :: "handshakeConfig \<Rightarrow> Conn \<Rightarrow> x509_cert list list \<Rightarrow> Conn \<times> unit outcome" where
  "verify_peer_certificate cfg c verifiedChains =
     (case hc_verifyPeerCertificate cfg of
        None \<Rightarrow> (c, Next ())
      | Some f \<Rightarrow> check c BadCertificate (f (st_PeerCertificates (cn_state c)) verifiedChains))"

text \<open>\<^verbatim>\<open>cfg.sessionStore.Set\<close>, a nil dereference without a store.\<close>

definition store_session :: "handshakeConfig \<Rightarrow> Conn \<Rightarrow> bytes \<Rightarrow> Conn \<times> unit outcome" where
  "store_session cfg c key =
     (let s = \<lparr>ss_ID = Some (st_SessionID (cn_state c)), ss_Secret = st_masterSecret (cn_state c)\<rparr> in
      case hc_sessionStore cfg of
        None \<Rightarrow> (c, Abort)
      | Some ss \<Rightarrow>
          check (c\<lparr>cn_storeLog := cn_storeLog c @ [StoreSet key s]\<rparr>) InternalError
            (store_Set ss (cn_storeLog c) key s))"

subsection \<open>Packets\<close>

definition hs_packet :: "Message \<Rightarrow> packet" where
  "hs_packet m =
     \<lparr>pk_record = \<lparr>rec_Header = plain_header 0,
        rec_Content = HandshakeC \<lparr>hd_Header = \<lparr>hs_Type = 0, hs_Length = 0, hs_MessageSequence = 0,
            hs_FragmentOffset = 0, hs_FragmentLength = 0\<rparr>, hd_Message = Some m\<rparr>\<rparr>,
      pk_shouldEncrypt = False, pk_shouldWrapCID = False, pk_resetLocalSequenceNumber = False\<rparr>"

definition ccs_packet :: packet where
  "ccs_packet =
     \<lparr>pk_record = \<lparr>rec_Header = plain_header 0, rec_Content = ChangeCipherSpecC\<rparr>,
      pk_shouldEncrypt = False, pk_shouldWrapCID = False, pk_resetLocalSequenceNumber = False\<rparr>"

definition finished_packet :: "bool \<Rightarrow> bytes \<Rightarrow> packet" where
  "finished_packet wrapCID verifyData =
     (let p = hs_packet (MFinished verifyData) in
      p\<lparr>pk_record := (pk_record p)\<lparr>rec_Header := plain_header 1\<rparr>, pk_shouldEncrypt := True,
        pk_shouldWrapCID := wrapCID, pk_resetLocalSequenceNumber := True\<rparr>)"

text \<open>The transcript of a full handshake up to the client's Finished, and of a resumed one.\<close>

definition full_rules :: "uint16 \<Rightarrow> handshakeCachePullRule list" where
  "full_rules epoch =
     [pull_rule TypeClientHello epoch True False,
      pull_rule TypeServerHello epoch False False,
      pull_rule TypeCertificate epoch False False,
      pull_rule TypeServerKeyExchange epoch False False,
      pull_rule TypeCertificateRequest epoch False False,
      pull_rule TypeServerHelloDone epoch False False,
      pull_rule TypeCertificate epoch True False,
      pull_rule TypeClientKeyExchange epoch True False,
      pull_rule TypeCertificateVerify epoch True False,
      pull_rule TypeFinished (epoch + 1) True False]"

definition certificate_verify_rules :: "uint16 \<Rightarrow> handshakeCachePullRule list" where
  "certificate_verify_rules epoch = take 8 (full_rules epoch)"

definition resumed_rules :: "uint16 \<Rightarrow> handshakeCachePullRule list" where
  "resumed_rules epoch =
     [pull_rule TypeClientHello epoch True False,
      pull_rule TypeServerHello epoch False False,
      pull_rule TypeFinished (epoch + 1) False False]"

subsection \<open>Flight 0: the server waits for a ClientHello\<close>

fun flight0_extensions :: "handshakeConfig \<Rightarrow> Extension list \<Rightarrow> Conn \<Rightarrow> Conn \<times> unit outcome" where
  "flight0_extensions cfg [] c = (c, Next ())"
| "flight0_extensions cfg (val # es) c =
     (case val of
        SupportedEllipticCurves curves \<Rightarrow>
          (case curves of
             [] \<Rightarrow> (c, fatal InsufficientSecurity (Config ErrNoSupportedEllipticCurves))
           | curve # _ \<Rightarrow> flight0_extensions cfg es (upd_state (\<lambda>s. s\<lparr>st_namedCurve := curve\<rparr>) c))
      | UseSRTP profiles \<Rightarrow>
          (case findMatchingSRTPProfile profiles (hc_localSRTPProtectionProfiles cfg) of
             None \<Rightarrow> (c, fatal InsufficientSecurity (Conn ErrServerNoMatchingSRTPProfile))
           | Some profile \<Rightarrow>
               flight0_extensions cfg es (upd_state (\<lambda>s. s\<lparr>st_srtpProtectionProfile := profile\<rparr>) c))
      | UseExtendedMasterSecret _ \<Rightarrow>
          flight0_extensions cfg es
            (if hc_extendedMasterSecret cfg \<noteq> DisableExtendedMasterSecret
             then upd_state (\<lambda>s. s\<lparr>st_extendedMasterSecret := True\<rparr>) c else c)
      | ServerName name \<Rightarrow> flight0_extensions cfg es (upd_state (\<lambda>s. s\<lparr>st_serverName := name\<rparr>) c)
      | ALPN protocols \<Rightarrow> flight0_extensions cfg es (upd_state (\<lambda>s. s\<lparr>st_peerSupportedProtocols := protocols\<rparr>) c)
      | ConnectionID cid \<Rightarrow>
          flight0_extensions cfg es
            (if hc_connectionIDGenerator cfg \<noteq> None
             then upd_state (\<lambda>s. s\<lparr>st_remoteConnectionID := Some cid\<rparr>) c else c)
      | _ \<Rightarrow> flight0_extensions cfg es c)"

definition handleHelloResume ::
  "'b hs_env \<Rightarrow> handshakeConfig \<Rightarrow> bytes \<Rightarrow> Conn \<Rightarrow> flightVal \<Rightarrow> Conn \<times> flightVal outcome" where
  "handleHelloResume env cfg sessionID c next =
     (case hc_sessionStore cfg of
        None \<Rightarrow> (c, Next next)
      | Some ss \<Rightarrow>
          if length sessionID > 0 then
            andThen (check c InternalError (store_Get ss (cn_storeLog c) sessionID)) (\<lambda>c s.
              if ss_ID s = None then (c, Next next)
              else
                let (st, r) = initCipherSuite (ce_suites (he_conn env))
                      ((cn_state c)\<lparr>st_SessionID := sessionID, st_masterSecret := ss_Secret s\<rparr>) in
                andThen (check (c\<lparr>cn_state := st\<rparr>) InternalError r) (\<lambda>c _. (c, Next flight4b)))
          else (c, Next next))"

definition flight0Parse :: "'b hs_env \<Rightarrow> handshakeConfig \<Rightarrow> Conn \<Rightarrow> Conn \<times> flightVal outcome" where
  "flight0Parse env cfg c =
     pull env c 0 [pull_rule TypeClientHello (hc_initialEpoch cfg) True False] (\<lambda>seq msgs.
       case msgs of
         None \<Rightarrow> (c, keep_reading)
       | Some msgs \<Rightarrow>
           let c = upd_state (\<lambda>s. s\<lparr>st_localConnectionID := None, st_remoteConnectionID := None,
                     st_handshakeRecvSequence := seq\<rparr>) c in
           (case msgs TypeClientHello of
              Some (MClientHello clientHello) \<Rightarrow>
                if \<not> Version_Equal (ch_Version clientHello) Version1_2
                then (c, fatal ProtocolVersion (Codec ErrUnsupportedProtocolVersion))
                else
                  let cipherSuites = List.map_filter (\<lambda>i. cipherSuiteForID i (hc_customCipherSuites cfg))
                        (ch_CipherSuiteIDs clientHello);
                      cs = findMatchingCipherSuite cipherSuites (hc_localCipherSuites cfg);
                      c = upd_state (\<lambda>s. s\<lparr>st_remoteRandom := ch_Random clientHello, st_cipherSuite := cs\<rparr>) c in
                  if cs = None then (c, fatal InsufficientSecurity (Conn ErrCipherSuiteNoIntersection))
                  else
                    andThen (flight0_extensions cfg (ch_Extensions clientHello) c) (\<lambda>c _.
                      let c = (if st_remoteConnectionID (cn_state c) = None
                               then upd_state (\<lambda>s. s\<lparr>st_localConnectionID := None\<rparr>) c else c) in
                      if hc_extendedMasterSecret cfg = RequireExtendedMasterSecret
                         \<and> \<not> st_extendedMasterSecret (cn_state c)
                      then (c, fatal InsufficientSecurity (Conn ErrServerRequiredButNoClientEMS))
                      else
                        andThen (case st_localKeypair (cn_state c) of
                                   None \<Rightarrow> set_keypair env (st_namedCurve (cn_state c)) IllegalParameter c
                                 | Some k \<Rightarrow> (c, Next k)) (\<lambda>c _.
                          handleHelloResume env cfg (ch_SessionID clientHello) c
                            (if hc_insecureSkipHelloVerify cfg then flight4 else flight2)))
            | _ \<Rightarrow> (c, fatal_alert InternalError)))"

text \<open>\<^verbatim>\<open>state.localRandom.Populate()\<close>; an error ends the flight without an alert.\<close>

definition populate_random :: "'b hs_env \<Rightarrow> Conn \<Rightarrow> Conn \<times> unit outcome" where
  "populate_random env c =
     (let now = he_Now env (cn_draws c); r = Random_Populate now (he_rand env (cn_draws c) 28);
          c = upd_state (\<lambda>s. s\<lparr>st_localRandom := (case r of Ok x \<Rightarrow> x
                | _ \<Rightarrow> \<lparr>rd_GMTUnixTime = now, rd_RandomBytes = replicate 28 0\<rparr>)\<rparr>) (draw c) in
      (c, case r of Ok _ \<Rightarrow> Next () | Err e \<Rightarrow> Fail None (Some e) | Panic \<Rightarrow> Abort))"

definition cookieLength :: nat where
  "cookieLength = 20"

definition reset_epochs :: "Conn \<Rightarrow> Conn" where
  "reset_epochs c = upd_state (\<lambda>s. s\<lparr>st_localEpoch := 0, st_remoteEpoch := 0, st_namedCurve := X25519\<rparr>) c"

definition flight0Generate :: "'b hs_env \<Rightarrow> handshakeConfig \<Rightarrow> Conn \<Rightarrow> Conn \<times> packet list outcome" where
  "flight0Generate env cfg c =
     andThen
       (if hc_insecureSkipHelloVerify cfg then (c, Next ())
        else
          let r = he_rand env (cn_draws c) cookieLength;
              c = upd_state (\<lambda>s. s\<lparr>st_cookie := (case r of Ok x \<Rightarrow> x | _ \<Rightarrow> replicate cookieLength 0)\<rparr>) (draw c) in
          (c, case r of Ok _ \<Rightarrow> Next () | Err e \<Rightarrow> Fail None (Some e) | Panic \<Rightarrow> Abort))
       (\<lambda>c _. andThen (populate_random env (reset_epochs c)) (\<lambda>c _. (c, Next [])))"

subsection \<open>Flight 1: the first ClientHello\<close>

abbreviation (input) AccessDenied :: byte where "AccessDenied \<equiv> 49"

definition defaultCompressionMethods :: "CompressionMethod list" where
  "defaultCompressionMethods = [CompressionMethod 0]"

text \<open>The extensions of a ClientHello but for the connection ID; \<open>ecc\<close> is whether curves are offered.\<close>

definition offers_ems :: "handshakeConfig \<Rightarrow> bool" where
  "offers_ems cfg \<longleftrightarrow> hc_extendedMasterSecret cfg = RequestExtendedMasterSecret
     \<or> hc_extendedMasterSecret cfg = RequireExtendedMasterSecret"

definition client_extensions :: "handshakeConfig \<Rightarrow> bool \<Rightarrow> Extension list" where
  "client_extensions cfg ecc =
     [SupportedSignatureAlgorithms (hc_localSignatureSchemes cfg), RenegotiationInfo 0]
     @ (if ecc then [SupportedEllipticCurves (hc_ellipticCurves cfg), SupportedPointFormats [0]] else [])
     @ (if length (hc_localSRTPProtectionProfiles cfg) > 0 then [UseSRTP (hc_localSRTPProtectionProfiles cfg)] else [])
     @ (if offers_ems cfg then [UseExtendedMasterSecret True] else [])
     @ (if length (hc_serverName cfg) > 0 then [ServerName (hc_serverName cfg)] else [])
     @ (if length (hc_supportedProtocols cfg) > 0 then [ALPN (hc_supportedProtocols cfg)] else [])"

definition client_hello_packet :: "handshakeConfig \<Rightarrow> State \<Rightarrow> Extension list \<Rightarrow> packet" where
  "client_hello_packet cfg s extensions =
     (let clientHello = \<lparr>ch_Version = Version1_2, ch_Random = st_localRandom s, ch_Cookie = st_cookie s,
            ch_SessionID = st_SessionID s, ch_CipherSuiteIDs = cipherSuiteIDs (hc_localCipherSuites cfg),
            ch_CompressionMethods = defaultCompressionMethods, ch_Extensions = extensions\<rparr> in
      hs_packet (case hc_clientHelloMessageHook cfg of
                   None \<Rightarrow> MClientHello clientHello
                 | Some hook \<Rightarrow> hook clientHello))"

text \<open>A saved session, if the store has one for this server.\<close>

definition load_session :: "handshakeConfig \<Rightarrow> Conn \<Rightarrow> Conn \<times> unit outcome" where
  "load_session cfg c =
     (case hc_sessionStore cfg of
        None \<Rightarrow> (c, Next ())
      | Some ss \<Rightarrow>
          andThen (check c InternalError (store_Get ss (cn_storeLog c) (sessionKey cfg c))) (\<lambda>c s.
            case ss_ID s of
              None \<Rightarrow> (c, Next ())
            | Some i \<Rightarrow> (upd_state (\<lambda>st. st\<lparr>st_SessionID := i, st_masterSecret := ss_Secret s\<rparr>) c, Next ())))"

text \<open>The local connection ID, with nil made empty, and the extension that announces it.\<close>

definition client_cid :: "handshakeConfig \<Rightarrow> Conn \<Rightarrow> Conn \<times> Extension list outcome" where
  "client_cid cfg c =
     (case hc_connectionIDGenerator cfg of
        None \<Rightarrow> (c, Next [])
      | Some gen \<Rightarrow>
          (case gen (cn_draws c) of
             Ok cid \<Rightarrow>
               (upd_state (\<lambda>s. s\<lparr>st_localConnectionID := Some (opt_bytes cid)\<rparr>) (draw c),
                Next [ConnectionID (opt_bytes cid)])
           | _ \<Rightarrow> (draw c, Abort)))"

definition flight1Generate :: "'b hs_env \<Rightarrow> handshakeConfig \<Rightarrow> Conn \<Rightarrow> Conn \<times> packet list outcome" where
  "flight1Generate env cfg c =
     (let c = upd_state (\<lambda>s. s\<lparr>st_cookie := []\<rparr>) (reset_epochs c) in
      andThen (populate_random env c) (\<lambda>c _.
        let c = (case hc_helloRandomBytesGenerator cfg of
                   None \<Rightarrow> c
                 | Some gen \<Rightarrow>
                     upd_state (\<lambda>s. s\<lparr>st_localRandom := (st_localRandom s)\<lparr>rd_RandomBytes := gen (cn_draws c)\<rparr>\<rparr>) (draw c));
            extensions = client_extensions cfg (\<exists>cs \<in> set (hc_localCipherSuites cfg). cs_ECC cs) in
        andThen (load_session cfg c) (\<lambda>c _.
          andThen (client_cid cfg c) (\<lambda>c cid.
            (c, Next [client_hello_packet cfg (cn_state c) (extensions @ cid)])))))"

subsection \<open>Flight 3: the second ClientHello, and the server's answer\<close>

text \<open>A HelloVerifyRequest: its cookie goes into the next ClientHello.\<close>

definition accept_cookie :: "Conn \<Rightarrow> MessageHelloVerifyRequest \<Rightarrow> int \<Rightarrow> Conn \<times> flightVal outcome" where
  "accept_cookie c h seq =
     (if \<not> Version_Equal (hvr_Version h) Version1_0 \<and> \<not> Version_Equal (hvr_Version h) Version1_2
      then (c, fatal ProtocolVersion (Codec ErrUnsupportedProtocolVersion))
      else (upd_state (\<lambda>s. s\<lparr>st_cookie := hvr_Cookie h, st_handshakeRecvSequence := seq\<rparr>) c, Next flight3))"

fun flight3_extensions :: "handshakeConfig \<Rightarrow> Extension list \<Rightarrow> Conn \<Rightarrow> Conn \<times> unit outcome" where
  "flight3_extensions cfg [] c = (c, Next ())"
| "flight3_extensions cfg (v # es) c =
     (case v of
        UseSRTP profiles \<Rightarrow>
          (case findMatchingSRTPProfile profiles (hc_localSRTPProtectionProfiles cfg) of
             None \<Rightarrow> (c, fatal IllegalParameter (Conn ErrClientNoMatchingSRTPProfile))
           | Some profile \<Rightarrow>
               flight3_extensions cfg es (upd_state (\<lambda>s. s\<lparr>st_srtpProtectionProfile := profile\<rparr>) c))
      | UseExtendedMasterSecret _ \<Rightarrow>
          flight3_extensions cfg es
            (if hc_extendedMasterSecret cfg \<noteq> DisableExtendedMasterSecret
             then upd_state (\<lambda>s. s\<lparr>st_extendedMasterSecret := True\<rparr>) c else c)
      | ALPN protocols \<Rightarrow>
          if length protocols > 1 then (c, fatal InternalError (Codec ErrALPNInvalidFormat))
          else (case protocols of
                  [] \<Rightarrow> (c, Abort)
                | proto # _ \<Rightarrow> flight3_extensions cfg es (upd_state (\<lambda>s. s\<lparr>st_NegotiatedProtocol := proto\<rparr>) c))
      | ConnectionID cid \<Rightarrow>
          flight3_extensions cfg es
            (if hc_connectionIDGenerator cfg \<noteq> None
             then upd_state (\<lambda>s. s\<lparr>st_remoteConnectionID := Some cid\<rparr>) c else c)
      | _ \<Rightarrow> flight3_extensions cfg es c)"

text \<open>A call that lends the connection to \<^verbatim>\<open>handleQueuedPackets\<close>.\<close>

definition handle_queued :: "'b hs_env \<Rightarrow> handshakeConfig \<Rightarrow> Conn \<Rightarrow> Conn \<times> unit outcome" where
  "handle_queued env cfg c =
     (let (c, r) = handleQueuedPackets (he_conn env) cfg c in check c InternalError r)"

text \<open>A Finished message compared with what the transcript and the master secret give.\<close>

definition check_finished ::
  "Conn \<Rightarrow> bytes res \<Rightarrow> bytes \<Rightarrow> (Conn \<Rightarrow> Conn \<times> flightVal outcome) \<Rightarrow> Conn \<times> flightVal outcome" where
  "check_finished c expected verifyData k =
     andThen (check c InternalError expected) (\<lambda>c expectedVerifyData.
       if expectedVerifyData \<noteq> verifyData then (c, fatal HandshakeFailure (Conn ErrVerifyDataMismatch)) else k c)"

definition handleResumption :: "'b hs_env \<Rightarrow> handshakeConfig \<Rightarrow> Conn \<Rightarrow> Conn \<times> flightVal outcome" where
  "handleResumption env cfg c =
     (let (st, r) = initCipherSuite (ce_suites (he_conn env)) (cn_state c) in
      andThen (check (c\<lparr>cn_state := st\<rparr>) InternalError r) (\<lambda>c _.
        andThen (handle_queued env cfg c) (\<lambda>c _.
          pull env c (st_handshakeRecvSequence (cn_state c) + 1)
            [pull_rule TypeFinished (hc_initialEpoch cfg + 1) False False] (\<lambda>_ msgs.
            case msgs of
              None \<Rightarrow> (c, keep_reading)
            | Some msgs \<Rightarrow>
                (case msgs TypeFinished of
                   Some (MFinished verifyData) \<Rightarrow>
                     (case st_cipherSuite (cn_state c) of
                        None \<Rightarrow> (c, Abort)
                      | Some cs \<Rightarrow>
                          let plainText = pullAndMerge (cn_handshakeCache c)
                                [pull_rule TypeClientHello (hc_initialEpoch cfg) True False,
                                 pull_rule TypeServerHello (hc_initialEpoch cfg) False False] in
                          check_finished c (VerifyDataServer (st_masterSecret (cn_state c)) plainText (suite_HashFunc env cs))
                            verifyData (\<lambda>c. (c, Next flight5b)))
                 | _ \<Rightarrow> (c, fatal_alert InternalError))))))"

definition handleServerKeyExchange ::
  "'b hs_env \<Rightarrow> handshakeConfig \<Rightarrow> Conn \<Rightarrow> MessageServerKeyExchange \<Rightarrow> Conn \<times> unit outcome" where
  "handleServerKeyExchange env cfg c h =
     (let ecdh = (\<lambda>c f. andThen (set_keypair env (sk_NamedCurve h) InternalError c) (\<lambda>c k.
            let r = f (kp_PrivateKey k) (kp_Curve k) in
            andThen (check (upd_state (\<lambda>s. s\<lparr>st_preMasterSecret := res_bytes r\<rparr>) c) InternalError r) (\<lambda>c _. (c, Next ())))) in
      case st_cipherSuite (cn_state c) of
        None \<Rightarrow> (c, fatal InsufficientSecurity (Conn ErrInvalidCipherSuite))
      | Some cs \<Rightarrow>
          (case hc_localPSKCallback cfg of
             None \<Rightarrow> ecdh c (PreMasterSecret (he_curves env) (sk_PublicKey h))
           | Some psk_callback \<Rightarrow>
               andThen (check c InternalError (psk_callback (opt_bytes (sk_IdentityHint h)))) (\<lambda>c psk.
                 let c = upd_state (\<lambda>s. s\<lparr>st_IdentityHint := opt_bytes (sk_IdentityHint h)\<rparr>) c in
                 if cs_KeyExchangeAlgorithm cs = KeyExchangeAlgorithmPsk
                 then (case PSKPreMasterSecret psk of
                         Ok pms \<Rightarrow> (upd_state (\<lambda>s. s\<lparr>st_preMasterSecret := pms\<rparr>) c, Next ())
                       | _ \<Rightarrow> (c, Abort))
                 else if cs_KeyExchangeAlgorithm cs = (KeyExchangeAlgorithmEcdhe OR KeyExchangeAlgorithmPsk)
                 then ecdh c (EcdhePSKPreMasterSecret (he_curves env) psk (sk_PublicKey h))
                 else (c, fatal InsufficientSecurity (Conn ErrInvalidCipherSuite)))))"

text \<open>What a ServerHello decides; \<open>True\<close> when it resumes the session.\<close>

definition accept_server_hello ::
  "handshakeConfig \<Rightarrow> Conn \<Rightarrow> MessageServerHello \<Rightarrow> Conn \<times> bool outcome" where
  "accept_server_hello cfg c h =
     (if \<not> Version_Equal (svh_Version h) Version1_2
      then (c, fatal ProtocolVersion (Codec ErrUnsupportedProtocolVersion))
      else
        andThen (flight3_extensions cfg (svh_Extensions h) c) (\<lambda>c _.
          let c = (if st_remoteConnectionID (cn_state c) = None
                   then upd_state (\<lambda>s. s\<lparr>st_localConnectionID := None\<rparr>) c else c) in
          if hc_extendedMasterSecret cfg = RequireExtendedMasterSecret \<and> \<not> st_extendedMasterSecret (cn_state c)
          then (c, fatal InsufficientSecurity (Conn ErrClientRequiredButNoServerEMS))
          else if length (hc_localSRTPProtectionProfiles cfg) > 0 \<and> st_srtpProtectionProfile (cn_state c) = 0
          then (c, fatal InsufficientSecurity (Conn ErrRequestedButNoSRTPExtension))
          else case svh_CipherSuiteID h of
            None \<Rightarrow> (c, Abort)
          | Some i \<Rightarrow>
              (case cipherSuiteForID i (hc_customCipherSuites cfg) of
                 None \<Rightarrow> (c, fatal InsufficientSecurity (Conn ErrCipherSuiteNoIntersection))
               | Some remoteCipherSuite \<Rightarrow>
                   (case findMatchingCipherSuite [remoteCipherSuite] (hc_localCipherSuites cfg) of
                      None \<Rightarrow> (c, fatal InsufficientSecurity (Conn ErrInvalidCipherSuite))
                    | Some selected \<Rightarrow>
                        let c = upd_state (\<lambda>s. s\<lparr>st_cipherSuite := Some selected, st_remoteRandom := svh_Random h\<rparr>) c in
                        if length (svh_SessionID h) > 0 \<and> st_SessionID (cn_state c) = svh_SessionID h
                        then (c, Next True)
                        else
                          andThen
                            (if length (st_SessionID (cn_state c)) > 0 then
                               case hc_sessionStore cfg of
                                 None \<Rightarrow> (c, Abort)
                               | Some ss \<Rightarrow>
                                   check (c\<lparr>cn_storeLog := cn_storeLog c @ [StoreDel (st_SessionID (cn_state c))]\<rparr>)
                                     InternalError (store_Del ss (cn_storeLog c) (st_SessionID (cn_state c)))
                             else (c, Next ()))
                            (\<lambda>c _.
                              (upd_state (\<lambda>s. s\<lparr>st_SessionID :=
                                   (if hc_sessionStore cfg = None then [] else svh_SessionID h),
                                 st_masterSecret := []\<rparr>) c, Next False))))))"

text \<open>The messages that follow a ServerHello without resumption.\<close>

definition server_flight_rules :: "handshakeConfig \<Rightarrow> handshakeCachePullRule list" where
  "server_flight_rules cfg =
     (if hc_localPSKCallback cfg \<noteq> None then
        [pull_rule TypeServerKeyExchange (hc_initialEpoch cfg) False True,
         pull_rule TypeServerHelloDone (hc_initialEpoch cfg) False False]
      else
        [pull_rule TypeCertificate (hc_initialEpoch cfg) False True,
         pull_rule TypeServerKeyExchange (hc_initialEpoch cfg) False False,
         pull_rule TypeCertificateRequest (hc_initialEpoch cfg) False True,
         pull_rule TypeServerHelloDone (hc_initialEpoch cfg) False False])"

text \<open>A slice of certificates that a Certificate message leaves; none at all is nil.\<close>

definition cert_slice :: "bytes list \<Rightarrow> bytes list option" where
  "cert_slice certs = (if certs = [] then None else Some certs)"

definition flight3_messages :: "'b hs_env \<Rightarrow> handshakeConfig \<Rightarrow> Conn \<Rightarrow> Conn \<times> flightVal outcome" where
  "flight3_messages env cfg c =
     pull env c (st_handshakeRecvSequence (cn_state c) + 1) (server_flight_rules cfg) (\<lambda>seq msgs.
       case msgs of
         None \<Rightarrow> (c, keep_reading)
       | Some msgs \<Rightarrow>
           let c = upd_state (\<lambda>s. s\<lparr>st_handshakeRecvSequence := seq\<rparr>) c in
           andThen
             (case msgs TypeCertificate of
                Some (MCertificate certs) \<Rightarrow> (upd_state (\<lambda>s. s\<lparr>st_PeerCertificates := cert_slice certs\<rparr>) c, Next ())
              | _ \<Rightarrow>
                  (case st_cipherSuite (cn_state c) of
                     None \<Rightarrow> (c, Abort)
                   | Some cs \<Rightarrow>
                       if cs_AuthenticationType cs = AuthenticationTypeCertificate
                       then (c, fatal NoCertificate (Config ErrInvalidCertificate)) else (c, Next ())))
             (\<lambda>c _. andThen
               (case msgs TypeServerKeyExchange of
                  Some (MServerKeyExchange h) \<Rightarrow> handleServerKeyExchange env cfg c h
                | _ \<Rightarrow> (c, Next ()))
               (\<lambda>c _.
                 ((case msgs TypeCertificateRequest of
                     Some (MCertificateRequest creq) \<Rightarrow>
                       upd_state (\<lambda>s. s\<lparr>st_remoteCertRequestAlgs := cr_SignatureHashAlgorithms creq,
                         st_remoteRequestedCertificate := True\<rparr>) c
                   | _ \<Rightarrow> c), Next flight5))))"

definition flight3Parse :: "'b hs_env \<Rightarrow> handshakeConfig \<Rightarrow> Conn \<Rightarrow> Conn \<times> flightVal outcome" where
  "flight3Parse env cfg c =
     pull env c (st_handshakeRecvSequence (cn_state c))
       [pull_rule TypeHelloVerifyRequest (hc_initialEpoch cfg) False True] (\<lambda>seq msgs.
       case (case msgs of Some msgs \<Rightarrow> msgs TypeHelloVerifyRequest | None \<Rightarrow> None) of
         Some (MHelloVerifyRequest h) \<Rightarrow> accept_cookie c h seq
       | _ \<Rightarrow>
           pull env c (st_handshakeRecvSequence (cn_state c))
             [pull_rule TypeServerHello (hc_initialEpoch cfg) False False] (\<lambda>_ msgs.
             case msgs of
               None \<Rightarrow> (c, keep_reading)
             | Some msgs \<Rightarrow>
                 andThen (case msgs TypeServerHello of
                            Some (MServerHello h) \<Rightarrow> accept_server_hello cfg c h
                          | _ \<Rightarrow> (c, Next False)) (\<lambda>c resume.
                   if resume then handleResumption env cfg c else flight3_messages env cfg c)))"

definition flight3Generate :: "'b hs_env \<Rightarrow> handshakeConfig \<Rightarrow> Conn \<Rightarrow> Conn \<times> packet list outcome" where
  "flight3Generate env cfg c =
     (let s = cn_state c;
          extensions = client_extensions cfg (st_namedCurve s \<noteq> 0)
            @ (case st_localConnectionID s of None \<Rightarrow> [] | Some cid \<Rightarrow> [ConnectionID cid]) in
      (c, Next [client_hello_packet cfg s extensions]))"

definition flight1Parse :: "'b hs_env \<Rightarrow> handshakeConfig \<Rightarrow> Conn \<Rightarrow> Conn \<times> flightVal outcome" where
  "flight1Parse env cfg c =
     pull env c (st_handshakeRecvSequence (cn_state c))
       [pull_rule TypeHelloVerifyRequest (hc_initialEpoch cfg) False True,
        pull_rule TypeServerHello (hc_initialEpoch cfg) False True] (\<lambda>seq msgs.
       case msgs of
         None \<Rightarrow> (c, keep_reading)
       | Some msgs \<Rightarrow>
           if msgs TypeServerHello \<noteq> None then flight3Parse env cfg c
           else (case msgs TypeHelloVerifyRequest of
                   Some (MHelloVerifyRequest h) \<Rightarrow> accept_cookie c h seq
                 | _ \<Rightarrow> (c, fatal_alert InternalError)))"

subsection \<open>Flight 2: the cookie\<close>

definition flight2Parse :: "'b hs_env \<Rightarrow> handshakeConfig \<Rightarrow> Conn \<Rightarrow> Conn \<times> flightVal outcome" where
  "flight2Parse env cfg c =
     pull env c (st_handshakeRecvSequence (cn_state c))
       [pull_rule TypeClientHello (hc_initialEpoch cfg) True False] (\<lambda>seq msgs.
       case msgs of
         None \<Rightarrow> flight0Parse env cfg c
       | Some msgs \<Rightarrow>
           let c = upd_state (\<lambda>s. s\<lparr>st_handshakeRecvSequence := seq\<rparr>) c in
           (case msgs TypeClientHello of
              Some (MClientHello clientHello) \<Rightarrow>
                if \<not> Version_Equal (ch_Version clientHello) Version1_2
                then (c, fatal ProtocolVersion (Codec ErrUnsupportedProtocolVersion))
                else if length (ch_Cookie clientHello) = 0 then (c, keep_reading)
                else if st_cookie (cn_state c) \<noteq> ch_Cookie clientHello
                then (c, fatal AccessDenied (Conn ErrCookieMismatch))
                else (c, Next flight4)
            | _ \<Rightarrow> (c, fatal_alert InternalError)))"

definition flight2Generate :: "'b hs_env \<Rightarrow> handshakeConfig \<Rightarrow> Conn \<Rightarrow> Conn \<times> packet list outcome" where
  "flight2Generate env cfg c =
     (let c = upd_state (\<lambda>s. s\<lparr>st_handshakeSendSequence := 0\<rparr>) c in
      (c, Next [hs_packet (MHelloVerifyRequest \<lparr>hvr_Version = Version1_2, hvr_Cookie = st_cookie (cn_state c)\<rparr>)]))"

subsection \<open>Flight 4: the server's messages, and the client's answer\<close>

definition scheme_listed :: "handshakeConfig \<Rightarrow> uint16 \<Rightarrow> uint16 \<Rightarrow> bool" where
  "scheme_listed cfg hash_alg sig_alg \<longleftrightarrow>
     (\<exists>ss \<in> set (hc_localSignatureSchemes cfg). sh_Hash ss = hash_alg \<and> sh_Signature ss = sig_alg)"

definition verifies_client :: "ClientAuthType \<Rightarrow> bool" where
  "verifies_client a \<longleftrightarrow> a = VerifyClientCertIfGiven \<or> a = RequireAndVerifyClientCert"

text \<open>A CertificateVerify message.\<close>

definition accept_certificate_verify ::
  "'b hs_env \<Rightarrow> handshakeConfig \<Rightarrow> Conn \<Rightarrow> MessageCertificateVerify \<Rightarrow> Conn \<times> unit outcome" where
  "accept_certificate_verify env cfg c h =
     (case st_PeerCertificates (cn_state c) of
        None \<Rightarrow> (c, fatal NoCertificate (Conn ErrCertificateVerifyNoCertificate))
      | Some certs \<Rightarrow>
          let plainText = pullAndMerge (cn_handshakeCache c) (certificate_verify_rules (hc_initialEpoch cfg)) in
          if \<not> scheme_listed cfg (cv_HashAlgorithm h) (cv_SignatureAlgorithm h)
          then (c, fatal InsufficientSecurity (Config ErrNoAvailableSignatureSchemes))
          else
            andThen (check c BadCertificate
                (verifyCertificateVerify (ce_x509 (he_conn env)) plainText (cv_HashAlgorithm h) (cv_Signature h) certs))
              (\<lambda>c _. andThen
                (if verifies_client (hc_clientAuth cfg)
                 then check c BadCertificate (verifyClientCert (ce_x509 (he_conn env)) certs (hc_clientCAs cfg))
                 else (c, Next []))
                (\<lambda>c verifiedChains. andThen (verify_peer_certificate cfg c verifiedChains) (\<lambda>c _.
                  (upd_state (\<lambda>s. s\<lparr>st_peerCertificatesVerified := verifies_client (hc_clientAuth cfg)\<rparr>) c, Next ())))))"

text \<open>The premaster secret on the server's side.\<close>

definition server_pre_master_secret ::
  "'b hs_env \<Rightarrow> handshakeConfig \<Rightarrow> Conn \<Rightarrow> CipherSuite \<Rightarrow> MessageClientKeyExchange \<Rightarrow> Conn \<times> bytes outcome" where
  "server_pre_master_secret env cfg c cs h =
     (if cs_AuthenticationType cs = AuthenticationTypePreSharedKey then
        case hc_localPSKCallback cfg of
          None \<Rightarrow> (c, Abort)
        | Some psk_callback \<Rightarrow>
            andThen (check c InternalError (psk_callback (opt_bytes (ck_IdentityHint h)))) (\<lambda>c psk.
              let c = upd_state (\<lambda>s. s\<lparr>st_IdentityHint := opt_bytes (ck_IdentityHint h)\<rparr>) c in
              if cs_KeyExchangeAlgorithm cs = KeyExchangeAlgorithmPsk
              then (case PSKPreMasterSecret psk of Ok pms \<Rightarrow> (c, Next pms) | _ \<Rightarrow> (c, Abort))
              else if cs_KeyExchangeAlgorithm cs = (KeyExchangeAlgorithmPsk OR KeyExchangeAlgorithmEcdhe)
              then (case st_localKeypair (cn_state c) of
                      None \<Rightarrow> (c, Abort)
                    | Some k \<Rightarrow> check c InternalError (EcdhePSKPreMasterSecret (he_curves env) psk
                                 (opt_bytes (ck_PublicKey h)) (kp_PrivateKey k) (kp_Curve k)))
              else (c, fatal InternalError (Conn ErrInvalidCipherSuite)))
      else
        case st_localKeypair (cn_state c) of
          None \<Rightarrow> (c, Abort)
        | Some k \<Rightarrow> check c IllegalParameter (PreMasterSecret (he_curves env) (opt_bytes (ck_PublicKey h))
                     (kp_PrivateKey k) (kp_Curve k)))"

text \<open>\<^verbatim>\<open>state.masterSecret, err = ...\<close> from the premaster secret, by the session hash or the randoms.\<close>

definition set_master_secret ::
  "'b hs_env \<Rightarrow> handshakeConfig \<Rightarrow> Conn \<Rightarrow> CipherSuite \<Rightarrow> byte \<Rightarrow> bytes \<Rightarrow> bytes list \<Rightarrow> bytes \<Rightarrow> bytes \<Rightarrow> Conn \<times> unit outcome" where
  "set_master_secret env cfg c cs emsDesc pms additional clientRandom serverRandom =
     (if st_extendedMasterSecret (cn_state c) then
        andThen (check c InternalError
            (sessionHash (hf_Sum (suite_HashFunc env cs)) (cn_handshakeCache c) (hc_initialEpoch cfg) additional))
          (\<lambda>c hash.
            let r = ExtendedMasterSecret pms hash (suite_HashFunc env cs) in
            andThen (check (upd_state (\<lambda>s. s\<lparr>st_masterSecret := res_bytes r\<rparr>) c) emsDesc r) (\<lambda>c _. (c, Next ())))
      else
        let r = MasterSecret pms clientRandom serverRandom (suite_HashFunc env cs) in
        andThen (check (upd_state (\<lambda>s. s\<lparr>st_masterSecret := res_bytes r\<rparr>) c) InternalError r) (\<lambda>c _. (c, Next ())))"

definition init_suite :: "'b hs_env \<Rightarrow> Conn \<Rightarrow> CipherSuite \<Rightarrow> bytes \<Rightarrow> bytes \<Rightarrow> bool \<Rightarrow> Conn \<times> unit outcome" where
  "init_suite env c cs clientRandom serverRandom isClient =
     (let (cs, r) = suite_Init (ce_suites (he_conn env)) (st_masterSecret (cn_state c)) clientRandom serverRandom isClient cs in
      check (upd_state (\<lambda>s. s\<lparr>st_cipherSuite := Some cs\<rparr>) c) InternalError r)"

definition flight4_keys ::
  "'b hs_env \<Rightarrow> handshakeConfig \<Rightarrow> Conn \<Rightarrow> MessageClientKeyExchange \<Rightarrow> Conn \<times> unit outcome" where
  "flight4_keys env cfg c clientKeyExchange =
     (case st_cipherSuite (cn_state c) of
        None \<Rightarrow> (c, Abort)
      | Some cs \<Rightarrow>
          if suite_IsInitialized cs then (c, Next ())
          else
            let serverRandom = Random_MarshalFixed (st_localRandom (cn_state c));
                clientRandom = Random_MarshalFixed (st_remoteRandom (cn_state c)) in
            andThen (server_pre_master_secret env cfg c cs clientKeyExchange) (\<lambda>c pms.
              andThen (set_master_secret env cfg c cs InternalError pms [] clientRandom serverRandom) (\<lambda>c _.
                init_suite env c cs clientRandom serverRandom False)))"

text \<open>The policy on client certificates.\<close>

definition client_auth :: "ClientAuthType \<Rightarrow> Conn \<Rightarrow> Conn \<times> unit outcome" where
  "client_auth clientAuth c =
     (let certs = st_PeerCertificates (cn_state c); verified = st_peerCertificatesVerified (cn_state c) in
      case clientAuth of
        RequireAnyClientCert \<Rightarrow>
          if certs = None then (c, fatal NoCertificate (Conn ErrClientCertificateRequired)) else (c, Next ())
      | VerifyClientCertIfGiven \<Rightarrow>
          if certs \<noteq> None \<and> \<not> verified then (c, fatal BadCertificate (Conn ErrClientCertificateNotVerified))
          else (c, Next ())
      | RequireAndVerifyClientCert \<Rightarrow>
          if certs = None then (c, fatal NoCertificate (Conn ErrClientCertificateRequired))
          else if \<not> verified then (c, fatal BadCertificate (Conn ErrClientCertificateNotVerified))
          else (c, Next ())
      | _ \<Rightarrow> (c, Next ()))"

definition flight4_finished :: "'b hs_env \<Rightarrow> handshakeConfig \<Rightarrow> Conn \<Rightarrow> int \<Rightarrow> Conn \<times> flightVal outcome" where
  "flight4_finished env cfg c seq =
     pull env c seq [pull_rule TypeFinished (hc_initialEpoch cfg + 1) True False] (\<lambda>seq msgs.
       case msgs of
         None \<Rightarrow> (c, keep_reading)
       | Some msgs \<Rightarrow>
           let c = upd_state (\<lambda>s. s\<lparr>st_handshakeRecvSequence := seq\<rparr>) c in
           (case msgs TypeFinished of
              Some (MFinished _) \<Rightarrow>
                (case st_cipherSuite (cn_state c) of
                   None \<Rightarrow> (c, Abort)
                 | Some cs \<Rightarrow>
                     andThen (if cs_AuthenticationType cs = AuthenticationTypeAnonymous then (c, Next ())
                              else client_auth (hc_clientAuth cfg) c)
                       (\<lambda>c _. andThen (verify_connection cfg c) (\<lambda>c _. (c, Next flight6))))
            | _ \<Rightarrow> (c, fatal_alert InternalError)))"

text \<open>A client that sends its certificate gets no session to resume.\<close>

definition take_client_certificate :: "Message option \<Rightarrow> Conn \<Rightarrow> Conn" where
  "take_client_certificate m c =
     (case m of
        Some (MCertificate certs) \<Rightarrow>
          upd_state (\<lambda>s. s\<lparr>st_PeerCertificates := cert_slice certs, st_SessionID := []\<rparr>) c
      | _ \<Rightarrow> c)"

text \<open>The keys, the session, then the packets that waited for the keys and the Finished message.\<close>

definition flight4_conclude ::
  "'b hs_env \<Rightarrow> handshakeConfig \<Rightarrow> Conn \<Rightarrow> MessageClientKeyExchange \<Rightarrow> int \<Rightarrow> Conn \<times> flightVal outcome" where
  "flight4_conclude env cfg c clientKeyExchange seq =
     andThen (flight4_keys env cfg c clientKeyExchange) (\<lambda>c _.
       andThen (if length (st_SessionID (cn_state c)) > 0
                then store_session cfg c (st_SessionID (cn_state c)) else (c, Next ())) (\<lambda>c _.
         andThen (handle_queued env cfg c) (\<lambda>c _. flight4_finished env cfg c seq)))"

definition flight4Parse :: "'b hs_env \<Rightarrow> handshakeConfig \<Rightarrow> Conn \<Rightarrow> Conn \<times> flightVal outcome" where
  "flight4Parse env cfg c =
     pull env c (st_handshakeRecvSequence (cn_state c))
       [pull_rule TypeCertificate (hc_initialEpoch cfg) True True,
        pull_rule TypeClientKeyExchange (hc_initialEpoch cfg) True False,
        pull_rule TypeCertificateVerify (hc_initialEpoch cfg) True True] (\<lambda>seq msgs.
       case msgs of
         None \<Rightarrow> (c, keep_reading)
       | Some msgs \<Rightarrow>
           (case msgs TypeClientKeyExchange of
              Some (MClientKeyExchange clientKeyExchange) \<Rightarrow>
                let c = take_client_certificate (msgs TypeCertificate) c in
                (case msgs TypeCertificateVerify of
                   Some (MCertificateVerify h) \<Rightarrow>
                     andThen (accept_certificate_verify env cfg c h) (\<lambda>c _. flight4_conclude env cfg c clientKeyExchange seq)
                 | _ \<Rightarrow>
                     if st_PeerCertificates (cn_state c) \<noteq> None then (c, keep_reading)
                     else flight4_conclude env cfg c clientKeyExchange seq)
            | _ \<Rightarrow> (c, fatal_alert InternalError)))"

text \<open>The extensions of a ServerHello that flights 4 and 4b share; then the choice of a protocol.\<close>

definition server_extensions :: "handshakeConfig \<Rightarrow> State \<Rightarrow> Extension list" where
  "server_extensions cfg s =
     [RenegotiationInfo 0]
     @ (if offers_ems cfg \<and> st_extendedMasterSecret s then [UseExtendedMasterSecret True] else [])
     @ (if st_srtpProtectionProfile s \<noteq> 0 then [UseSRTP [st_srtpProtectionProfile s]] else [])"

definition select_protocol :: "handshakeConfig \<Rightarrow> Conn \<Rightarrow> Conn \<times> Extension list outcome" where
  "select_protocol cfg c =
     andThen (check c NoApplicationProtocol
         (ALPNProtocolSelection (hc_supportedProtocols cfg) (st_peerSupportedProtocols (cn_state c)))) (\<lambda>c proto.
       if proto \<noteq> [] then (upd_state (\<lambda>s. s\<lparr>st_NegotiatedProtocol := proto\<rparr>) c, Next [ALPN [proto]])
       else (c, Next []))"

definition server_cid :: "handshakeConfig \<Rightarrow> Conn \<Rightarrow> Conn \<times> Extension list outcome" where
  "server_cid cfg c =
     (case hc_connectionIDGenerator cfg of
        None \<Rightarrow> (c, Next [])
      | Some gen \<Rightarrow>
          if st_remoteConnectionID (cn_state c) = None then (c, Next [])
          else (case gen (cn_draws c) of
                  Ok cid \<Rightarrow>
                    (upd_state (\<lambda>s. s\<lparr>st_localConnectionID := cid\<rparr>) (draw c), Next [ConnectionID (opt_bytes cid)])
                | _ \<Rightarrow> (draw c, Abort)))"

definition sessionLength :: nat where
  "sessionLength = 32"

definition new_session_id :: "'b hs_env \<Rightarrow> handshakeConfig \<Rightarrow> Conn \<Rightarrow> Conn \<times> unit outcome" where
  "new_session_id env cfg c =
     (if hc_sessionStore cfg = None then (c, Next ())
      else
        let r = he_rand env (cn_draws c) sessionLength in
        andThen (check (upd_state (\<lambda>s. s\<lparr>st_SessionID :=
              (case r of Ok x \<Rightarrow> x | _ \<Rightarrow> replicate sessionLength 0)\<rparr>) (draw c)) InternalError r)
          (\<lambda>c _. (c, Next ())))"

definition server_hello_message :: "handshakeConfig \<Rightarrow> State \<Rightarrow> CipherSuite \<Rightarrow> Extension list \<Rightarrow> Message" where
  "server_hello_message cfg s cs extensions =
     (let serverHello = \<lparr>svh_Version = Version1_2, svh_Random = st_localRandom s, svh_SessionID = st_SessionID s,
            svh_CipherSuiteID = Some (cs_ID cs), svh_CompressionMethod = Some (CompressionMethod 0),
            svh_Extensions = extensions\<rparr> in
      case hc_serverHelloMessageHook cfg of None \<Rightarrow> MServerHello serverHello | Some hook \<Rightarrow> hook serverHello)"

text \<open>Certificate, ServerKeyExchange and CertificateRequest of a suite with certificates.\<close>

definition certificate_packets ::
  "'b hs_env \<Rightarrow> handshakeConfig \<Rightarrow> Conn \<Rightarrow> CipherSuite \<Rightarrow> Conn \<times> packet list outcome" where
  "certificate_packets env cfg c cs =
     (let s = cn_state c in
      andThen (check c HandshakeFailure (getCertificate (ce_x509 (he_conn env)) cfg
          \<lparr>chi_ServerName = st_serverName s, chi_CipherSuites = [cs_ID cs],
           chi_RandomBytes = rd_RandomBytes (st_remoteRandom s)\<rparr>)) (\<lambda>c certificate.
        andThen (check c InsufficientSecurity (SelectSignatureScheme (hc_localSignatureSchemes cfg)
            (case tc_PrivateKey certificate of None \<Rightarrow> OtherPrivateKey | Some k \<Rightarrow> sk_kind k))) (\<lambda>c algo.
          case st_localKeypair s of
            None \<Rightarrow> (c, Abort)
          | Some kp \<Rightarrow>
              andThen (check c InternalError (generateKeySignature (ce_x509 (he_conn env))
                  (Random_MarshalFixed (st_remoteRandom s)) (Random_MarshalFixed (st_localRandom s))
                  (kp_PublicKey kp) (st_namedCurve s) (tc_PrivateKey certificate) (sh_Hash algo))) (\<lambda>c signature.
                (upd_state (\<lambda>s. s\<lparr>st_localKeySignature := signature\<rparr>) c,
                 Next ([hs_packet (MCertificate (case tc_Certificate certificate of None \<Rightarrow> [] | Some certs \<Rightarrow> certs)),
                   hs_packet (MServerKeyExchange \<lparr>sk_IdentityHint = None, sk_EllipticCurveType = 3,
                     sk_NamedCurve = st_namedCurve s, sk_PublicKey = kp_PublicKey kp, sk_HashAlgorithm = sh_Hash algo,
                     sk_SignatureAlgorithm = sh_Signature algo, sk_Signature = signature\<rparr>)]
                  @ (if hc_clientAuth cfg = NoClientCert then []
                     else
                       let certReq = \<lparr>cr_CertificateTypes = [RSASign, ECDSASign],
                             cr_SignatureHashAlgorithms = hc_localSignatureSchemes cfg,
                             cr_CertificateAuthoritiesNames =
                               (case hc_clientCAs cfg of None \<Rightarrow> [] | Some cas \<Rightarrow> map xc_RawSubject cas)\<rparr> in
                       [hs_packet (case hc_certificateRequestMessageHook cfg of
                          None \<Rightarrow> MCertificateRequest certReq | Some hook \<Rightarrow> hook certReq)])))))))"

definition psk_packets :: "handshakeConfig \<Rightarrow> Conn \<Rightarrow> CipherSuite \<Rightarrow> Conn \<times> packet list outcome" where
  "psk_packets cfg c cs =
     (let ecdhe = kx_Has (cs_KeyExchangeAlgorithm cs) KeyExchangeAlgorithmEcdhe;
          exchange = \<lparr>sk_IdentityHint = hc_localPSKIdentityHint cfg, sk_EllipticCurveType = 0, sk_NamedCurve = 0,
            sk_PublicKey = [], sk_HashAlgorithm = 0, sk_SignatureAlgorithm = 0, sk_Signature = []\<rparr> in
      if hc_localPSKIdentityHint cfg = None \<and> \<not> ecdhe then (c, Next [])
      else if \<not> ecdhe then (c, Next [hs_packet (MServerKeyExchange exchange)])
      else case st_localKeypair (cn_state c) of
        None \<Rightarrow> (c, Abort)
      | Some kp \<Rightarrow>
          (c, Next [hs_packet (MServerKeyExchange (exchange\<lparr>sk_EllipticCurveType := 3,
             sk_NamedCurve := st_namedCurve (cn_state c), sk_PublicKey := kp_PublicKey kp\<rparr>))]))"

definition flight4Generate :: "'b hs_env \<Rightarrow> handshakeConfig \<Rightarrow> Conn \<Rightarrow> Conn \<times> packet list outcome" where
  "flight4Generate env cfg c =
     (case st_cipherSuite (cn_state c) of
        None \<Rightarrow> (c, Abort)
      | Some cs \<Rightarrow>
          let extensions = server_extensions cfg (cn_state c)
                @ (if cs_AuthenticationType cs = AuthenticationTypeCertificate then [SupportedPointFormats [0]] else []) in
          andThen (select_protocol cfg c) (\<lambda>c alpn.
            andThen (server_cid cfg c) (\<lambda>c cid.
              andThen (new_session_id env cfg c) (\<lambda>c _.
                let hello = hs_packet (server_hello_message cfg (cn_state c) cs (extensions @ alpn @ cid)) in
                andThen (if cs_AuthenticationType cs = AuthenticationTypeCertificate
                         then certificate_packets env cfg c cs else psk_packets cfg c cs) (\<lambda>c pkts.
                  (c, Next (hello # pkts @ [hs_packet MServerHelloDone])))))))"

subsection \<open>Flight 4b: resumption on the server's side\<close>

definition flight4bParse :: "'b hs_env \<Rightarrow> handshakeConfig \<Rightarrow> Conn \<Rightarrow> Conn \<times> flightVal outcome" where
  "flight4bParse env cfg c =
     pull env c (st_handshakeRecvSequence (cn_state c))
       [pull_rule TypeFinished (hc_initialEpoch cfg + 1) True False] (\<lambda>_ msgs.
       case msgs of
         None \<Rightarrow> (c, keep_reading)
       | Some msgs \<Rightarrow>
           (case msgs TypeFinished of
              Some (MFinished verifyData) \<Rightarrow>
                (case st_cipherSuite (cn_state c) of
                   None \<Rightarrow> (c, Abort)
                 | Some cs \<Rightarrow>
                     check_finished c
                       (VerifyDataClient (st_masterSecret (cn_state c))
                          (pullAndMerge (cn_handshakeCache c) (resumed_rules (hc_initialEpoch cfg))) (suite_HashFunc env cs))
                       verifyData (\<lambda>c. (c, Next flight4b)))
            | _ \<Rightarrow> (c, fatal_alert InternalError)))"

text \<open>\<^verbatim>\<open>state.localVerifyData, err = ...\<close> unless the verify data was made before.\<close>

definition set_verify_data :: "Conn \<Rightarrow> (CipherSuite \<Rightarrow> bytes res) \<Rightarrow> Conn \<times> unit outcome" where
  "set_verify_data c f =
     (if length (st_localVerifyData (cn_state c)) \<noteq> 0 then (c, Next ())
      else case st_cipherSuite (cn_state c) of
        None \<Rightarrow> (c, Abort)
      | Some cs \<Rightarrow>
          let r = f cs in
          andThen (check (upd_state (\<lambda>s. s\<lparr>st_localVerifyData := res_bytes r\<rparr>) c) InternalError r) (\<lambda>c _. (c, Next ())))"

definition flight4bGenerate :: "'b hs_env \<Rightarrow> handshakeConfig \<Rightarrow> Conn \<Rightarrow> Conn \<times> packet list outcome" where
  "flight4bGenerate env cfg c =
     andThen (select_protocol cfg c) (\<lambda>c alpn.
       case st_cipherSuite (cn_state c) of
         None \<Rightarrow> (c, Abort)
       | Some cs \<Rightarrow>
           let p = hs_packet (server_hello_message cfg (cn_state c) cs (server_extensions cfg (cn_state c) @ alpn)) in
           (case rec_Content (pk_record p) of
              HandshakeC h \<Rightarrow>
                let serverHello = h\<lparr>hd_Header := (hd_Header h)\<lparr>hs_MessageSequence :=
                      word_of_int (st_handshakeSendSequence (cn_state c))\<rparr>\<rparr> in
                andThen
                  (if length (st_localVerifyData (cn_state c)) = 0 then
                     andThen (check c InternalError (Handshake_Marshal (ce_cb (he_conn env)) serverHello)) (\<lambda>c (raw, serverHello).
                       andThen (set_verify_data c (\<lambda>cs. VerifyDataServer (st_masterSecret (cn_state c))
                           (pullAndMerge (cn_handshakeCache c) [pull_rule TypeClientHello (hc_initialEpoch cfg) True False] @ raw)
                           (suite_HashFunc env cs))) (\<lambda>c _. (c, Next serverHello)))
                   else (c, Next serverHello))
                  (\<lambda>c serverHello.
                    (c, Next [p\<lparr>pk_record := (pk_record p)\<lparr>rec_Content := HandshakeC serverHello\<rparr>\<rparr>, ccs_packet,
                              finished_packet False (st_localVerifyData (cn_state c))]))
            | _ \<Rightarrow> (c, Abort)))"

subsection \<open>Flight 5: the client's messages, and the server's Finished\<close>

definition flight5Parse :: "'b hs_env \<Rightarrow> handshakeConfig \<Rightarrow> Conn \<Rightarrow> Conn \<times> flightVal outcome" where
  "flight5Parse env cfg c =
     pull env c (st_handshakeRecvSequence (cn_state c))
       [pull_rule TypeFinished (hc_initialEpoch cfg + 1) False False] (\<lambda>_ msgs.
       case msgs of
         None \<Rightarrow> (c, keep_reading)
       | Some msgs \<Rightarrow>
           (case msgs TypeFinished of
              Some (MFinished verifyData) \<Rightarrow>
                (case st_cipherSuite (cn_state c) of
                   None \<Rightarrow> (c, Abort)
                 | Some cs \<Rightarrow>
                     check_finished c
                       (VerifyDataServer (st_masterSecret (cn_state c))
                          (pullAndMerge (cn_handshakeCache c) (full_rules (hc_initialEpoch cfg))) (suite_HashFunc env cs))
                       verifyData (\<lambda>c.
                         andThen (if length (st_SessionID (cn_state c)) > 0 then store_session cfg c (sessionKey cfg c)
                                  else (c, Next ())) (\<lambda>c _. (c, Next flight5))))
            | _ \<Rightarrow> (c, fatal_alert InternalError)))"

text \<open>The client's certificate: its packet and the key to sign with.\<close>

definition client_certificate :: "'b hs_env \<Rightarrow> handshakeConfig \<Rightarrow> Conn \<Rightarrow> Conn \<times> (packet list \<times> signing_key option) outcome" where
  "client_certificate env cfg c =
     (if \<not> st_remoteRequestedCertificate (cn_state c) then (c, Next ([], None))
      else
        pull env c (st_handshakeRecvSequence (cn_state c) - 2)
          [pull_rule TypeCertificateRequest (hc_initialEpoch cfg) False False] (\<lambda>_ msgs.
          case (case msgs of None \<Rightarrow> None | Some msgs \<Rightarrow> msgs TypeCertificateRequest) of
            Some (MCertificateRequest r) \<Rightarrow>
              andThen (check c HandshakeFailure
                  (getClientCertificate (ce_x509 (he_conn env)) cfg (cr_CertificateAuthoritiesNames r))) (\<lambda>c certificate.
                case certificate of
                  None \<Rightarrow> (c, fatal HandshakeFailure (Conn ErrNotAcceptableCertificateChain))
                | Some cert \<Rightarrow>
                    (c, Next ([hs_packet (MCertificate (case tc_Certificate cert of None \<Rightarrow> [] | Some certs \<Rightarrow> certs))],
                              (if tc_Certificate cert \<noteq> None then tc_PrivateKey cert else None))))
          | _ \<Rightarrow> (c, fatal HandshakeFailure (Conn ErrClientCertificateRequired))))"

definition client_key_exchange :: "handshakeConfig \<Rightarrow> Conn \<Rightarrow> Conn \<times> packet list outcome" where
  "client_key_exchange cfg c =
     (let m = \<lparr>ck_IdentityHint = (if hc_localPSKCallback cfg = None then None else hc_localPSKIdentityHint cfg),
               ck_PublicKey = None\<rparr> in
      case st_localKeypair (cn_state c) of
        None \<Rightarrow> if hc_localPSKCallback cfg = None then (c, Abort) else (c, Next [hs_packet (MClientKeyExchange m)])
      | Some kp \<Rightarrow>
          (c, Next [hs_packet (MClientKeyExchange
             (if hc_localPSKCallback cfg = None \<or> length (kp_PublicKey kp) > 0
              then m\<lparr>ck_PublicKey := Some (kp_PublicKey kp)\<rparr> else m))]))"

definition zero_ServerKeyExchange :: MessageServerKeyExchange where
  "zero_ServerKeyExchange = \<lparr>sk_IdentityHint = None, sk_EllipticCurveType = 0, sk_NamedCurve = 0, sk_PublicKey = [],
     sk_HashAlgorithm = 0, sk_SignatureAlgorithm = 0, sk_Signature = []\<rparr>"

text \<open>The ServerKeyExchange message, which may be absent with a pre-shared key.\<close>

definition server_key_exchange :: "'b hs_env \<Rightarrow> handshakeConfig \<Rightarrow> Conn \<Rightarrow> Conn \<times> MessageServerKeyExchange outcome" where
  "server_key_exchange env cfg c =
     (let data = pullAndMerge (cn_handshakeCache c) [pull_rule TypeServerKeyExchange (hc_initialEpoch cfg) False False] in
      if length data = 0 then
        andThen (handleServerKeyExchange env cfg c zero_ServerKeyExchange) (\<lambda>c _. (c, Next zero_ServerKeyExchange))
      else case st_cipherSuite (cn_state c) of
        None \<Rightarrow> (c, Abort)
      | Some cs \<Rightarrow>
          andThen (check c UnexpectedMessage
              (Handshake_Unmarshal (ce_cb (he_conn env)) (cs_KeyExchangeAlgorithm cs) data)) (\<lambda>c rawHandshake.
            case hd_Message rawHandshake of
              Some (MServerKeyExchange h) \<Rightarrow> (c, Next h)
            | _ \<Rightarrow> (c, fatal UnexpectedMessage (Codec ErrInvalidContentType))))"

text \<open>The not yet sent messages, numbered and marshalled.\<close>

fun merge_packets ::
  "'b hs_env \<Rightarrow> Conn \<Rightarrow> packet list \<Rightarrow> uint16 \<Rightarrow> Conn \<times> (packet list \<times> bytes \<times> uint16) outcome" where
  "merge_packets env c [] seqPred = (c, Next ([], [], seqPred))"
| "merge_packets env c (p # pkts) seqPred =
     (case rec_Content (pk_record p) of
        HandshakeC h \<Rightarrow>
          andThen (check c InternalError (Handshake_Marshal (ce_cb (he_conn env))
              (h\<lparr>hd_Header := (hd_Header h)\<lparr>hs_MessageSequence := seqPred\<rparr>\<rparr>))) (\<lambda>c (raw, h).
            andThen (merge_packets env c pkts (seqPred + 1)) (\<lambda>c (pkts, merged, seqPred).
              (c, Next (p\<lparr>pk_record := (pk_record p)\<lparr>rec_Content := HandshakeC h\<rparr>\<rparr> # pkts, raw @ merged, seqPred))))
      | _ \<Rightarrow> (c, fatal InternalError (Codec ErrInvalidContentType)))"

definition initializeCipherSuite ::
  "'b hs_env \<Rightarrow> handshakeConfig \<Rightarrow> Conn \<Rightarrow> MessageServerKeyExchange \<Rightarrow> bytes \<Rightarrow> Conn \<times> unit outcome" where
  "initializeCipherSuite env cfg c h sendingPlainText =
     (case st_cipherSuite (cn_state c) of
        None \<Rightarrow> (c, Abort)
      | Some cs \<Rightarrow>
          if suite_IsInitialized cs then (c, Next ())
          else
            let clientRandom = Random_MarshalFixed (st_localRandom (cn_state c));
                serverRandom = Random_MarshalFixed (st_remoteRandom (cn_state c));
                x509 = ce_x509 (he_conn env);
                certs = (case st_PeerCertificates (cn_state c) of None \<Rightarrow> [] | Some certs \<Rightarrow> certs) in
            andThen (set_master_secret env cfg c cs IllegalParameter (st_preMasterSecret (cn_state c)) [sendingPlainText]
                       clientRandom serverRandom) (\<lambda>c _.
              andThen
                (if cs_AuthenticationType cs \<noteq> AuthenticationTypeCertificate then (c, Next ())
                 else if \<not> scheme_listed cfg (sk_HashAlgorithm h) (sk_SignatureAlgorithm h)
                 then (c, fatal InsufficientSecurity (Config ErrNoAvailableSignatureSchemes))
                 else
                   andThen (check c BadCertificate (verifyKeySignature x509
                       (valueKeyMessage clientRandom serverRandom (sk_PublicKey h) (sk_NamedCurve h))
                       (sk_Signature h) (sk_HashAlgorithm h) certs)) (\<lambda>c _.
                     andThen (if hc_insecureSkipVerify cfg then (c, Next [])
                              else check c BadCertificate (verifyServerCert x509 certs (hc_rootCAs cfg) (hc_serverName cfg)))
                       (\<lambda>c verifiedChains. verify_peer_certificate cfg c verifiedChains)))
                (\<lambda>c _. andThen (verify_connection cfg c) (\<lambda>c _.
                  init_suite env c cs clientRandom serverRandom True))))"

text \<open>The CertificateVerify message, when the client signs.\<close>

definition certificate_verify ::
  "'b hs_env \<Rightarrow> handshakeConfig \<Rightarrow> Conn \<Rightarrow> signing_key option \<Rightarrow> bytes \<Rightarrow> uint16 \<Rightarrow> Conn \<times> (packet list \<times> bytes) outcome" where
  "certificate_verify env cfg c privateKey merged seqPred =
     (case privateKey of
        None \<Rightarrow> (c, Next ([], merged))
      | Some key \<Rightarrow>
          if \<not> st_remoteRequestedCertificate (cn_state c) then (c, Next ([], merged))
          else
            let plainText = pullAndMerge (cn_handshakeCache c) (certificate_verify_rules (hc_initialEpoch cfg)) @ merged in
            andThen (check c InsufficientSecurity
                (SelectSignatureScheme (st_remoteCertRequestAlgs (cn_state c)) (sk_kind key))) (\<lambda>c algo.
              andThen (check c InternalError
                  (generateCertificateVerify (ce_x509 (he_conn env)) plainText privateKey (sh_Hash algo))) (\<lambda>c certVerify.
                andThen (merge_packets env (upd_state (\<lambda>s. s\<lparr>st_localCertificatesVerify := certVerify\<rparr>) c)
                    [hs_packet (MCertificateVerify \<lparr>cv_HashAlgorithm = sh_Hash algo,
                       cv_SignatureAlgorithm = sh_Signature algo, cv_Signature = certVerify\<rparr>)] seqPred)
                  (\<lambda>c (pkts, raw, _). (c, Next (pkts, merged @ raw))))))"

definition flight5Generate :: "'b hs_env \<Rightarrow> handshakeConfig \<Rightarrow> Conn \<Rightarrow> Conn \<times> packet list outcome" where
  "flight5Generate env cfg c =
     andThen (client_certificate env cfg c) (\<lambda>c (certPkts, privateKey).
       andThen (client_key_exchange cfg c) (\<lambda>c kxPkts.
         andThen (server_key_exchange env cfg c) (\<lambda>c serverKeyExchange.
           andThen (merge_packets env c (certPkts @ kxPkts) (word_of_int (st_handshakeSendSequence (cn_state c))))
             (\<lambda>c (pkts, merged, seqPred).
               andThen (initializeCipherSuite env cfg c serverKeyExchange merged) (\<lambda>c _.
                 andThen (certificate_verify env cfg c privateKey merged seqPred) (\<lambda>c (verifyPkts, merged).
                   andThen (set_verify_data c (\<lambda>cs. VerifyDataClient (st_masterSecret (cn_state c))
                       (pullAndMerge (cn_handshakeCache c) (full_rules (hc_initialEpoch cfg)) @ merged)
                       (suite_HashFunc env cs))) (\<lambda>c _.
                     (c, Next (pkts @ verifyPkts @ [ccs_packet,
                        finished_packet (hasRemoteCID c) (st_localVerifyData (cn_state c))])))))))))"

subsection \<open>Flights 5b and 6: the last Finished\<close>

definition finished_again :: "'b hs_env \<Rightarrow> handshakeConfig \<Rightarrow> Conn \<Rightarrow> bool \<Rightarrow> flightVal \<Rightarrow> Conn \<times> flightVal outcome" where
  "finished_again env cfg c fromClient f =
     pull env c (st_handshakeRecvSequence (cn_state c) - 1)
       [pull_rule TypeFinished (hc_initialEpoch cfg + 1) fromClient False] (\<lambda>_ msgs.
       case msgs of
         None \<Rightarrow> (c, keep_reading)
       | Some msgs \<Rightarrow>
           (case msgs TypeFinished of
              Some (MFinished _) \<Rightarrow> (c, Next f)
            | _ \<Rightarrow> (c, fatal_alert InternalError)))"

definition flight5bParse :: "'b hs_env \<Rightarrow> handshakeConfig \<Rightarrow> Conn \<Rightarrow> Conn \<times> flightVal outcome" where
  "flight5bParse env cfg c = finished_again env cfg c False flight5b"

definition flight5bGenerate :: "'b hs_env \<Rightarrow> handshakeConfig \<Rightarrow> Conn \<Rightarrow> Conn \<times> packet list outcome" where
  "flight5bGenerate env cfg c =
     andThen (set_verify_data c (\<lambda>cs. VerifyDataClient (st_masterSecret (cn_state c))
         (pullAndMerge (cn_handshakeCache c) (resumed_rules (hc_initialEpoch cfg))) (suite_HashFunc env cs))) (\<lambda>c _.
       (c, Next [ccs_packet, finished_packet False (st_localVerifyData (cn_state c))]))"

definition flight6Parse :: "'b hs_env \<Rightarrow> handshakeConfig \<Rightarrow> Conn \<Rightarrow> Conn \<times> flightVal outcome" where
  "flight6Parse env cfg c = finished_again env cfg c True flight6"

definition flight6Generate :: "'b hs_env \<Rightarrow> handshakeConfig \<Rightarrow> Conn \<Rightarrow> Conn \<times> packet list outcome" where
  "flight6Generate env cfg c =
     andThen (set_verify_data c (\<lambda>cs. VerifyDataServer (st_masterSecret (cn_state c))
         (pullAndMerge (cn_handshakeCache c) (full_rules (hc_initialEpoch cfg))) (suite_HashFunc env cs))) (\<lambda>c _.
       (c, Next [ccs_packet, finished_packet (hasRemoteCID c) (st_localVerifyData (cn_state c))]))"

subsection \<open>The tables: flighthandler.go\<close>

fun getFlightParser :: "'b hs_env \<Rightarrow> handshakeConfig \<Rightarrow> flightVal \<Rightarrow> (Conn \<Rightarrow> Conn \<times> flightVal outcome) res" where
  "getFlightParser env cfg flight0 = Ok (flight0Parse env cfg)"
| "getFlightParser env cfg flight1 = Ok (flight1Parse env cfg)"
| "getFlightParser env cfg flight2 = Ok (flight2Parse env cfg)"
| "getFlightParser env cfg flight3 = Ok (flight3Parse env cfg)"
| "getFlightParser env cfg flight4 = Ok (flight4Parse env cfg)"
| "getFlightParser env cfg flight4b = Ok (flight4bParse env cfg)"
| "getFlightParser env cfg flight5 = Ok (flight5Parse env cfg)"
| "getFlightParser env cfg flight5b = Ok (flight5bParse env cfg)"
| "getFlightParser env cfg flight6 = Ok (flight6Parse env cfg)"
| "getFlightParser env cfg noFlight = Err (Conn ErrInvalidFlight)"

fun getFlightGenerator ::
  "'b hs_env \<Rightarrow> handshakeConfig \<Rightarrow> flightVal \<Rightarrow> ((Conn \<Rightarrow> Conn \<times> packet list outcome) \<times> bool) res" where
  "getFlightGenerator env cfg flight0 = Ok (flight0Generate env cfg, True)"
| "getFlightGenerator env cfg flight1 = Ok (flight1Generate env cfg, True)"
| "getFlightGenerator env cfg flight2 = Ok (flight2Generate env cfg, False)"
| "getFlightGenerator env cfg flight3 = Ok (flight3Generate env cfg, True)"
| "getFlightGenerator env cfg flight4 = Ok (flight4Generate env cfg, True)"
| "getFlightGenerator env cfg flight4b = Ok (flight4bGenerate env cfg, True)"
| "getFlightGenerator env cfg flight5 = Ok (flight5Generate env cfg, True)"
| "getFlightGenerator env cfg flight5b = Ok (flight5bGenerate env cfg, True)"
| "getFlightGenerator env cfg flight6 = Ok (flight6Generate env cfg, True)"
| "getFlightGenerator env cfg noFlight = Err (Conn ErrInvalidFlight)"

end
