(* ===== verification/Handshaker.thy ===== *)
theory Handshaker
  imports Handshake_Flights
begin

section \<open>The handshake state machine: handshaker.go, and how connections start\<close>

text \<open>
  The machine of RFC 6347, section 4.2.4, that prepares flights, sends them and waits for the next,
  and the functions of \<^verbatim>\<open>conn.go\<close> and \<^verbatim>\<open>resume.go\<close> that make a connection and start it.
  \<^item> \<open>handshakeFSM\<close> holds the connection, whose state and cache the machine shares by pointer.
  \<^item> What \<^verbatim>\<open>wait\<close> and \<^verbatim>\<open>finish\<close> select on is an argument, \<open>fsm_event\<close>: a notice of the reading loop,
    the retransmission timer, or the end of the context with its error. A result \<open>None\<close> of \<open>wait\<close> is
    its inner loop going on.
  \<^item> \<open>Run\<close> is the loop of \<^verbatim>\<open>Run\<close> on a list of such events. It stops when an event is needed and none
    is left.
  \<^item> Logging is not represented.
\<close>

datatype handshakeState =
  handshakeErrored | handshakePreparing | handshakeSending | handshakeWaiting | handshakeFinished

record handshakeFSM =
  fs_currentFlight :: flightVal
  fs_flights :: "packet list"
  fs_retransmit :: bool
  fs_conn :: Conn

datatype fsm_event = RecvHandshake | RetransmitTimer | CtxDone error

definition newHandshakeFSM :: "Conn \<Rightarrow> flightVal \<Rightarrow> handshakeFSM" where
  "newHandshakeFSM c initialFlight =
     \<lparr>fs_currentFlight = initialFlight, fs_flights = [], fs_retransmit = False, fs_conn = c\<rparr>"

subsection \<open>The steps of the machine\<close>

text \<open>
  An alert is sent; an error of the sending replaces the error there was, and is dropped when there
  was none.
\<close>

definition report :: "'b hs_env \<Rightarrow> handshakeConfig \<Rightarrow> Conn \<Rightarrow> Alert option \<Rightarrow> error option \<Rightarrow> Conn \<times> error option res" where
  "report env cfg c a err =
     (case a of
        None \<Rightarrow> (c, Ok err)
      | Some a \<Rightarrow>
          (case notify (he_conn env) cfg c (al_Level a) (al_Description a) of
             (c, Panic) \<Rightarrow> (c, Panic)
           | (c, Ok _) \<Rightarrow> (c, Ok err)
           | (c, Err alertErr) \<Rightarrow> (c, Ok (if err \<noteq> None then Some alertErr else None))))"

text \<open>The epochs and message numbers of the packets of a flight, and the greatest epoch.\<close>

fun number_flights :: "uint16 \<Rightarrow> packet list \<Rightarrow> int \<Rightarrow> uint16 \<Rightarrow> packet list \<times> int \<times> uint16" where
  "number_flights epoch [] sendSeq nextEpoch = ([], sendSeq, nextEpoch)"
| "number_flights epoch (p # pkts) sendSeq nextEpoch =
     (let hdr = rec_Header (pk_record p); hdr = hdr\<lparr>rl_Epoch := rl_Epoch hdr + epoch\<rparr>;
          nextEpoch = (if rl_Epoch hdr > nextEpoch then rl_Epoch hdr else nextEpoch);
          (content, sendSeq) = (case rec_Content (pk_record p) of
             HandshakeC h \<Rightarrow> (HandshakeC (h\<lparr>hd_Header := (hd_Header h)\<lparr>hs_MessageSequence := word_of_int sendSeq\<rparr>\<rparr>), sendSeq + 1)
           | x \<Rightarrow> (x, sendSeq));
          (pkts, sendSeq, nextEpoch) = number_flights epoch pkts sendSeq nextEpoch in
      (p\<lparr>pk_record := \<lparr>rec_Header = hdr, rec_Content = content\<rparr>\<rparr> # pkts, sendSeq, nextEpoch))"

definition buffer_flight :: "handshakeConfig \<Rightarrow> handshakeFSM \<Rightarrow> packet list \<Rightarrow> handshakeFSM" where
  "buffer_flight cfg s pkts =
     (let epoch = hc_initialEpoch cfg;
          (pkts, sendSeq, nextEpoch) = number_flights epoch pkts (st_handshakeSendSequence (cn_state (fs_conn s))) epoch;
          c = upd_state (\<lambda>st. st\<lparr>st_handshakeSendSequence := sendSeq\<rparr>) (fs_conn s) in
      s\<lparr>fs_flights := pkts, fs_conn := (if epoch \<noteq> nextEpoch then setLocalEpoch nextEpoch c else c)\<rparr>)"

definition prepare :: "'b hs_env \<Rightarrow> handshakeConfig \<Rightarrow> handshakeFSM \<Rightarrow> handshakeFSM \<times> handshakeState res" where
  "prepare env cfg s =
     (let s = s\<lparr>fs_flights := []\<rparr>;
          (s, pkts, a, err) =
            (case getFlightGenerator env cfg (fs_currentFlight s) of
               Ok (gen, retransmit) \<Rightarrow>
                 (case gen (fs_conn s) of
                    (c, Next pkts) \<Rightarrow> (s\<lparr>fs_conn := c, fs_retransmit := retransmit\<rparr>, Some pkts, None, None)
                  | (c, Fail a err) \<Rightarrow> (s\<lparr>fs_conn := c, fs_retransmit := retransmit\<rparr>, Some [], a, err)
                  | (c, Abort) \<Rightarrow> (s\<lparr>fs_conn := c\<rparr>, None, None, None))
             | Err e \<Rightarrow> (s, Some [], Some \<lparr>al_Level = alert_Fatal, al_Description = InternalError\<rparr>, Some e)
             | Panic \<Rightarrow> (s, None, None, None)) in
      case pkts of
        None \<Rightarrow> (s, Panic)
      | Some pkts \<Rightarrow>
          (case report env cfg (fs_conn s) a err of
             (c, Ok None) \<Rightarrow> (buffer_flight cfg (s\<lparr>fs_conn := c\<rparr>) pkts, Ok handshakeSending)
           | (c, Ok (Some e)) \<Rightarrow> (s\<lparr>fs_conn := c\<rparr>, Err e)
           | (c, Err e) \<Rightarrow> (s\<lparr>fs_conn := c\<rparr>, Err e)
           | (c, Panic) \<Rightarrow> (s\<lparr>fs_conn := c\<rparr>, Panic)))"

definition send :: "'b hs_env \<Rightarrow> handshakeConfig \<Rightarrow> handshakeFSM \<Rightarrow> handshakeFSM \<times> handshakeState res" where
  "send env cfg s =
     (let (c, pkts, r) = writePackets (he_conn env) (fs_conn s) (fs_flights s);
          s = s\<lparr>fs_conn := c, fs_flights := pkts\<rparr> in
      (s, bind r (\<lambda>_. Ok (if isLastSendFlight (fs_currentFlight s) then handshakeFinished else handshakeWaiting))))"

text \<open>A notice that messages arrived: the parser, and the alert it asks for.\<close>

definition parse_flight ::
  "'b hs_env \<Rightarrow> handshakeConfig \<Rightarrow> handshakeFSM \<Rightarrow> (Conn \<Rightarrow> Conn \<times> flightVal outcome) \<Rightarrow> handshakeFSM \<times> flightVal res" where
  "parse_flight env cfg s parse =
     (case parse (fs_conn s) of
        (c, Next f) \<Rightarrow> (s\<lparr>fs_conn := c\<rparr>, Ok f)
      | (c, Abort) \<Rightarrow> (s\<lparr>fs_conn := c\<rparr>, Panic)
      | (c, Fail a err) \<Rightarrow>
          (case report env cfg c a err of
             (c, Ok None) \<Rightarrow> (s\<lparr>fs_conn := c\<rparr>, Ok noFlight)
           | (c, Ok (Some e)) \<Rightarrow> (s\<lparr>fs_conn := c\<rparr>, Err e)
           | (c, Err e) \<Rightarrow> (s\<lparr>fs_conn := c\<rparr>, Err e)
           | (c, Panic) \<Rightarrow> (s\<lparr>fs_conn := c\<rparr>, Panic)))"

text \<open>No parser for the flight.\<close>

definition invalid_flight :: "'b hs_env \<Rightarrow> handshakeConfig \<Rightarrow> handshakeFSM \<Rightarrow> error \<Rightarrow> handshakeFSM \<times> 'r res" where
  "invalid_flight env cfg s errFlight =
     (case notify (he_conn env) cfg (fs_conn s) alert_Fatal InternalError of
        (c, Ok _) \<Rightarrow> (s\<lparr>fs_conn := c\<rparr>, Err errFlight)
      | (c, Err alertErr) \<Rightarrow> (s\<lparr>fs_conn := c\<rparr>, Err alertErr)
      | (c, Panic) \<Rightarrow> (s\<lparr>fs_conn := c\<rparr>, Panic))"

definition wait :: "'b hs_env \<Rightarrow> handshakeConfig \<Rightarrow> handshakeFSM \<Rightarrow> fsm_event \<Rightarrow> handshakeFSM \<times> handshakeState option res" where
  "wait env cfg s ev =
     (case getFlightParser env cfg (fs_currentFlight s) of
        Err e \<Rightarrow> invalid_flight env cfg s e
      | Panic \<Rightarrow> (s, Panic)
      | Ok parse \<Rightarrow>
          (case ev of
             RecvHandshake \<Rightarrow>
               (let (s, r) = parse_flight env cfg s parse in
                case r of
                  Err e \<Rightarrow> (s, Err e) | Panic \<Rightarrow> (s, Panic)
                | Ok nextFlight \<Rightarrow>
                    if nextFlight = noFlight then (s, Ok None)
                    else if isLastRecvFlight nextFlight \<and> fs_currentFlight s = nextFlight
                    then (s, Ok (Some handshakeFinished))
                    else (s\<lparr>fs_currentFlight := nextFlight\<rparr>, Ok (Some handshakePreparing)))
           | RetransmitTimer \<Rightarrow>
               (s, Ok (Some (if fs_retransmit s then handshakeSending else handshakeWaiting)))
           | CtxDone e \<Rightarrow> (s, Err e)))"

text \<open>After the handshake a timer alone does nothing: it is awaited only before sending again.\<close>

definition finish :: "'b hs_env \<Rightarrow> handshakeConfig \<Rightarrow> handshakeFSM \<Rightarrow> fsm_event \<Rightarrow> handshakeFSM \<times> handshakeState option res" where
  "finish env cfg s ev =
     (case getFlightParser env cfg (fs_currentFlight s) of
        Err e \<Rightarrow> invalid_flight env cfg s e
      | Panic \<Rightarrow> (s, Panic)
      | Ok parse \<Rightarrow>
          (case ev of
             RecvHandshake \<Rightarrow>
               (let (s, r) = parse_flight env cfg s parse in
                case r of
                  Err e \<Rightarrow> (s, Err e) | Panic \<Rightarrow> (s, Panic)
                | Ok nextFlight \<Rightarrow>
                    if nextFlight = noFlight then (s, Ok (Some handshakeFinished))
                    else if isLastRecvFlight nextFlight \<and> fs_currentFlight s = nextFlight
                    then (s, Ok (Some handshakeFinished))
                    else (s, Ok (Some handshakeSending)))
           | RetransmitTimer \<Rightarrow> (s, Ok None)
           | CtxDone e \<Rightarrow> (s, Err e)))"

text \<open>The callback that \<^verbatim>\<open>handshake\<close> installs marks the connection as established.\<close>

definition onFlightState :: "handshakeState \<Rightarrow> handshakeFSM \<Rightarrow> handshakeFSM" where
  "onFlightState st s =
     (if st = handshakeFinished then s\<lparr>fs_conn := (fs_conn s)\<lparr>cn_handshakeCompletedSuccessfully := True\<rparr>\<rparr> else s)"

text \<open>One turn of the loop of \<^verbatim>\<open>Run\<close>. Only waiting states look at the event.\<close>

definition some_state :: "'a \<times> handshakeState res \<Rightarrow> 'a \<times> handshakeState option res" where
  "some_state r = (fst r, bind (snd r) (\<lambda>st. Ok (Some st)))"

definition fsm_turn ::
  "'b hs_env \<Rightarrow> handshakeConfig \<Rightarrow> handshakeFSM \<Rightarrow> handshakeState \<Rightarrow> fsm_event \<Rightarrow> handshakeFSM \<times> handshakeState option res" where
  "fsm_turn env cfg s st ev =
     (let s = onFlightState st s in
      case st of
        handshakePreparing \<Rightarrow> some_state (prepare env cfg s)
      | handshakeSending \<Rightarrow> some_state (send env cfg s)
      | handshakeWaiting \<Rightarrow> wait env cfg s ev
      | handshakeFinished \<Rightarrow> finish env cfg s ev
      | handshakeErrored \<Rightarrow> (s, Err (Conn ErrInvalidFSMTransition)))"

lemma prepare_Ok: "prepare env cfg s = (s', Ok st) \<Longrightarrow> st = handshakeSending"
  by (auto simp: prepare_def Let_def split: prod.splits option.splits res.splits)

lemma send_Ok: "send env cfg s = (s', Ok st) \<Longrightarrow> st = handshakeFinished \<or> st = handshakeWaiting"
  by (auto simp: send_def Let_def bind_eq_Ok split: prod.splits if_splits)

fun state_rank :: "handshakeState \<Rightarrow> nat" where
  "state_rank handshakePreparing = 2"
| "state_rank handshakeSending = 1"
| "state_rank _ = 0"

lemma state_rank_less: "state_rank st < 3"
  by (cases st) auto

definition blocking :: "handshakeState \<Rightarrow> bool" where
  "blocking st \<longleftrightarrow> st = handshakeWaiting \<or> st = handshakeFinished"

lemma fsm_turn_rank:
  assumes "fsm_turn env cfg s st ev = (s', Ok r)" "\<not> blocking st"
  obtains st' where "r = Some st'" "state_rank st' < state_rank st"
proof (cases st)
  case handshakePreparing
  then obtain st' where "r = Some st'" "prepare env cfg (onFlightState st s) = (s', Ok st')"
    using assms(1) by (cases "prepare env cfg (onFlightState st s)")
      (auto simp: fsm_turn_def some_state_def Let_def bind_eq_Ok)
  then show ?thesis using that prepare_Ok handshakePreparing by fastforce
next
  case handshakeSending
  then obtain st' where "r = Some st'" "send env cfg (onFlightState st s) = (s', Ok st')"
    using assms(1) by (cases "send env cfg (onFlightState st s)")
      (auto simp: fsm_turn_def some_state_def Let_def bind_eq_Ok)
  then show ?thesis using that send_Ok handshakeSending by fastforce
qed (use assms in \<open>auto simp: fsm_turn_def blocking_def\<close>)

text \<open>\<^verbatim>\<open>Run\<close>: the state it waits in when the events are used up, or the error it returns.\<close>

function Run :: "'b hs_env \<Rightarrow> handshakeConfig \<Rightarrow> handshakeFSM \<Rightarrow> handshakeState \<Rightarrow> fsm_event list \<Rightarrow>
    handshakeFSM \<times> handshakeState res" where
  "Run env cfg s st evs =
     (if blocking st then
        case evs of
          [] \<Rightarrow> (onFlightState st s, Ok st)
        | ev # evs \<Rightarrow>
            (case fsm_turn env cfg s st ev of
               (s, Ok (Some st)) \<Rightarrow> Run env cfg s st evs
             | (s, Ok None) \<Rightarrow> Run env cfg s st evs
             | (s, Err e) \<Rightarrow> (s, Err e) | (s, Panic) \<Rightarrow> (s, Panic))
      else
        case fsm_turn env cfg s st RetransmitTimer of
          (s, Ok (Some st)) \<Rightarrow> Run env cfg s st evs
        | (s, Ok None) \<Rightarrow> (s, Ok st)
        | (s, Err e) \<Rightarrow> (s, Err e) | (s, Panic) \<Rightarrow> (s, Panic))"
  by pat_completeness auto
termination
  by (relation "measure (\<lambda>(env, cfg, s, st, evs). 3 * length evs + state_rank st)")
    (auto intro: less_le_trans [OF state_rank_less] dest!: sym [of "(_, _)"] elim: fsm_turn_rank)

declare Run.simps [simp del]

subsection \<open>Making a connection\<close>

definition defaultMTU :: nat where
  "defaultMTU = 1200"

definition defaultReplayProtectionWindow :: nat where
  "defaultReplayProtectionWindow = 64"

definition createConn :: "bool \<Rightarrow> addr \<Rightarrow> Config option \<Rightarrow> bool \<Rightarrow> Conn res" where
  "createConn nilNextConn rAddr config isClient =
     bind (validateConfig config) (\<lambda>_.
       if nilNextConn then Err (Conn ErrNilNextConn)
       else case config of
         None \<Rightarrow> Panic
       | Some cf \<Rightarrow>
           Ok \<lparr>cn_fragmentBuffer = newFragmentBuffer, cn_handshakeCache = newHandshakeCache, cn_decrypted = [],
               cn_rAddr = rAddr, cn_state = zero_State\<lparr>st_isClient := isClient\<rparr>,
               cn_maximumTransmissionUnit = (if cf_MTU cf \<le> 0 then defaultMTU else nat (cf_MTU cf)),
               cn_paddingLengthGenerator = (case cf_PaddingLengthGenerator cf of None \<Rightarrow> (\<lambda>_. 0) | Some gen \<Rightarrow> gen),
               cn_handshakeCompletedSuccessfully = False, cn_encryptedPackets = [], cn_connectionClosedByUser = False,
               cn_closed = False,
               cn_replayProtectionWindow = (if cf_ReplayProtectionWindow cf \<le> 0 then defaultReplayProtectionWindow
                                            else nat (cf_ReplayProtectionWindow cf)),
               cn_buffers = [], cn_sent = [], cn_nextConnClosed = False, cn_draws = 0, cn_storeLog = []\<rparr>)"

definition defaultCurves :: "uint16 list" where
  "defaultCurves = [X25519, P256, P384]"

definition initialTickerInterval :: int where
  "initialTickerInterval = 1000000000"

text \<open>The configuration of the handshake that \<^verbatim>\<open>handshakeConn\<close> makes from the user's.\<close>

definition make_handshakeConfig :: "'b hs_env \<Rightarrow> Config \<Rightarrow> CipherSuite list \<Rightarrow> Algorithm list \<Rightarrow> handshakeConfig" where
  "make_handshakeConfig env cf cipherSuites signatureSchemes =
     \<lparr>hc_localPSKCallback = cf_PSK cf, hc_localPSKIdentityHint = cf_PSKIdentityHint cf,
      hc_localCipherSuites = cipherSuites, hc_localSignatureSchemes = signatureSchemes,
      hc_extendedMasterSecret = cf_ExtendedMasterSecret cf,
      hc_localSRTPProtectionProfiles = cf_SRTPProtectionProfiles cf,
      hc_serverName = (if he_ParseIP env (cf_ServerName cf) then [] else cf_ServerName cf),
      hc_supportedProtocols = cf_SupportedProtocols cf, hc_clientAuth = cf_ClientAuth cf,
      hc_localCertificates = cf_Certificates cf, hc_insecureSkipVerify = cf_InsecureSkipVerify cf,
      hc_verifyPeerCertificate = cf_VerifyPeerCertificate cf, hc_verifyConnection = cf_VerifyConnection cf,
      hc_sessionStore = cf_SessionStore cf, hc_rootCAs = cf_RootCAs cf, hc_clientCAs = cf_ClientCAs cf,
      hc_retransmitInterval = (if cf_FlightInterval cf \<noteq> 0 then cf_FlightInterval cf else initialTickerInterval),
      hc_customCipherSuites = cf_CustomCipherSuites cf,
      hc_ellipticCurves = (if length (cf_EllipticCurves cf) = 0 then defaultCurves else cf_EllipticCurves cf),
      hc_insecureSkipHelloVerify = cf_InsecureSkipVerifyHello cf,
      hc_connectionIDGenerator = cf_ConnectionIDGenerator cf,
      hc_helloRandomBytesGenerator = cf_HelloRandomBytesGenerator cf,
      hc_localGetCertificate = cf_GetCertificate cf, hc_localGetClientCertificate = cf_GetClientCertificate cf,
      hc_initialEpoch = 0, hc_clientHelloMessageHook = cf_ClientHelloMessageHook cf,
      hc_serverHelloMessageHook = cf_ServerHelloMessageHook cf,
      hc_certificateRequestMessageHook = cf_CertificateRequestMessageHook cf\<rparr>"

text \<open>A server offers only the suites that fit its certificate.\<close>

definition server_suites :: "'b hs_env \<Rightarrow> handshakeConfig \<Rightarrow> handshakeConfig res" where
  "server_suites env cfg =
     (case getCertificate (ce_x509 (he_conn env)) cfg \<lparr>chi_ServerName = [], chi_CipherSuites = [], chi_RandomBytes = []\<rparr> of
        Panic \<Rightarrow> Panic
      | Err e \<Rightarrow>
          if e \<noteq> Config ErrNoCertificates then Err e
          else Ok (cfg\<lparr>hc_localCipherSuites := filterCipherSuitesForCertificate None (hc_localCipherSuites cfg)\<rparr>)
      | Ok cert \<Rightarrow>
          Ok (cfg\<lparr>hc_localCipherSuites := filterCipherSuitesForCertificate
                (map_option sk_kind (tc_PrivateKey cert)) (hc_localCipherSuites cfg)\<rparr>))"

text \<open>\<^verbatim>\<open>handshakeConn\<close> up to the start of the machine: its configuration, the machine and its state.\<close>

definition handshakeConn ::
  "'b hs_env \<Rightarrow> Conn \<Rightarrow> Config \<Rightarrow> bool \<Rightarrow> State option \<Rightarrow> (handshakeConfig \<times> handshakeFSM \<times> handshakeState) res" where
  "handshakeConn env conn cf isClient initialState =
     bind (parseCipherSuites (cf_CipherSuites cf) (cf_CustomCipherSuites cf) (includeCertificateSuites cf) (cf_PSK cf \<noteq> None))
       (\<lambda>cipherSuites.
         bind (ParseSignatureSchemes (cf_SignatureSchemes cf) (cf_InsecureHashes cf)) (\<lambda>signatureSchemes.
           let cfg = make_handshakeConfig env cf cipherSuites signatureSchemes in
           bind (if isClient then Ok cfg else server_suites env cfg) (\<lambda>cfg.
             case initialState of
               Some state \<Rightarrow>
                 Ok (cfg, newHandshakeFSM (conn\<lparr>cn_state := state\<rparr>)
                       (if st_isClient (cn_state conn) then flight5 else flight6), handshakeFinished)
             | None \<Rightarrow>
                 Ok (cfg, newHandshakeFSM conn (if st_isClient (cn_state conn) then flight1 else flight0),
                     handshakePreparing))))"

definition ClientWithContext ::
  "'b hs_env \<Rightarrow> bool \<Rightarrow> addr \<Rightarrow> Config option \<Rightarrow> (handshakeConfig \<times> handshakeFSM \<times> handshakeState) res" where
  "ClientWithContext env nilNextConn rAddr config =
     (case config of
        None \<Rightarrow> Err (Config ErrNoConfigProvided)
      | Some cf \<Rightarrow>
          if cf_PSK cf \<noteq> None \<and> cf_PSKIdentityHint cf = None
          then Err (Config ErrPSKAndIdentityMustBeSetForClient)
          else bind (createConn nilNextConn rAddr config True) (\<lambda>dconn. handshakeConn env dconn cf True None))"

definition ServerWithContext ::
  "'b hs_env \<Rightarrow> bool \<Rightarrow> addr \<Rightarrow> Config option \<Rightarrow> (handshakeConfig \<times> handshakeFSM \<times> handshakeState) res" where
  "ServerWithContext env nilNextConn rAddr config =
     (case config of
        None \<Rightarrow> Err (Config ErrNoConfigProvided)
      | Some cf \<Rightarrow> bind (createConn nilNextConn rAddr config False) (\<lambda>dconn. handshakeConn env dconn cf False None))"

definition Resume ::
  "'b hs_env \<Rightarrow> State \<Rightarrow> bool \<Rightarrow> addr \<Rightarrow> Config option \<Rightarrow> (handshakeConfig \<times> handshakeFSM \<times> handshakeState) res" where
  "Resume env state nilNextConn rAddr config =
     (let (state, r) = initCipherSuite (ce_suites (he_conn env)) state in
      bind r (\<lambda>_. bind (createConn nilNextConn rAddr config (st_isClient state)) (\<lambda>dconn.
        case config of
          None \<Rightarrow> Panic
        | Some cf \<Rightarrow> handshakeConn env dconn cf (st_isClient state) (Some state))))"

text \<open>What the final \<^verbatim>\<open>select\<close> of \<^verbatim>\<open>handshake\<close> returns.\<close>

datatype handshake_end = HandshakeDone | FirstErr error | HandshakeCtxDone error

definition handshake_result :: "Conn \<Rightarrow> handshake_end \<Rightarrow> error option" where
  "handshake_result c ev =
     (case ev of
        HandshakeDone \<Rightarrow> None
      | FirstErr e \<Rightarrow> translateHandshakeCtxError c (Some e)
      | HandshakeCtxDone e \<Rightarrow> translateHandshakeCtxError c (Some e))"

definition SelectedSRTPProtectionProfile :: "Conn \<Rightarrow> uint16 \<times> bool" where
  "SelectedSRTPProtectionProfile c =
     (let profile = st_srtpProtectionProfile (cn_state c) in if profile = 0 then (0, False) else (profile, True))"

definition ConnectionState :: "Conn \<Rightarrow> State res" where
  "ConnectionState c = state_clone (cn_state c)"

definition Conn_Close :: "'b conn_env \<Rightarrow> handshakeConfig \<Rightarrow> Conn \<Rightarrow> Conn \<times> unit res" where
  "Conn_Close env cfg c = Conn_close env cfg c True"

subsection \<open>The machine with the reading loop and the user\<close>

text \<open>
  The goroutines of a connection: the state machine, the reading loop, which after handshake
  messages waits until the machine has looked at them (\<open>mc_pending\<close>), and calls of \<^verbatim>\<open>Write\<close> and
  \<^verbatim>\<open>Close\<close>. Each step is one of their operations.
\<close>

record machine =
  mc_fsm :: handshakeFSM
  mc_state :: handshakeState
  mc_pending :: bool

abbreviation mc_conn :: "machine \<Rightarrow> Conn" where
  "mc_conn m \<equiv> fs_conn (mc_fsm m)"

abbreviation with_conn :: "machine \<Rightarrow> Conn \<Rightarrow> machine" where
  "with_conn m c \<equiv> m\<lparr>mc_fsm := (mc_fsm m)\<lparr>fs_conn := c\<rparr>\<rparr>"

inductive machine_step :: "'b hs_env \<Rightarrow> handshakeConfig \<Rightarrow> machine \<Rightarrow> machine \<Rightarrow> bool" for env cfg where
  M_turn: "fsm_turn env cfg (mc_fsm m) (mc_state m) ev = (s, Ok r) \<Longrightarrow>
     (ev = RecvHandshake \<and> blocking (mc_state m) \<longrightarrow> mc_pending m) \<Longrightarrow>
     machine_step env cfg m (m\<lparr>mc_fsm := s, mc_state := (case r of Some st \<Rightarrow> st | None \<Rightarrow> mc_state m),
       mc_pending := (mc_pending m \<and> \<not> (ev = RecvHandshake \<and> blocking (mc_state m)))\<rparr>)"
| M_error: "fsm_turn env cfg (mc_fsm m) (mc_state m) ev = (s, Err e) \<Longrightarrow>
     (ev = RecvHandshake \<and> blocking (mc_state m) \<longrightarrow> mc_pending m) \<Longrightarrow>
     machine_step env cfg m (m\<lparr>mc_fsm := s, mc_state := handshakeErrored,
       mc_pending := (mc_pending m \<and> \<not> (ev = RecvHandshake \<and> blocking (mc_state m)))\<rparr>)"
| M_read: "\<not> mc_pending m \<Longrightarrow> readAndBuffer (he_conn env) cfg (mc_conn m) k input = (c, Ok hs) \<Longrightarrow>
     machine_step env cfg m (with_conn (m\<lparr>mc_pending := hs\<rparr>) c)"
| M_read_error: "\<not> mc_pending m \<Longrightarrow> readAndBuffer (he_conn env) cfg (mc_conn m) k input = (c0, Err e) \<Longrightarrow>
     readLoop_turn (he_conn env) cfg (mc_conn m) k input = (c, Ok r) \<Longrightarrow>
     machine_step env cfg m (with_conn m c)"
| M_Write: "Conn_Write (he_conn env) (mc_conn m) deadline data = (c, n, r) \<Longrightarrow> machine_step env cfg m (with_conn m c)"
| M_close: "Conn_close (he_conn env) cfg (mc_conn m) byUser = (c, r) \<Longrightarrow> machine_step env cfg m (with_conn m c)"

definition start_machine :: "handshakeFSM \<Rightarrow> handshakeState \<Rightarrow> machine" where
  "start_machine s st = \<lparr>mc_fsm = s, mc_state = st, mc_pending = False\<rparr>"

end
