(* ===== verification/Handshake_Frames.thy ===== *)
theory Handshake_Frames
  imports Handshaker Conn_Receiving "HOL-Library.Sublist"
begin

section \<open>What the operations leave of the handshake\<close>

text \<open>
  Lemmas for the properties of the handshake: reading and writing records changes only counters,
  epochs and replay detectors of the state and only adds to the cache (\<open>kept\<close>, an instance of the
  locale \<open>conn_preorder\<close>); the flights keep the role of the connection, and whether it is
  established, and only add to the cache (\<open>role_kept\<close>).
\<close>

subsection \<open>Reading and writing leave the handshake's state alone\<close>

text \<open>The state without the counters, epochs and replay detectors that records change.\<close>

definition hs_part :: "State \<Rightarrow> State" where
  "hs_part s = s\<lparr>st_localEpoch := 0, st_remoteEpoch := 0, st_localSequenceNumber := [], st_replayDetector := []\<rparr>"

lemma hs_part_updates [simp]:
  "hs_part (s\<lparr>st_localEpoch := a\<rparr>) = hs_part s" "hs_part (s\<lparr>st_remoteEpoch := b\<rparr>) = hs_part s"
  "hs_part (s\<lparr>st_localSequenceNumber := d\<rparr>) = hs_part s" "hs_part (s\<lparr>st_replayDetector := e\<rparr>) = hs_part s"
  by (simp_all add: hs_part_def)

definition kept :: "Conn \<Rightarrow> Conn \<Rightarrow> bool" where
  "kept c c' \<longleftrightarrow> hs_part (cn_state c') = hs_part (cn_state c) \<and>
     prefix (cn_handshakeCache c) (cn_handshakeCache c') \<and>
     cn_handshakeCompletedSuccessfully c' = cn_handshakeCompletedSuccessfully c"

lemma kept_refl [simp]: "kept c c"
  by (simp add: kept_def)

lemma kept_trans: "kept a b \<Longrightarrow> kept b c \<Longrightarrow> kept a c"
  by (auto simp: kept_def)

lemma kept_same:
  "hs_part (cn_state c') = hs_part (cn_state c) \<Longrightarrow> cn_handshakeCache c' = cn_handshakeCache c \<Longrightarrow>
   cn_handshakeCompletedSuccessfully c' = cn_handshakeCompletedSuccessfully c \<Longrightarrow> kept c c'"
  by (simp add: kept_def)

lemma next_seq_kept: "next_seq epoch c = (seq, c') \<Longrightarrow> kept c c'"
  by (auto simp: next_seq_def Let_def intro!: kept_same)

lemma encrypt_raw_kept: "encrypt_raw env c p raw = (c', r) \<Longrightarrow> kept c c'"
  by (auto simp: encrypt_raw_def intro!: kept_same split: if_splits option.splits)

lemma processPacket_kept: "processPacket env c p = (c', p', r) \<Longrightarrow> kept c c'"
  by (auto simp: processPacket_def Let_def split: prod.splits if_splits res.splits
      intro: kept_trans dest!: next_seq_kept encrypt_raw_kept)

lemma processHandshakePacket_loop_kept:
  "processHandshakePacket_loop env epoch c p frags raws = (c', p', r) \<Longrightarrow> kept c c'"
proof (induction frags arbitrary: c p raws)
  case (Cons frag frags)
  obtain seq c1 where n: "next_seq epoch c = (seq, c1)" by fastforce
  note f = next_seq_kept [OF n]
  show ?case
  proof (cases "fragment_raw env c1 p seq frag")
    case (Ok x)
    obtain raw hdr where x: "x = (raw, hdr)" by fastforce
    let ?p = "p\<lparr>pk_record := (pk_record p)\<lparr>rec_Header := hdr\<rparr>\<rparr>"
    obtain c2 r2 where e: "encrypt_raw env c1 ?p raw = (c2, r2)" by fastforce
    have c2: "kept c c2" using f encrypt_raw_kept [OF e] by (rule kept_trans)
    show ?thesis
    proof (cases r2)
      case (Ok raw2)
      then show ?thesis
        using Cons.prems Cons.IH [THEN kept_trans [OF c2]] n \<open>fragment_raw env c1 p seq frag = Ok x\<close> x e f
        by (auto simp: Let_def split: if_splits)
    qed (use Cons.prems n Ok x e f c2 in \<open>auto simp: Let_def split: if_splits\<close>)
  qed (use Cons n f in \<open>auto split: if_splits\<close>)
qed simp

lemma write_packet_kept: "write_packet env c p = (c', p', r) \<Longrightarrow> kept c c'"
proof -
  have hs: "kept c c'" if "processHandshakePacket env (c\<lparr>cn_handshakeCache := cache_push (cn_handshakeCache c) d e m t i\<rparr>) p h
    = (c', p', r)" for d e m t i p h
  proof -
    let ?c = "c\<lparr>cn_handshakeCache := cache_push (cn_handshakeCache c) d e m t i\<rparr>"
    let ?d = "upd_state (\<lambda>s. s\<lparr>st_localSequenceNumber := grow (st_localSequenceNumber s) (unat (rl_Epoch (rec_Header (pk_record p)))) 0\<rparr>) ?c"
    have "kept c ?c" "kept c ?d" by (auto simp: kept_def cache_push_def)
    then show ?thesis
      using that by (auto simp: processHandshakePacket_def Let_def split: res.splits
          dest!: processHandshakePacket_loop_kept intro: kept_trans)
  qed
  assume "write_packet env c p = (c', p', r)"
  then show ?thesis
    using processPacket_kept hs
    by (auto simp: write_packet_def Let_def split: Content.splits res.splits prod.splits)
qed

lemma write_packets_loop_kept: "write_packets_loop env c pkts raws = (c', pkts', r) \<Longrightarrow> kept c c'"
  by (induction env c pkts raws arbitrary: c' pkts' r rule: write_packets_loop.induct)
    (auto split: prod.splits res.splits intro: kept_trans dest!: write_packet_kept)

lemma send_datagrams_kept: "send_datagrams env c ds = (c', r) \<Longrightarrow> kept c c'"
proof (induction ds arbitrary: c)
  case (Cons d ds)
  have "kept c (c\<lparr>cn_sent := x\<rparr>)" for x by (simp add: kept_def)
  then show ?case
    using Cons.prems Cons.IH [THEN kept_trans [rotated]] by (auto simp: Let_def split: res.splits)
qed simp

lemma writePackets_kept: "writePackets env c pkts = (c', pkts', r) \<Longrightarrow> kept c c'"
  by (auto simp: writePackets_def Let_def split: prod.splits res.splits if_splits
      intro: kept_trans dest!: write_packets_loop_kept send_datagrams_kept)

lemma drain_fragments_prefix: "drain_fragments f cache b = (f', cache') \<Longrightarrow> prefix cache cache'"
proof (induction f cache b arbitrary: f' cache' rule: drain_fragments.induct)
  case (1 f cache b)
  obtain g r where p: "pop f = (g, r)" by fastforce
  note d = "1.prems" [unfolded drain_fragments.simps [of f] p]
  show ?case
  proof (cases r)
    case (Some x)
    obtain out epoch where x: "x = (out, epoch)" by fastforce
    note IH = "1.IH" [OF p [symmetric] Some x [symmetric]]
    show ?thesis
    proof (cases "hs_Header_Unmarshal out")
      case (Ok h)
      then show ?thesis using d Some x IH(1) [OF Ok] by (auto simp: cache_push_def dest: append_prefixD)
    qed (use d Some x IH(2,3) in auto)
  qed (use d in simp)
qed

lemma mark_valid_kept: "mark_valid env c h = (c', l) \<Longrightarrow> kept c c'"
  by (auto simp: mark_valid_def Let_def intro!: kept_same)

lemma enqueue_kept: "kept c (fst (enqueueEncryptedPackets c pkt))"
  by (auto simp: enqueueEncryptedPackets_def intro!: kept_same)

lemma setRemoteEpoch_kept: "kept c (setRemoteEpoch e c)"
  by (auto simp: setRemoteEpoch_def intro!: kept_same)

lemma update_rAddr_kept: "kept c c' \<Longrightarrow> kept c (update_rAddr a b r c')"
  by (auto simp: update_rAddr_def kept_def)

lemma handle_content_kept:
  assumes "handle_content env c h pkt q cid content = (c', r)"
  shows "kept c c'"
proof (cases content)
  case ChangeCipherSpecC
  obtain d l where m: "mark_valid env (setRemoteEpoch (rl_Epoch h + 1) c) h = (d, l)" by fastforce
  have "kept c d" using setRemoteEpoch_kept mark_valid_kept [OF m] by (rule kept_trans)
  then show ?thesis
    using assms ChangeCipherSpecC m enqueue_kept [of c pkt] update_rAddr_kept
    by (auto simp: handle_content_def Let_def split: option.splits if_splits)
next
  case (ApplicationDataC data)
  obtain d l where m: "mark_valid env c h = (d, l)" by fastforce
  have "kept c d" "kept c (d\<lparr>cn_decrypted := x\<rparr>)" for x using mark_valid_kept [OF m] by (auto simp: kept_def)
  then show ?thesis
    using assms ApplicationDataC m update_rAddr_kept by (auto simp: handle_content_def Let_def split: if_splits)
qed (use assms mark_valid_kept [OF prod.collapse [symmetric]] in \<open>auto simp: handle_content_def\<close>)

lemma handle_plain_kept:
  assumes "handle_plain env c h pkt q cid buf = (c', r)"
  shows "kept c c'"
proof -
  obtain f rp where f: "push (cn_fragmentBuffer c) buf = (f, rp)" by fastforce
  let ?c = "c\<lparr>cn_fragmentBuffer := f\<rparr>"
  have pc: "kept c ?c" by (simp add: kept_def)
  obtain d lt where m: "mark_valid env ?c h = (d, lt)" by fastforce
  obtain g cache where g: "drain_fragments (cn_fragmentBuffer d) (cn_handshakeCache d) (st_isClient (cn_state d)) = (g, cache)"
    by fastforce
  have "kept d (d\<lparr>cn_fragmentBuffer := g, cn_handshakeCache := cache\<rparr>)"
    using drain_fragments_prefix [OF g] by (simp add: kept_def)
  then have hs: "kept c (d\<lparr>cn_fragmentBuffer := g, cn_handshakeCache := cache\<rparr>)"
    using pc mark_valid_kept [OF m] kept_trans by blast
  have "kept c c'" if "handle_content env ?c h pkt q cid content = (c', r)" for content
    using pc handle_content_kept [OF that] by (rule kept_trans)
  then show ?thesis
    using assms f m g pc hs by (auto simp: handle_plain_def Let_def split: res.splits bool.splits)
qed

lemma handleIncomingPacket_kept:
  assumes "handleIncomingPacket env c buf pkt q = (c', r)"
  shows "kept c c'"
proof (cases "\<exists>h plain cid. passes env c buf h plain cid")
  case True
  then obtain h plain cid where p: "passes env c buf h plain cid" by blast
  have "kept c (grow_detectors (rl_Epoch h) c)" by (simp add: grow_detectors_def kept_def)
  with handle_plain_kept [OF assms [unfolded handleIncomingPacket_passes [OF p]]] show ?thesis
    using kept_trans by blast
next
  case False
  have g: "kept c (grow_detectors e c)" for e by (simp add: grow_detectors_def kept_def)
  from handleIncomingPacket_rejects [OF False assms] have "only_queued q pkt c c'" by simp
  then show ?thesis
    using kept_trans [OF g enqueue_kept] g enqueue_kept by (auto simp: only_queued_def)
qed

interpretation keeping: conn_preorder kept env for env :: "'b conn_env"
proof (unfold_locales, goal_cases)
  case (2 c c' d) then show ?case by (rule kept_trans)
next
  case (3 c buf pkt q c' inc) then show ?case by (rule handleIncomingPacket_kept)
next
  case (4 c pkts c' pkts' u) then show ?case by (rule writePackets_kept)
qed (auto intro!: kept_same simp: read_into_def Let_def)

subsection \<open>What the handlers keep\<close>

text \<open>
  The flights never change the role or whether the handshake is complete, and only add to the cache.
\<close>

definition role_kept :: "Conn \<Rightarrow> Conn \<Rightarrow> bool" where
  "role_kept c c' \<longleftrightarrow> st_isClient (cn_state c') = st_isClient (cn_state c) \<and>
     cn_handshakeCompletedSuccessfully c' = cn_handshakeCompletedSuccessfully c \<and>
     prefix (cn_handshakeCache c) (cn_handshakeCache c')"

lemma role_kept_refl [simp]: "role_kept c c"
  by (simp add: role_kept_def)

lemma role_kept_trans: "role_kept a b \<Longrightarrow> role_kept b c \<Longrightarrow> role_kept a c"
  by (auto simp: role_kept_def)

lemma kept_stateD:
  assumes "kept c c'"
  shows "st_isClient (cn_state c') = st_isClient (cn_state c)"
    "st_masterSecret (cn_state c') = st_masterSecret (cn_state c)"
    "st_cipherSuite (cn_state c') = st_cipherSuite (cn_state c)"
    "st_PeerCertificates (cn_state c') = st_PeerCertificates (cn_state c)"
    "st_peerCertificatesVerified (cn_state c') = st_peerCertificatesVerified (cn_state c)"
    "st_handshakeRecvSequence (cn_state c') = st_handshakeRecvSequence (cn_state c)"
proof -
  have e: "hs_part (cn_state c') = hs_part (cn_state c)" using assms by (simp add: kept_def)
  show "st_isClient (cn_state c') = st_isClient (cn_state c)"
    "st_masterSecret (cn_state c') = st_masterSecret (cn_state c)"
    "st_cipherSuite (cn_state c') = st_cipherSuite (cn_state c)"
    "st_PeerCertificates (cn_state c') = st_PeerCertificates (cn_state c)"
    "st_peerCertificatesVerified (cn_state c') = st_peerCertificatesVerified (cn_state c)"
    "st_handshakeRecvSequence (cn_state c') = st_handshakeRecvSequence (cn_state c)"
    using arg_cong [OF e, of st_isClient] arg_cong [OF e, of st_masterSecret] arg_cong [OF e, of st_cipherSuite]
      arg_cong [OF e, of st_PeerCertificates] arg_cong [OF e, of st_peerCertificatesVerified]
      arg_cong [OF e, of st_handshakeRecvSequence]
    by (simp_all add: hs_part_def)
qed

lemma kept_role: "kept c c' \<Longrightarrow> role_kept c c'"
  using kept_stateD(1) by (auto simp: kept_def role_kept_def)

text \<open>
  Composition: what holds of the connection before a handler holds of the connection after it, whatever
  the outcome. The rules are for any predicate \<open>I\<close> and follow the shapes handlers are written in.
\<close>

lemma fst_check [simp]: "fst (check c desc r) = c"
  by (simp add: check_def)

lemma stays_andThen:
  assumes "I (fst r)" "\<And>c' x. I c' \<Longrightarrow> I (fst (k c' x))"
  shows "I (fst (andThen r k))"
  using assms by (auto simp: andThen_def split: prod.splits outcome.splits)

lemma stays_pull:
  assumes "I c" "\<And>seq msgs. I (fst (k seq msgs))"
  shows "I (fst (pull env c n rules k))"
  using assms by (auto simp: pull_def split: res.splits)

lemma stays_cases:
  "(x = None \<Longrightarrow> I (fst a)) \<Longrightarrow> (\<And>y. x = Some y \<Longrightarrow> I (fst (f y))) \<Longrightarrow> I (fst (case x of None \<Rightarrow> a | Some y \<Rightarrow> f y))"
  "(b \<Longrightarrow> I (fst p)) \<Longrightarrow> (\<not> b \<Longrightarrow> I (fst q)) \<Longrightarrow> I (fst (if b then p else q))"
  "(\<And>y. r = Ok y \<Longrightarrow> I (fst (g y))) \<Longrightarrow> (\<And>e. r = Err e \<Longrightarrow> I (fst (h e))) \<Longrightarrow>
   (r = Panic \<Longrightarrow> I (fst d)) \<Longrightarrow> I (fst (case r of Ok y \<Rightarrow> g y | Err e \<Rightarrow> h e | Panic \<Rightarrow> d))"
  "(b \<Longrightarrow> I p') \<Longrightarrow> (\<not> b \<Longrightarrow> I q') \<Longrightarrow> I (if b then p' else q')"
  "(x = None \<Longrightarrow> I a') \<Longrightarrow> (\<And>y. x = Some y \<Longrightarrow> I (f' y)) \<Longrightarrow> I (case x of None \<Rightarrow> a' | Some y \<Rightarrow> f' y)"
  by (auto split: option.splits res.splits)

lemma stays_case_Message:
  assumes "\<And>y. I (fst (f1 y))" "\<And>y. I (fst (f2 y))" "\<And>y. I (fst (f3 y))"
    "\<And>y. I (fst (f4 y))" "\<And>y. I (fst (f5 y))" "\<And>y. I (fst (f6 y))"
    "I (fst f7)" "\<And>y. I (fst (f8 y))" "\<And>y. I (fst (f9 y))" "\<And>y. I (fst (f10 y))"
  shows "I (fst (case_Message f1 f2 f3 f4 f5 f6 f7 f8 f9 f10 m))"
  using assms by (cases m) auto

lemmas stays_rules = stays_andThen stays_pull stays_cases stays_case_Message

lemma role_kept_upd [simp]:
  "st_isClient s = st_isClient (cn_state c) \<Longrightarrow> role_kept c0 (c\<lparr>cn_state := s\<rparr>) = role_kept c0 c"
  "role_kept c0 (c\<lparr>cn_storeLog := l\<rparr>) = role_kept c0 c"
  "role_kept c0 (draw c) = role_kept c0 c"
  by (simp_all add: role_kept_def draw_def)

lemma initCipherSuite_isClient: "initCipherSuite env s = (s', r) \<Longrightarrow> st_isClient s' = st_isClient s"
  by (auto simp: initCipherSuite_def Let_def split: option.splits if_splits prod.splits)

lemma role_kept_set_keypair: "role_kept c0 c \<Longrightarrow> role_kept c0 (fst (set_keypair env curve desc c))"
  by (simp add: set_keypair_def Let_def)

lemma role_kept_verify:
  "role_kept c0 c \<Longrightarrow> role_kept c0 (fst (verify_connection cfg c))"
  "role_kept c0 c \<Longrightarrow> role_kept c0 (fst (verify_peer_certificate cfg c ch))"
  "role_kept c0 c \<Longrightarrow> role_kept c0 (fst (store_session cfg c key))"
  by (auto simp: verify_connection_def verify_peer_certificate_def store_session_def Let_def
      split: option.splits res.splits)

lemma role_kept_flight0_extensions: "role_kept c0 c \<Longrightarrow> role_kept c0 (fst (flight0_extensions cfg es c))"
  by (induction cfg es c rule: flight0_extensions.induct)
    (auto split: Extension.splits list.splits option.splits)

lemma role_kept_flight3_extensions: "role_kept c0 c \<Longrightarrow> role_kept c0 (fst (flight3_extensions cfg es c))"
  by (induction cfg es c rule: flight3_extensions.induct)
    (auto split: Extension.splits list.splits option.splits)

lemmas role_kept_rules = stays_rules [where I = "role_kept c0" for c0]

lemmas role_kept_intros = role_kept_rules role_kept_set_keypair
  role_kept_verify role_kept_flight0_extensions role_kept_flight3_extensions

lemma role_kept_handleHelloResume: "role_kept c0 c \<Longrightarrow> role_kept c0 (fst (handleHelloResume env cfg i c f))"
  by (auto simp: handleHelloResume_def Let_def initCipherSuite_isClient split: option.splits prod.splits
      intro!: role_kept_intros)

lemma handle_queued_kept: "kept c (fst (handle_queued env cfg c))"
  using keeping.related_queued by (auto simp: handle_queued_def split: prod.splits)

lemma role_kept_handle_queued: "role_kept c0 c \<Longrightarrow> role_kept c0 (fst (handle_queued env cfg c))"
  using role_kept_trans [OF _ kept_role [OF handle_queued_kept]] .

lemma role_kept_flight0Parse: "role_kept c0 c \<Longrightarrow> role_kept c0 (fst (flight0Parse env cfg c))"
  by (auto simp: flight0Parse_def Let_def
      intro!: role_kept_intros role_kept_handleHelloResume)

lemma role_kept_populate: "role_kept c0 c \<Longrightarrow> role_kept c0 (fst (populate_random env c))"
  by (simp add: populate_random_def Let_def)

lemma role_kept_flight0Generate: "role_kept c0 c \<Longrightarrow> role_kept c0 (fst (flight0Generate env cfg c))"
  by (auto simp: flight0Generate_def reset_epochs_def Let_def intro!: role_kept_intros role_kept_populate)

lemma role_kept_load_session: "role_kept c0 c \<Longrightarrow> role_kept c0 (fst (load_session cfg c))"
  by (auto simp: load_session_def intro!: role_kept_intros)

lemma role_kept_client_cid: "role_kept c0 c \<Longrightarrow> role_kept c0 (fst (client_cid cfg c))"
  by (auto simp: client_cid_def split: option.splits res.splits)

lemma role_kept_flight1Generate: "role_kept c0 c \<Longrightarrow> role_kept c0 (fst (flight1Generate env cfg c))"
  by (auto simp: flight1Generate_def reset_epochs_def Let_def
      intro!: role_kept_intros role_kept_populate role_kept_load_session role_kept_client_cid)

lemma role_kept_check_finished:
  assumes "role_kept c0 c" "\<And>c'. role_kept c0 c' \<Longrightarrow> role_kept c0 (fst (k c'))"
  shows "role_kept c0 (fst (check_finished c expected vd k))"
  using assms by (cases expected) (auto simp: check_finished_def)

lemma role_kept_handleResumption: "role_kept c0 c \<Longrightarrow> role_kept c0 (fst (handleResumption env cfg c))"
  by (auto simp: handleResumption_def Let_def initCipherSuite_isClient split: prod.splits
      intro!: role_kept_intros role_kept_handle_queued role_kept_check_finished)

lemma role_kept_handleServerKeyExchange:
  "role_kept c0 c \<Longrightarrow> role_kept c0 (fst (handleServerKeyExchange env cfg c h))"
  by (auto simp: handleServerKeyExchange_def Let_def intro!: role_kept_intros)

lemma role_kept_accept_server_hello: "role_kept c0 c \<Longrightarrow> role_kept c0 (fst (accept_server_hello cfg c h))"
  unfolding accept_server_hello_def Let_def by (intro role_kept_intros) (auto intro!: role_kept_rules)

lemma role_kept_flight3_messages:
  assumes "role_kept c0 c"
  shows "role_kept c0 (fst (flight3_messages env cfg c))"
proof -
  have "role_kept c0 (case m of Some (MCertificateRequest creq) \<Rightarrow>
      upd_state (\<lambda>s. s\<lparr>st_remoteCertRequestAlgs := cr_SignatureHashAlgorithms creq, st_remoteRequestedCertificate := True\<rparr>) d
    | _ \<Rightarrow> d)" if "role_kept c0 d" for d m using that by (auto split: option.split Message.split)
  then show ?thesis
    using assms unfolding flight3_messages_def Let_def
    by (intro role_kept_intros role_kept_handleServerKeyExchange) simp_all
qed

lemma role_kept_accept_cookie: "role_kept c0 c \<Longrightarrow> role_kept c0 (fst (accept_cookie c h seq))"
  by (simp add: accept_cookie_def)

lemma role_kept_flight3Parse: "role_kept c0 c \<Longrightarrow> role_kept c0 (fst (flight3Parse env cfg c))"
  by (auto simp: flight3Parse_def
      intro!: role_kept_intros role_kept_accept_cookie role_kept_accept_server_hello
        role_kept_handleResumption role_kept_flight3_messages)

lemma role_kept_flight1Parse: "role_kept c0 c \<Longrightarrow> role_kept c0 (fst (flight1Parse env cfg c))"
  by (auto simp: flight1Parse_def
      intro!: role_kept_intros role_kept_accept_cookie role_kept_flight3Parse)

lemma role_kept_flight2Parse: "role_kept c0 c \<Longrightarrow> role_kept c0 (fst (flight2Parse env cfg c))"
  by (auto simp: flight2Parse_def Let_def
      intro!: role_kept_intros role_kept_flight0Parse)

lemma role_kept_accept_certificate_verify:
  "role_kept c0 c \<Longrightarrow> role_kept c0 (fst (accept_certificate_verify env cfg c h))"
  unfolding accept_certificate_verify_def Let_def by (intro role_kept_intros) auto

lemma role_kept_keys:
  "role_kept c0 c \<Longrightarrow> role_kept c0 (fst (server_pre_master_secret env cfg c cs ck))"
  "role_kept c0 c \<Longrightarrow> role_kept c0 (fst (set_master_secret env cfg c cs d pms extra cr sr))"
  "role_kept c0 c \<Longrightarrow> role_kept c0 (fst (init_suite env c cs cr sr b))"
  by (auto simp: server_pre_master_secret_def set_master_secret_def init_suite_def Let_def split: prod.splits
      intro!: role_kept_intros)

lemma role_kept_flight4_keys: "role_kept c0 c \<Longrightarrow> role_kept c0 (fst (flight4_keys env cfg c ck))"
  unfolding flight4_keys_def Let_def by (intro role_kept_intros role_kept_keys) auto

lemma role_kept_client_auth: "role_kept c0 c \<Longrightarrow> role_kept c0 (fst (client_auth a c))"
  by (auto simp: client_auth_def Let_def split: ClientAuthType.splits)

lemma role_kept_flight4_finished: "role_kept c0 c \<Longrightarrow> role_kept c0 (fst (flight4_finished env cfg c seq))"
  unfolding flight4_finished_def Let_def by (intro role_kept_intros role_kept_client_auth) auto

lemma role_kept_flight4_conclude: "role_kept c0 c \<Longrightarrow> role_kept c0 (fst (flight4_conclude env cfg c ck seq))"
  unfolding flight4_conclude_def
  by (intro role_kept_intros role_kept_flight4_keys role_kept_handle_queued role_kept_flight4_finished) auto

lemma role_kept_take_client_certificate [simp]: "role_kept c0 (take_client_certificate m c) = role_kept c0 c"
  by (auto simp: take_client_certificate_def split: option.split Message.split)

lemma role_kept_flight4Parse: "role_kept c0 c \<Longrightarrow> role_kept c0 (fst (flight4Parse env cfg c))"
  unfolding flight4Parse_def Let_def
  by (intro role_kept_intros role_kept_accept_certificate_verify role_kept_flight4_conclude) simp_all

lemma role_kept_server_hello:
  "role_kept c0 c \<Longrightarrow> role_kept c0 (fst (select_protocol cfg c))"
  "role_kept c0 c \<Longrightarrow> role_kept c0 (fst (server_cid cfg c))"
  "role_kept c0 c \<Longrightarrow> role_kept c0 (fst (new_session_id env cfg c))"
  unfolding select_protocol_def server_cid_def new_session_id_def Let_def by ((intro role_kept_intros; simp)+)

lemma role_kept_server_packets:
  "role_kept c0 c \<Longrightarrow> role_kept c0 (fst (certificate_packets env cfg c cs))"
  "role_kept c0 c \<Longrightarrow> role_kept c0 (fst (psk_packets cfg c cs))"
  unfolding certificate_packets_def psk_packets_def Let_def by ((intro role_kept_intros; simp)+)

lemma role_kept_flight4Generate: "role_kept c0 c \<Longrightarrow> role_kept c0 (fst (flight4Generate env cfg c))"
  unfolding flight4Generate_def Let_def by (intro role_kept_intros role_kept_server_hello role_kept_server_packets) auto

lemma role_kept_flight4bParse: "role_kept c0 c \<Longrightarrow> role_kept c0 (fst (flight4bParse env cfg c))"
  unfolding flight4bParse_def by (intro role_kept_intros role_kept_check_finished) auto

lemma role_kept_set_verify_data: "role_kept c0 c \<Longrightarrow> role_kept c0 (fst (set_verify_data c f))"
  unfolding set_verify_data_def Let_def by (intro role_kept_intros) auto

lemma role_kept_flight4bGenerate: "role_kept c0 c \<Longrightarrow> role_kept c0 (fst (flight4bGenerate env cfg c))"
  unfolding flight4bGenerate_def Let_def hs_packet_def
  by (auto intro!: role_kept_intros role_kept_server_hello role_kept_set_verify_data split: prod.splits)

lemma role_kept_flight5Parse: "role_kept c0 c \<Longrightarrow> role_kept c0 (fst (flight5Parse env cfg c))"
  unfolding flight5Parse_def by (intro role_kept_intros role_kept_check_finished) auto

lemma role_kept_client_certificate: "role_kept c0 c \<Longrightarrow> role_kept c0 (fst (client_certificate env cfg c))"
  unfolding client_certificate_def by (intro role_kept_intros) auto

lemma role_kept_client_key_exchange: "role_kept c0 c \<Longrightarrow> role_kept c0 (fst (client_key_exchange cfg c))"
  unfolding client_key_exchange_def Let_def by (intro role_kept_intros) auto

lemma role_kept_server_key_exchange: "role_kept c0 c \<Longrightarrow> role_kept c0 (fst (server_key_exchange env cfg c))"
  unfolding server_key_exchange_def Let_def by (intro role_kept_intros role_kept_handleServerKeyExchange) auto

lemma role_kept_merge_packets: "role_kept c0 c \<Longrightarrow> role_kept c0 (fst (merge_packets env c pkts n))"
  by (induction pkts arbitrary: c n)
    (auto split: Content.splits prod.splits intro!: role_kept_rules)

lemma role_kept_initializeCipherSuite: "role_kept c0 c \<Longrightarrow> role_kept c0 (fst (initializeCipherSuite env cfg c h pt))"
  unfolding initializeCipherSuite_def Let_def by (intro role_kept_intros role_kept_keys) auto

lemma role_kept_certificate_verify: "role_kept c0 c \<Longrightarrow> role_kept c0 (fst (certificate_verify env cfg c k m n))"
  unfolding certificate_verify_def Let_def
  by (auto intro!: role_kept_intros role_kept_merge_packets split: prod.splits)

lemma role_kept_flight5Generate: "role_kept c0 c \<Longrightarrow> role_kept c0 (fst (flight5Generate env cfg c))"
  unfolding flight5Generate_def
  by (auto intro!: role_kept_intros role_kept_client_certificate role_kept_client_key_exchange
      role_kept_server_key_exchange role_kept_merge_packets role_kept_initializeCipherSuite
      role_kept_certificate_verify role_kept_set_verify_data split: prod.splits)

lemma role_kept_finished_again: "role_kept c0 c \<Longrightarrow> role_kept c0 (fst (finished_again env cfg c b f))"
  unfolding finished_again_def by (intro role_kept_intros) auto

lemma role_kept_last_generate:
  "role_kept c0 c \<Longrightarrow> role_kept c0 (fst (flight5bGenerate env cfg c))"
  "role_kept c0 c \<Longrightarrow> role_kept c0 (fst (flight6Generate env cfg c))"
  unfolding flight5bGenerate_def flight6Generate_def by (auto intro!: role_kept_intros role_kept_set_verify_data)

lemma parser_role: "getFlightParser env cfg f = Ok parse \<Longrightarrow> role_kept c (fst (parse c))"
  by (cases f) (auto simp: role_kept_flight0Parse role_kept_flight1Parse role_kept_flight2Parse role_kept_flight3Parse
      role_kept_flight4Parse role_kept_flight4bParse role_kept_flight5Parse flight5bParse_def flight6Parse_def
      role_kept_finished_again)

lemma generator_role: "getFlightGenerator env cfg f = Ok (gen, b) \<Longrightarrow> role_kept c (fst (gen c))"
  by (cases f) (auto simp: role_kept_flight0Generate role_kept_flight1Generate flight2Generate_def flight3Generate_def
      role_kept_flight4Generate role_kept_flight4bGenerate role_kept_flight5Generate role_kept_last_generate Let_def)

end
