(* ===== verification/Handshake_Safety.thy ===== *)
theory Handshake_Safety
  imports Handshake_Frames
begin

section \<open>What a completed handshake guarantees\<close>

text \<open>
  Properties of the state machine with its reading loop, over everything that may arrive: which
  flights each role passes through, that an established client has checked the server's Finished
  message, and that the Finished message of an agreeing server is accepted. The calculus
  \<open>ensures\<close> and the interface \<open>fsm_preorder\<close> carry the proofs about handlers and turns.
\<close>

subsection \<open>A calculus for handlers\<close>

text \<open>
  \<open>ensures r Q\<close>: if the handler's result \<open>r\<close> is a success, \<open>Q\<close> holds of the new connection and the value.
  The rules follow the shapes handlers are written in, so that a proof is the rules and what is
  left at the leaves.
\<close>

definition ensures :: "Conn \<times> 'a outcome \<Rightarrow> (Conn \<Rightarrow> 'a \<Rightarrow> bool) \<Rightarrow> bool" where
  "ensures r Q \<longleftrightarrow> (\<forall>c x. r = (c, Next x) \<longrightarrow> Q c x)"

lemma ensuresD: "ensures r Q \<Longrightarrow> r = (c, Next x) \<Longrightarrow> Q c x"
  by (simp add: ensures_def)

lemma ensuresI: "(\<And>c x. r = (c, Next x) \<Longrightarrow> Q c x) \<Longrightarrow> ensures r Q"
  by (simp add: ensures_def)

lemma ensures_simps [simp]:
  "ensures (c, Next x) Q = Q c x" "ensures (c, Fail a e) Q" "ensures (c, Abort) Q"
  by (simp_all add: ensures_def)

lemma ensures_mono: "ensures r P \<Longrightarrow> (\<And>c x. P c x \<Longrightarrow> Q c x) \<Longrightarrow> ensures r Q"
  by (simp add: ensures_def)

lemma ensures_andThen: "ensures r (\<lambda>c x. ensures (k c x) Q) \<Longrightarrow> ensures (andThen r k) Q"
  by (auto simp: ensures_def andThen_eq_Next)

lemma ensures_check: "(\<And>x. r = Ok x \<Longrightarrow> Q c x) \<Longrightarrow> ensures (check c desc r) Q"
  by (auto simp: ensures_def check_eq_Next)

abbreviation pulled :: "'b hs_env \<Rightarrow> Conn \<Rightarrow> int \<Rightarrow> handshakeCachePullRule list \<Rightarrow> int \<Rightarrow> (byte \<rightharpoonup> Message) option \<Rightarrow> bool" where
  "pulled env c n rules seq msgs \<equiv> fullPullMap (ce_cb (he_conn env)) (cn_handshakeCache c) n
     (map_option cs_KeyExchangeAlgorithm (st_cipherSuite (cn_state c))) rules = Ok (seq, msgs)"

lemma ensures_pull:
  "(\<And>seq msgs. pulled env c n rules seq msgs \<Longrightarrow> ensures (k seq msgs) Q) \<Longrightarrow> ensures (pull env c n rules k) Q"
  by (auto simp: pull_def split: res.splits)

lemma ensures_cases:
  "(x = None \<Longrightarrow> ensures a Q) \<Longrightarrow> (\<And>y. x = Some y \<Longrightarrow> ensures (f y) Q) \<Longrightarrow>
   ensures (case x of None \<Rightarrow> a | Some y \<Rightarrow> f y) Q"
  "(b \<Longrightarrow> ensures p Q) \<Longrightarrow> (\<not> b \<Longrightarrow> ensures q Q) \<Longrightarrow> ensures (if b then p else q) Q"
  "(\<And>y. r = Ok y \<Longrightarrow> ensures (g y) Q) \<Longrightarrow> (\<And>e. r = Err e \<Longrightarrow> ensures (h e) Q) \<Longrightarrow>
   (r = Panic \<Longrightarrow> ensures d Q) \<Longrightarrow> ensures (case r of Ok y \<Rightarrow> g y | Err e \<Rightarrow> h e | Panic \<Rightarrow> d) Q"
  "(\<And>u v. w = (u, v) \<Longrightarrow> ensures (l u v) Q) \<Longrightarrow> ensures (case w of (u, v) \<Rightarrow> l u v) Q"
  by (auto split: option.splits res.splits prod.splits)

lemma ensures_case_Message:
  assumes "\<And>y. m = MClientHello y \<Longrightarrow> ensures (f1 y) Q" "\<And>y. m = MServerHello y \<Longrightarrow> ensures (f2 y) Q"
    "\<And>y. m = MHelloVerifyRequest y \<Longrightarrow> ensures (f3 y) Q" "\<And>y. m = MCertificate y \<Longrightarrow> ensures (f4 y) Q"
    "\<And>y. m = MServerKeyExchange y \<Longrightarrow> ensures (f5 y) Q" "\<And>y. m = MCertificateRequest y \<Longrightarrow> ensures (f6 y) Q"
    "m = MServerHelloDone \<Longrightarrow> ensures f7 Q" "\<And>y. m = MCertificateVerify y \<Longrightarrow> ensures (f8 y) Q"
    "\<And>y. m = MClientKeyExchange y \<Longrightarrow> ensures (f9 y) Q" "\<And>y. m = MFinished y \<Longrightarrow> ensures (f10 y) Q"
  shows "ensures (case_Message f1 f2 f3 f4 f5 f6 f7 f8 f9 f10 m) Q"
  using assms by (cases m) auto

lemma ensures_check_finished:
  "(expected = Ok vd \<Longrightarrow> ensures (k c) Q) \<Longrightarrow> ensures (check_finished c expected vd k) Q"
  by (cases expected) (auto simp: check_finished_def)

lemmas ensures_rules = ensures_andThen ensures_check ensures_pull ensures_cases ensures_case_Message ensures_check_finished

lemma ensures_role: "role_kept c (fst r) \<Longrightarrow> ensures r (\<lambda>c' x. role_kept c c')"
  by (auto intro: ensuresI)

text \<open>A step of which nothing is needed.\<close>

lemma ensures_after: "(\<And>c x. ensures (k c x) Q) \<Longrightarrow> ensures (andThen r k) Q"
  by (auto simp: ensures_def andThen_eq_Next)

lemmas ensures_last = ensures_after ensures_pull ensures_cases ensures_case_Message ensures_check_finished

subsection \<open>The flights a parser leads to\<close>

lemma handleHelloResume_next: "ensures (handleHelloResume env cfg i c f) (\<lambda>_ g. g \<in> {f, flight4b})"
  unfolding handleHelloResume_def Let_def by (intro ensures_rules) auto

lemma flight0Parse_next:
  "ensures (flight0Parse env cfg c) (\<lambda>_ f. f \<in> {noFlight, if hc_insecureSkipHelloVerify cfg then flight4 else flight2, flight4b})"
proof -
  have "ensures (handleHelloResume env cfg i c (if hc_insecureSkipHelloVerify cfg then flight4 else flight2))
      (\<lambda>_ f. f \<in> {noFlight, if hc_insecureSkipHelloVerify cfg then flight4 else flight2, flight4b})" for i c
    by (rule ensures_mono [OF handleHelloResume_next]) blast
  then show ?thesis unfolding flight0Parse_def Let_def by (intro ensures_last) auto
qed

lemma flight2Parse_next: "ensures (flight2Parse env cfg c) (\<lambda>_ f. f \<in> {noFlight, flight2, flight4, flight4b})"
  unfolding flight2Parse_def Let_def
  by (intro ensures_last ensures_mono [OF flight0Parse_next]) (auto split: if_splits)

lemma handleResumption_next: "ensures (handleResumption env cfg c) (\<lambda>_ f. f \<in> {noFlight, flight5b})"
  unfolding handleResumption_def Let_def by (intro ensures_last) auto

lemma flight3_messages_next: "ensures (flight3_messages env cfg c) (\<lambda>_ f. f \<in> {noFlight, flight5})"
  unfolding flight3_messages_def Let_def by (intro ensures_last) auto

lemma accept_cookie_next: "ensures (accept_cookie c h seq) (\<lambda>_ f. f = flight3)"
  unfolding accept_cookie_def by (intro ensures_last) auto

lemma flight3Parse_next: "ensures (flight3Parse env cfg c) (\<lambda>_ f. f \<in> {noFlight, flight3, flight5, flight5b})"
  unfolding flight3Parse_def
  by (intro ensures_last ensures_mono [OF accept_cookie_next] ensures_mono [OF handleResumption_next]
      ensures_mono [OF flight3_messages_next]) auto

lemma flight1Parse_next: "ensures (flight1Parse env cfg c) (\<lambda>_ f. f \<in> {noFlight, flight3, flight5, flight5b})"
  unfolding flight1Parse_def
  by (intro ensures_last ensures_mono [OF accept_cookie_next] flight3Parse_next) auto

lemma flight4Parse_next: "ensures (flight4Parse env cfg c) (\<lambda>_ f. f \<in> {noFlight, flight6})"
  unfolding flight4Parse_def flight4_conclude_def flight4_finished_def Let_def by (intro ensures_last) auto

lemma flight4bParse_next: "ensures (flight4bParse env cfg c) (\<lambda>_ f. f \<in> {noFlight, flight4b})"
  unfolding flight4bParse_def by (intro ensures_last) auto

lemma flight5Parse_next: "ensures (flight5Parse env cfg c) (\<lambda>_ f. f \<in> {noFlight, flight5})"
  unfolding flight5Parse_def by (intro ensures_last) auto

lemma finished_again_next: "ensures (finished_again env cfg c b f) (\<lambda>_ g. g \<in> {noFlight, f})"
  unfolding finished_again_def by (intro ensures_last) auto

text \<open>
  The diagrams in the comment of \<^verbatim>\<open>flight.go\<close>: the next flight of the same side.
\<close>

fun diagram_flights :: "flightVal \<Rightarrow> flightVal set" where
  "diagram_flights flight0 = {flight2, flight4b}"
| "diagram_flights flight1 = {flight3, flight5b}"
| "diagram_flights flight2 = {flight4}"
| "diagram_flights flight3 = {flight5}"
| "diagram_flights flight4 = {flight6}"
| "diagram_flights flight4b = {flight6}"
| "diagram_flights f = {}"

text \<open>
  The parsers have edges that are not in the diagrams: a server that skips the cookie exchange,
  the client of such a server, and a session that is resumed after a cookie exchange. And they do
  not have one that is: there is no flight 6 after 4b, where the server's handshake ends.
\<close>

fun shortcut_flights :: "bool \<Rightarrow> flightVal \<Rightarrow> flightVal set" where
  "shortcut_flights skipHelloVerify flight0 = (if skipHelloVerify then {flight4} else {})"
| "shortcut_flights skipHelloVerify flight1 = {flight5}"
| "shortcut_flights skipHelloVerify flight2 = {flight4b}"
| "shortcut_flights skipHelloVerify flight3 = {flight5b}"
| "shortcut_flights skipHelloVerify f = {}"

definition next_flights :: "bool \<Rightarrow> flightVal \<Rightarrow> flightVal set" where
  "next_flights skipHelloVerify f =
     {f} \<union> (if f = flight4b then {} else diagram_flights f) \<union> shortcut_flights skipHelloVerify f"

lemmas parsers_next = flight0Parse_next [THEN ensuresD] flight1Parse_next [THEN ensuresD]
  flight2Parse_next [THEN ensuresD] flight3Parse_next [THEN ensuresD] flight4Parse_next [THEN ensuresD]
  flight4bParse_next [THEN ensuresD] flight5Parse_next [THEN ensuresD] finished_again_next [THEN ensuresD]

lemma parser_next:
  assumes "getFlightParser env cfg f = Ok parse" "parse c = (c', Next g)" "g \<noteq> noFlight"
  shows "g \<in> next_flights (hc_insecureSkipHelloVerify cfg) f"
  using assms by (cases f) (auto simp: next_flights_def flight5bParse_def flight6Parse_def dest!: parsers_next split: if_splits)

lemma parser_defined:
  assumes "f \<noteq> noFlight"
  obtains parse where "getFlightParser env cfg f = Ok parse"
  using assms by (cases f) auto

lemma generator_defined:
  assumes "f \<noteq> noFlight"
  obtains gen b where "getFlightGenerator env cfg f = Ok (gen, b)"
  using assms by (cases f) auto

subsection \<open>Relations kept by the state machine\<close>

text \<open>
  A relation between a connection and its later states, kept by reading and writing and by the
  numbering of a flight: it holds across a turn of the machine when the generator and the parser
  of the current flight keep it.
\<close>

definition generator_keeps :: "(Conn \<Rightarrow> Conn \<Rightarrow> bool) \<Rightarrow> 'b hs_env \<Rightarrow> handshakeConfig \<Rightarrow> flightVal \<Rightarrow> Conn \<Rightarrow> bool" where
  "generator_keeps R env cfg f c \<longleftrightarrow>
     (\<forall>gen b. getFlightGenerator env cfg f = Ok (gen, b) \<longrightarrow> R c (fst (gen c)))"

definition parser_keeps :: "(Conn \<Rightarrow> Conn \<Rightarrow> bool) \<Rightarrow> 'b hs_env \<Rightarrow> handshakeConfig \<Rightarrow> flightVal \<Rightarrow> Conn \<Rightarrow> bool" where
  "parser_keeps R env cfg f c \<longleftrightarrow> (\<forall>parse. getFlightParser env cfg f = Ok parse \<longrightarrow> R c (fst (parse c)))"

lemma onFlightState_flight [simp]: "fs_currentFlight (onFlightState st s) = fs_currentFlight s"
  by (simp add: onFlightState_def)

locale fsm_preorder = conn_preorder R "he_conn env" for R :: "Conn \<Rightarrow> Conn \<Rightarrow> bool" and env :: "'b hs_env" +
  assumes R_number: "R c (upd_state (\<lambda>s. s\<lparr>st_handshakeSendSequence := n\<rparr>) c)"
    and R_epoch: "R c (setLocalEpoch e c)"
begin

lemma related_report: "report env cfg c a err = (c', r) \<Longrightarrow> R c c'"
  by (auto simp: report_def intro: R_refl related_notify split: option.splits prod.splits res.splits)

lemma related_buffer: "R (fs_conn s) (fs_conn (buffer_flight cfg s pkts))"
  by (auto simp: buffer_flight_def Let_def intro: R_number R_trans [OF R_number R_epoch] split: prod.splits)

lemma related_prepare:
  assumes "prepare env cfg s = (s', r)" "generator_keeps R env cfg (fs_currentFlight s) (fs_conn s)"
  shows "R (fs_conn s) (fs_conn s')"
proof -
  have end_with: "R (fs_conn s) (fs_conn s')" if R: "R (fs_conn s) (fs_conn t)"
    and eq: "(case report env cfg (fs_conn t) a err of
             (c, Ok None) \<Rightarrow> (buffer_flight cfg (t\<lparr>fs_conn := c\<rparr>) pkts, Ok handshakeSending)
           | (c, Ok (Some e)) \<Rightarrow> (t\<lparr>fs_conn := c\<rparr>, Err e)
           | (c, Err e) \<Rightarrow> (t\<lparr>fs_conn := c\<rparr>, Err e)
           | (c, Panic) \<Rightarrow> (t\<lparr>fs_conn := c\<rparr>, Panic)) = (s', r)" for t pkts a err
  proof -
    obtain c q where q: "report env cfg (fs_conn t) a err = (c, q)" by fastforce
    have c: "R (fs_conn s) c" using R related_report [OF q] by (rule R_trans)
    moreover have "R (fs_conn s) (fs_conn (buffer_flight cfg (t\<lparr>fs_conn := c\<rparr>) pkts))"
      using R_trans [OF c] related_buffer [of "t\<lparr>fs_conn := c\<rparr>" cfg pkts] by simp
    ultimately show ?thesis using eq q by (auto split: res.splits option.splits)
  qed
  have gen: "R (fs_conn s) c" if "getFlightGenerator env cfg (fs_currentFlight s) = Ok (gen, b)" "gen (fs_conn s) = (c, x)" for gen b c x
    using assms(2) that by (force simp: generator_keeps_def)
  show ?thesis
  proof (cases "getFlightGenerator env cfg (fs_currentFlight s)")
    case (Ok x)
    then obtain gen b where g: "getFlightGenerator env cfg (fs_currentFlight s) = Ok (gen, b)" by (cases x) auto
    obtain c y where y: "gen (fs_conn s) = (c, y)" by fastforce
    show ?thesis
      using assms(1) end_with [of "s\<lparr>fs_flights := [], fs_conn := c, fs_retransmit := b\<rparr>"] gen [OF g y] g y
      by (cases y) (simp_all add: prepare_def Let_def, auto)
  next
    case (Err e)
    then show ?thesis using assms(1) end_with [of "s\<lparr>fs_flights := []\<rparr>"] R_refl by (simp add: prepare_def Let_def)
  next
    case Panic
    then show ?thesis using assms(1) R_refl by (auto simp: prepare_def Let_def)
  qed
qed

lemma related_send: "send env cfg s = (s', r) \<Longrightarrow> R (fs_conn s) (fs_conn s')"
  by (auto simp: send_def Let_def intro: R_packets split: prod.splits)

lemma related_parse_flight:
  assumes "parse_flight env cfg s parse = (s', r)" "R (fs_conn s) (fst (parse (fs_conn s)))"
  shows "R (fs_conn s) (fs_conn s')"
  using assms
  by (auto simp: parse_flight_def split: prod.splits outcome.splits res.splits option.splits
      dest!: related_report intro: R_trans)

lemma related_invalid: "invalid_flight env cfg s e = (s', r) \<Longrightarrow> R (fs_conn s) (fs_conn s')"
  by (auto simp: invalid_flight_def dest!: related_notify split: prod.splits res.splits)

lemma related_wait:
  assumes "wait env cfg s ev = (s', r)" "parser_keeps R env cfg (fs_currentFlight s) (fs_conn s)"
  shows "R (fs_conn s) (fs_conn s')"
proof (cases "getFlightParser env cfg (fs_currentFlight s)")
  case (Ok parse)
  obtain t q where p: "parse_flight env cfg s parse = (t, q)" by fastforce
  have "R (fs_conn s) (fs_conn t)"
    using related_parse_flight [OF p] assms(2) Ok by (simp add: parser_keeps_def)
  then show ?thesis
    using assms(1) Ok p R_refl by (auto simp: wait_def split: fsm_event.splits res.splits if_splits)
qed (use assms(1) related_invalid R_refl in \<open>auto simp: wait_def\<close>)

lemma related_finish:
  assumes "finish env cfg s ev = (s', r)" "parser_keeps R env cfg (fs_currentFlight s) (fs_conn s)"
  shows "R (fs_conn s) (fs_conn s')"
proof (cases "getFlightParser env cfg (fs_currentFlight s)")
  case (Ok parse)
  obtain t q where p: "parse_flight env cfg s parse = (t, q)" by fastforce
  have "R (fs_conn s) (fs_conn t)"
    using related_parse_flight [OF p] assms(2) Ok by (simp add: parser_keeps_def)
  then show ?thesis
    using assms(1) Ok p R_refl by (auto simp: finish_def split: fsm_event.splits res.splits if_splits)
qed (use assms(1) related_invalid R_refl in \<open>auto simp: finish_def\<close>)

lemma related_turn:
  assumes turn: "fsm_turn env cfg s st ev = (s', r)"
    and gen: "st = handshakePreparing \<Longrightarrow> generator_keeps R env cfg (fs_currentFlight s) (fs_conn s)"
    and parser: "blocking st \<Longrightarrow> parser_keeps R env cfg (fs_currentFlight s) (fs_conn (onFlightState st s))"
  shows "R (fs_conn (onFlightState st s)) (fs_conn s')"
proof -
  let ?s = "onFlightState st s"
  have p: "blocking st \<Longrightarrow> parser_keeps R env cfg (fs_currentFlight ?s) (fs_conn ?s)"
    using parser by simp
  obtain p q where "prepare env cfg ?s = (p, q)" by fastforce
  moreover obtain u v where "send env cfg ?s = (u, v)" by fastforce
  ultimately show ?thesis
    using turn related_prepare [OF _ gen] related_send related_wait [OF _ p] related_finish [OF _ p] R_refl
    by (cases st) (auto simp: fsm_turn_def some_state_def blocking_def onFlightState_def)
qed

end

subsection \<open>A turn of the machine\<close>

lemma prepare_flight: "prepare env cfg s = (s', r) \<Longrightarrow> fs_currentFlight s' = fs_currentFlight s"
  by (auto simp: prepare_def Let_def buffer_flight_def split: prod.splits option.splits res.splits outcome.splits)

lemma send_flight:
  assumes "send env cfg s = (s', r)"
  shows "fs_currentFlight s' = fs_currentFlight s" "r = Ok handshakeFinished \<Longrightarrow> isLastSendFlight (fs_currentFlight s)"
  using assms by (auto simp: send_def Let_def bind_eq_Ok split: prod.splits if_splits)

lemma parse_flight_flight:
  assumes "parse_flight env cfg s parse = (s', r)"
  shows "fs_currentFlight s' = fs_currentFlight s"
    "r = Ok f \<Longrightarrow> f \<noteq> noFlight \<Longrightarrow> parse (fs_conn s) = (fs_conn s', Next f)"
  using assms by (auto simp: parse_flight_def split: prod.splits outcome.splits res.splits option.splits)

lemma invalid_flight_flight:
  assumes "invalid_flight env cfg s e = (s', r)"
  shows "fs_currentFlight s' = fs_currentFlight s" "r \<noteq> Ok x"
  using assms by (auto simp: invalid_flight_def split: prod.splits res.splits)

lemma wait_cases:
  assumes "wait env cfg s ev = (s', r)"
  obtains (same) "fs_currentFlight s' = fs_currentFlight s" "r \<noteq> Ok (Some handshakeFinished)"
    | (received) parse where "getFlightParser env cfg (fs_currentFlight s) = Ok parse"
        "parse (fs_conn s) = (fs_conn s', Next (fs_currentFlight s))" "isLastRecvFlight (fs_currentFlight s)"
        "fs_currentFlight s' = fs_currentFlight s" "r = Ok (Some handshakeFinished)"
    | (moved) parse where "getFlightParser env cfg (fs_currentFlight s) = Ok parse"
        "parse (fs_conn s) = (fs_conn s', Next (fs_currentFlight s'))" "fs_currentFlight s' \<noteq> noFlight"
        "r = Ok (Some handshakePreparing)"
proof (cases "getFlightParser env cfg (fs_currentFlight s)")
  case (Ok parse)
  obtain t q where p: "parse_flight env cfg s parse = (t, q)" by fastforce
  note f = parse_flight_flight [OF p]
  show ?thesis
  proof (cases "ev = RecvHandshake \<and> (\<exists>g. q = Ok g \<and> g \<noteq> noFlight)")
    case True
    then obtain g where g: "q = Ok g" "g \<noteq> noFlight" "ev = RecvHandshake" by blast
    show ?thesis
    proof (cases "isLastRecvFlight g \<and> fs_currentFlight s = g")
      case True
      then show ?thesis using assms Ok p g f(1) f(2) [OF g(1,2)] by (intro received [OF Ok]) (auto simp: wait_def)
    next
      case False
      then show ?thesis using assms Ok p g f(1) f(2) [OF g(1,2)] by (intro moved [OF Ok]) (auto simp: wait_def)
    qed
  next
    case False
    have "fs_currentFlight s' = fs_currentFlight s \<and> r \<noteq> Ok (Some handshakeFinished)"
      using assms Ok p f(1) False by (auto simp: wait_def split: fsm_event.splits res.splits if_splits)
    then show ?thesis using same by blast
  qed
qed (use assms invalid_flight_flight same in \<open>fastforce simp: wait_def\<close>)+

lemma finish_cases:
  assumes "finish env cfg s ev = (s', r)"
  obtains (same) "fs_currentFlight s' = fs_currentFlight s" "\<forall>st. r = Ok (Some st) \<longrightarrow> st = handshakeFinished"
    | (again) parse f where "getFlightParser env cfg (fs_currentFlight s) = Ok parse"
        "parse (fs_conn s) = (fs_conn s', Next f)" "f \<noteq> noFlight" "\<not> (isLastRecvFlight f \<and> fs_currentFlight s = f)"
        "fs_currentFlight s' = fs_currentFlight s" "r = Ok (Some handshakeSending)"
proof (cases "getFlightParser env cfg (fs_currentFlight s)")
  case (Ok parse)
  obtain t q where p: "parse_flight env cfg s parse = (t, q)" by fastforce
  note f = parse_flight_flight [OF p]
  show ?thesis
  proof (cases "ev = RecvHandshake \<and> (\<exists>g. q = Ok g \<and> g \<noteq> noFlight \<and> \<not> (isLastRecvFlight g \<and> fs_currentFlight s = g))")
    case True
    then obtain g where g: "q = Ok g" "g \<noteq> noFlight" "ev = RecvHandshake" "\<not> (isLastRecvFlight g \<and> fs_currentFlight s = g)"
      by blast
    then show ?thesis using assms Ok p f(1) f(2) [OF g(1,2)] by (intro again [OF Ok _ g(2,4)]) (auto simp: finish_def)
  next
    case False
    have "fs_currentFlight s' = fs_currentFlight s \<and> (\<forall>st. r = Ok (Some st) \<longrightarrow> st = handshakeFinished)"
      using assms Ok p f(1) False by (auto simp: finish_def split: fsm_event.splits res.splits if_splits)
    then show ?thesis using same by blast
  qed
qed (use assms invalid_flight_flight same in \<open>fastforce simp: finish_def\<close>)+

lemma fsm_turn_cases:
  assumes "fsm_turn env cfg s st ev = (s', r)"
  obtains (moved) parse where "st = handshakeWaiting" "getFlightParser env cfg (fs_currentFlight s) = Ok parse"
        "parse (fs_conn s) = (fs_conn s', Next (fs_currentFlight s'))" "fs_currentFlight s' \<noteq> noFlight"
        "r = Ok (Some handshakePreparing)"
    | (received) parse where "st = handshakeWaiting" "getFlightParser env cfg (fs_currentFlight s) = Ok parse"
        "parse (fs_conn s) = (fs_conn s', Next (fs_currentFlight s))" "isLastRecvFlight (fs_currentFlight s)"
        "fs_currentFlight s' = fs_currentFlight s" "r = Ok (Some handshakeFinished)"
    | (sent) "st = handshakeSending" "isLastSendFlight (fs_currentFlight s)"
        "fs_currentFlight s' = fs_currentFlight s" "r = Ok (Some handshakeFinished)"
    | (again) parse f where "st = handshakeFinished" "getFlightParser env cfg (fs_currentFlight s) = Ok parse"
        "parse (fs_conn (onFlightState st s)) = (fs_conn s', Next f)" "f \<noteq> noFlight"
        "\<not> (isLastRecvFlight f \<and> fs_currentFlight s = f)"
        "fs_currentFlight s' = fs_currentFlight s" "r = Ok (Some handshakeSending)"
    | (finished) "st = handshakeFinished" "fs_currentFlight s' = fs_currentFlight s"
        "\<forall>st'. r = Ok (Some st') \<longrightarrow> st' = handshakeFinished"
    | (other) "st \<noteq> handshakeFinished" "fs_currentFlight s' = fs_currentFlight s" "r \<noteq> Ok (Some handshakeFinished)"
proof (cases st)
  case handshakePreparing
  obtain t q where "prepare env cfg (onFlightState st s) = (t, q)" by fastforce
  then show ?thesis
    using assms other handshakePreparing prepare_flight prepare_Ok
    by (fastforce simp: fsm_turn_def some_state_def bind_eq_Ok onFlightState_def)
next
  case handshakeSending
  obtain t q where t: "send env cfg (onFlightState st s) = (t, q)" by fastforce
  show ?thesis
    using assms sent other handshakeSending send_flight [OF t] t
    by (cases q) (auto simp: fsm_turn_def some_state_def bind_eq_Ok onFlightState_def)
next
  case handshakeWaiting
  then have "wait env cfg s ev = (s', r)" using assms by (simp add: fsm_turn_def onFlightState_def)
  then show ?thesis
    using that(1,2,6) handshakeWaiting by (cases rule: wait_cases) simp_all
next
  case handshakeFinished
  then have "finish env cfg (onFlightState st s) ev = (s', r)" using assms by (simp add: fsm_turn_def)
  then show ?thesis
    using that(4,5) handshakeFinished by (cases rule: finish_cases) simp_all
next
  case handshakeErrored
  then show ?thesis using assms other by (auto simp: fsm_turn_def onFlightState_def)
qed

lemma readLoop_turn_kept:
  assumes "readLoop_turn env cfg c k input = (c', r)"
  shows "kept c c'"
proof -
  obtain d q where q: "readAndBuffer env cfg c k input = (d, q)" by fastforce
  note d = keeping.related_read [OF q]
  obtain e x where e: "Conn_close env cfg d False = (e, x)" by fastforce
  have "kept d (pass_to_Read env d err)" for err by (rule kept_same) (auto simp: pass_to_Read_def)
  with d kept_trans [OF d] keeping.related_close [OF e] show ?thesis
    using assms q e by (auto simp: readLoop_turn_def split: res.splits error.splits if_splits)
qed

lemma machine_step_cases:
  assumes "machine_step env cfg m m'"
  obtains (turn) ev r where "fsm_turn env cfg (mc_fsm m) (mc_state m) ev = (mc_fsm m', r)"
      "r = Ok (Some (mc_state m')) \<or> r = Ok None \<and> mc_state m' = mc_state m \<or> (\<exists>e. r = Err e) \<and> mc_state m' = handshakeErrored"
    | (net) "kept (mc_conn m) (mc_conn m')" "mc_state m' = mc_state m"
      "fs_currentFlight (mc_fsm m') = fs_currentFlight (mc_fsm m)"
  using assms
proof cases
  case (M_turn ev s r)
  then show ?thesis using turn [of ev "Ok r"] by (auto split: option.splits)
next
  case (M_error ev s e)
  then show ?thesis using turn [of ev "Err e"] by simp
next
  case (M_read k input c hs)
  then show ?thesis using net keeping.related_read by fastforce
next
  case (M_read_error k input c0 e c r)
  then show ?thesis using net readLoop_turn_kept by fastforce
next
  case (M_Write deadline data c n r)
  then show ?thesis using net keeping.related_Write by fastforce
next
  case (M_close byUser c r)
  then show ?thesis using net keeping.related_close by fastforce
qed

subsection \<open>The flights of each role\<close>

interpretation roles: fsm_preorder role_kept env for env :: "'b hs_env"
proof (unfold_locales, goal_cases)
  case (2 c c' d) then show ?case by (rule role_kept_trans)
next
  case (3 c buf pkt q c' inc) then show ?case by (rule kept_role [OF keeping.R_incoming])
next
  case (4 c pkts c' pkts' u) then show ?case by (rule kept_role [OF keeping.R_packets])
qed (auto simp: role_kept_def read_into_def setLocalEpoch_def Let_def)

lemma flights_keep_role: "generator_keeps role_kept env cfg f c" "parser_keeps role_kept env cfg f c"
  by (auto simp: generator_keeps_def parser_keeps_def intro: generator_role parser_role)

fun role_flights :: "bool \<Rightarrow> flightVal set" where
  "role_flights True = {flight1, flight3, flight5, flight5b}"
| "role_flights False = {flight0, flight2, flight4, flight4b, flight6}"

definition final_flights :: "flightVal set" where
  "final_flights = {flight4b, flight5, flight5b, flight6}"

definition well_typed :: "machine \<Rightarrow> bool" where
  "well_typed m \<longleftrightarrow> fs_currentFlight (mc_fsm m) \<in> role_flights (st_isClient (cn_state (mc_conn m))) \<and>
     (mc_state m = handshakeFinished \<or> cn_handshakeCompletedSuccessfully (mc_conn m) \<longrightarrow>
      fs_currentFlight (mc_fsm m) \<in> final_flights)"

lemma next_flights_role: "f \<in> role_flights b \<Longrightarrow> g \<in> next_flights skip f \<Longrightarrow> g \<in> role_flights b"
  by (cases b) (auto simp: next_flights_def split: if_splits)

lemma next_flights_final: "f \<in> final_flights \<Longrightarrow> g \<in> next_flights skip f \<Longrightarrow> g = f"
  by (auto simp: final_flights_def next_flights_def)

lemma next_flights_self: "f \<in> next_flights skip f"
  by (simp add: next_flights_def)

lemma last_flights_final: "isLastSendFlight f \<or> isLastRecvFlight f \<Longrightarrow> f \<in> final_flights"
  by (cases f) (auto simp: final_flights_def)

text \<open>A turn keeps the role, and only the state Finished completes the handshake.\<close>

lemma turn_role:
  assumes "fsm_turn env cfg s st ev = (s', r)"
  shows "st_isClient (cn_state (fs_conn s')) = st_isClient (cn_state (fs_conn s))"
    "cn_handshakeCompletedSuccessfully (fs_conn s') \<longleftrightarrow>
      cn_handshakeCompletedSuccessfully (fs_conn s) \<or> st = handshakeFinished"
    "prefix (cn_handshakeCache (fs_conn s)) (cn_handshakeCache (fs_conn s'))"
  using roles.related_turn [OF assms flights_keep_role]
  by (auto simp: role_kept_def onFlightState_def split: if_splits)

lemma turn_flight:
  assumes "fsm_turn env cfg s st ev = (s', r)"
  shows "fs_currentFlight s' \<in> next_flights (hc_insecureSkipHelloVerify cfg) (fs_currentFlight s)"
  using assms by (cases rule: fsm_turn_cases) (auto intro: parser_next next_flights_self)

lemma well_typed_step:
  assumes "machine_step env cfg m m'" "well_typed m"
  shows "well_typed m' \<and> st_isClient (cn_state (mc_conn m')) = st_isClient (cn_state (mc_conn m))"
  using assms(1)
proof (cases rule: machine_step_cases)
  case (turn ev r)
  let ?f = "fs_currentFlight (mc_fsm m)" and ?g = "fs_currentFlight (mc_fsm m')"
  note role = turn_role [OF turn(1)]
  have g: "?g \<in> next_flights (hc_insecureSkipHelloVerify cfg) ?f" using turn_flight [OF turn(1)] .
  then have "?g \<in> role_flights (st_isClient (cn_state (mc_conn m)))"
    using assms(2) next_flights_role by (auto simp: well_typed_def)
  moreover have "?g \<in> final_flights" if f: "?f \<in> final_flights"
    using next_flights_final [OF f g] f by simp
  moreover have "?f \<in> final_flights" if "r = Ok (Some handshakeFinished)"
    using turn(1) assms(2) that last_flights_final
    by (cases rule: fsm_turn_cases) (auto simp: well_typed_def)
  ultimately show ?thesis using turn(2) role assms(2) by (auto simp: well_typed_def)
next
  case net
  then show ?thesis using assms(2) kept_stateD(1) [OF net(1)] by (simp add: well_typed_def kept_def)
qed

lemma well_typed_steps:
  assumes "(machine_step env cfg)\<^sup>*\<^sup>* m m'" "well_typed m"
  shows "well_typed m' \<and> st_isClient (cn_state (mc_conn m')) = st_isClient (cn_state (mc_conn m))"
  using assms by (induction rule: rtranclp_induct) (auto dest: well_typed_step)

text \<open>The machines that the package's entry points start.\<close>

definition starts :: "'b hs_env \<Rightarrow> handshakeConfig \<Rightarrow> bool \<Rightarrow> machine \<Rightarrow> bool" where
  "starts env cfg isClient m \<longleftrightarrow>
     (\<exists>s st n a config. m = start_machine s st \<and>
       (isClient \<and> ClientWithContext env n a config = Ok (cfg, s, st) \<or>
        \<not> isClient \<and> ServerWithContext env n a config = Ok (cfg, s, st) \<or>
        (\<exists>state. st_isClient state = isClient \<and> Resume env state n a config = Ok (cfg, s, st))))"

lemma createConn_fields:
  assumes "createConn n a config isClient = Ok c"
  shows "st_isClient (cn_state c) = isClient" "\<not> cn_handshakeCompletedSuccessfully c" "cn_handshakeCache c = []"
  using assms by (auto simp: createConn_def bind_eq_Ok newHandshakeCache_def split: if_splits option.splits)

lemma handshakeConn_start:
  assumes "handshakeConn env c cf isClient initialState = Ok (cfg, s, st)"
  shows "s = newHandshakeFSM (case initialState of Some x \<Rightarrow> c\<lparr>cn_state := x\<rparr> | None \<Rightarrow> c)
      (case initialState of Some _ \<Rightarrow> if st_isClient (cn_state c) then flight5 else flight6
       | None \<Rightarrow> if st_isClient (cn_state c) then flight1 else flight0) \<and>
    st = (case initialState of Some _ \<Rightarrow> handshakeFinished | None \<Rightarrow> handshakePreparing)"
  using assms by (auto simp: handshakeConn_def Let_def bind_eq_Ok split: option.splits)

lemma ClientWithContext_start:
  assumes "ClientWithContext env n a config = Ok (cfg, s, st)"
  shows "fs_currentFlight s = flight1" "st = handshakePreparing" "st_isClient (cn_state (fs_conn s))"
    "\<not> cn_handshakeCompletedSuccessfully (fs_conn s)"
  using assms
  by (auto simp: ClientWithContext_def bind_eq_Ok newHandshakeFSM_def createConn_fields
      dest!: handshakeConn_start split: option.splits if_splits)

lemma ServerWithContext_start:
  assumes "ServerWithContext env n a config = Ok (cfg, s, st)"
  shows "fs_currentFlight s = flight0" "st = handshakePreparing" "\<not> st_isClient (cn_state (fs_conn s))"
    "\<not> cn_handshakeCompletedSuccessfully (fs_conn s)"
  using assms
  by (auto simp: ServerWithContext_def bind_eq_Ok newHandshakeFSM_def createConn_fields
      dest!: handshakeConn_start split: option.splits if_splits)

lemma initCipherSuite_role: "st_isClient (fst (initCipherSuite env s)) = st_isClient s"
  by (auto simp: initCipherSuite_def Let_def split: option.splits prod.splits)

lemma Resume_start:
  assumes "Resume env state n a config = Ok (cfg, s, st)"
  shows "fs_currentFlight s = (if st_isClient state then flight5 else flight6)" "st = handshakeFinished"
    "st_isClient (cn_state (fs_conn s)) = st_isClient state"
  using assms initCipherSuite_role [of "ce_suites (he_conn env)" state]
  by (auto simp: Resume_def bind_eq_Ok newHandshakeFSM_def createConn_fields
      dest!: handshakeConn_start split: option.splits if_splits prod.splits)

lemma starts_well_typed: "starts env cfg isClient m \<Longrightarrow> well_typed m \<and> st_isClient (cn_state (mc_conn m)) = isClient"
  by (auto simp: starts_def well_typed_def start_machine_def final_flights_def ClientWithContext_start
      ServerWithContext_start Resume_start dest: ClientWithContext_start(2) ServerWithContext_start(2))

text \<open>
  C10. A connection keeps to the flights of its role. Whatever arrives and whatever the user
  does, a machine started by \<^verbatim>\<open>ClientWithContext\<close>, \<^verbatim>\<open>ServerWithContext\<close> or \<^verbatim>\<open>Resume\<close> has at every
  moment a flight of its own role, and a connection counts as established only in a final flight.
  A step stays in the flight, follows the diagrams of \<^verbatim>\<open>flight.go\<close> or takes one of the edges they do not
  show: past the cookie exchange, from flight 0 to 4 only if the configuration skips it and from 1 to
  5, and into resumption after a cookie exchange, from 2 to 4b and from 3 to 5b. A server in flight
  4b stays there: flight 6 after 4b, which the diagram shows, does not exist.
\<close>

theorem machine_flights:
  assumes "starts env cfg isClient m0" "(machine_step env cfg)\<^sup>*\<^sup>* m0 m"
  shows "st_isClient (cn_state (mc_conn m)) = isClient \<and>
    fs_currentFlight (mc_fsm m) \<in> role_flights isClient \<and>
    (cn_handshakeCompletedSuccessfully (mc_conn m) \<longrightarrow> fs_currentFlight (mc_fsm m) \<in> final_flights) \<and>
    (\<forall>m'. machine_step env cfg m m' \<longrightarrow>
      fs_currentFlight (mc_fsm m') \<in> next_flights (hc_insecureSkipHelloVerify cfg) (fs_currentFlight (mc_fsm m)))"
proof -
  have "fs_currentFlight (mc_fsm m') \<in> next_flights (hc_insecureSkipHelloVerify cfg) (fs_currentFlight (mc_fsm m))"
    if "machine_step env cfg m m'" for m'
    using that by (cases rule: machine_step_cases) (auto dest!: turn_flight simp: next_flights_self)
  then show ?thesis
    using well_typed_steps [OF assms(2)] starts_well_typed [OF assms(1)] by (auto simp: well_typed_def)
qed

text \<open>An environment for examples: its random bytes, clock and curves are constants.\<close>

definition ex_hs_env :: "bytes res hs_env" where
  "ex_hs_env = \<lparr>he_conn = ex_conn_env, he_rand = (\<lambda>k n. Ok (replicate n 7)), he_Now = (\<lambda>_. 1000), he_baseMult = (\<lambda>k. k),
     he_genKey = (\<lambda>_ _. Ok ([1], [2])),
     he_curves = \<lparr>co_x25519 = (\<lambda>_ _. Ok [1]), co_unm = (\<lambda>_ _. None), co_mult = (\<lambda>_ _ _ _. 1)\<rparr>, he_ParseIP = (\<lambda>_. False)\<rparr>"

lemma ex_client_start: "\<exists>cfg s st. ClientWithContext ex_hs_env False [49] (Some ex_Config) = Ok (cfg, s, st)"
proof -
  have "cf_PSK ex_Config = None" "cf_CipherSuites ex_Config = None" "cf_CustomCipherSuites ex_Config = None"
    "includeCertificateSuites ex_Config" "cf_SignatureSchemes ex_Config = []"
    by (simp_all add: ex_Config_def includeCertificateSuites_def)
  then show ?thesis
    by (simp add: ClientWithContext_def createConn_def ex_Config_valid handshakeConn_def default_suites_parse
        ParseSignatureSchemes_def Let_def)
qed

theorem machine_flights_witness:
  "\<exists>cfg m0 m. starts ex_hs_env cfg True m0 \<and> machine_step ex_hs_env cfg m0 m \<and> cn_closed (mc_conn m) \<and>
     fs_currentFlight (mc_fsm m) \<in> role_flights True"
proof -
  obtain cfg s st where s: "ClientWithContext ex_hs_env False [49] (Some ex_Config) = Ok (cfg, s, st)"
    using ex_client_start by blast
  then have start: "starts ex_hs_env cfg True (start_machine s st)" unfolding starts_def by blast
  obtain c r where c: "Conn_close (he_conn ex_hs_env) cfg (mc_conn (start_machine s st)) True = (c, r)" by fastforce
  have step: "machine_step ex_hs_env cfg (start_machine s st) (with_conn (start_machine s st) c)" by (rule M_close [OF c])
  have "cn_closed c"
    using c ClientWithContext_start(4) [OF s]
    by (auto simp: Conn_close_def start_machine_def Let_def split: if_splits)
  then show ?thesis
    using start step machine_flights [OF start r_into_rtranclp [of "machine_step ex_hs_env cfg", OF step]] by (intro exI conjI) auto
qed

subsection \<open>The server's Finished message\<close>

text \<open>
  The client of a connection checked the server's Finished message against the transcript that
  \<open>rules\<close> select: the message is in its cache, from the encrypted epoch, and holds what the pseudorandom
  function makes of the client's own master secret and of the messages cached by then.
\<close>

definition server_finished_checked :: "'b hs_env \<Rightarrow> handshakeConfig \<Rightarrow> handshakeCachePullRule list \<Rightarrow> Conn \<Rightarrow> bool" where
  "server_finished_checked env cfg rules c \<longleftrightarrow>
     (\<exists>cs n item h verifyData. st_cipherSuite (cn_state c) = Some cs \<and> item \<in> set (take n (cn_handshakeCache c)) \<and>
       pull_match (pull_rule TypeFinished (hc_initialEpoch cfg + 1) False False) item \<and>
       Handshake_Unmarshal (ce_cb (he_conn env)) (cs_KeyExchangeAlgorithm cs) (ci_data item) = Ok h \<and>
       hd_Message h = Some (MFinished verifyData) \<and>
       VerifyDataServer (st_masterSecret (cn_state c)) (pullAndMerge (take n (cn_handshakeCache c)) rules)
         (suite_HashFunc env cs) = Ok verifyData)"

text \<open>The transcript of a resumed handshake up to the server's Finished message.\<close>

definition hello_rules :: "uint16 \<Rightarrow> handshakeCachePullRule list" where
  "hello_rules epoch = [pull_rule TypeClientHello epoch True False, pull_rule TypeServerHello epoch False False]"

lemma fullPullMap_single:
  assumes "fullPullMap cb cache n kxo [r] = Ok (seq, Some msgs)" "msgs (pr_typ r) = Some m"
  obtains i h where "i \<in> set cache" "pull_match r i"
    "Handshake_Unmarshal cb (case kxo of None \<Rightarrow> KeyExchangeAlgorithmNone | Some k \<Rightarrow> k) (ci_data i) = Ok h"
    "hd_Message h = Some m" "word_of_int n = hs_MessageSequence (hd_Header h)"
proof (cases "pull_one r cache None")
  case (Some i)
  note i = pull_one_spec [OF Some]
  define kx where "kx = (case kxo of None \<Rightarrow> KeyExchangeAlgorithmNone | Some k \<Rightarrow> k)"
  note def = fullPullMap_def kx_def [symmetric]
  obtain h where h: "Handshake_Unmarshal cb kx (ci_data i) = Ok h"
    using assms Some unfolding def by (cases "Handshake_Unmarshal cb kx (ci_data i)") simp_all
  moreover have n: "word_of_int n = hs_MessageSequence (hd_Header h)"
    using assms Some h unfolding def by (rule_tac ccontr) simp
  moreover have "hd_Message h = Some m"
    using assms Some h n unfolding def by auto
  ultimately show ?thesis using i that unfolding kx_def by blast
qed (use assms in \<open>auto simp: fullPullMap_def split: if_splits\<close>)

lemma pulled_single:
  assumes "pulled env c n [r] seq (Some msgs)" "msgs (pr_typ r) = Some m" "st_cipherSuite (cn_state c) = Some cs"
  obtains i h where "i \<in> set (cn_handshakeCache c)" "pull_match r i"
    "Handshake_Unmarshal (ce_cb (he_conn env)) (cs_KeyExchangeAlgorithm cs) (ci_data i) = Ok h"
    "hd_Message h = Some m" "word_of_int n = hs_MessageSequence (hd_Header h)"
  using assms by (elim fullPullMap_single) auto

lemma finished_checkedI:
  assumes "pulled env c n [pull_rule TypeFinished (hc_initialEpoch cfg + 1) False False] seq (Some msgs)"
    "msgs TypeFinished = Some (MFinished vd)" "st_cipherSuite (cn_state c) = Some cs"
    "VerifyDataServer (st_masterSecret (cn_state c)) (pullAndMerge (cn_handshakeCache c) rules) (suite_HashFunc env cs) = Ok vd"
  shows "server_finished_checked env cfg rules c"
proof -
  have "msgs (pr_typ (pull_rule TypeFinished (hc_initialEpoch cfg + 1) False False)) = Some (MFinished vd)"
    using assms(2) by (simp add: pull_rule_def)
  then obtain i h where "i \<in> set (cn_handshakeCache c)"
    "pull_match (pull_rule TypeFinished (hc_initialEpoch cfg + 1) False False) i"
    "Handshake_Unmarshal (ce_cb (he_conn env)) (cs_KeyExchangeAlgorithm cs) (ci_data i) = Ok h"
    "hd_Message h = Some (MFinished vd)"
    by (elim pulled_single [OF assms(1) _ assms(3)]) auto
  moreover have "take (length (cn_handshakeCache c)) (cn_handshakeCache c) = cn_handshakeCache c" by simp
  ultimately show ?thesis unfolding server_finished_checked_def using assms(3,4) by metis
qed

definition keys_kept :: "Conn \<Rightarrow> Conn \<Rightarrow> bool" where
  "keys_kept c c' \<longleftrightarrow> st_masterSecret (cn_state c') = st_masterSecret (cn_state c) \<and>
     st_cipherSuite (cn_state c') = st_cipherSuite (cn_state c) \<and> prefix (cn_handshakeCache c) (cn_handshakeCache c')"

lemma keys_kept_refl [simp]: "keys_kept c c"
  by (simp add: keys_kept_def)

lemma keys_kept_trans: "keys_kept a b \<Longrightarrow> keys_kept b c \<Longrightarrow> keys_kept a c"
  by (auto simp: keys_kept_def)

lemma kept_keys: "kept c c' \<Longrightarrow> keys_kept c c'"
  using kept_stateD(2,3) by (auto simp: kept_def keys_kept_def)

interpretation keys: fsm_preorder keys_kept env for env :: "'b hs_env"
proof (unfold_locales, goal_cases)
  case (2 c c' d) then show ?case by (rule keys_kept_trans)
next
  case (3 c buf pkt q c' inc) then show ?case by (rule kept_keys [OF keeping.R_incoming])
next
  case (4 c pkts c' pkts' u) then show ?case by (rule kept_keys [OF keeping.R_packets])
qed (auto simp: keys_kept_def read_into_def setLocalEpoch_def Let_def)

lemma finished_checked_keys:
  assumes "server_finished_checked env cfg rules c" "keys_kept c c'"
  shows "server_finished_checked env cfg rules c'"
proof -
  obtain cs n item h vd where a: "st_cipherSuite (cn_state c) = Some cs" "item \<in> set (take n (cn_handshakeCache c))"
    "pull_match (pull_rule TypeFinished (hc_initialEpoch cfg + 1) False False) item"
    "Handshake_Unmarshal (ce_cb (he_conn env)) (cs_KeyExchangeAlgorithm cs) (ci_data item) = Ok h"
    "hd_Message h = Some (MFinished vd)"
    "VerifyDataServer (st_masterSecret (cn_state c)) (pullAndMerge (take n (cn_handshakeCache c)) rules)
       (suite_HashFunc env cs) = Ok vd"
    using assms(1) unfolding server_finished_checked_def by blast
  let ?n = "min n (length (cn_handshakeCache c))"
  have "take ?n (cn_handshakeCache c') = take n (cn_handshakeCache c)"
    using assms(2) by (auto simp: keys_kept_def prefix_def min_def)
  then show ?thesis
    using a assms(2) unfolding server_finished_checked_def keys_kept_def
    by (intro exI [of _ cs] exI [of _ ?n] exI [of _ item] exI [of _ h] exI [of _ vd]) simp
qed

text \<open>The parsers that accept the server's Finished message have checked it.\<close>

lemma flight5Parse_checks:
  "ensures (flight5Parse env cfg c) (\<lambda>c' f. f = flight5 \<longrightarrow> server_finished_checked env cfg (full_rules (hc_initialEpoch cfg)) c')"
proof -
  have keep: "ensures (andThen (if b then store_session cfg c k else (c, Next ())) (\<lambda>c _. (c, Next flight5)))
      (\<lambda>c' f. f = flight5 \<longrightarrow> server_finished_checked env cfg rules c')"
    if "server_finished_checked env cfg rules c" for b k rules
    using that finished_checked_keys [OF that]
    by (auto simp: ensures_def andThen_eq_Next store_session_def check_eq_Next Let_def keys_kept_def split: option.splits if_splits)
  show ?thesis
    unfolding flight5Parse_def by (intro ensures_pull ensures_cases ensures_case_Message ensures_check_finished keep)
      (auto intro: finished_checkedI)
qed

lemma handleResumption_checks:
  "ensures (handleResumption env cfg c) (\<lambda>c' f. f = flight5b \<longrightarrow> server_finished_checked env cfg (hello_rules (hc_initialEpoch cfg)) c')"
  unfolding handleResumption_def Let_def
  by (intro ensures_last) (auto simp: hello_rules_def intro: finished_checkedI)

lemma flight3Parse_checks:
  "ensures (flight3Parse env cfg c) (\<lambda>c' f. f = flight5b \<longrightarrow> server_finished_checked env cfg (hello_rules (hc_initialEpoch cfg)) c')"
  unfolding flight3Parse_def
  by (intro ensures_last ensures_mono [OF accept_cookie_next] handleResumption_checks
      ensures_mono [OF flight3_messages_next]) auto

lemma flight1Parse_checks:
  "ensures (flight1Parse env cfg c) (\<lambda>c' f. f = flight5b \<longrightarrow> server_finished_checked env cfg (hello_rules (hc_initialEpoch cfg)) c')"
  unfolding flight1Parse_def
  by (intro ensures_last ensures_mono [OF accept_cookie_next] flight3Parse_checks) auto

text \<open>After it nothing touches the keys.\<close>

lemma flight5Parse_keys: "keys_kept c (fst (flight5Parse env cfg c))"
  by (auto simp: flight5Parse_def pull_def check_finished_def store_session_def check_def andThen_def Let_def keys_kept_def
      split: res.splits option.splits Message.splits prod.splits outcome.splits)

lemma finished_again_keys: "fst (finished_again env cfg c b f) = c"
  by (auto simp: finished_again_def pull_def split: res.splits option.splits Message.splits)

lemma flight5b_keys: "generator_keeps keys_kept env cfg flight5b c" "parser_keeps keys_kept env cfg flight5b c"
  by (auto simp: generator_keeps_def parser_keeps_def flight5bGenerate_def flight5bParse_def finished_again_keys
      set_verify_data_def check_def andThen_def Let_def keys_kept_def
      split: res.splits option.splits prod.splits outcome.splits)

lemma flight5_keys: "parser_keeps keys_kept env cfg flight5 c"
  by (auto simp: parser_keeps_def flight5Parse_keys)

lemma turn_keys:
  assumes turn: "fsm_turn env cfg s st ev = (s', r)"
    and f: "fs_currentFlight s = flight5b \<or> fs_currentFlight s = flight5 \<and> st \<noteq> handshakePreparing"
  shows "keys_kept (fs_conn s) (fs_conn s')"
proof -
  have "keys_kept (fs_conn s) (fs_conn (onFlightState st s))" by (simp add: onFlightState_def keys_kept_def)
  also have "keys_kept (fs_conn (onFlightState st s)) (fs_conn s')"
    using f by (intro keys.related_turn [OF turn]) (auto simp: flight5b_keys flight5_keys)
  finally (keys_kept_trans) show ?thesis .
qed

definition client_handshaking :: "machine \<Rightarrow> bool" where
  "client_handshaking m \<longleftrightarrow> st_isClient (cn_state (mc_conn m)) \<and> \<not> cn_handshakeCompletedSuccessfully (mc_conn m) \<and>
     fs_currentFlight (mc_fsm m) \<in> {flight1, flight3, flight5} \<and> mc_state m \<noteq> handshakeFinished"

lemma ClientWithContext_handshaking:
  "ClientWithContext env n a config = Ok (cfg, s, st) \<Longrightarrow> client_handshaking (start_machine s st)"
  by (auto simp: client_handshaking_def start_machine_def ClientWithContext_start dest: ClientWithContext_start(2))

definition verified_client :: "'b hs_env \<Rightarrow> handshakeConfig \<Rightarrow> machine \<Rightarrow> bool" where
  "verified_client env cfg m \<longleftrightarrow> well_typed m \<and> st_isClient (cn_state (mc_conn m)) \<and>
     (fs_currentFlight (mc_fsm m) = flight5b \<longrightarrow> server_finished_checked env cfg (hello_rules (hc_initialEpoch cfg)) (mc_conn m)) \<and>
     (fs_currentFlight (mc_fsm m) = flight5 \<and>
       (mc_state m = handshakeFinished \<or> cn_handshakeCompletedSuccessfully (mc_conn m)) \<longrightarrow>
       server_finished_checked env cfg (full_rules (hc_initialEpoch cfg)) (mc_conn m) \<and>
       mc_state m \<in> {handshakeFinished, handshakeErrored})"

lemma parser_flight5b:
  assumes "getFlightParser env cfg f = Ok parse" "parse c = (c', Next flight5b)" "f \<in> {flight1, flight3}"
  shows "server_finished_checked env cfg (hello_rules (hc_initialEpoch cfg)) c'"
  using assms by (auto dest: ensuresD [OF flight1Parse_checks] ensuresD [OF flight3Parse_checks])

lemma verified_client_turn:
  assumes turn: "fsm_turn env cfg (mc_fsm m) (mc_state m) ev = (mc_fsm m', r)"
    and r: "r = Ok (Some (mc_state m')) \<or> r = Ok None \<and> mc_state m' = mc_state m \<or> (\<exists>e. r = Err e) \<and> mc_state m' = handshakeErrored"
    and inv: "verified_client env cfg m" and typed: "well_typed m'"
  shows "verified_client env cfg m'"
proof -
  let ?f = "fs_currentFlight (mc_fsm m)" and ?g = "fs_currentFlight (mc_fsm m')"
  let ?hello = "server_finished_checked env cfg (hello_rules (hc_initialEpoch cfg))"
  let ?full = "server_finished_checked env cfg (full_rules (hc_initialEpoch cfg))"
  note role = turn_role [OF turn] and keys = turn_keys [OF turn]
  have f: "?f \<in> {flight1, flight3, flight5, flight5b}" using inv by (auto simp: verified_client_def well_typed_def)
  have hello: "?hello (mc_conn m')" if "?g = flight5b"
  proof (cases "?f = flight5b")
    case True
    with keys inv finished_checked_keys show ?thesis by (auto simp: verified_client_def)
  next
    case False
    from turn show ?thesis
    proof (cases rule: fsm_turn_cases)
      case (moved parse)
      have "?f \<noteq> flight5" using turn_flight [OF turn] that by (auto simp: next_flights_def)
      then show ?thesis using parser_flight5b [OF moved(2)] moved(3) that f False by auto
    qed (use that False in auto)
  qed
  have full: "?full (mc_conn m') \<and> mc_state m' \<in> {handshakeFinished, handshakeErrored}"
    if "?g = flight5" "mc_state m' = handshakeFinished \<or> cn_handshakeCompletedSuccessfully (mc_conn m')"
  proof (cases "?f = flight5 \<and> (mc_state m = handshakeFinished \<or> cn_handshakeCompletedSuccessfully (mc_conn m))")
    case True
    then have m: "?full (mc_conn m)" "mc_state m \<in> {handshakeFinished, handshakeErrored}"
      using inv by (auto simp: verified_client_def)
    then have "?full (mc_conn m')" using keys True finished_checked_keys by auto
    moreover have "mc_state m' \<in> {handshakeFinished, handshakeErrored}"
      using turn
    proof (cases rule: fsm_turn_cases)
      case (again parse f)
      then show ?thesis using True parser_next [OF again(2,3)] by (auto simp: next_flights_def)
    next
      case other
      then show ?thesis using m(2) turn r by (auto simp: fsm_turn_def)
    qed (use m(2) r in auto)
    ultimately show ?thesis ..
  next
    case False
    from turn show ?thesis
    proof (cases rule: fsm_turn_cases)
      case (received parse)
      then have "?full (mc_conn m')" using that(1) by (auto dest: ensuresD [OF flight5Parse_checks])
      then show ?thesis using received r by auto
    next
      case (moved parse)
      have "?f \<noteq> flight5b" using parser_next [OF moved(2-4)] that(1) by (auto simp: next_flights_def)
      then show ?thesis using that False r role inv moved(5) f
        by (auto simp: verified_client_def well_typed_def final_flights_def)
    qed (use that False r role inv in \<open>auto simp: verified_client_def well_typed_def final_flights_def\<close>)
  qed
  show ?thesis using hello full typed role(1) inv by (auto simp: verified_client_def)
qed

lemma verified_client_steps:
  assumes "(machine_step env cfg)\<^sup>*\<^sup>* m0 m" "verified_client env cfg m0"
  shows "verified_client env cfg m"
  using assms
proof (induction rule: rtranclp_induct)
  case (step m m')
  note inv = step.IH [OF step.prems]
  then have "well_typed m'" using well_typed_step [OF step.hyps(2)] by (simp add: verified_client_def)
  from step.hyps(2) show ?case
  proof (cases rule: machine_step_cases)
    case (turn ev r)
    show ?thesis by (rule verified_client_turn [OF turn inv \<open>well_typed m'\<close>])
  next
    case net
    then show ?thesis
      using inv \<open>well_typed m'\<close> finished_checked_keys [OF _ kept_keys [OF net(1)]] kept_stateD(1) [OF net(1)]
      by (auto simp: verified_client_def kept_def)
  qed
qed

text \<open>
  C2. An established client has authenticated the server's Finished message. Start a client's
  machine anywhere before the end of the handshake, as \<^verbatim>\<open>ClientWithContext\<close> does
  (\<open>ClientWithContext_handshaking\<close>), and let arbitrary datagrams, calls and timers act on it: when the
  connection counts as established, a Finished message of the server from the encrypted epoch
  is in the cache whose verify data is the one the client computes from its master secret, over
  the transcript of the full handshake in flight 5 and over the two hello messages in flight 5b.
\<close>

theorem client_checks_finished:
  assumes "client_handshaking m0" "(machine_step env cfg)\<^sup>*\<^sup>* m0 m" "cn_handshakeCompletedSuccessfully (mc_conn m)"
  shows "fs_currentFlight (mc_fsm m) = flight5 \<and>
      server_finished_checked env cfg (full_rules (hc_initialEpoch cfg)) (mc_conn m) \<or>
    fs_currentFlight (mc_fsm m) = flight5b \<and>
      server_finished_checked env cfg (hello_rules (hc_initialEpoch cfg)) (mc_conn m)"
proof -
  have "verified_client env cfg m0"
    using assms(1) by (auto simp: verified_client_def client_handshaking_def well_typed_def)
  then have v: "verified_client env cfg m" by (rule verified_client_steps [OF assms(2)])
  then have "fs_currentFlight (mc_fsm m) \<in> {flight5, flight5b}"
    using assms(3) by (auto simp: verified_client_def well_typed_def final_flights_def)
  then show ?thesis using v assms(3) by (auto simp: verified_client_def)
qed

subsection \<open>Finished messages on the wire\<close>

lemma finished_roundtrip:
  assumes "hd_Message h = Some (MFinished vd)" "hs_FragmentOffset (hd_Header h) = 0" "length vd < 2 ^ 24"
  obtains raw h' where "Handshake_Marshal cb h = Ok (raw, h')" "Handshake_Unmarshal cb kx raw = Ok h'"
    "hd_Message h' = Some (MFinished vd)" "hs_MessageSequence (hd_Header h') = hs_MessageSequence (hd_Header h)"
proof -
  let ?n = "word_of_nat (length vd) :: uint32"
  define hdr where "hdr = (hd_Header h)\<lparr>hs_Length := ?n, hs_FragmentLength := ?n, hs_Type := TypeFinished\<rparr>"
  have "wf_hs_Header hdr" using assms by (simp add: wf_hs_Header_def hdr_def unat_of_nat)
  moreover obtain hraw where raw: "hs_Header_Marshal hdr = Ok hraw" by (simp add: hs_Header_Marshal_def)
  ultimately have r: "length hraw = HeaderLength" "hs_Header_Unmarshal (hraw @ vd) = Ok hdr"
    using hs_Header_roundtrip by blast+
  have "hs_Type hdr = (hraw @ vd) ! 0" "hs_Length hdr = BigEndianUint24 (drop 1 (hraw @ vd))"
    using r(2) by (auto simp: hs_Header_Unmarshal_def split: if_splits)
  then have "Handshake_Unmarshal cb kx (hraw @ vd) = Ok (h\<lparr>hd_Header := hdr\<rparr>)"
    unfolding Handshake_Unmarshal_def r(2) bind.simps Let_def
    using r(1) assms(1) by (simp add: hdr_def Message_Unmarshal_def Finished_Unmarshal_def)
  moreover have "Handshake_Marshal cb h = Ok (hraw @ vd, h\<lparr>hd_Header := hdr\<rparr>)"
    using assms raw by (simp add: Handshake_Marshal_def hdr_def Let_def Finished_Marshal_def)
  ultimately show ?thesis using that assms(1) by (simp add: hdr_def)
qed

text \<open>The message of a Finished packet after \<^verbatim>\<open>prepare\<close> has numbered it.\<close>

definition finished_message :: "uint16 \<Rightarrow> bytes \<Rightarrow> Handshake" where
  "finished_message seq vd = \<lparr>hd_Header = \<lparr>hs_Type = 0, hs_Length = 0, hs_MessageSequence = seq, hs_FragmentOffset = 0,
     hs_FragmentLength = 0\<rparr>, hd_Message = Some (MFinished vd)\<rparr>"

lemma finished_marshal: "\<exists>raw h. Handshake_Marshal cb (finished_message seq vd) = Ok (raw, h)"
  by (simp add: finished_message_def Handshake_Marshal_def hs_Header_Marshal_def Finished_Marshal_def Let_def)

lemma finished_unmarshal:
  assumes "Handshake_Marshal cb (finished_message seq vd) = Ok (raw, h)" "length vd < 2 ^ 24"
  shows "Handshake_Unmarshal cb kx raw = Ok h" "hd_Message h = Some (MFinished vd)" "hs_MessageSequence (hd_Header h) = seq"
proof -
  have m: "hd_Message (finished_message seq vd) = Some (MFinished vd)"
    "hs_FragmentOffset (hd_Header (finished_message seq vd)) = 0"
    "hs_MessageSequence (hd_Header (finished_message seq vd)) = seq"
    by (simp_all add: finished_message_def)
  obtain raw' h' where r: "Handshake_Marshal cb (finished_message seq vd) = Ok (raw', h')" "Handshake_Unmarshal cb kx raw' = Ok h'"
    "hd_Message h' = Some (MFinished vd)" "hs_MessageSequence (hd_Header h') = hs_MessageSequence (hd_Header (finished_message seq vd))"
    by (rule finished_roundtrip [OF m(1,2) assms(2)])
  with assms(1) m(3) show "Handshake_Unmarshal cb kx raw = Ok h" "hd_Message h = Some (MFinished vd)"
    "hs_MessageSequence (hd_Header h) = seq" by simp_all
qed

text \<open>What a peer reads from its cache when that message arrived last and in order.\<close>

lemma pull_finished:
  assumes m: "Handshake_Marshal (ce_cb (he_conn env)) (finished_message (word_of_int n) vd) = Ok (raw, h)" and l: "length vd < 2 ^ 24"
    and cache: "cn_handshakeCache c = cache_push cache raw epoch seq TypeFinished b"
    and newest: "\<forall>i \<in> set cache. pull_match (pull_rule TypeFinished epoch b False) i \<longrightarrow> ci_messageSequence i < seq"
  shows "pull env c n [pull_rule TypeFinished epoch b False] k = k (n + 1) (Some [TypeFinished \<mapsto> MFinished vd])"
proof -
  define kx where "kx = (case map_option cs_KeyExchangeAlgorithm (st_cipherSuite (cn_state c)) of
      None \<Rightarrow> KeyExchangeAlgorithmNone | Some k \<Rightarrow> k)"
  define r where "r = pull_rule TypeFinished epoch b False"
  define i where "i = \<lparr>ci_typ = TypeFinished, ci_isClient = b, ci_epoch = epoch, ci_messageSequence = seq, ci_data = raw\<rparr>"
  have r: "pr_typ r = TypeFinished" "\<not> pr_optional r" "pull_match r i" "ci_data i = raw" "ci_messageSequence i = seq"
    by (simp_all add: pull_match_def pull_rule_def i_def r_def)
  then have "pull_one r (cache @ [i]) None = Some i"
    using newest by (intro pull_one_push_newer) (simp_all add: r_def)
  moreover have "cn_handshakeCache c = cache @ [i]" using cache by (simp add: cache_push_def i_def)
  ultimately show ?thesis
    unfolding pull_def fullPullMap_def kx_def [symmetric] r_def [symmetric]
    by (simp add: r finished_unmarshal [OF m l])
qed

lemma pullAndMerge_push_other:
  assumes "\<forall>r \<in> set rules. pr_typ r \<noteq> typ \<or> pr_isClient r \<noteq> b \<or> pr_epoch r \<noteq> epoch"
  shows "pullAndMerge (cache_push cache data epoch seq typ b) rules = pullAndMerge cache rules"
proof -
  have "pull_one r (cache_push cache data epoch seq typ b) None = pull_one r cache None" if "r \<in> set rules" for r
    unfolding cache_push_def using assms that by (intro pull_one_push_other) (auto simp: pull_match_def)
  then have "cache_pull (cache_push cache data epoch seq typ b) rules = cache_pull cache rules"
    by (simp add: cache_pull_def)
  then show ?thesis by (simp add: pullAndMerge_def)
qed

lemma VerifyData_total:
  assumes "wf_HashFunc h"
  obtains vd where "VerifyDataServer ms bodies h = Ok vd" "length vd = 12"
proof -
  obtain vd where vd: "PHash ms (ascii ''server finished'' @ hf_Sum h bodies) 12 h = Ok vd"
    using PHash_eq_P_hash [OF assms] by blast
  with that PHash_length [OF assms vd] show ?thesis by (simp add: VerifyDataServer_def prfVerifyData_def)
qed

text \<open>A client in flight 5 that holds the server's keys and transcript goes to the end of the handshake.\<close>

definition session_stored :: "handshakeConfig \<Rightarrow> Conn \<Rightarrow> bool" where
  "session_stored cfg c \<longleftrightarrow> st_SessionID (cn_state c) = [] \<or>
     (\<exists>ss. hc_sessionStore cfg = Some ss \<and>
       store_Set ss (cn_storeLog c) (sessionKey cfg c)
         \<lparr>ss_ID = Some (st_SessionID (cn_state c)), ss_Secret = st_masterSecret (cn_state c)\<rparr> = Ok ())"

lemma flight5Parse_accepts:
  assumes m: "Handshake_Marshal (ce_cb (he_conn env)) (finished_message (word_of_int (st_handshakeRecvSequence (cn_state c))) vd) = Ok (raw, h)"
    and l: "length vd < 2 ^ 24"
    and cache: "cn_handshakeCache c = cache_push cache raw (hc_initialEpoch cfg + 1) seq TypeFinished False"
    and newest: "\<forall>i \<in> set cache. pull_match (pull_rule TypeFinished (hc_initialEpoch cfg + 1) False False) i \<longrightarrow>
      ci_messageSequence i < seq"
    and cs: "st_cipherSuite (cn_state c) = Some cs"
    and vd: "VerifyDataServer (st_masterSecret (cn_state c)) (pullAndMerge cache (full_rules (hc_initialEpoch cfg)))
      (suite_HashFunc env cs) = Ok vd"
    and ss: "session_stored cfg c"
  shows "\<exists>c'. flight5Parse env cfg c = (c', Next flight5)"
proof -
  have t: "pullAndMerge (cn_handshakeCache c) (full_rules (hc_initialEpoch cfg)) = pullAndMerge cache (full_rules (hc_initialEpoch cfg))"
    unfolding cache by (rule pullAndMerge_push_other) (simp add: full_rules_def pull_rule_def)
  show ?thesis
    unfolding flight5Parse_def pull_finished [OF m l cache newest]
    using ss by (auto simp: cs t vd check_finished_def store_session_def session_stored_def check_def andThen_def)
qed

definition ex_finishing :: "bytes \<Rightarrow> Conn" where
  "ex_finishing raw = ex_Conn\<lparr>cn_handshakeCompletedSuccessfully := False,
     cn_handshakeCache := cache_push [] raw 1 0 TypeFinished False\<rparr>"

lemma ex_hash: "suite_HashFunc ex_hs_env cs = ex_HashFunc"
  by (simp add: suite_HashFunc_def ex_hs_env_def ex_conn_env_def ex_env_def)

lemma ex_finishing_accepts:
  obtains raw c' where "flight5Parse ex_hs_env ex_handshakeConfig (ex_finishing raw) = (c', Next flight5)"
proof -
  obtain vd where vd: "VerifyDataServer [1, 2, 3] (pullAndMerge [] (full_rules 0)) ex_HashFunc = Ok vd" "length vd = 12"
    using VerifyData_total [OF ex_HashFunc_wf] by blast
  obtain raw h where raw: "Handshake_Marshal (ce_cb (he_conn ex_hs_env)) (finished_message 0 vd) = Ok (raw, h)"
    using finished_marshal by blast
  have "\<exists>c'. flight5Parse ex_hs_env ex_handshakeConfig (ex_finishing raw) = (c', Next flight5)"
  proof (rule flight5Parse_accepts)
    show "Handshake_Marshal (ce_cb (he_conn ex_hs_env)) (finished_message
        (word_of_int (st_handshakeRecvSequence (cn_state (ex_finishing raw)))) vd) = Ok (raw, h)"
      using raw by (simp add: ex_finishing_def ex_Conn_def ex_State_def zero_State_def)
  qed (use vd in \<open>simp_all add: ex_finishing_def ex_Conn_def ex_State_def zero_State_def ex_handshakeConfig_def ex_hash
      session_stored_def\<close>)
  with that show ?thesis by blast
qed

theorem client_checks_finished_witness:
  "\<exists>raw m0 m. mc_conn m0 = ex_finishing raw \<and> client_handshaking m0 \<and>
     (machine_step ex_hs_env ex_handshakeConfig)\<^sup>*\<^sup>* m0 m \<and> cn_handshakeCompletedSuccessfully (mc_conn m) \<and>
     server_finished_checked ex_hs_env ex_handshakeConfig (full_rules 0) (mc_conn m)"
proof -
  obtain raw c' where p: "flight5Parse ex_hs_env ex_handshakeConfig (ex_finishing raw) = (c', Next flight5)"
    by (rule ex_finishing_accepts)
  define s where "s = newHandshakeFSM (ex_finishing raw) flight5"
  define m0 where "m0 = \<lparr>mc_fsm = s, mc_state = handshakeWaiting, mc_pending = True\<rparr>"
  define m1 where "m1 = \<lparr>mc_fsm = s\<lparr>fs_conn := c'\<rparr>, mc_state = handshakeFinished, mc_pending = False\<rparr>"
  define m2 where "m2 = m1\<lparr>mc_fsm := onFlightState handshakeFinished (s\<lparr>fs_conn := c'\<rparr>)\<rparr>"
  have "fsm_turn ex_hs_env ex_handshakeConfig s handshakeWaiting RecvHandshake = (s\<lparr>fs_conn := c'\<rparr>, Ok (Some handshakeFinished))"
    using p by (simp add: fsm_turn_def wait_def parse_flight_def onFlightState_def s_def newHandshakeFSM_def)
  then have 1: "machine_step ex_hs_env ex_handshakeConfig m0 m1"
    using M_turn [of ex_hs_env ex_handshakeConfig m0 RecvHandshake "s\<lparr>fs_conn := c'\<rparr>" "Some handshakeFinished"]
    by (simp add: m0_def m1_def blocking_def)
  have "fsm_turn ex_hs_env ex_handshakeConfig (s\<lparr>fs_conn := c'\<rparr>) handshakeFinished RetransmitTimer =
      (onFlightState handshakeFinished (s\<lparr>fs_conn := c'\<rparr>), Ok None)"
    by (simp add: fsm_turn_def finish_def s_def newHandshakeFSM_def)
  then have 2: "machine_step ex_hs_env ex_handshakeConfig m1 m2"
    using M_turn [of ex_hs_env ex_handshakeConfig m1 RetransmitTimer "onFlightState handshakeFinished (s\<lparr>fs_conn := c'\<rparr>)" None]
    by (simp add: m1_def m2_def)
  have h: "client_handshaking m0" "mc_conn m0 = ex_finishing raw"
    by (simp_all add: m0_def s_def newHandshakeFSM_def client_handshaking_def ex_finishing_def ex_Conn_def ex_State_def)
  have d: "cn_handshakeCompletedSuccessfully (mc_conn m2)" "fs_currentFlight (mc_fsm m2) = flight5"
    by (simp_all add: m2_def s_def newHandshakeFSM_def onFlightState_def)
  have steps: "(machine_step ex_hs_env ex_handshakeConfig)\<^sup>*\<^sup>* m0 m2"
    using 1 2 by (meson converse_rtranclp_into_rtranclp rtranclp.rtrancl_refl)
  show ?thesis
    using client_checks_finished [OF h(1) steps d(1)] h steps d by (auto simp: ex_handshakeConfig_def)
qed

text \<open>
  C14. The Finished message that ends a full handshake is accepted by the other side. When the
  server's \<^verbatim>\<open>flight6Generate\<close> succeeds and the client holds the same master secret, a suite with
  the same hash and the same transcript, then the packet numbered by \<^verbatim>\<open>prepare\<close> marshals, and
  a client that caches it in order takes it in \<^verbatim>\<open>flight5Parse\<close> and finishes, also storing the
  session when it has one.
\<close>

theorem server_finished_accepted:
  assumes gen: "flight6Generate env cfg sv = (sv', Next pkts)" and fresh: "st_localVerifyData (cn_state sv) = []"
    and cs: "st_cipherSuite (cn_state sv) = Some cs" "st_cipherSuite (cn_state cl) = Some cs'"
    and hash: "suite_HashFunc env cs' = suite_HashFunc env cs" "wf_HashFunc (suite_HashFunc env cs)"
    and secret: "st_masterSecret (cn_state cl) = st_masterSecret (cn_state sv)"
    and epoch: "hc_initialEpoch cfg' = hc_initialEpoch cfg"
    and transcript: "pullAndMerge (cn_handshakeCache cl) (full_rules (hc_initialEpoch cfg)) =
      pullAndMerge (cn_handshakeCache sv) (full_rules (hc_initialEpoch cfg))"
    and seq: "word_of_int (st_handshakeRecvSequence (cn_state cl)) = (word_of_int n :: uint16)"
    and newest: "\<forall>i \<in> set (cn_handshakeCache cl). pull_match (pull_rule TypeFinished (hc_initialEpoch cfg + 1) False False) i \<longrightarrow>
      ci_messageSequence i < word_of_int n"
    and stored: "session_stored cfg' cl"
  shows "\<exists>ccs p k e h raw h' c'. number_flights (hc_initialEpoch cfg) pkts n (hc_initialEpoch cfg) = ([ccs, p], k, e) \<and>
    rec_Content (pk_record p) = HandshakeC h \<and> Handshake_Marshal (ce_cb (he_conn env)) h = Ok (raw, h') \<and>
    flight5Parse env cfg' (cl\<lparr>cn_handshakeCache := cache_push (cn_handshakeCache cl) raw (hc_initialEpoch cfg + 1)
      (word_of_int n) TypeFinished False\<rparr>) = (c', Next flight5)"
proof -
  obtain vd where vd: "VerifyDataServer (st_masterSecret (cn_state sv)) (pullAndMerge (cn_handshakeCache sv)
      (full_rules (hc_initialEpoch cfg))) (suite_HashFunc env cs) = Ok vd" "length vd = 12"
    by (rule VerifyData_total [OF hash(2)])
  have pkts: "pkts = [ccs_packet, finished_packet (hasRemoteCID sv') vd]"
    using gen fresh cs vd(1)
    by (auto simp: flight6Generate_def set_verify_data_def andThen_def check_def Let_def hasRemoteCID_def res_bytes_def)
  obtain ccs p k e where p: "number_flights (hc_initialEpoch cfg) pkts n (hc_initialEpoch cfg) = ([ccs, p], k, e)"
    "rec_Content (pk_record p) = HandshakeC (finished_message (word_of_int n) vd)"
    unfolding pkts by (simp add: ccs_packet_def finished_packet_def hs_packet_def finished_message_def Let_def)
  obtain raw h' where raw: "Handshake_Marshal (ce_cb (he_conn env)) (finished_message (word_of_int n) vd) = Ok (raw, h')"
    using finished_marshal by blast
  let ?cl = "cl\<lparr>cn_handshakeCache := cache_push (cn_handshakeCache cl) raw (hc_initialEpoch cfg + 1)
      (word_of_int n) TypeFinished False\<rparr>"
  have "\<exists>c'. flight5Parse env cfg' ?cl = (c', Next flight5)"
    using vd raw cs hash secret epoch transcript seq newest stored
    by (intro flight5Parse_accepts [where raw = raw and vd = vd and cs = cs' and cache = "cn_handshakeCache cl" and seq = "word_of_int n"]) (auto simp: session_stored_def sessionKey_def)
  then show ?thesis using p raw by blast
qed

theorem server_finished_accepted_witness:
  "\<exists>sv' pkts ccs p k e h raw h' c'. flight6Generate ex_hs_env ex_handshakeConfig ex_Conn = (sv', Next pkts) \<and>
    number_flights 0 pkts 0 0 = ([ccs, p], k, e) \<and>
    rec_Content (pk_record p) = HandshakeC h \<and> Handshake_Marshal std_cryptobyte h = Ok (raw, h') \<and>
    flight5Parse ex_hs_env ex_handshakeConfig
      (ex_Conn\<lparr>cn_handshakeCache := cache_push [] raw 1 0 TypeFinished False\<rparr>) = (c', Next flight5)"
proof -
  let ?c = "cn_state ex_Conn"
  have c: "st_localVerifyData ?c = []" "st_cipherSuite ?c = Some ex_State_suite" "st_SessionID ?c = []"
    "st_handshakeRecvSequence ?c = 0" "cn_handshakeCache ex_Conn = []" "hc_initialEpoch ex_handshakeConfig = 0"
    by (simp_all add: ex_Conn_def ex_State_def zero_State_def newHandshakeCache_def ex_handshakeConfig_def)
  obtain vd where "VerifyDataServer (st_masterSecret ?c) (pullAndMerge [] (full_rules 0)) ex_HashFunc = Ok vd"
    by (rule VerifyData_total [OF ex_HashFunc_wf])
  then obtain sv' pkts where gen: "flight6Generate ex_hs_env ex_handshakeConfig ex_Conn = (sv', Next pkts)"
    using c by (simp add: flight6Generate_def set_verify_data_def andThen_def check_def Let_def ex_hash)
  have "word_of_int (st_handshakeRecvSequence ?c) = (word_of_int 0 :: uint16)" using c by simp
  moreover have "wf_HashFunc (suite_HashFunc ex_hs_env ex_State_suite)" by (simp add: ex_hash ex_HashFunc_wf)
  moreover have "session_stored ex_handshakeConfig ex_Conn" using c by (simp add: session_stored_def)
  moreover have "ce_cb (he_conn ex_hs_env) = std_cryptobyte" by (simp add: ex_hs_env_def ex_conn_env_def)
  ultimately show ?thesis
    using server_finished_accepted [OF gen c(1,2,2) refl _ refl refl refl, of 0] gen c by auto
qed

end
