(* ===== verification/Handshake_Auth.thy ===== *)
theory Handshake_Auth
  imports Handshake_Safety
begin

section \<open>What the flights authenticate\<close>

text \<open>
  The cookie exchange, the signature over the server's key exchange, the client's certificate,
  the Finished message a server expects, and the end of a cancelled handshake. Statements about a
  single flight are about every outcome of its parser or generator; the one about cookies is
  about every reachable machine.
\<close>

subsection \<open>The client's certificate\<close>

definition certs_kept :: "Conn \<Rightarrow> Conn \<Rightarrow> bool" where
  "certs_kept c c' \<longleftrightarrow> st_PeerCertificates (cn_state c') = st_PeerCertificates (cn_state c) \<and>
     st_peerCertificatesVerified (cn_state c') = st_peerCertificatesVerified (cn_state c)"

lemma certs_kept_refl [simp]: "certs_kept c c"
  by (simp add: certs_kept_def)

lemma certs_kept_trans: "certs_kept a b \<Longrightarrow> certs_kept b c \<Longrightarrow> certs_kept a c"
  by (simp add: certs_kept_def)

lemma certs_kept_upd [simp]:
  "st_PeerCertificates s = st_PeerCertificates (cn_state c) \<Longrightarrow>
   st_peerCertificatesVerified s = st_peerCertificatesVerified (cn_state c) \<Longrightarrow>
   certs_kept c0 (c\<lparr>cn_state := s\<rparr>) = certs_kept c0 c"
  "certs_kept c0 (c\<lparr>cn_storeLog := l\<rparr>) = certs_kept c0 c"
  by (simp_all add: certs_kept_def)

lemmas certs_kept_rules = stays_rules [where I = "certs_kept c0" for c0]

lemma certs_kept_flight4_keys: "certs_kept c0 c \<Longrightarrow> certs_kept c0 (fst (flight4_keys env cfg c h))"
  unfolding flight4_keys_def server_pre_master_secret_def set_master_secret_def init_suite_def Let_def
  by (intro certs_kept_rules) (auto split: prod.splits res.splits intro!: certs_kept_rules)

lemma certs_kept_handle_queued: "certs_kept c0 c \<Longrightarrow> certs_kept c0 (fst (handle_queued env cfg c))"
  by (simp add: certs_kept_def kept_stateD(4,5) [OF handle_queued_kept])

lemma certs_kept_flight4_finished: "certs_kept c0 c \<Longrightarrow> certs_kept c0 (fst (flight4_finished env cfg c seq))"
  unfolding flight4_finished_def client_auth_def verify_connection_def Let_def
  by (intro certs_kept_rules) (auto split: ClientAuthType.splits intro!: certs_kept_rules)

lemma certs_kept_conclude: "certs_kept c0 c \<Longrightarrow> certs_kept c0 (fst (flight4_conclude env cfg c h seq))"
  unfolding flight4_conclude_def store_session_def Let_def
  by (intro certs_kept_rules certs_kept_flight4_keys certs_kept_handle_queued certs_kept_flight4_finished) auto

text \<open>The policy is looked at last, so it holds of the connection that goes on to flight 6.\<close>

definition policy_met :: "ClientAuthType \<Rightarrow> Conn \<Rightarrow> bool" where
  "policy_met a c \<longleftrightarrow>
     (a \<in> {RequireAnyClientCert, RequireAndVerifyClientCert} \<longrightarrow> st_PeerCertificates (cn_state c) \<noteq> None) \<and>
     (verifies_client a \<and> st_PeerCertificates (cn_state c) \<noteq> None \<longrightarrow> st_peerCertificatesVerified (cn_state c))"

lemma client_auth_policy: "ensures (client_auth a c) (\<lambda>c' _. c' = c \<and> policy_met a c)"
  by (cases a) (auto simp: client_auth_def policy_met_def verifies_client_def Let_def)

lemma flight4_finished_policy:
  "ensures (flight4_finished env cfg c seq) (\<lambda>c' f. f = flight6 \<longrightarrow> (\<exists>cs. st_cipherSuite (cn_state c') = Some cs \<and>
     (cs_AuthenticationType cs = AuthenticationTypeAnonymous \<or> policy_met (hc_clientAuth cfg) c')))"
proof -
  have v: "ensures (verify_connection cfg c) (\<lambda>c' _. c' = c)" for c
    unfolding verify_connection_def by (intro ensures_rules) auto
  show ?thesis
    unfolding flight4_finished_def Let_def
    by (intro ensures_pull ensures_cases ensures_case_Message ensures_andThen)
      (auto intro!: ensures_andThen ensures_mono [OF v] ensures_mono [OF client_auth_policy])
qed

lemma flight4_conclude_policy:
  "ensures (flight4_conclude env cfg c h seq) (\<lambda>c' f. f = flight6 \<longrightarrow> (\<exists>cs. st_cipherSuite (cn_state c') = Some cs \<and>
     (cs_AuthenticationType cs = AuthenticationTypeAnonymous \<or> policy_met (hc_clientAuth cfg) c')))"
  unfolding flight4_conclude_def by (intro ensures_last flight4_finished_policy)

text \<open>What a CertificateVerify message was accepted for.\<close>

definition client_verified :: "'b hs_env \<Rightarrow> handshakeConfig \<Rightarrow> bytes \<Rightarrow> bytes list \<Rightarrow> bool" where
  "client_verified env cfg transcript certs \<longleftrightarrow>
     (\<exists>h :: MessageCertificateVerify. scheme_listed cfg (cv_HashAlgorithm h) (cv_SignatureAlgorithm h) \<and>
       verifyCertificateVerify (ce_x509 (he_conn env)) transcript (cv_HashAlgorithm h) (cv_Signature h) certs = Ok ()) \<and>
     (\<exists>chains. (if verifies_client (hc_clientAuth cfg)
         then verifyClientCert (ce_x509 (he_conn env)) certs (hc_clientCAs cfg) = Ok chains else chains = []) \<and>
       (\<forall>f. hc_verifyPeerCertificate cfg = Some f \<longrightarrow> f (Some certs) chains = Ok ()))"

lemma accept_certificate_verify_checks:
  "ensures (accept_certificate_verify env cfg c h) (\<lambda>c' _. \<exists>certs. st_PeerCertificates (cn_state c') = Some certs \<and>
     client_verified env cfg (pullAndMerge (cn_handshakeCache c) (certificate_verify_rules (hc_initialEpoch cfg))) certs)"
  unfolding accept_certificate_verify_def verify_peer_certificate_def Let_def
  by (intro ensures_rules) (auto simp: client_verified_def intro!: ensures_rules)

text \<open>
  C5. A server goes on to its last flight only when the client's certificate is in order. When
  \<^verbatim>\<open>flight4Parse\<close> leads to flight 6, the configured policy is met: a certificate is present where one is
  required, and every certificate that was given proved possession of its key, by a signature with
  a listed scheme over the transcript, was verified against the client authorities if the policy
  verifies, and was accepted by the user's callback.
\<close>

theorem client_certificate_policy:
  assumes parse: "flight4Parse env cfg c = (c', Next flight6)"
    and cs: "st_cipherSuite (cn_state c') = Some cs" "cs_AuthenticationType cs \<noteq> AuthenticationTypeAnonymous"
  shows "(hc_clientAuth cfg \<in> {RequireAnyClientCert, RequireAndVerifyClientCert} \<longrightarrow> st_PeerCertificates (cn_state c') \<noteq> None) \<and>
    (\<forall>certs. st_PeerCertificates (cn_state c') = Some certs \<longrightarrow>
      client_verified env cfg (pullAndMerge (cn_handshakeCache c) (certificate_verify_rules (hc_initialEpoch cfg))) certs)"
proof -
  let ?ok = "\<lambda>certs. client_verified env cfg (pullAndMerge (cn_handshakeCache c) (certificate_verify_rules (hc_initialEpoch cfg))) certs"
  let ?Q = "\<lambda>c' f. f = flight6 \<longrightarrow> (\<exists>cs. st_cipherSuite (cn_state c') = Some cs \<and>
     (cs_AuthenticationType cs = AuthenticationTypeAnonymous \<or> policy_met (hc_clientAuth cfg) c')) \<and>
     (\<forall>certs. st_PeerCertificates (cn_state c') = Some certs \<longrightarrow> ?ok certs)"
  have conclude: "ensures (flight4_conclude env cfg d h seq) ?Q"
    if "\<forall>certs. st_PeerCertificates (cn_state d) = Some certs \<longrightarrow> ?ok certs" for d h seq
  proof (rule ensuresI)
    fix c' f assume f: "flight4_conclude env cfg d h seq = (c', Next f)"
    have "certs_kept d c'" using certs_kept_conclude [OF certs_kept_refl, of d env cfg h seq] f by simp
    then show "?Q c' f" using that ensuresD [OF flight4_conclude_policy f] by (simp add: certs_kept_def)
  qed
  have cache: "cn_handshakeCache (take_client_certificate m c) = cn_handshakeCache c" for m
    by (auto simp: take_client_certificate_def split: option.splits Message.splits)
  have verified: "ensures (accept_certificate_verify env cfg (take_client_certificate m c) h)
      (\<lambda>d _. \<forall>certs. st_PeerCertificates (cn_state d) = Some certs \<longrightarrow> ?ok certs)" for m h
    using cache by (intro ensures_mono [OF accept_certificate_verify_checks]) auto
  have "ensures (flight4Parse env cfg c) ?Q"
    unfolding flight4Parse_def Let_def
    by (intro ensures_pull ensures_cases ensures_case_Message ensures_andThen ensures_mono [OF verified] conclude) auto
  from ensuresD [OF this parse] show ?thesis using cs by (auto simp: policy_met_def)
qed

text \<open>An environment in which a certificate's key is its own signature, and messages for it.\<close>

definition ex_auth_env :: "bytes res hs_env" where
  "ex_auth_env = ex_hs_env\<lparr>he_conn := ex_conn_env\<lparr>ce_x509 := ex_x509_env\<lparr>xe_ed25519_Verify := (\<lambda>p m s. s = p)\<rparr>\<rparr>\<rparr>"

lemma ex_auth_env_cb [simp]: "ce_cb (he_conn ex_auth_env) = std_cryptobyte"
  by (simp add: ex_auth_env_def ex_conn_env_def)

definition carries :: "KeyExchangeAlgorithm \<Rightarrow> Message \<Rightarrow> uint16 \<Rightarrow> bytes \<Rightarrow> bool" where
  "carries kx m seq raw \<longleftrightarrow> (\<exists>h. Handshake_Unmarshal std_cryptobyte kx raw = Ok h \<and> hd_Message h = Some m \<and>
     hs_MessageSequence (hd_Header h) = seq)"

lemma carries_ex:
  assumes "wf_Message kx m" "Message_Marshal std_cryptobyte m = Ok body" "length body < 2 ^ 24"
  shows "\<exists>raw. carries kx m seq raw"
proof -
  let ?h = "\<lparr>hd_Header = \<lparr>hs_Type = 0, hs_Length = 0, hs_MessageSequence = seq, hs_FragmentOffset = 0, hs_FragmentLength = 0\<rparr>,
    hd_Message = Some m\<rparr>"
  obtain raw h' where "Handshake_Marshal std_cryptobyte ?h = Ok (raw, h')" "hs_MessageSequence (hd_Header h') = seq"
    "Handshake_Unmarshal std_cryptobyte kx raw = Ok h'"
    using cryptobyte_spec.Handshake_roundtrip [OF std_cryptobyte_spec, of ?h m kx body] assms by auto
  moreover from this(1) have "hd_Message h' = Some m"
    using assms by (auto simp: Handshake_Marshal_def Let_def bind_eq_Ok)
  ultimately show ?thesis unfolding carries_def by blast
qed

definition ex_item :: "byte \<Rightarrow> bool \<Rightarrow> uint16 \<Rightarrow> uint16 \<Rightarrow> bytes \<Rightarrow> handshakeCacheItem" where
  "ex_item typ b epoch seq raw =
     \<lparr>ci_typ = typ, ci_isClient = b, ci_epoch = epoch, ci_messageSequence = seq, ci_data = raw\<rparr>"

definition ex_auth_config :: handshakeConfig where
  "ex_auth_config = ex_handshakeConfig\<lparr>hc_clientAuth := RequireAndVerifyClientCert\<rparr>"

definition ex_auth_peer :: "bytes \<Rightarrow> bytes \<Rightarrow> bytes \<Rightarrow> bytes \<Rightarrow> Conn" where
  "ex_auth_peer cert kx verify fin = ex_Conn\<lparr>cn_state := (cn_state ex_Conn)\<lparr>st_isClient := False\<rparr>, cn_handshakeCache :=
     [ex_item TypeCertificate True 0 0 cert, ex_item TypeClientKeyExchange True 0 1 kx,
      ex_item TypeCertificateVerify True 0 2 verify, ex_item TypeFinished True 1 3 fin]\<rparr>"

lemma ex_auth_messages:
  obtains cert kx verify fin where
    "carries KeyExchangeAlgorithmPsk (MCertificate [[1, 2]]) 0 cert"
    "carries KeyExchangeAlgorithmPsk (MClientKeyExchange \<lparr>ck_IdentityHint = Some [9], ck_PublicKey = None\<rparr>) 1 kx"
    "carries KeyExchangeAlgorithmPsk (MCertificateVerify \<lparr>cv_HashAlgorithm = hash_Ed25519, cv_SignatureAlgorithm = sig_Ed25519,
       cv_Signature = [1, 2]\<rparr>) 2 verify"
    "carries KeyExchangeAlgorithmPsk (MFinished []) 3 fin"
proof -
  have "\<exists>cert. carries KeyExchangeAlgorithmPsk (MCertificate [[1, 2]]) 0 cert"
    by (rule carries_ex, simp add: cert_enc_def, simp add: MessageCertificate_Marshal_def, simp)
  moreover have "\<exists>kx. carries KeyExchangeAlgorithmPsk (MClientKeyExchange \<lparr>ck_IdentityHint = Some [9], ck_PublicKey = None\<rparr>) 1 kx"
    by (rule carries_ex, simp add: wf_ClientKeyExchange_def kx_Has_def, simp add: ClientKeyExchange_Marshal_def, simp)
  moreover have "\<exists>verify. carries KeyExchangeAlgorithmPsk (MCertificateVerify \<lparr>cv_HashAlgorithm = hash_Ed25519,
      cv_SignatureAlgorithm = sig_Ed25519, cv_Signature = [1, 2]\<rparr>) 2 verify"
    by (rule carries_ex, simp add: hash_Algorithms_def sig_Algorithms_def, simp add: CertificateVerify_Marshal_def, simp)
  moreover have "\<exists>fin. carries KeyExchangeAlgorithmPsk (MFinished []) 3 fin"
    by (rule carries_ex, simp, simp add: Finished_Marshal_def, simp)
  ultimately show ?thesis using that by blast
qed

lemma ex_suite_fields:
  "cs_KeyExchangeAlgorithm ex_State_suite = KeyExchangeAlgorithmPsk"
  "cs_AuthenticationType ex_State_suite = AuthenticationTypePreSharedKey"
  using suite_Init_fields(4,5) [of ex_env _ _ _ _ NewTLSPskWithAes128Ccm8 ex_State_suite] ex_State_suite(1)
  by (auto simp: suite_of_state_def suite_defs)

theorem client_certificate_policy_witness:
  "\<exists>cert kx verify fin c'. flight4Parse ex_auth_env ex_auth_config (ex_auth_peer cert kx verify fin) = (c', Next flight6) \<and>
     st_PeerCertificates (cn_state c') = Some [[1, 2]] \<and>
     client_verified ex_auth_env ex_auth_config (cert @ kx) [[1, 2]]"
proof -
  obtain cert kx verify fin where m:
    "carries KeyExchangeAlgorithmPsk (MCertificate [[1, 2]]) 0 cert"
    "carries KeyExchangeAlgorithmPsk (MClientKeyExchange \<lparr>ck_IdentityHint = Some [9], ck_PublicKey = None\<rparr>) 1 kx"
    "carries KeyExchangeAlgorithmPsk (MCertificateVerify \<lparr>cv_HashAlgorithm = hash_Ed25519, cv_SignatureAlgorithm = sig_Ed25519,
       cv_Signature = [1, 2]\<rparr>) 2 verify"
    "carries KeyExchangeAlgorithmPsk (MFinished []) 3 fin"
    by (rule ex_auth_messages)
  let ?c = "ex_auth_peer cert kx verify fin"
  let ?s = "(cn_state ?c)\<lparr>st_PeerCertificates := Some [[1, 2]], st_SessionID := [], st_peerCertificatesVerified := True\<rparr>"
  have c: "st_cipherSuite (cn_state ?c) = Some ex_State_suite" "st_handshakeRecvSequence (cn_state ?c) = 0"
    "cn_encryptedPackets ?c = []" "cn_handshakeCache ?c = [ex_item TypeCertificate True 0 0 cert,
      ex_item TypeClientKeyExchange True 0 1 kx, ex_item TypeCertificateVerify True 0 2 verify, ex_item TypeFinished True 1 3 fin]"
    by (simp_all add: ex_auth_peer_def ex_Conn_def ex_State_def zero_State_def)
  have cfg: "hc_initialEpoch ex_auth_config = 0" "hc_verifyConnection ex_auth_config = None"
    "hc_clientAuth ex_auth_config = RequireAndVerifyClientCert" "hc_verifyPeerCertificate ex_auth_config = None"
    "scheme_listed ex_auth_config hash_Ed25519 sig_Ed25519"
    by (simp_all add: ex_auth_config_def ex_handshakeConfig_def scheme_listed_def signaturehash_Algorithms_def)
  have x: "verifyCertificateVerify (ce_x509 (he_conn ex_auth_env)) b a [1, 2] [[1, 2]] = Ok ()"
    "\<exists>chains. verifyClientCert (ce_x509 (he_conn ex_auth_env)) [[1, 2]] r = Ok chains" for a b r
    by (simp_all add: ex_auth_env_def ex_conn_env_def ex_x509_env_def verifyCertificateVerify_def verifyClientCert_def loadCerts_def)
  obtain chains where ch: "verifyClientCert (ce_x509 (he_conn ex_auth_env)) [[1, 2]] (hc_clientCAs ex_auth_config) = Ok chains"
    using x(2) by blast
  have t: "pullAndMerge (cn_handshakeCache ?c) (certificate_verify_rules 0) = cert @ kx"
    by (simp add: c pullAndMerge_def merge_items_def cache_pull_def certificate_verify_rules_def full_rules_def pull_rule_def
        pull_match_def ex_item_def)
  obtain msgs where p: "pull ex_auth_env ?c 0 [pull_rule TypeCertificate 0 True True, pull_rule TypeClientKeyExchange 0 True False,
      pull_rule TypeCertificateVerify 0 True True] k = k 3 (Some msgs)"
    "msgs TypeCertificate = Some (MCertificate [[1, 2]])"
    "msgs TypeClientKeyExchange = Some (MClientKeyExchange \<lparr>ck_IdentityHint = Some [9], ck_PublicKey = None\<rparr>)"
    "msgs TypeCertificateVerify = Some (MCertificateVerify \<lparr>cv_HashAlgorithm = hash_Ed25519,
       cv_SignatureAlgorithm = sig_Ed25519, cv_Signature = [1, 2]\<rparr>)" for k :: "int \<Rightarrow> (byte \<rightharpoonup> Message) option \<Rightarrow> Conn \<times> flightVal outcome"
    using m(1-3) by (auto simp: pull_def fullPullMap_def c ex_suite_fields pull_rule_def pull_match_def ex_item_def carries_def Let_def)
  let ?d = "?c\<lparr>cn_state := ?s\<rparr>"
  have f: "pull ex_auth_env ?d 3 [pull_rule TypeFinished 1 True False] k = k 4 (Some [TypeFinished \<mapsto> MFinished []])"
    for k :: "int \<Rightarrow> (byte \<rightharpoonup> Message) option \<Rightarrow> Conn \<times> flightVal outcome"
    using m(4) by (auto simp: pull_def fullPullMap_def c ex_suite_fields pull_rule_def pull_match_def ex_item_def carries_def Let_def)
  have q: "handle_queued ex_auth_env ex_auth_config ?d = (?d, Next ())"
    by (simp add: handle_queued_def handleQueuedPackets_def c check_def)
  have v: "accept_certificate_verify ex_auth_env ex_auth_config (take_client_certificate (Some (MCertificate [[1, 2]])) ?c)
      \<lparr>cv_HashAlgorithm = hash_Ed25519, cv_SignatureAlgorithm = sig_Ed25519, cv_Signature = [1, 2]\<rparr> = (?d, Next ())"
    by (simp add: accept_certificate_verify_def take_client_certificate_def cert_slice_def cfg x ch verifies_client_def
        verify_peer_certificate_def check_def andThen_def)
  have k: "flight4_keys ex_auth_env ex_auth_config ?d h = (?d, Next ())" for h
    using ex_State_suite_cipher by (simp add: flight4_keys_def c)
  have "\<exists>c'. flight4Parse ex_auth_env ex_auth_config ?c = (c', Next flight6) \<and>
      cn_state c' = ?s\<lparr>st_handshakeRecvSequence := 4\<rparr>"
    unfolding flight4Parse_def c cfg
    by (simp add: p v flight4_conclude_def k q flight4_finished_def f cfg c client_auth_def verify_connection_def andThen_def
        Let_def)
  then obtain c' where c': "flight4Parse ex_auth_env ex_auth_config ?c = (c', Next flight6)"
    "cn_state c' = ?s\<lparr>st_handshakeRecvSequence := 4\<rparr>" by blast
  then have "st_cipherSuite (cn_state c') = Some ex_State_suite" using c by simp
  moreover have "cs_AuthenticationType ex_State_suite \<noteq> AuthenticationTypeAnonymous" by (simp add: ex_suite_fields)
  ultimately show ?thesis
    using client_certificate_policy [OF c'(1)] c' t cfg
    by (intro exI [of _ cert] exI [of _ kx] exI [of _ verify] exI [of _ fin] exI [of _ c']) simp
qed

subsection \<open>The server's key\<close>

text \<open>What the steps of \<^verbatim>\<open>flight5Generate\<close> before the signature check leave alone.\<close>

definition peer_kept :: "Conn \<Rightarrow> Conn \<Rightarrow> bool" where
  "peer_kept c c' \<longleftrightarrow> cn_handshakeCache c' = cn_handshakeCache c \<and>
     st_cipherSuite (cn_state c') = st_cipherSuite (cn_state c) \<and>
     st_PeerCertificates (cn_state c') = st_PeerCertificates (cn_state c) \<and>
     st_localRandom (cn_state c') = st_localRandom (cn_state c) \<and>
     st_remoteRandom (cn_state c') = st_remoteRandom (cn_state c)"

lemma peer_kept_refl [simp]: "peer_kept c c"
  by (simp add: peer_kept_def)

lemma peer_kept_upd [simp]:
  "st_cipherSuite s = st_cipherSuite (cn_state c) \<Longrightarrow> st_PeerCertificates s = st_PeerCertificates (cn_state c) \<Longrightarrow>
   st_localRandom s = st_localRandom (cn_state c) \<Longrightarrow> st_remoteRandom s = st_remoteRandom (cn_state c) \<Longrightarrow>
   peer_kept c0 (c\<lparr>cn_state := s\<rparr>) = peer_kept c0 c"
  "peer_kept c0 (draw c) = peer_kept c0 c"
  by (simp_all add: peer_kept_def draw_def)

lemmas peer_kept_rules = stays_rules [where I = "peer_kept c0" for c0]

lemma peer_kept_handleServerKeyExchange: "peer_kept c0 c \<Longrightarrow> peer_kept c0 (fst (handleServerKeyExchange env cfg c h))"
  unfolding handleServerKeyExchange_def set_keypair_def Let_def
  by (intro peer_kept_rules) (auto split: res.splits intro!: peer_kept_rules)

lemma peer_kept_set_master_secret: "peer_kept c0 c \<Longrightarrow> peer_kept c0 (fst (set_master_secret env cfg c cs d pms add cr sr))"
  unfolding set_master_secret_def Let_def by (intro peer_kept_rules) auto

lemma same_client_certificate: "ensures (client_certificate env cfg c) (\<lambda>c' _. c' = c)"
  unfolding client_certificate_def by (intro ensures_rules) auto

lemma same_client_key_exchange: "ensures (client_key_exchange cfg c) (\<lambda>c' _. c' = c)"
  unfolding client_key_exchange_def Let_def by (intro ensures_cases) auto

lemma same_merge_packets: "ensures (merge_packets env c pkts n) (\<lambda>c' _. c' = c)"
proof (induction pkts arbitrary: n)
  case (Cons p pkts)
  show ?case
    by (auto split: Content.splits intro!: ensures_rules ensures_mono [OF Cons])
qed simp

text \<open>
  The key exchange message that is checked: the newest one of the server in the cache. Where there
  is none the code goes on with an empty message.
\<close>

definition cached_key_exchange :: "'b hs_env \<Rightarrow> handshakeConfig \<Rightarrow> Conn \<Rightarrow> MessageServerKeyExchange \<Rightarrow> bool" where
  "cached_key_exchange env cfg c h \<longleftrightarrow>
     (let data = pullAndMerge (cn_handshakeCache c) [pull_rule TypeServerKeyExchange (hc_initialEpoch cfg) False False] in
      data \<noteq> [] \<and> (\<exists>cs raw. st_cipherSuite (cn_state c) = Some cs \<and>
        Handshake_Unmarshal (ce_cb (he_conn env)) (cs_KeyExchangeAlgorithm cs) data = Ok raw \<and>
        hd_Message raw = Some (MServerKeyExchange h)))"

lemma server_key_exchange_cached:
  "ensures (server_key_exchange env cfg c)
     (\<lambda>c' h. peer_kept c c' \<and> (cached_key_exchange env cfg c h \<or> h = zero_ServerKeyExchange))"
proof -
  have "ensures (handleServerKeyExchange env cfg c zero_ServerKeyExchange) (\<lambda>c' _. peer_kept c c')"
    using peer_kept_handleServerKeyExchange [of c c env cfg] by (auto intro!: ensuresI) (metis fst_conv peer_kept_refl)
  then show ?thesis
    unfolding server_key_exchange_def Let_def
    by (intro ensures_cases ensures_andThen ensures_check ensures_case_Message) (auto simp: cached_key_exchange_def intro: ensures_mono)
qed

text \<open>The signature over the key exchange and the certificate that carries the key.\<close>

definition server_key_signed :: "'b hs_env \<Rightarrow> handshakeConfig \<Rightarrow> Conn \<Rightarrow> MessageServerKeyExchange \<Rightarrow> bool" where
  "server_key_signed env cfg c h \<longleftrightarrow>
     scheme_listed cfg (sk_HashAlgorithm h) (sk_SignatureAlgorithm h) \<and>
     (\<exists>certs. st_PeerCertificates (cn_state c) = Some certs \<and>
       verifyKeySignature (ce_x509 (he_conn env))
         (valueKeyMessage (Random_MarshalFixed (st_localRandom (cn_state c))) (Random_MarshalFixed (st_remoteRandom (cn_state c)))
           (sk_PublicKey h) (sk_NamedCurve h))
         (sk_Signature h) (sk_HashAlgorithm h) certs = Ok () \<and>
       (\<exists>chains. (if hc_insecureSkipVerify cfg then chains = []
           else verifyServerCert (ce_x509 (he_conn env)) certs (hc_rootCAs cfg) (hc_serverName cfg) = Ok chains) \<and>
         (\<forall>f. hc_verifyPeerCertificate cfg = Some f \<longrightarrow> f (Some certs) chains = Ok ())))"

text \<open>
  \<^verbatim>\<open>VerifyConnection\<close> accepted a copy of the connection's state, at a moment when it had the suite, the
  certificates and the randoms of \<open>c\<close>.
\<close>

definition connection_accepted :: "handshakeConfig \<Rightarrow> Conn \<Rightarrow> bool" where
  "connection_accepted cfg c \<longleftrightarrow>
     (\<forall>f. hc_verifyConnection cfg = Some f \<longrightarrow> (\<exists>d s. peer_kept c d \<and> state_clone (cn_state d) = Ok s \<and> f s = Ok ()))"

definition server_key_verified :: "'b hs_env \<Rightarrow> handshakeConfig \<Rightarrow> Conn \<Rightarrow> MessageServerKeyExchange \<Rightarrow> bool" where
  "server_key_verified env cfg c h \<longleftrightarrow> server_key_signed env cfg c h \<and> connection_accepted cfg c"

lemma verify_connection_accepts:
  "peer_kept c d \<Longrightarrow> ensures (verify_connection cfg d) (\<lambda>_ _. connection_accepted cfg c)"
  by (auto simp: verify_connection_def connection_accepted_def intro!: ensures_rules split: option.splits res.splits)

lemma ensures_const: "ensures r (\<lambda>_ _. Q) \<Longrightarrow> ensures (andThen r k) (\<lambda>_ _. Q)"
  by (auto simp: ensures_def andThen_eq_Next)

lemma initializeCipherSuite_verifies:
  assumes cs: "st_cipherSuite (cn_state c) = Some cs" "\<not> suite_IsInitialized cs"
    "cs_AuthenticationType cs = AuthenticationTypeCertificate"
  shows "ensures (initializeCipherSuite env cfg c h merged) (\<lambda>_ _. server_key_verified env cfg c h)"
proof -
  have secret: "ensures (set_master_secret env cfg c cs a pms add cr sr) (\<lambda>d _. peer_kept c d)" for a pms add cr sr
  proof (rule ensuresI)
    fix d x assume "set_master_secret env cfg c cs a pms add cr sr = (d, Next x)"
    then show "peer_kept c d"
      using peer_kept_set_master_secret [OF peer_kept_refl, of c env cfg cs a pms add cr sr] by simp
  qed
  have sig: "verifyKeySignature x m s a [] \<noteq> Ok ()" for x m s a by (simp add: verifyKeySignature_def)
  have connection: "ensures (andThen (verify_connection cfg d) k) (\<lambda>_ _. server_key_verified env cfg c h)"
    if "peer_kept c d" "server_key_signed env cfg c h" for d k
    by (rule ensures_const, rule ensures_mono [OF verify_connection_accepts [OF that(1)]])
      (simp add: server_key_verified_def that(2))
  show ?thesis
    unfolding initializeCipherSuite_def cs option.case Let_def if_not_P [OF cs(2)]
    apply (rule ensures_andThen, rule ensures_mono [OF secret], rule ensures_andThen)
    apply (rule ensures_mono [where P = "\<lambda>d _. peer_kept c d \<and> server_key_signed env cfg c h"])
     apply (use cs sig in \<open>auto simp: server_key_signed_def verify_peer_certificate_def peer_kept_def
        intro!: ensures_rules split: option.splits\<close>)[1]
    apply (elim conjE, rule connection; assumption)
    done
qed

lemma flight5Generate_verifies:
  assumes cs: "st_cipherSuite (cn_state c) = Some cs" "\<not> suite_IsInitialized cs"
    "cs_AuthenticationType cs = AuthenticationTypeCertificate"
    and schemes: "hash_None \<notin> sh_Hash ` set (hc_localSignatureSchemes cfg)"
  shows "ensures (flight5Generate env cfg c) (\<lambda>_ _. \<exists>h. cached_key_exchange env cfg c h \<and> server_key_verified env cfg c h)"
proof -
  have zero: "\<not> server_key_verified env cfg c zero_ServerKeyExchange"
    using schemes by (auto simp: server_key_verified_def server_key_signed_def scheme_listed_def zero_ServerKeyExchange_def)
  have init: "ensures (initializeCipherSuite env cfg d h merged) (\<lambda>_ _. server_key_verified env cfg c h)"
    if "peer_kept c d" for d h merged
  proof (rule ensures_mono [OF initializeCipherSuite_verifies])
    show "st_cipherSuite (cn_state d) = Some cs" using that cs by (simp add: peer_kept_def)
    show "server_key_verified env cfg d h \<Longrightarrow> server_key_verified env cfg c h"
      using that by (simp add: server_key_verified_def server_key_signed_def connection_accepted_def peer_kept_def)
  qed (use cs in auto)
  show ?thesis
    unfolding flight5Generate_def
    apply (rule ensures_andThen, rule ensures_mono [OF same_client_certificate], clarsimp)
    apply (rule ensures_andThen, rule ensures_mono [OF same_client_key_exchange], clarsimp)
    apply (rule ensures_andThen, rule ensures_mono [OF server_key_exchange_cached], clarify)
    apply (rule ensures_andThen, rule ensures_mono [OF same_merge_packets], clarsimp)
    apply (rule ensures_andThen, rule ensures_mono [OF init], assumption)
    apply (use zero in \<open>auto simp: ensures_def\<close>)
    done
qed

text \<open>
  The condition on the signature schemes below holds for every configuration that
  \<^verbatim>\<open>ClientWithContext\<close> makes.
\<close>

lemma ClientWithContext_schemes:
  assumes "ClientWithContext env n a config = Ok (cfg, s, st)"
  shows "hash_None \<notin> sh_Hash ` set (hc_localSignatureSchemes cfg)"
  using assms
  by (auto simp: ClientWithContext_def handshakeConn_def make_handshakeConfig_def bind_eq_Ok Let_def list_all_iff secure_scheme_def
      split: option.splits if_splits dest!: ParseSignatureSchemes_sound)

text \<open>
  C3. A client sends its last flight only to a server whose key exchange is signed. When
  \<^verbatim>\<open>flight5Generate\<close> succeeds with a certificate suite that is not keyed yet, and no listed signature
  scheme is without a hash (\<open>ClientWithContext_schemes\<close>), the cache holds a key exchange message of
  the server, and the newest carries a signature of a scheme the client lists, over both
  hello randoms and the ephemeral key, that verifies under the certificate the server sent; unless
  verification is switched off, that certificate has a chain to the configured roots for the
  configured name; and the user's callbacks \<^verbatim>\<open>VerifyPeerCertificate\<close> and \<^verbatim>\<open>VerifyConnection\<close>, where they are set,
  accepted the certificate and the connection.
\<close>

theorem client_authenticates_server:
  assumes "flight5Generate env cfg c = (c', Next pkts)"
    and "st_cipherSuite (cn_state c) = Some cs" "\<not> suite_IsInitialized cs"
    and "cs_AuthenticationType cs = AuthenticationTypeCertificate"
    and "hash_None \<notin> sh_Hash ` set (hc_localSignatureSchemes cfg)"
  shows "\<exists>h. cached_key_exchange env cfg c h \<and> server_key_verified env cfg c h"
  by (rule ensuresD [OF flight5Generate_verifies [OF assms(2-5)] assms(1)])

definition ex_cert_suite :: CipherSuite where
  "ex_cert_suite = NewTLSEcdheEcdsaWithAes128Ccm"

definition ex_server_kx :: MessageServerKeyExchange where
  "ex_server_kx = \<lparr>sk_IdentityHint = None, sk_EllipticCurveType = 3, sk_NamedCurve = X25519, sk_PublicKey = [5],
     sk_HashAlgorithm = hash_Ed25519, sk_SignatureAlgorithm = sig_Ed25519, sk_Signature = [1, 2]\<rparr>"

definition ex_flight5 :: "bytes \<Rightarrow> Conn" where
  "ex_flight5 raw = ex_Conn\<lparr>cn_state := (cn_state ex_Conn)\<lparr>st_cipherSuite := Some ex_cert_suite,
       st_PeerCertificates := Some [[1, 2]],
       st_localKeypair := Some \<lparr>kp_Curve = X25519, kp_PublicKey = [4], kp_PrivateKey = [6]\<rparr>\<rparr>,
     cn_handshakeCache := [ex_item TypeServerKeyExchange False 0 2 raw]\<rparr>"

lemma ex_flight5_fields:
  "st_cipherSuite (cn_state (ex_flight5 raw)) = Some ex_cert_suite" "\<not> suite_IsInitialized ex_cert_suite"
  "cs_AuthenticationType ex_cert_suite = AuthenticationTypeCertificate" "cs_KeyExchangeAlgorithm ex_cert_suite = KeyExchangeAlgorithmEcdhe"
  "\<not> st_remoteRequestedCertificate (cn_state (ex_flight5 raw))" "st_localKeypair (cn_state (ex_flight5 raw)) \<noteq> None"
  "\<not> st_extendedMasterSecret (cn_state (ex_flight5 raw))" "st_localVerifyData (cn_state (ex_flight5 raw)) = []"
  "st_PeerCertificates (cn_state (ex_flight5 raw)) = Some [[1, 2]]"
  "pullAndMerge (cn_handshakeCache (ex_flight5 raw))
     [pull_rule TypeServerKeyExchange (hc_initialEpoch ex_handshakeConfig) False False] = raw"
  by (simp_all add: ex_flight5_def ex_cert_suite_def suite_defs suite_IsInitialized_def ex_Conn_def ex_State_def zero_State_def
      pullAndMerge_def merge_items_def cache_pull_def pull_rule_def pull_match_def ex_item_def ex_handshakeConfig_def)

lemma ex_config_fields:
  "hc_localPSKCallback ex_handshakeConfig = None" "hc_verifyPeerCertificate ex_handshakeConfig = None"
  "hc_verifyConnection ex_handshakeConfig = None" "scheme_listed ex_handshakeConfig hash_Ed25519 sig_Ed25519"
  "hash_None \<notin> sh_Hash ` set (hc_localSignatureSchemes ex_handshakeConfig)"
  by (simp_all add: ex_handshakeConfig_def scheme_listed_def signaturehash_Algorithms_def)

lemma ex_auth_hash: "suite_HashFunc ex_auth_env cs = ex_HashFunc"
  by (simp add: suite_HashFunc_def ex_auth_env_def ex_conn_env_def ex_env_def)

lemma ex_flight5_initializes:
  "\<exists>d s. initializeCipherSuite ex_auth_env ex_handshakeConfig (ex_flight5 raw) ex_server_kx merged = (d, Next ()) \<and>
     st_localVerifyData (cn_state d) = [] \<and> st_cipherSuite (cn_state d) = Some s"
proof -
  let ?c = "cn_state (ex_flight5 raw)"
  have x: "verifyKeySignature (ce_x509 (he_conn ex_auth_env)) m [1, 2] a [[1, 2]] = Ok ()"
    "\<exists>chains. verifyServerCert (ce_x509 (he_conn ex_auth_env)) [[1, 2]] r n = Ok chains" for m a r n
    by (simp_all add: ex_auth_env_def ex_conn_env_def ex_x509_env_def verifyKeySignature_def verifyServerCert_def loadCerts_def)
  obtain m where m: "MasterSecret (st_preMasterSecret ?c) (Random_MarshalFixed (st_localRandom ?c))
      (Random_MarshalFixed (st_remoteRandom ?c)) ex_HashFunc = Ok m"
    using PHash_eq_P_hash [OF ex_HashFunc_wf] by (simp add: MasterSecret_def)
  obtain chains where ch: "verifyServerCert (ce_x509 (he_conn ex_auth_env)) [[1, 2]] (hc_rootCAs ex_handshakeConfig)
      (hc_serverName ex_handshakeConfig) = Ok chains" using x(2) by blast
  have id: "cipherSuiteForID TLS_ECDHE_ECDSA_WITH_AES_128_CCM None = Some ex_cert_suite"
    by (simp add: cipherSuiteForID_def builtin_cipherSuiteForID_def ex_cert_suite_def)
  obtain s where "suite_Init ex_env m (Random_MarshalFixed (st_localRandom ?c)) (Random_MarshalFixed (st_remoteRandom ?c))
      True ex_cert_suite = (s, Ok ())" by (rule suite_Init_total [OF ex_env_wf id])
  moreover have "ce_suites (he_conn ex_auth_env) = ex_env" by (simp add: ex_auth_env_def ex_conn_env_def)
  moreover have "sk_HashAlgorithm ex_server_kx = hash_Ed25519" "sk_SignatureAlgorithm ex_server_kx = sig_Ed25519"
    "sk_Signature ex_server_kx = [1, 2]" by (simp_all add: ex_server_kx_def)
  ultimately show ?thesis
    by (simp add: initializeCipherSuite_def ex_flight5_fields ex_config_fields ex_auth_hash m ch x set_master_secret_def init_suite_def
        verify_connection_def verify_peer_certificate_def andThen_def check_def res_bytes_def Let_def)
qed

theorem client_authenticates_server_witness:
  "\<exists>raw c' pkts h. flight5Generate ex_auth_env ex_handshakeConfig (ex_flight5 raw) = (c', Next pkts) \<and>
     cached_key_exchange ex_auth_env ex_handshakeConfig (ex_flight5 raw) h \<and>
     server_key_verified ex_auth_env ex_handshakeConfig (ex_flight5 raw) h"
proof -
  have "\<exists>raw. carries KeyExchangeAlgorithmEcdhe (MServerKeyExchange ex_server_kx) 2 raw"
    by (rule carries_ex, simp add: wf_ServerKeyExchange_def ex_server_kx_def kx_Has_def elliptic_Curves_def hash_Algorithms_def
        sig_Algorithms_def, simp add: ServerKeyExchange_Marshal_def ex_server_kx_def, simp)
  then obtain raw h where raw: "Handshake_Unmarshal std_cryptobyte KeyExchangeAlgorithmEcdhe raw = Ok h"
    "hd_Message h = Some (MServerKeyExchange ex_server_kx)"
    by (auto simp: carries_def)
  have "raw \<noteq> []" using raw(1) by (auto simp: Handshake_Unmarshal_def hs_Header_Unmarshal_def)
  let ?c = "ex_flight5 raw"
  have 1: "client_certificate ex_auth_env ex_handshakeConfig ?c = (?c, Next ([], None))"
    by (simp add: client_certificate_def ex_flight5_fields)
  obtain p where 2: "client_key_exchange ex_handshakeConfig ?c =
      (?c, Next [hs_packet (MClientKeyExchange \<lparr>ck_IdentityHint = None, ck_PublicKey = Some p\<rparr>)])"
    using ex_flight5_fields(6) [of raw] by (auto simp: client_key_exchange_def ex_config_fields Let_def)
  have 3: "server_key_exchange ex_auth_env ex_handshakeConfig ?c = (?c, Next ex_server_kx)"
    using raw \<open>raw \<noteq> []\<close> by (simp add: server_key_exchange_def ex_flight5_fields check_def andThen_def)
  obtain pkts merged n where 4: "merge_packets ex_auth_env ?c [hs_packet (MClientKeyExchange \<lparr>ck_IdentityHint = None, ck_PublicKey = Some p\<rparr>)]
      (word_of_int (st_handshakeSendSequence (cn_state ?c))) = (?c, Next (pkts, merged, n))"
    by (auto simp: hs_packet_def Handshake_Marshal_def ClientKeyExchange_Marshal_def hs_Header_Marshal_def check_def andThen_def Let_def)
  obtain d s where 5: "initializeCipherSuite ex_auth_env ex_handshakeConfig ?c ex_server_kx merged = (d, Next ())"
    "st_localVerifyData (cn_state d) = []" "st_cipherSuite (cn_state d) = Some s"
    using ex_flight5_initializes by blast
  obtain vd where "VerifyDataClient (st_masterSecret (cn_state d)) (pullAndMerge (cn_handshakeCache d)
      (full_rules (hc_initialEpoch ex_handshakeConfig)) @ merged) ex_HashFunc = Ok vd"
    using PHash_eq_P_hash [OF ex_HashFunc_wf] by (simp add: VerifyDataClient_def prfVerifyData_def)
  with 5 have "\<exists>c' pkts. flight5Generate ex_auth_env ex_handshakeConfig ?c = (c', Next pkts)"
    by (simp add: flight5Generate_def 1 2 3 4 certificate_verify_def set_verify_data_def andThen_def check_def ex_auth_hash Let_def
        del: merge_packets.simps)
  then show ?thesis using client_authenticates_server [OF _ ex_flight5_fields(1-3) ex_config_fields(5)] by blast
qed

subsection \<open>The Finished message a server expects\<close>

text \<open>
  C31. The server does not look at the verify data of the client's Finished message in a full
  handshake: whatever twelve bytes, or any other number below \<open>2 ^ 24\<close>, the message carries, the part
  of \<^verbatim>\<open>flight4Parse\<close> that reads it goes on to flight 6 under the same conditions, those on the
  client's certificate and the user's callback. The protocol requires the recipient to verify it.
\<close>

theorem any_client_finished_accepted:
  assumes raw: "Handshake_Marshal (ce_cb (he_conn env)) (finished_message (word_of_int n) vd) = Ok (raw, h)"
    and len: "length vd < 2 ^ 24"
    and cache: "cn_handshakeCache c = cache_push cache raw (hc_initialEpoch cfg + 1) seq TypeFinished True"
    and newest: "\<forall>i \<in> set cache. pull_match (pull_rule TypeFinished (hc_initialEpoch cfg + 1) True False) i \<longrightarrow>
      ci_messageSequence i < seq"
    and suite: "st_cipherSuite (cn_state c) = Some cs"
    and policy: "policy_met (hc_clientAuth cfg) c" and callback: "hc_verifyConnection cfg = None"
  shows "flight4_finished env cfg c n = (upd_state (\<lambda>s. s\<lparr>st_handshakeRecvSequence := n + 1\<rparr>) c, Next flight6)"
proof -
  have "client_auth (hc_clientAuth cfg) (upd_state (\<lambda>s. s\<lparr>st_handshakeRecvSequence := n + 1\<rparr>) c) =
      (upd_state (\<lambda>s. s\<lparr>st_handshakeRecvSequence := n + 1\<rparr>) c, Next ())"
    using policy by (cases "hc_clientAuth cfg") (auto simp: client_auth_def policy_met_def verifies_client_def Let_def)
  then show ?thesis
    unfolding flight4_finished_def pull_finished [OF raw len cache newest]
    by (simp add: suite verify_connection_def callback andThen_def Let_def)
qed

theorem any_client_finished_accepted_witness:
  "\<exists>raw h. Handshake_Marshal std_cryptobyte (finished_message 0 (replicate 12 0)) = Ok (raw, h) \<and>
     snd (flight4_finished ex_auth_env ex_handshakeConfig
       (ex_Conn\<lparr>cn_handshakeCache := cache_push [] raw 1 0 TypeFinished True\<rparr>) 0) = Next flight6"
proof -
  obtain raw h where raw: "Handshake_Marshal (ce_cb (he_conn ex_auth_env)) (finished_message (word_of_int 0) (replicate 12 0)) = Ok (raw, h)"
    using finished_marshal by blast
  let ?c = "ex_Conn\<lparr>cn_handshakeCache := cache_push [] raw 1 0 TypeFinished True\<rparr>"
  have e: "hc_initialEpoch ex_handshakeConfig + 1 = 1" by (simp add: ex_handshakeConfig_def)
  have "flight4_finished ex_auth_env ex_handshakeConfig ?c 0 =
      (upd_state (\<lambda>s. s\<lparr>st_handshakeRecvSequence := 0 + 1\<rparr>) ?c, Next flight6)"
    by (rule any_client_finished_accepted [OF raw, unfolded e, where cache = "[]" and seq = 0 and cs = ex_State_suite])
      (simp_all add: ex_Conn_def ex_handshakeConfig_def policy_met_def verifies_client_def)
  then show ?thesis using raw by auto
qed

subsection \<open>Cancellation\<close>

lemma turn_cancelled:
  assumes "blocking st"
  shows "snd (fsm_turn env cfg s st (CtxDone e)) \<noteq> Ok r"
  using assms
  by (auto simp: fsm_turn_def blocking_def wait_def finish_def invalid_flight_def Let_def split: res.splits prod.splits)

text \<open>
  C23. The state machine ends when it is cancelled. \<^verbatim>\<open>Run\<close> takes at most two turns between two
  events, and a run in whose events the context is cancelled returns: it neither waits again nor goes on for ever,
  from any state and whatever else happens.
\<close>

theorem Run_cancelled:
  assumes "CtxDone e \<in> set evs"
  shows "snd (Run env cfg s st evs) \<noteq> Ok st'"
  using assms
proof (induction env cfg s st evs arbitrary: st' rule: Run.induct)
  case (1 env cfg s st evs)
  show ?case
  proof (cases "blocking st")
    case True
    obtain ev evs' where evs: "evs = ev # evs'" using "1.prems" by (cases evs) auto
    obtain t r where t: "fsm_turn env cfg s st ev = (t, r)" by fastforce
    show ?thesis
    proof (cases r)
      case (Ok x)
      then have "CtxDone e \<in> set evs'" using "1.prems" turn_cancelled [OF True] t evs by (metis set_ConsD snd_conv)
      then show ?thesis using "1.IH"(1,2) [OF True evs t [symmetric]] True evs t Ok
        by (subst Run.simps) (cases x; simp)
    qed (use True evs t in \<open>subst Run.simps, simp\<close>)+
  next
    case False
    obtain t r where t: "fsm_turn env cfg s st RetransmitTimer = (t, r)" by fastforce
    show ?thesis
    proof (cases r)
      case (Ok x)
      with t False obtain st' where "x = Some st'" by (auto elim: fsm_turn_rank)
      then show ?thesis using "1.IH"(3) [OF False t [symmetric]] False t Ok "1.prems" by (subst Run.simps) simp
    qed (use False t in \<open>subst Run.simps, simp\<close>)+
  qed
qed

theorem Run_cancelled_witness:
  "\<forall>st'. snd (Run ex_hs_env ex_handshakeConfig (newHandshakeFSM ex_Conn flight1) handshakePreparing
     [RetransmitTimer, CtxDone (Net ErrCanceled)]) \<noteq> Ok st'"
proof
  have "CtxDone (Net ErrCanceled) \<in> set [RetransmitTimer, CtxDone (Net ErrCanceled)]" by simp
  then show "snd (Run ex_hs_env ex_handshakeConfig (newHandshakeFSM ex_Conn flight1) handshakePreparing
     [RetransmitTimer, CtxDone (Net ErrCanceled)]) \<noteq> Ok st'" for st'
    by (rule Run_cancelled)
qed

subsection \<open>The cookie\<close>

definition cookie_kept :: "Conn \<Rightarrow> Conn \<Rightarrow> bool" where
  "cookie_kept c c' \<longleftrightarrow> st_cookie (cn_state c') = st_cookie (cn_state c)"

lemma cookie_kept_refl [simp]: "cookie_kept c c"
  by (simp add: cookie_kept_def)

lemma cookie_kept_upd [simp]:
  "st_cookie s = st_cookie (cn_state c) \<Longrightarrow> cookie_kept c0 (c\<lparr>cn_state := s\<rparr>) = cookie_kept c0 c"
  "cookie_kept c0 (draw c) = cookie_kept c0 c"
  by (simp_all add: cookie_kept_def draw_def)

lemma kept_cookie: "kept c c' \<Longrightarrow> cookie_kept c c'"
  unfolding kept_def cookie_kept_def by (drule conjunct1, drule arg_cong [of _ _ st_cookie]) (simp add: hs_part_def)

interpretation cookies: fsm_preorder cookie_kept env for env :: "'b hs_env"
proof (unfold_locales, goal_cases)
  case (3 c buf pkt q c' inc) then show ?case by (rule kept_cookie [OF keeping.R_incoming])
next
  case (4 c pkts c' pkts' u) then show ?case by (rule kept_cookie [OF keeping.R_packets])
qed (auto simp: cookie_kept_def read_into_def setLocalEpoch_def Let_def)

lemmas cookie_kept_rules = stays_rules [where I = "cookie_kept c0" for c0]

lemma cookie_kept_extensions: "cookie_kept c0 c \<Longrightarrow> cookie_kept c0 (fst (flight0_extensions cfg es c))"
  by (induction cfg es c rule: flight0_extensions.induct) (auto split: Extension.splits list.splits option.splits)

lemma initCipherSuite_cookie: "initCipherSuite env s = (s', r) \<Longrightarrow> st_cookie s' = st_cookie s"
  by (auto simp: initCipherSuite_def Let_def split: option.splits if_splits prod.splits)

lemma cookie_kept_handleHelloResume: "cookie_kept c0 c \<Longrightarrow> cookie_kept c0 (fst (handleHelloResume env cfg i c f))"
  by (auto simp: handleHelloResume_def Let_def initCipherSuite_cookie split: option.splits prod.splits
      intro!: cookie_kept_rules)

lemma cookie_kept_set_keypair: "cookie_kept c0 c \<Longrightarrow> cookie_kept c0 (fst (set_keypair env curve desc c))"
  by (simp add: set_keypair_def Let_def)

lemma cookie_kept_flight0Parse: "cookie_kept c0 c \<Longrightarrow> cookie_kept c0 (fst (flight0Parse env cfg c))"
  by (auto simp: flight0Parse_def Let_def
      intro!: cookie_kept_rules cookie_kept_extensions cookie_kept_handleHelloResume cookie_kept_set_keypair)

lemma cookie_kept_flight2Parse: "cookie_kept c0 c \<Longrightarrow> cookie_kept c0 (fst (flight2Parse env cfg c))"
  by (auto simp: flight2Parse_def Let_def intro!: cookie_kept_rules cookie_kept_flight0Parse)

lemma flights_keep_cookie:
  "parser_keeps cookie_kept env cfg flight0 c" "parser_keeps cookie_kept env cfg flight2 c"
  "generator_keeps cookie_kept env cfg flight2 c"
  by (auto simp: parser_keeps_def generator_keeps_def cookie_kept_flight0Parse cookie_kept_flight2Parse flight2Generate_def Let_def)

text \<open>The cookie of a server's state is drawn at random by \<^verbatim>\<open>flight0Generate\<close>, or there is none yet.\<close>

definition cookie_drawn :: "'b hs_env \<Rightarrow> Conn \<Rightarrow> bool" where
  "cookie_drawn env c \<longleftrightarrow> st_cookie (cn_state c) = [] \<or> (\<exists>k. he_rand env k cookieLength = Ok (st_cookie (cn_state c)))"

lemma cookie_drawn_kept: "cookie_drawn env c \<Longrightarrow> cookie_kept c c' \<Longrightarrow> cookie_drawn env c'"
  by (simp add: cookie_drawn_def cookie_kept_def)

lemma flight0Generate_cookie:
  assumes "\<not> hc_insecureSkipHelloVerify cfg"
  shows "flight0Generate env cfg c = (c', Next pkts) \<Longrightarrow> cookie_drawn env c'"
    "flight0Generate env cfg c = (c', Fail a err) \<Longrightarrow> a = None \<and> err \<noteq> None"
  using assms
  by (auto simp: flight0Generate_def populate_random_def reset_epochs_def draw_def cookie_drawn_def andThen_def Let_def
      split: res.splits prod.splits)

lemma prepare_cookie:
  assumes "prepare env cfg s = (s', Ok st)" "fs_currentFlight s = flight0" "\<not> hc_insecureSkipHelloVerify cfg"
  shows "cookie_drawn env (fs_conn s')"
proof -
  obtain c x where g: "flight0Generate env cfg (fs_conn s) = (c, x)" by fastforce
  note cookie = flight0Generate_cookie [OF assms(3), of env "fs_conn s"]
  have "cookie_drawn env (fs_conn (buffer_flight cfg t pkts))" if "cookie_drawn env (fs_conn t)" for t pkts
    using that cookies.related_buffer by (rule cookie_drawn_kept)
  then show ?thesis
    using assms(1,2) g cookie by (cases x) (auto simp: prepare_def report_def Let_def)
qed

text \<open>A cached ClientHello returns a cookie.\<close>

definition echoes :: "'b hs_env \<Rightarrow> handshakeConfig \<Rightarrow> bytes \<Rightarrow> Conn \<Rightarrow> bool" where
  "echoes env cfg cookie c \<longleftrightarrow> (\<exists>item kx h clientHello. item \<in> set (cn_handshakeCache c) \<and>
     pull_match (pull_rule TypeClientHello (hc_initialEpoch cfg) True False) item \<and>
     Handshake_Unmarshal (ce_cb (he_conn env)) kx (ci_data item) = Ok h \<and> hd_Message h = Some (MClientHello clientHello) \<and>
     ch_Cookie clientHello = cookie)"

lemma echoes_prefix: "echoes env cfg cookie c \<Longrightarrow> prefix (cn_handshakeCache c) (cn_handshakeCache c') \<Longrightarrow> echoes env cfg cookie c'"
  unfolding echoes_def using set_mono_prefix [of "cn_handshakeCache c" "cn_handshakeCache c'"] by blast

lemma flight0Parse_unverified:
  assumes "\<not> hc_insecureSkipHelloVerify cfg"
  shows "ensures (flight0Parse env cfg c) (\<lambda>_ f. f \<noteq> flight4)"
proof -
  have "ensures (handleHelloResume env cfg i c flight2) (\<lambda>_ f. f \<noteq> flight4)" for i c
    by (rule ensures_mono [OF handleHelloResume_next]) auto
  then show ?thesis unfolding flight0Parse_def Let_def using assms by (intro ensures_last) auto
qed

lemma flight2Parse_echoes:
  assumes "\<not> hc_insecureSkipHelloVerify cfg"
  shows "ensures (flight2Parse env cfg c) (\<lambda>c' f. f = flight4 \<longrightarrow>
    st_cookie (cn_state c) \<noteq> [] \<and> echoes env cfg (st_cookie (cn_state c)) c')"
proof -
  have e: "echoes env cfg (ch_Cookie hello) c"
    if "pulled env c n [pull_rule TypeClientHello (hc_initialEpoch cfg) True False] seq (Some msgs)"
      "msgs TypeClientHello = Some (MClientHello hello)" for n seq msgs hello
  proof -
    have "msgs (pr_typ (pull_rule TypeClientHello (hc_initialEpoch cfg) True False)) = Some (MClientHello hello)"
      using that(2) by (simp add: pull_rule_def)
    with that(1) show ?thesis by (elim fullPullMap_single) (auto simp: echoes_def)
  qed
  show ?thesis
    unfolding flight2Parse_def Let_def
    by (intro ensures_pull ensures_cases ensures_case_Message ensures_mono [OF flight0Parse_unverified [OF assms]])
      (auto dest!: e simp: echoes_def)
qed

definition greeting :: "'b hs_env \<Rightarrow> machine \<Rightarrow> bool" where
  "greeting env m \<longleftrightarrow> \<not> st_isClient (cn_state (mc_conn m)) \<and> \<not> cn_handshakeCompletedSuccessfully (mc_conn m) \<and>
     fs_currentFlight (mc_fsm m) \<in> {flight0, flight2} \<and> mc_state m \<noteq> handshakeFinished \<and> cookie_drawn env (mc_conn m)"

lemma ServerWithContext_greeting:
  assumes "ServerWithContext env n a config = Ok (cfg, s, st)"
  shows "greeting env (start_machine s st)"
proof -
  have "st_cookie (cn_state (fs_conn s)) = []"
    using assms
    by (auto simp: ServerWithContext_def createConn_def bind_eq_Ok newHandshakeFSM_def zero_State_def
        dest!: handshakeConn_start split: option.splits if_splits)
  then show ?thesis
    using ServerWithContext_start [OF assms] by (simp add: greeting_def start_machine_def cookie_drawn_def)
qed

definition greeted :: "'b hs_env \<Rightarrow> handshakeConfig \<Rightarrow> Conn \<Rightarrow> bool" where
  "greeted env cfg c \<longleftrightarrow> (\<exists>k cookie. he_rand env k cookieLength = Ok cookie \<and> cookie \<noteq> [] \<and> echoes env cfg cookie c)"

definition polite :: "'b hs_env \<Rightarrow> handshakeConfig \<Rightarrow> machine \<Rightarrow> bool" where
  "polite env cfg m \<longleftrightarrow> well_typed m \<and> \<not> st_isClient (cn_state (mc_conn m)) \<and>
     (fs_currentFlight (mc_fsm m) \<in> {flight0, flight2} \<longrightarrow> mc_state m = handshakeErrored \<or> cookie_drawn env (mc_conn m)) \<and>
     (fs_currentFlight (mc_fsm m) \<in> {flight4, flight6} \<longrightarrow> greeted env cfg (mc_conn m))"

lemma greeted_prefix: "greeted env cfg c \<Longrightarrow> prefix (cn_handshakeCache c) (cn_handshakeCache c') \<Longrightarrow> greeted env cfg c'"
  unfolding greeted_def using echoes_prefix by blast

text \<open>A turn that stays in flight 0 or 2 keeps a drawn cookie, or draws one, or ends in an error.\<close>

lemma turn_cookie:
  assumes turn: "fsm_turn env cfg s st ev = (s', r)" and f: "fs_currentFlight s \<in> {flight0, flight2}"
    and skip: "\<not> hc_insecureSkipHelloVerify cfg" and c: "cookie_drawn env (fs_conn s)" and r: "r = Ok x"
  shows "cookie_drawn env (fs_conn s')"
proof (cases "st = handshakePreparing \<and> fs_currentFlight s = flight0")
  case True
  obtain t q where p: "prepare env cfg s = (t, q)" by fastforce
  with turn True r obtain st' where "prepare env cfg s = (s', Ok st')"
    by (auto simp: fsm_turn_def some_state_def onFlightState_def bind_eq_Ok)
  then show ?thesis using prepare_cookie True skip by blast
next
  case False
  have "cookie_kept (fs_conn (onFlightState st s)) (fs_conn s')"
    using False f flights_keep_cookie by (intro cookies.related_turn [OF turn]) auto
  then show ?thesis using c by (auto simp: cookie_drawn_def cookie_kept_def onFlightState_def split: if_splits)
qed

lemma polite_turn:
  assumes turn: "fsm_turn env cfg (mc_fsm m) (mc_state m) ev = (mc_fsm m', r)"
    and r: "r = Ok (Some (mc_state m')) \<or> r = Ok None \<and> mc_state m' = mc_state m \<or> (\<exists>e. r = Err e) \<and> mc_state m' = handshakeErrored"
    and inv: "polite env cfg m" and typed: "well_typed m'" and skip: "\<not> hc_insecureSkipHelloVerify cfg"
  shows "polite env cfg m'"
proof -
  let ?f = "fs_currentFlight (mc_fsm m)" and ?g = "fs_currentFlight (mc_fsm m')"
  note role = turn_role [OF turn]
  have f: "?f \<in> {flight0, flight2, flight4, flight4b, flight6}" using inv by (auto simp: polite_def well_typed_def)
  have errored: "mc_state m' = handshakeErrored" if "mc_state m = handshakeErrored"
    using turn r that by (simp add: fsm_turn_def) auto
  have drawn: "mc_state m = handshakeErrored \<or> cookie_drawn env (mc_conn m)" if "?f \<in> {flight0, flight2}"
    using inv that unfolding polite_def by blast
  have "mc_state m' = handshakeErrored \<or> cookie_drawn env (mc_conn m')" if g: "?g \<in> {flight0, flight2}"
  proof -
    have "?f \<in> {flight0, flight2}" using turn_flight [OF turn] g f by (auto simp: next_flights_def)
    then show ?thesis using drawn turn_cookie [OF turn _ skip] r errored by blast
  qed
  moreover have "greeted env cfg (mc_conn m')" if g: "?g \<in> {flight4, flight6}"
  proof (cases "?f \<in> {flight4, flight6}")
    case True
    then show ?thesis using inv greeted_prefix role(3) by (auto simp: polite_def)
  next
    case False
    from turn show ?thesis
    proof (cases rule: fsm_turn_cases)
      case (moved parse)
      have 4: "?g = flight4" "?f \<in> {flight0, flight2}" using parser_next [OF moved(2-4)] f g False by (auto simp: next_flights_def split: if_splits)
      then have "?f = flight2 \<and> parse = flight2Parse env cfg"
        using moved(2,3) by (auto dest: ensuresD [OF flight0Parse_unverified [OF skip]])
      then show ?thesis
        using moved(1,3) 4 drawn by (auto simp: cookie_drawn_def greeted_def dest!: ensuresD [OF flight2Parse_echoes [OF skip]])
    qed (use g False in auto)
  qed
  ultimately show ?thesis using typed role(1) inv unfolding polite_def by blast
qed

lemma polite_steps:
  assumes "(machine_step env cfg)\<^sup>*\<^sup>* m0 m" "polite env cfg m0" "\<not> hc_insecureSkipHelloVerify cfg"
  shows "polite env cfg m"
  using assms(1,2)
proof (induction rule: rtranclp_induct)
  case (step m m')
  note inv = step.IH [OF step.prems]
  then have typed: "well_typed m'" using well_typed_step [OF step.hyps(2)] by (simp add: polite_def)
  from step.hyps(2) show ?case
  proof (cases rule: machine_step_cases)
    case (turn ev r)
    show ?thesis by (rule polite_turn [OF turn inv typed assms(3)])
  next
    case net
    then have p: "prefix (cn_handshakeCache (mc_conn m)) (cn_handshakeCache (mc_conn m'))" by (simp add: kept_def)
    show ?thesis
      using inv typed cookie_drawn_kept [OF _ kept_cookie [OF net(1)]] greeted_prefix [OF _ p]
      unfolding polite_def net(2,3) kept_stateD(1) [OF net(1)] by blast
  qed
qed

text \<open>
  C4. A server commits itself only to a client that returned its cookie. Start a server's machine
  as \<^verbatim>\<open>ServerWithContext\<close> does (\<open>ServerWithContext_greeting\<close>), without \<^verbatim>\<open>InsecureSkipVerifyHello\<close>, and let
  arbitrary datagrams, calls and timers act on it: in flight 4, where it sends its certificate,
  and in flight 6, a ClientHello is in its cache that carries a cookie which the server drew at
  random. (A resumed handshake, flight 4b, asks for no cookie.)
\<close>

theorem cookie_exchange:
  assumes "greeting env m0" "(machine_step env cfg)\<^sup>*\<^sup>* m0 m" "\<not> hc_insecureSkipHelloVerify cfg"
    and "fs_currentFlight (mc_fsm m) \<in> {flight4, flight6}"
  shows "\<exists>k cookie. he_rand env k cookieLength = Ok cookie \<and> cookie \<noteq> [] \<and> echoes env cfg cookie (mc_conn m)"
proof -
  have "polite env cfg m0" using assms(1) by (auto simp: polite_def greeting_def well_typed_def)
  from polite_steps [OF assms(2) this assms(3)] show ?thesis using assms(4) unfolding polite_def greeted_def by blast
qed

definition ex_hello :: MessageClientHello where
  "ex_hello = \<lparr>ch_Version = Version1_2, ch_Random = ex_Random, ch_Cookie = replicate cookieLength 7, ch_SessionID = [],
     ch_CipherSuiteIDs = [], ch_CompressionMethods = [], ch_Extensions = []\<rparr>"

definition ex_greeting :: "bytes \<Rightarrow> machine" where
  "ex_greeting raw =
     \<lparr>mc_fsm = newHandshakeFSM (ex_Conn\<lparr>cn_state := (cn_state ex_Conn)\<lparr>st_isClient := False, st_cookie := replicate cookieLength 7\<rparr>,
        cn_handshakeCompletedSuccessfully := False, cn_handshakeCache := cache_push [] raw 0 0 TypeClientHello True\<rparr>) flight2,
      mc_state = handshakeWaiting, mc_pending = True\<rparr>"

lemma ex_hello_message: "\<exists>raw. carries KeyExchangeAlgorithmPsk (MClientHello ex_hello) 0 raw"
  by (rule carries_ex, simp add: ex_hello_def wf_ClientHello_def ex_Random_wf wf_extensions_def cookieLength_def,
      simp add: ClientHello_Marshal_def extension_Marshal_def ex_hello_def cookieLength_def, simp add: length_Random_MarshalFixed ex_Random_wf encodeCipherSuiteIDs_def EncodeCompressionMethods_def)

theorem cookie_exchange_witness:
  "\<exists>raw m. greeting ex_auth_env (ex_greeting raw) \<and> machine_step ex_auth_env ex_handshakeConfig (ex_greeting raw) m \<and>
     fs_currentFlight (mc_fsm m) = flight4 \<and>
     (\<exists>k cookie. he_rand ex_auth_env k cookieLength = Ok cookie \<and> cookie \<noteq> [] \<and> echoes ex_auth_env ex_handshakeConfig cookie (mc_conn m))"
proof -
  obtain raw h where raw: "Handshake_Unmarshal std_cryptobyte KeyExchangeAlgorithmPsk raw = Ok h"
    "hd_Message h = Some (MClientHello ex_hello)" "hs_MessageSequence (hd_Header h) = 0"
    using ex_hello_message by (auto simp: carries_def)
  let ?m = "ex_greeting raw" and ?s = "mc_fsm (ex_greeting raw)"
  have c: "st_cipherSuite (cn_state (mc_conn ?m)) = Some ex_State_suite" "st_handshakeRecvSequence (cn_state (mc_conn ?m)) = 0"
    "st_cookie (cn_state (mc_conn ?m)) = replicate cookieLength 7" "hc_initialEpoch ex_handshakeConfig = 0"
    "cn_handshakeCache (mc_conn ?m) = [ex_item TypeClientHello True 0 0 raw]" "mc_state ?m = handshakeWaiting" "mc_pending ?m"
    "fs_currentFlight ?s = flight2" "\<not> hc_insecureSkipHelloVerify ex_handshakeConfig"
    by (simp_all add: ex_greeting_def newHandshakeFSM_def ex_Conn_def ex_State_def zero_State_def ex_handshakeConfig_def
        cache_push_def ex_item_def)
  have g: "greeting ex_auth_env ?m"
    by (simp add: greeting_def c cookie_drawn_def) (simp add: ex_greeting_def newHandshakeFSM_def ex_auth_env_def ex_hs_env_def)
  obtain d where p: "flight2Parse ex_auth_env ex_handshakeConfig (mc_conn ?m) = (d, Next flight4)"
    using raw by (simp add: flight2Parse_def pull_def fullPullMap_def c ex_suite_fields pull_rule_def pull_match_def ex_item_def
        ex_hello_def Version_Equal_def cookieLength_def Let_def)
  have "fsm_turn ex_auth_env ex_handshakeConfig ?s handshakeWaiting RecvHandshake =
      (?s\<lparr>fs_conn := d, fs_currentFlight := flight4\<rparr>, Ok (Some handshakePreparing))"
    using p by (simp add: fsm_turn_def wait_def parse_flight_def onFlightState_def c)
  then have step: "machine_step ex_auth_env ex_handshakeConfig ?m (?m\<lparr>mc_fsm := ?s\<lparr>fs_conn := d, fs_currentFlight := flight4\<rparr>,
      mc_state := handshakePreparing, mc_pending := False\<rparr>)"
    using M_turn [of ex_auth_env ex_handshakeConfig ?m RecvHandshake _ "Some handshakePreparing"] c by (simp add: blocking_def)
  show ?thesis
    using cookie_exchange [OF g r_into_rtranclp [of "machine_step ex_auth_env ex_handshakeConfig", OF step] c(9)] g step
    by (intro exI [of _ raw] exI [of _ "?m\<lparr>mc_fsm := ?s\<lparr>fs_conn := d, fs_currentFlight := flight4\<rparr>,
      mc_state := handshakePreparing, mc_pending := False\<rparr>"]) simp
qed

end
