(* ===== verification/Packet_Buffer.thy ===== *)
theory Packet_Buffer
  imports Dtls_Prelude
begin

section \<open>Packet buffer: internal/net/buffer.go\<close>

text \<open>
  The circular buffer between a listener and its connections. Every operation holds the mutex, so
  each is one step of the state. \<^verbatim>\<open>ReadFrom\<close> waits in a loop; one turn of it either returns or
  leaves a notification channel and blocks. The read deadline is an input. A slot is an address
  and the bytes of a \<^verbatim>\<open>bytes.Buffer\<close>, of which \<^verbatim>\<open>ReadFrom\<close> reads a copy.

  \<open>pb_queue\<close> is the abstraction: the packets from the read to the write pointer. The lemmas
  compare every operation with the queue it should implement, and find where \<^verbatim>\<open>WriteTo\<close> differs.
\<close>

record 'a PacketBuffer =
  pb_packets :: "('a option \<times> bytes) list"
  pb_write :: nat
  pb_read :: nat
  pb_full :: bool
  pb_notify :: bool
  pb_closed :: bool

definition NewPacketBuffer :: "'a PacketBuffer" where
  "NewPacketBuffer = \<lparr>pb_packets = [(None, [])], pb_write = 0, pb_read = 0, pb_full = False,
     pb_notify = False, pb_closed = False\<rparr>"

definition pb_newSize :: "nat \<Rightarrow> nat" where
  "pb_newSize n = (if n < 128 then n * 2 else 5 * n div 4)"

definition pb_grow :: "'a PacketBuffer \<Rightarrow> 'a PacketBuffer" where
  "pb_grow b =
     (let old = pb_packets b;
          kept = (if pb_read b < pb_write b
                  then take (pb_write b - pb_read b) (drop (pb_read b) old)
                  else drop (pb_read b) old @ take (pb_write b) old);
          newSize = pb_newSize (length old) in
      b\<lparr>pb_packets := take newSize kept @ replicate (newSize - length kept) (None, []),
        pb_write := length kept, pb_full := False\<rparr>)"

definition pb_WriteTo :: "bytes \<Rightarrow> 'a \<Rightarrow> 'a PacketBuffer \<Rightarrow> 'a PacketBuffer \<times> nat res" where
  "pb_WriteTo p addr b =
     (if pb_closed b then (b, Err (Net ErrClosedPipe))
      else
        let b = b\<lparr>pb_notify := False\<rparr>;
            b = (if pb_full b then pb_grow b else b) in
        if pb_write b \<ge> length (pb_packets b) then (b, Panic)
        else
          let packets = (pb_packets b)[pb_write b := (Some addr, p)];
              w = (if length packets = pb_write b + 1 then 0 else pb_write b + 1) in
          (b\<lparr>pb_packets := packets, pb_write := w, pb_full := (w = pb_read b) \<or> pb_full b\<rparr>, Ok (length p)))"

datatype 'a read_step = Return "(bytes \<times> 'a option) res" | Blocked

text \<open>\<^verbatim>\<open>bytes.Buffer.Read\<close> on an empty buffer is end of file, unless nothing was asked for.\<close>

definition pb_ReadFrom :: "bool \<Rightarrow> nat \<Rightarrow> 'a PacketBuffer \<Rightarrow> 'a PacketBuffer \<times> 'a read_step" where
  "pb_ReadFrom deadlineDone n b =
     (if deadlineDone then (b, Return (Err (Net ErrTimeout)))
      else if pb_read b \<noteq> pb_write b \<or> pb_full b then
        (if pb_read b \<ge> length (pb_packets b) then (b, Return Panic)
         else
           let (addr, data) = pb_packets b ! pb_read b in
           if n < length data then (b, Return (Err (Net ErrShortBuffer)))
           else if data = [] \<and> n \<noteq> 0 then (b, Return (Err (Net ErrEOF)))
           else
             let r = (if length (pb_packets b) = pb_read b + 1 then 0 else pb_read b + 1) in
             (b\<lparr>pb_read := r, pb_full := False\<rparr>, Return (Ok (data, addr))))
      else if pb_closed b then (b, Return (Err (Net ErrEOF)))
      else (b\<lparr>pb_notify := True\<rparr>, Blocked))"

definition pb_Close :: "'a PacketBuffer \<Rightarrow> 'a PacketBuffer" where
  "pb_Close b = (if pb_closed b then b else b\<lparr>pb_notify := False, pb_closed := True\<rparr>)"

subsection \<open>Invariant and abstraction\<close>

definition pb_inv :: "'a PacketBuffer \<Rightarrow> bool" where
  "pb_inv b \<longleftrightarrow> pb_read b < length (pb_packets b) \<and> pb_write b < length (pb_packets b)
     \<and> (pb_full b \<longrightarrow> pb_read b = pb_write b)"

definition pb_queue :: "'a PacketBuffer \<Rightarrow> ('a option \<times> bytes) list" where
  "pb_queue b =
     (if pb_read b < pb_write b then take (pb_write b - pb_read b) (drop (pb_read b) (pb_packets b))
      else if pb_read b = pb_write b \<and> \<not> pb_full b then []
      else drop (pb_read b) (pb_packets b) @ take (pb_write b) (pb_packets b))"

lemma NewPacketBuffer_inv: "pb_inv NewPacketBuffer" and NewPacketBuffer_queue: "pb_queue NewPacketBuffer = []"
  by (simp_all add: pb_inv_def pb_queue_def NewPacketBuffer_def)

lemma pb_newSize_greater: "0 < n \<Longrightarrow> n < pb_newSize n"
  by (auto simp: pb_newSize_def less_eq_div_iff_mult_less_eq Suc_le_eq [symmetric])

lemma pb_grow_full:
  assumes "pb_inv b" "pb_full b"
  shows "pb_packets (pb_grow b) = pb_queue b
      @ replicate (pb_newSize (length (pb_packets b)) - length (pb_packets b)) (None, [])"
    and "pb_write (pb_grow b) = length (pb_packets b)" and "pb_read (pb_grow b) = pb_read b"
    and "pb_full (pb_grow b) = False" and "length (pb_queue b) = length (pb_packets b)"
    and "pb_closed (pb_grow b) = pb_closed b" and "pb_notify (pb_grow b) = pb_notify b"
proof -
  have e: "pb_read b = pb_write b" "pb_write b < length (pb_packets b)" using assms by (auto simp: pb_inv_def)
  then show l: "length (pb_queue b) = length (pb_packets b)" using assms(2) by (simp add: pb_queue_def)
  have "length (pb_packets b) < pb_newSize (length (pb_packets b))" using e by (intro pb_newSize_greater) linarith
  then show "pb_packets (pb_grow b) = pb_queue b
      @ replicate (pb_newSize (length (pb_packets b)) - length (pb_packets b)) (None, [])"
    using e assms(2) by (simp add: pb_grow_def pb_queue_def Let_def)
  show "pb_write (pb_grow b) = length (pb_packets b)" using e by (simp add: pb_grow_def Let_def)
qed (simp_all add: pb_grow_def Let_def)

lemma take_Suc_update: "i < length xs \<Longrightarrow> take (Suc i) (xs[i := x]) = take i xs @ [x]"
  by (simp add: take_Suc_conv_app_nth)

lemma take_drop_Suc_update:
  assumes "r \<le> w" "w < length xs"
  shows "take (Suc w - r) (drop r (xs[w := x])) = take (w - r) (drop r xs) @ [x]"
proof -
  have "take (Suc w - r) (drop r (xs[w := x])) = drop r (take (Suc w) (xs[w := x]))"
    using assms by (simp add: take_drop)
  also have "\<dots> = drop r (take w xs) @ [x]" using assms by (simp add: take_Suc_update del: take_Suc)
  finally show ?thesis using assms by (simp add: take_drop)
qed

lemma pb_queue_store:
  fixes b :: "'a PacketBuffer" and x :: "'a option \<times> bytes"
  assumes "pb_inv b" "\<not> pb_full b"
  defines "packets \<equiv> (pb_packets b)[pb_write b := x]"
  defines "w \<equiv> (if length packets = pb_write b + 1 then 0 else pb_write b + 1)"
  defines "b' \<equiv> b\<lparr>pb_packets := packets, pb_write := w, pb_full := (w = pb_read b) \<or> pb_full b\<rparr>"
  shows "pb_inv b' \<and> pb_queue b' = pb_queue b @ [x]"
proof -
  let ?P = "pb_packets b" and ?r = "pb_read b" and ?w = "pb_write b"
  have i: "?r < length ?P" "?w < length ?P" using assms(1) by (simp_all add: pb_inv_def)
  have inv: "pb_inv b'" using i assms(2) by (auto simp: pb_inv_def b'_def w_def packets_def)
  have q': "pb_queue b' = (if ?r < w then take (w - ?r) (drop ?r packets)
      else drop ?r packets @ take w packets)"
    using assms(2) by (auto simp: pb_queue_def b'_def)
  have "pb_queue b' = pb_queue b @ [x]"
  proof (cases "?r \<le> ?w")
    case True
    have m: "take (Suc ?w - ?r) (drop ?r packets) = take (?w - ?r) (drop ?r ?P) @ [x]"
      unfolding packets_def by (rule take_drop_Suc_update [OF True i(2)])
    have "pb_queue b = take (?w - ?r) (drop ?r ?P)" using True assms(2) by (auto simp: pb_queue_def)
    moreover have "take (Suc ?w - ?r) (drop ?r packets) = drop ?r packets" if "length ?P = Suc ?w"
      using that by (simp add: packets_def)
    ultimately show ?thesis
      unfolding q' using m True by (auto simp: w_def packets_def)
  next
    case False
    then have "w = Suc ?w" "drop ?r packets = drop ?r ?P" "\<not> ?r < w"
      using i by (auto simp: w_def packets_def)
    then show ?thesis
      unfolding q' using False i(2) by (simp add: pb_queue_def take_Suc_update packets_def)
  qed
  with inv show ?thesis by blast
qed

subsection \<open>Operations on the queue\<close>

text \<open>What a write does: a full buffer whose read pointer is not at the start loses packets.\<close>

lemma pb_WriteTo_queue:
  assumes "pb_inv b" "\<not> pb_closed b"
  shows "\<exists>b'. pb_WriteTo p addr b = (b', Ok (length p)) \<and> pb_inv b' \<and> \<not> pb_closed b' \<and>
    pb_queue b' = (if pb_full b then drop (pb_read b) (pb_queue b) else pb_queue b) @ [(Some addr, p)]"
proof -
  let ?b0 = "b\<lparr>pb_notify := False\<rparr>"
  define c where "c = (if pb_full ?b0 then pb_grow ?b0 else ?b0)"
  have i0: "pb_inv ?b0" "pb_queue ?b0 = pb_queue b" using assms(1) by (simp_all add: pb_inv_def pb_queue_def)
  have c: "pb_inv c \<and> \<not> pb_full c \<and> \<not> pb_closed c \<and>
      pb_queue c = (if pb_full b then drop (pb_read b) (pb_queue b) else pb_queue b)"
  proof (cases "pb_full b")
    case False
    then show ?thesis using i0 assms by (simp add: c_def)
  next
    case True
    then have f: "pb_full ?b0" by simp
    note g = pb_grow_full [OF i0(1) f]
    have l: "pb_read b < length (pb_packets b)" using assms(1) by (simp add: pb_inv_def)
    then have "length (pb_packets b) < pb_newSize (length (pb_packets b))" by (intro pb_newSize_greater) linarith
    then have "pb_inv (pb_grow ?b0)" using g l i0(2) by (simp add: pb_inv_def)
    moreover have "pb_queue (pb_grow ?b0) = drop (pb_read b) (pb_queue b)"
      using g l i0(2) unfolding pb_queue_def [of "pb_grow ?b0"] by (simp add: take_drop)
    ultimately show ?thesis using True assms(2) g by (simp add: c_def)
  qed
  then have w: "\<not> pb_write c \<ge> length (pb_packets c)" by (simp add: pb_inv_def)
  have "pb_WriteTo p addr b =
      (c\<lparr>pb_packets := (pb_packets c)[pb_write c := (Some addr, p)],
         pb_write := (if length ((pb_packets c)[pb_write c := (Some addr, p)]) = pb_write c + 1 then 0
           else pb_write c + 1),
         pb_full := ((if length ((pb_packets c)[pb_write c := (Some addr, p)]) = pb_write c + 1 then 0
           else pb_write c + 1) = pb_read c) \<or> pb_full c\<rparr>, Ok (length p))"
    using assms(2) w unfolding pb_WriteTo_def Let_def c_def [symmetric] by simp
  then show ?thesis using pb_queue_store [of c "(Some addr, p)"] c by simp
qed

lemma pb_queue_Cons:
  assumes "pb_inv b" "pb_read b \<noteq> pb_write b \<or> pb_full b"
  defines "r \<equiv> (if length (pb_packets b) = pb_read b + 1 then 0 else pb_read b + 1)"
  shows "pb_queue b = pb_packets b ! pb_read b # pb_queue (b\<lparr>pb_read := r, pb_full := False\<rparr>)
    \<and> pb_inv (b\<lparr>pb_read := r, pb_full := False\<rparr>)"
proof -
  let ?P = "pb_packets b" and ?r = "pb_read b" and ?w = "pb_write b"
  have i: "?r < length ?P" "?w < length ?P" "pb_full b \<Longrightarrow> ?r = ?w" using assms(1) by (auto simp: pb_inv_def)
  have d: "drop ?r ?P = ?P ! ?r # drop (Suc ?r) ?P" using i(1) by (simp add: Cons_nth_drop_Suc)
  have "pb_queue b = ?P ! ?r # pb_queue (b\<lparr>pb_read := r, pb_full := False\<rparr>)"
  proof (cases "?r < ?w")
    case True
    then have "Suc ?r < length ?P" "\<not> pb_full b" using i by auto
    moreover have "take (?w - ?r) (drop ?r ?P) = ?P ! ?r # take (?w - Suc ?r) (drop (Suc ?r) ?P)"
      unfolding d using True by (simp add: take_Cons')
    ultimately show ?thesis using True by (auto simp: pb_queue_def r_def)
  next
    case False
    then show ?thesis using i assms(2) d by (auto simp: pb_queue_def r_def)
  qed
  then show ?thesis using i by (auto simp: pb_inv_def r_def)
qed

lemma pb_queue_Nil: "pb_inv b \<Longrightarrow> pb_queue b = [] \<longleftrightarrow> pb_read b = pb_write b \<and> \<not> pb_full b"
  using pb_queue_Cons [of b] by (auto simp: pb_queue_def pb_inv_def)

lemma pb_ReadFrom_queue:
  assumes "pb_inv b"
  shows "pb_ReadFrom False n b =
    (case pb_queue b of
       [] \<Rightarrow> if pb_closed b then (b, Return (Err (Net ErrEOF))) else (b\<lparr>pb_notify := True\<rparr>, Blocked)
     | (addr, data) # q \<Rightarrow>
         if n < length data then (b, Return (Err (Net ErrShortBuffer)))
         else if data = [] \<and> n \<noteq> 0 then (b, Return (Err (Net ErrEOF)))
         else (fst (pb_ReadFrom False n b), Return (Ok (data, addr))))"
    and "pb_queue b = (addr, data) # q \<Longrightarrow> length data \<le> n \<Longrightarrow> data \<noteq> [] \<or> n = 0 \<Longrightarrow>
      pb_inv (fst (pb_ReadFrom False n b)) \<and> pb_queue (fst (pb_ReadFrom False n b)) = q"
proof -
  have i: "pb_read b < length (pb_packets b)" using assms by (simp add: pb_inv_def)
  show "pb_ReadFrom False n b =
    (case pb_queue b of
       [] \<Rightarrow> if pb_closed b then (b, Return (Err (Net ErrEOF))) else (b\<lparr>pb_notify := True\<rparr>, Blocked)
     | (addr, data) # q \<Rightarrow>
         if n < length data then (b, Return (Err (Net ErrShortBuffer)))
         else if data = [] \<and> n \<noteq> 0 then (b, Return (Err (Net ErrEOF)))
         else (fst (pb_ReadFrom False n b), Return (Ok (data, addr))))"
  proof (cases "pb_queue b = []")
    case True
    then show ?thesis using pb_queue_Nil [OF assms] by (simp add: pb_ReadFrom_def)
  next
    case False
    then have ne: "pb_read b \<noteq> pb_write b \<or> pb_full b" using pb_queue_Nil [OF assms] by blast
    obtain addr data where pk: "pb_packets b ! pb_read b = (addr, data)" by fastforce
    then obtain q where q: "pb_queue b = (addr, data) # q" using pb_queue_Cons [OF assms ne] by simp
    show ?thesis unfolding q using i ne pk by (simp add: pb_ReadFrom_def Let_def)
  qed
  assume q: "pb_queue b = (addr, data) # q" and n: "length data \<le> n" "data \<noteq> [] \<or> n = 0"
  then have ne: "pb_read b \<noteq> pb_write b \<or> pb_full b" using pb_queue_Nil [OF assms] by auto
  have pk: "pb_packets b ! pb_read b = (addr, data)" using pb_queue_Cons [OF assms ne] q by simp
  show "pb_inv (fst (pb_ReadFrom False n b)) \<and> pb_queue (fst (pb_ReadFrom False n b)) = q"
    using pb_queue_Cons [OF assms ne] q n i ne pk by (auto simp: pb_ReadFrom_def Let_def)
qed

subsection \<open>Reachable buffers\<close>

datatype 'a pb_op = OpWrite bytes 'a | OpRead bool nat | OpClose

fun pb_step :: "'a pb_op \<Rightarrow> 'a PacketBuffer \<Rightarrow> 'a PacketBuffer" where
  "pb_step (OpWrite p addr) b = fst (pb_WriteTo p addr b)"
| "pb_step (OpRead deadlineDone n) b = fst (pb_ReadFrom deadlineDone n b)"
| "pb_step OpClose b = pb_Close b"

inductive pb_reachable :: "'a PacketBuffer \<Rightarrow> bool" where
  init: "pb_reachable NewPacketBuffer"
| step: "pb_reachable b \<Longrightarrow> pb_reachable (pb_step op b)"

lemma pb_ReadFrom_inv: "pb_inv b \<Longrightarrow> pb_inv (fst (pb_ReadFrom deadlineDone n b))"
  using pb_queue_Cons [of b]
  by (cases "pb_packets b ! pb_read b") (auto simp: pb_ReadFrom_def Let_def pb_inv_def)

lemma pb_step_inv: "pb_inv b \<Longrightarrow> pb_inv (pb_step op b)"
proof (cases op)
  case (OpWrite p addr)
  assume b: "pb_inv b"
  show ?thesis
  proof (cases "pb_closed b")
    case True
    then show ?thesis using b OpWrite by (simp add: pb_WriteTo_def)
  next
    case False
    from pb_WriteTo_queue [OF b this, of p addr] show ?thesis using OpWrite by auto
  qed
next
  case OpClose
  then show "pb_inv b \<Longrightarrow> ?thesis" by (auto simp: pb_Close_def pb_inv_def)
qed (simp add: pb_ReadFrom_inv)

subsection \<open>Properties\<close>

text \<open>
  C19. The pointers of the packet buffer are always valid: in every state reachable from a new
  buffer by writes, reads and closing, both pointers index a slot, and a full buffer has them
  equal; so neither \<^verbatim>\<open>WriteTo\<close> nor \<^verbatim>\<open>ReadFrom\<close> can panic.
\<close>

theorem PacketBuffer_invariant:
  assumes "pb_reachable b"
  shows "pb_inv b \<and> snd (pb_WriteTo p addr b) \<noteq> Panic \<and> snd (pb_ReadFrom deadlineDone n b) \<noteq> Return Panic"
proof -
  have b: "pb_inv b" using assms by induction (simp_all add: NewPacketBuffer_inv pb_step_inv)
  have "snd (pb_WriteTo p addr b) \<noteq> Panic"
  proof (cases "pb_closed b")
    case True
    then show ?thesis by (simp add: pb_WriteTo_def)
  next
    case False
    from pb_WriteTo_queue [OF b this, of p addr] show ?thesis by auto
  qed
  moreover have "snd (pb_ReadFrom deadlineDone n b) \<noteq> Return Panic"
    using b by (auto simp: pb_ReadFrom_def Let_def pb_inv_def split: prod.splits)
  ultimately show ?thesis using b by blast
qed

theorem PacketBuffer_invariant_witness:
  "pb_inv (pb_step (OpWrite [1] True) NewPacketBuffer)
   \<and> snd (pb_WriteTo [2] True (pb_step (OpWrite [1] True) NewPacketBuffer)) \<noteq> Panic
   \<and> snd (pb_ReadFrom False 8 (pb_step (OpWrite [1] True) NewPacketBuffer)) \<noteq> Return Panic"
  by (rule PacketBuffer_invariant) (rule pb_reachable.intros)+

text \<open>
  C20. What a write does to the queue of packets: an open buffer accepts every packet and appends
  it, but when the buffer is full and its read pointer is at \<open>r\<close>, growing it first drops the \<open>r\<close>
  oldest unread packets, because the pointer is not reset to the start of the new array.
\<close>

theorem PacketBuffer_WriteTo:
  assumes "pb_reachable b" "\<not> pb_closed b"
  shows "\<exists>b'. pb_WriteTo p addr b = (b', Ok (length p)) \<and>
    pb_queue b' = (if pb_full b then drop (pb_read b) (pb_queue b) else pb_queue b) @ [(Some addr, p)]"
proof -
  have "pb_inv b" using assms(1) by induction (simp_all add: NewPacketBuffer_inv pb_step_inv)
  then show ?thesis using pb_WriteTo_queue [OF _ assms(2)] by blast
qed

text \<open>Packets A and B are written, A is read, and C is written.\<close>

definition ex_ops :: "nat pb_op list" where
  "ex_ops = [OpWrite [1] 7, OpWrite [2] 7, OpRead False 10, OpWrite [3] 7]"

theorem PacketBuffer_WriteTo_witness:
  "pb_queue (fold pb_step ex_ops NewPacketBuffer) = [(Some 7, [2]), (Some 7, [3])]
   \<and> (\<exists>b'. pb_WriteTo [4] 7 (fold pb_step ex_ops NewPacketBuffer) = (b', Ok 1)
        \<and> pb_queue b' = [(Some 7, [3]), (Some 7, [4])])"
proof -
  let ?b = "fold pb_step ex_ops NewPacketBuffer :: nat PacketBuffer"
  have r: "pb_reachable ?b" unfolding ex_ops_def by (simp del: pb_step.simps) (rule pb_reachable.intros)+
  have b: "?b = \<lparr>pb_packets = [(Some 7, [3]), (Some 7, [2])], pb_write = 1, pb_read = 1, pb_full = True,
      pb_notify = False, pb_closed = False\<rparr>"
    by (simp add: ex_ops_def NewPacketBuffer_def pb_WriteTo_def pb_ReadFrom_def pb_grow_def pb_newSize_def)
  show ?thesis
    using PacketBuffer_WriteTo [OF r, of "[4]" 7] unfolding b by (simp add: pb_queue_def)
qed

text \<open>
  C21. What a read does to the queue of packets: it takes the oldest packet if the caller's buffer
  is long enough, and leaves it in place with an error if not. An empty datagram is not taken
  either: a read with room for data fails with end of file and leaves the buffer as it was, so no
  packet after it can be read. On an empty queue the read waits, or fails if the buffer is closed.
\<close>

theorem PacketBuffer_ReadFrom:
  assumes "pb_reachable b"
  shows "case pb_queue b of
      [] \<Rightarrow> pb_ReadFrom False n b =
        (if pb_closed b then (b, Return (Err (Net ErrEOF))) else (b\<lparr>pb_notify := True\<rparr>, Blocked))
    | (addr, data) # q \<Rightarrow>
        if n < length data then pb_ReadFrom False n b = (b, Return (Err (Net ErrShortBuffer)))
        else if data = [] \<and> n \<noteq> 0 then pb_ReadFrom False n b = (b, Return (Err (Net ErrEOF)))
        else \<exists>b'. pb_ReadFrom False n b = (b', Return (Ok (data, addr))) \<and> pb_queue b' = q"
proof -
  have b: "pb_inv b" using assms by induction (simp_all add: NewPacketBuffer_inv pb_step_inv)
  show ?thesis
  proof (cases "pb_queue b")
    case Nil
    then show ?thesis using pb_ReadFrom_queue(1) [OF b, of n] by simp
  next
    case (Cons x q)
    obtain addr data where x: "x = (addr, data)" by fastforce
    note q = Cons [unfolded x]
    have r: "pb_ReadFrom False n b =
         (if n < length data then (b, Return (Err (Net ErrShortBuffer)))
         else if data = [] \<and> n \<noteq> 0 then (b, Return (Err (Net ErrEOF)))
         else (fst (pb_ReadFrom False n b), Return (Ok (data, addr))))"
      using pb_ReadFrom_queue(1) [OF b, of n] unfolding q by simp
    show ?thesis
      unfolding q using r pb_ReadFrom_queue(2) [OF b q, of n] by (auto simp: not_less)
  qed
qed

theorem PacketBuffer_ReadFrom_witness:
  "pb_ReadFrom False 10 (pb_step (OpWrite [9] 7) (pb_step (OpWrite [] 7) NewPacketBuffer)) =
   (pb_step (OpWrite [9] 7) (pb_step (OpWrite [] (7 :: nat)) NewPacketBuffer), Return (Err (Net ErrEOF)))"
proof -
  let ?b = "pb_step (OpWrite [9] 7) (pb_step (OpWrite [] 7) NewPacketBuffer) :: nat PacketBuffer"
  have r: "pb_reachable ?b" by (rule pb_reachable.intros)+
  have "pb_queue ?b = [(Some 7, []), (Some 7, [9])]"
    by (simp add: NewPacketBuffer_def pb_WriteTo_def pb_grow_def pb_newSize_def pb_queue_def)
  with PacketBuffer_ReadFrom [OF r, of 10] show ?thesis by simp
qed

end
