(* ===== verification/Udp_Listener.thy ===== *)
theory Udp_Listener
  imports Handshaker Packet_Buffer
begin

section \<open>The UDP listener: internal/net/udp/packet\_conn.go and listener.go\<close>

text \<open>
  A listener gives every remote address, and every connection ID a connection announces, its own
  packet buffer. The state is the listener with all connections it ever made; a connection is its
  index there. Addresses are the strings by which they are looked up. Each function is one step:
  the parts of the code that touch the map of connections hold \<^verbatim>\<open>connLock\<close>. The socket, the filter, the
  router and the identifier are arguments; \<open>ul_accepted\<close> records the connections that
  \<^verbatim>\<open>Accept\<close> returned, the only ones a caller can use. Waiting for the reading goroutine at
  the end of a \<^verbatim>\<open>Close\<close> is a flag of its result. \<^verbatim>\<open>Accept\<close> is one step too,
  although the code takes the connection from the channel before it adds it to \<^verbatim>\<open>connWG\<close>: a \<^verbatim>\<open>Close\<close> in
  between is not represented.
\<close>

record PacketConn =
  pc_raddr :: addr
  pc_rmraddr :: bool
  pc_id :: "bytes option"
  pc_buffer :: "addr PacketBuffer"
  pc_doneCh :: bool
  pc_doneOnce :: bool

record ListenConfig =
  lc_Backlog :: int
  lc_AcceptFilter :: "(bytes \<Rightarrow> bool res) option"
  lc_DatagramRouter :: "(bytes \<Rightarrow> bytes option res) option"
  lc_ConnectionIdentifier :: "(bytes \<Rightarrow> bytes option res) option"

record udp_listener =
  ul_accepting :: bool
  ul_acceptCh :: "nat list"
  ul_backlog :: nat
  ul_doneCh :: bool
  ul_doneOnce :: bool
  ul_acceptFilter :: "(bytes \<Rightarrow> bool res) option"
  ul_datagramRouter :: "(bytes \<Rightarrow> bytes option res) option"
  ul_connIdentifier :: "(bytes \<Rightarrow> bytes option res) option"
  ul_conns :: "bytes \<rightharpoonup> nat"
  ul_connWG :: int
  ul_errRead :: "error option"
  ul_errClose :: "error option"
  ul_pConnClosed :: bool
  ul_heap :: "PacketConn list"
  ul_accepted :: "nat list"

definition receiveMTU :: nat where
  "receiveMTU = 8192"

definition defaultListenBacklog :: int where
  "defaultListenBacklog = 128"

definition ListenConfig_Listen :: "unit res \<Rightarrow> ListenConfig \<Rightarrow> udp_listener res" where
  "ListenConfig_Listen listenUDP lc =
     (let backlog = (if lc_Backlog lc = 0 then defaultListenBacklog else lc_Backlog lc) in
      bind listenUDP (\<lambda>_.
        if backlog < 0 then Panic
        else Ok \<lparr>ul_accepting = True, ul_acceptCh = [], ul_backlog = nat backlog, ul_doneCh = False, ul_doneOnce = False,
                 ul_acceptFilter = lc_AcceptFilter lc, ul_datagramRouter = lc_DatagramRouter lc,
                 ul_connIdentifier = lc_ConnectionIdentifier lc, ul_conns = Map.empty, ul_connWG = 1,
                 ul_errRead = None, ul_errClose = None, ul_pConnClosed = False, ul_heap = [], ul_accepted = []\<rparr>))"

definition newPacketConn :: "addr \<Rightarrow> PacketConn" where
  "newPacketConn raddr =
     \<lparr>pc_raddr = raddr, pc_rmraddr = False, pc_id = None, pc_buffer = NewPacketBuffer, pc_doneCh = False, pc_doneOnce = False\<rparr>"

definition upd_pc :: "nat \<Rightarrow> (PacketConn \<Rightarrow> PacketConn) \<Rightarrow> udp_listener \<Rightarrow> udp_listener" where
  "upd_pc i f l = l\<lparr>ul_heap := (ul_heap l)[i := f (ul_heap l ! i)]\<rparr>"

subsection \<open>Incoming datagrams\<close>

definition routed :: "udp_listener \<Rightarrow> bytes \<Rightarrow> nat option res" where
  "routed l buf =
     (case ul_datagramRouter l of
        None \<Rightarrow> Ok None
      | Some router \<Rightarrow> bind (router buf) (\<lambda>r. Ok (case r of None \<Rightarrow> None | Some cid \<Rightarrow> ul_conns l cid)))"

text \<open>\<open>Ok None\<close> is a datagram the filter refuses.\<close>

definition getConn :: "udp_listener \<Rightarrow> addr \<Rightarrow> bytes \<Rightarrow> udp_listener \<times> nat option res" where
  "getConn l raddr buf =
     (case routed l buf of
        Panic \<Rightarrow> (l, Panic) | Err e \<Rightarrow> (l, Err e)
      | Ok (Some conn) \<Rightarrow> (l, Ok (Some conn))
      | Ok None \<Rightarrow>
          (case ul_conns l raddr of
             Some conn \<Rightarrow> (l, Ok (Some conn))
           | None \<Rightarrow>
               if \<not> ul_accepting l then (l, Err (Net ErrClosedListener))
               else
                 (case (case ul_acceptFilter l of None \<Rightarrow> Ok True | Some acceptFilter \<Rightarrow> acceptFilter buf) of
                    Panic \<Rightarrow> (l, Panic) | Err e \<Rightarrow> (l, Err e)
                  | Ok ok \<Rightarrow>
                      if \<not> ok then (l, Ok None)
                      else if length (ul_acceptCh l) < ul_backlog l then
                        let conn = length (ul_heap l) in
                        (l\<lparr>ul_heap := ul_heap l @ [newPacketConn raddr], ul_acceptCh := ul_acceptCh l @ [conn],
                           ul_conns := (ul_conns l)(raddr \<mapsto> conn)\<rparr>, Ok (Some conn))
                      else (l, Err (Net ErrListenQueueExceeded)))))"

text \<open>One turn of \<^verbatim>\<open>readLoop\<close>; after an error of the socket there is no other turn.\<close>

definition listener_readLoop :: "udp_listener \<Rightarrow> (bytes \<times> addr) res \<Rightarrow> udp_listener \<times> unit res" where
  "listener_readLoop l input =
     (case input of
        Panic \<Rightarrow> (l, Panic)
      | Err e \<Rightarrow> (l\<lparr>ul_errRead := Some e\<rparr>, Ok ())
      | Ok (data, raddr) \<Rightarrow>
          (let buf = take receiveMTU data; (l, r) = getConn l raddr buf in
           case r of
             Panic \<Rightarrow> (l, Panic)
           | Err e \<Rightarrow> (l, Ok ())
           | Ok None \<Rightarrow> (l, Ok ())
           | Ok (Some conn) \<Rightarrow>
               (let (b, w) = pb_WriteTo buf raddr (pc_buffer (ul_heap l ! conn)) in
                (upd_pc conn (\<lambda>c. c\<lparr>pc_buffer := b\<rparr>) l, if w = Panic then Panic else Ok ()))))"

subsection \<open>Calls of the user\<close>

text \<open>Which case of the \<^verbatim>\<open>select\<close> is taken; \<open>None\<close> when it is not ready.\<close>

datatype accept_event = AcceptConn | AcceptReadDone | AcceptDone

definition listener_Accept :: "udp_listener \<Rightarrow> accept_event \<Rightarrow> (udp_listener \<times> (nat \<times> addr) res) option" where
  "listener_Accept l ev =
     (case ev of
        AcceptConn \<Rightarrow>
          (case ul_acceptCh l of
             [] \<Rightarrow> None
           | c # acceptCh \<Rightarrow>
               Some (l\<lparr>ul_acceptCh := acceptCh, ul_connWG := ul_connWG l + 1, ul_accepted := ul_accepted l @ [c]\<rparr>,
                     Ok (c, pc_raddr (ul_heap l ! c))))
      | AcceptReadDone \<Rightarrow> (case ul_errRead l of None \<Rightarrow> None | Some e \<Rightarrow> Some (l, Err e))
      | AcceptDone \<Rightarrow> if ul_doneCh l then Some (l, Err (Net ErrClosedListener)) else None)"

text \<open>The entries of a connection that both \<^verbatim>\<open>Close\<close> functions delete.\<close>

definition delete_conn :: "nat \<Rightarrow> udp_listener \<Rightarrow> udp_listener" where
  "delete_conn i l =
     (let c = ul_heap l ! i;
          conns = (case pc_id c of None \<Rightarrow> ul_conns l | Some cid \<Rightarrow> (ul_conns l)(cid := None));
          conns = (if pc_rmraddr c then conns else conns(pc_raddr c := None)) in
      upd_pc i (\<lambda>c. c\<lparr>pc_rmraddr := True\<rparr>) (l\<lparr>ul_conns := conns\<rparr>))"

fun close_unaccepted :: "nat list \<Rightarrow> udp_listener \<Rightarrow> udp_listener res" where
  "close_unaccepted [] l = Ok l"
| "close_unaccepted (c # cs) l =
     (if pc_doneCh (ul_heap l ! c) then Panic
      else close_unaccepted cs (delete_conn c (upd_pc c (\<lambda>c. c\<lparr>pc_doneCh := True\<rparr>) l)))"

text \<open>The flag tells whether the call waits until the socket is closed and the reading has ended; a call
  that waits returns the error of closing the socket, \<open>ul_errClose\<close>, any other none.\<close>

definition listener_Close :: "udp_listener \<Rightarrow> (udp_listener \<times> bool) res" where
  "listener_Close l =
     (if ul_doneOnce l then Ok (l, False)
      else
        let l = l\<lparr>ul_doneOnce := True, ul_accepting := False, ul_doneCh := True\<rparr> in
        bind (close_unaccepted (ul_acceptCh l) (l\<lparr>ul_acceptCh := []\<rparr>)) (\<lambda>l.
          if ul_connWG l \<le> 0 then Panic
          else Ok (l\<lparr>ul_connWG := ul_connWG l - 1\<rparr>, ul_conns l = Map.empty)))"

text \<open>The goroutine of \<^verbatim>\<open>Listen\<close> that closes the socket when the last user is gone.\<close>

definition close_socket :: "udp_listener \<Rightarrow> error option \<Rightarrow> udp_listener option" where
  "close_socket l err =
     (if ul_connWG l = 0 \<and> \<not> ul_pConnClosed l then Some (l\<lparr>ul_pConnClosed := True, ul_errClose := err\<rparr>) else None)"

definition PacketConn_ReadFrom :: "udp_listener \<Rightarrow> nat \<Rightarrow> bool \<Rightarrow> nat \<Rightarrow> udp_listener \<times> addr read_step" where
  "PacketConn_ReadFrom l i deadlineDone n =
     (let (b, r) = pb_ReadFrom deadlineDone n (pc_buffer (ul_heap l ! i)) in (upd_pc i (\<lambda>c. c\<lparr>pc_buffer := b\<rparr>) l, r))"

definition PacketConn_WriteTo ::
  "udp_listener \<Rightarrow> nat \<Rightarrow> bytes \<Rightarrow> addr \<Rightarrow> bool \<Rightarrow> nat res \<Rightarrow> udp_listener \<times> nat res" where
  "PacketConn_WriteTo l i p addr deadlineDone sent =
     (let c = ul_heap l ! i; oldId = pc_id c;
          r = (case ul_connIdentifier l of
                 None \<Rightarrow> Ok l
               | Some connIdentifier \<Rightarrow>
                   bind
                     (if oldId = None then
                        bind (connIdentifier p) (\<lambda>candidate.
                          Ok (case candidate of
                                None \<Rightarrow> l
                              | Some cid \<Rightarrow> upd_pc i (\<lambda>c. c\<lparr>pc_id := Some cid\<rparr>) (l\<lparr>ul_conns := (ul_conns l)(cid \<mapsto> i)\<rparr>)))
                      else Ok l)
                     (\<lambda>l. Ok (if oldId \<noteq> None \<and> \<not> pc_rmraddr c \<and> addr \<noteq> pc_raddr c
                               then upd_pc i (\<lambda>c. c\<lparr>pc_rmraddr := True\<rparr>) (l\<lparr>ul_conns := (ul_conns l)(pc_raddr c := None)\<rparr>)
                               else l))) in
      case r of
        Panic \<Rightarrow> (l, Panic) | Err e \<Rightarrow> (l, Err e)
      | Ok l \<Rightarrow> (l, if deadlineDone then Err (Net ErrContextDeadlineExceeded) else sent))"

definition PacketConn_Close :: "udp_listener \<Rightarrow> nat \<Rightarrow> (udp_listener \<times> bool) res" where
  "PacketConn_Close l i =
     (if pc_doneOnce (ul_heap l ! i) then Ok (l, False)
      else if ul_connWG l \<le> 0 then Panic
      else if pc_doneCh (ul_heap l ! i) then Panic
      else
        let l = delete_conn i (upd_pc i (\<lambda>c. c\<lparr>pc_doneOnce := True, pc_doneCh := True\<rparr>) (l\<lparr>ul_connWG := ul_connWG l - 1\<rparr>)) in
        Ok (upd_pc i (\<lambda>c. c\<lparr>pc_buffer := pb_Close (pc_buffer c)\<rparr>) l, ul_conns l = Map.empty \<and> \<not> ul_accepting l))"

subsection \<open>The listener of the package\<close>

text \<open>A datagram makes a new connection only when its first record is a handshake record.\<close>

definition accept_filter :: "bytes \<Rightarrow> bool res" where
  "accept_filter packet =
     (case UnpackDatagram packet of
        Panic \<Rightarrow> Panic | Err e \<Rightarrow> Ok False
      | Ok pkts \<Rightarrow>
          if length pkts < 1 then Ok False
          else case rl_Header_Unmarshal zero_rl_Header (pkts ! 0) of
            Panic \<Rightarrow> Panic | Err e \<Rightarrow> Ok False
          | Ok h \<Rightarrow> Ok (rl_ContentType h = ContentTypeHandshake))"

definition dtls_Listen :: "'b cryptobyte \<Rightarrow> unit res \<Rightarrow> Config option \<Rightarrow> udp_listener res" where
  "dtls_Listen cb listenUDP config =
     bind (validateConfig config) (\<lambda>_.
       case config of
         None \<Rightarrow> Panic
       | Some cf \<Rightarrow>
           let lc = \<lparr>lc_Backlog = 0, lc_AcceptFilter = Some accept_filter, lc_DatagramRouter = None,
                     lc_ConnectionIdentifier = None\<rparr> in
           bind (case cf_ConnectionIDGenerator cf of
                   None \<Rightarrow> Ok lc
                 | Some gen \<Rightarrow>
                     bind (gen 0) (\<lambda>cid.
                       Ok (lc\<lparr>lc_DatagramRouter := Some (cidDatagramRouter (length (opt_bytes cid))),
                              lc_ConnectionIdentifier := Some (cidConnIdentifier cb)\<rparr>)))
             (ListenConfig_Listen listenUDP))"

definition NewListener :: "Config option \<Rightarrow> unit res" where
  "NewListener config = validateConfig config"

text \<open>\<^verbatim>\<open>Accept\<close> of the package's listener: the server's machine over the accepted packet connection.\<close>

definition dtls_Accept ::
  "'b hs_env \<Rightarrow> Config option \<Rightarrow> udp_listener \<Rightarrow> accept_event \<Rightarrow>
   (udp_listener \<times> (nat \<times> handshakeConfig \<times> handshakeFSM \<times> handshakeState) res) option" where
  "dtls_Accept env config l ev =
     map_option (\<lambda>(l, r). (l, bind r (\<lambda>(c, raddr). bind (ServerWithContext env False raddr config) (\<lambda>m. Ok (c, m)))))
       (listener_Accept l ev)"

subsection \<open>The listener and its users\<close>

inductive listener_step :: "udp_listener \<Rightarrow> udp_listener \<Rightarrow> bool" where
  L_read: "ul_errRead l = None \<Longrightarrow> listener_readLoop l input = (l', Ok ()) \<Longrightarrow> listener_step l l'"
| L_Accept: "listener_Accept l ev = Some (l', r) \<Longrightarrow> listener_step l l'"
| L_Close: "listener_Close l = Ok (l', b) \<Longrightarrow> listener_step l l'"
| L_socket: "close_socket l err = Some l' \<Longrightarrow> listener_step l l'"
| L_ReadFrom: "i \<in> set (ul_accepted l) \<Longrightarrow> PacketConn_ReadFrom l i deadlineDone n = (l', s) \<Longrightarrow> listener_step l l'"
| L_WriteTo: "i \<in> set (ul_accepted l) \<Longrightarrow> PacketConn_WriteTo l i p addr deadlineDone sent = (l', w) \<Longrightarrow> w \<noteq> Panic \<Longrightarrow>
    listener_step l l'"
| L_pcClose: "i \<in> set (ul_accepted l) \<Longrightarrow> PacketConn_Close l i = Ok (l', b) \<Longrightarrow> listener_step l l'"

text \<open>The connections in use: returned by \<^verbatim>\<open>Accept\<close> and not closed.\<close>

definition open_conns :: "udp_listener \<Rightarrow> nat set" where
  "open_conns l = {i \<in> set (ul_accepted l). \<not> pc_doneOnce (ul_heap l ! i)}"

definition heap_ok :: "udp_listener \<Rightarrow> bool" where
  "heap_ok l \<longleftrightarrow> distinct (ul_acceptCh l @ ul_accepted l) \<and>
     set (ul_acceptCh l @ ul_accepted l) \<subseteq> {..<length (ul_heap l)} \<and>
     (\<forall>i \<in> set (ul_acceptCh l). \<not> pc_doneCh (ul_heap l ! i) \<and> \<not> pc_doneOnce (ul_heap l ! i)) \<and>
     (\<forall>i \<in> set (ul_accepted l). pc_doneCh (ul_heap l ! i) = pc_doneOnce (ul_heap l ! i))"

definition conns_ok :: "udp_listener \<Rightarrow> bool" where
  "conns_ok l \<longleftrightarrow> (\<forall>k i. ul_conns l k = Some i \<longrightarrow> i < length (ul_heap l) \<and>
     (k = pc_raddr (ul_heap l ! i) \<or> pc_id (ul_heap l ! i) = Some k))"

definition listener_inv :: "udp_listener \<Rightarrow> bool" where
  "listener_inv l \<longleftrightarrow> heap_ok l \<and> conns_ok l \<and> length (ul_acceptCh l) \<le> ul_backlog l \<and>
     (ul_accepting l \<longleftrightarrow> \<not> ul_doneOnce l) \<and> (ul_doneOnce l \<longrightarrow> ul_acceptCh l = []) \<and>
     ul_connWG l = int (card (open_conns l)) + (if ul_doneOnce l then 0 else 1)"

lemma upd_pc_heap [simp]:
  "ul_heap (upd_pc i f l) = (ul_heap l)[i := f (ul_heap l ! i)]" "ul_conns (upd_pc i f l) = ul_conns l"
  "ul_acceptCh (upd_pc i f l) = ul_acceptCh l" "ul_accepted (upd_pc i f l) = ul_accepted l"
  "ul_backlog (upd_pc i f l) = ul_backlog l" "ul_accepting (upd_pc i f l) = ul_accepting l"
  "ul_doneOnce (upd_pc i f l) = ul_doneOnce l" "ul_connWG (upd_pc i f l) = ul_connWG l"
  "ul_errRead (upd_pc i f l) = ul_errRead l" "ul_datagramRouter (upd_pc i f l) = ul_datagramRouter l"
  by (simp_all add: upd_pc_def)

text \<open>
  What a step may do to a connection: everything but its address, an identifier once set and a
  finished close.
\<close>

definition pc_later :: "PacketConn \<Rightarrow> PacketConn \<Rightarrow> bool" where
  "pc_later c c' \<longleftrightarrow> pc_raddr c' = pc_raddr c \<and> (pc_id c \<noteq> None \<longrightarrow> pc_id c' = pc_id c) \<and>
     (pc_doneOnce c \<longrightarrow> pc_doneOnce c') \<and> (pc_doneCh c \<longrightarrow> pc_doneCh c')"

definition heap_later :: "udp_listener \<Rightarrow> udp_listener \<Rightarrow> bool" where
  "heap_later l l' \<longleftrightarrow> length (ul_heap l) \<le> length (ul_heap l') \<and>
     (\<forall>i < length (ul_heap l). pc_later (ul_heap l ! i) (ul_heap l' ! i))"

lemma pc_later_refl [simp]: "pc_later c c"
  by (simp add: pc_later_def)

lemma heap_later_refl [simp]: "heap_later l l"
  by (simp add: heap_later_def)

lemma pc_later_trans: "pc_later a b \<Longrightarrow> pc_later b c \<Longrightarrow> pc_later a c"
  by (auto simp: pc_later_def)

lemma heap_later_trans: "heap_later a b \<Longrightarrow> heap_later b c \<Longrightarrow> heap_later a c"
  unfolding heap_later_def by (meson le_trans order_less_le_trans pc_later_trans)

lemma heap_later_upd: "(\<And>c. pc_later c (f c)) \<Longrightarrow> heap_later l (upd_pc i f l)"
  by (cases "i < length (ul_heap l)") (auto simp: heap_later_def nth_list_update)

subsection \<open>The invariant is kept\<close>

lemma nth_update_proj: "g y = g (xs ! i) \<Longrightarrow> g (xs[i := y] ! j) = g (xs ! j)"
  by (cases "i < length xs") (auto simp: nth_list_update list_update_beyond)

lemma conns_ok_sub:
  assumes "conns_ok l" "heap_later l l'" "\<And>k i. ul_conns l' k = Some i \<Longrightarrow> ul_conns l k = Some i"
  shows "conns_ok l'"
  unfolding conns_ok_def
proof (intro allI impI)
  fix k i assume "ul_conns l' k = Some i"
  then have "i < length (ul_heap l)" "k = pc_raddr (ul_heap l ! i) \<or> pc_id (ul_heap l ! i) = Some k"
    using assms(1,3) by (auto simp: conns_ok_def)
  then show "i < length (ul_heap l') \<and> (k = pc_raddr (ul_heap l' ! i) \<or> pc_id (ul_heap l' ! i) = Some k)"
    using assms(2) by (auto simp: heap_later_def pc_later_def)
qed

text \<open>An update that touches neither the entries nor the flags of closing.\<close>

lemma upd_quiet:
  assumes "\<And>c. pc_doneCh (f c) = pc_doneCh c" "\<And>c. pc_doneOnce (f c) = pc_doneOnce c"
  shows "heap_ok (upd_pc i f l) = heap_ok l" "open_conns (upd_pc i f l) = open_conns l"
  using assms by (simp_all add: heap_ok_def open_conns_def nth_update_proj [of pc_doneCh] nth_update_proj [of pc_doneOnce])

lemma upd_buffer_inv: "listener_inv l \<Longrightarrow> listener_inv (upd_pc i (\<lambda>c. c\<lparr>pc_buffer := b\<rparr>) l)"
  using conns_ok_sub [of l "upd_pc i (\<lambda>c. c\<lparr>pc_buffer := b\<rparr>) l"]
  by (simp add: listener_inv_def upd_quiet heap_later_upd pc_later_def)

abbreviation with_new :: "udp_listener \<Rightarrow> addr \<Rightarrow> udp_listener" where
  "with_new l raddr \<equiv> l\<lparr>ul_heap := ul_heap l @ [newPacketConn raddr], ul_acceptCh := ul_acceptCh l @ [length (ul_heap l)],
     ul_conns := (ul_conns l)(raddr \<mapsto> length (ul_heap l))\<rparr>"

lemma getConn_new:
  assumes "getConn l raddr buf = (l', r)" "l' \<noteq> l"
  shows "ul_accepting l" "length (ul_acceptCh l) < ul_backlog l" "ul_conns l raddr = None" "r = Ok (Some (length (ul_heap l)))"
    "l' = with_new l raddr" "\<forall>f. ul_acceptFilter l = Some f \<longrightarrow> f buf = Ok True"
proof -
  have routed: "routed l buf = Ok None"
    using assms by (cases "routed l buf") (auto simp: getConn_def split: option.splits)
  show conns: "ul_conns l raddr = None" using assms routed by (cases "ul_conns l raddr") (auto simp: getConn_def)
  show acc: "ul_accepting l" using assms routed conns by (cases "ul_accepting l") (auto simp: getConn_def)
  have filter: "(case ul_acceptFilter l of None \<Rightarrow> Ok True | Some f \<Rightarrow> f buf) = Ok True"
    using assms routed conns acc
    by (cases "case ul_acceptFilter l of None \<Rightarrow> Ok True | Some f \<Rightarrow> f buf") (auto simp: getConn_def split: if_splits)
  then show "\<forall>f. ul_acceptFilter l = Some f \<longrightarrow> f buf = Ok True" by auto
  show room: "length (ul_acceptCh l) < ul_backlog l"
    using assms routed conns acc filter by (cases "length (ul_acceptCh l) < ul_backlog l") (auto simp: getConn_def)
  show "r = Ok (Some (length (ul_heap l)))" "l' = with_new l raddr"
    using assms(1) unfolding getConn_def routed res.case option.case conns filter using acc room by (simp_all add: Let_def)
qed

lemma getConn_inv:
  assumes "getConn l raddr buf = (l', r)" "listener_inv l"
  shows "listener_inv l' \<and> heap_later l l'"
proof (cases "l' = l")
  case False
  note new = getConn_new [OF assms(1) False]
  have inv: "heap_ok l" "conns_ok l" using assms(2) by (auto simp: listener_inv_def)
  have lt: "i < length (ul_heap l)" if "i \<in> set (ul_acceptCh l) \<or> i \<in> set (ul_accepted l)" for i
    using inv(1) that by (auto simp: heap_ok_def)
  have "heap_ok l'"
    using inv(1) lt unfolding new(5) heap_ok_def by (auto simp: nth_append newPacketConn_def less_Suc_eq)
  moreover have "conns_ok l'"
    using inv(2) unfolding new(5) conns_ok_def by (auto simp: nth_append newPacketConn_def less_Suc_eq)
  moreover have "open_conns l' = open_conns l"
    using lt unfolding new(5) open_conns_def by (auto simp: nth_append)
  ultimately show ?thesis
    using assms(2) new(1,2) unfolding listener_inv_def new(5) by (simp add: heap_later_def nth_append)
qed (use assms(2) in simp)

lemma readLoop_inv:
  assumes "listener_readLoop l input = (l', u)" "listener_inv l"
  shows "listener_inv l' \<and> heap_later l l'"
proof (cases input)
  case (Ok x)
  obtain data raddr where x: "x = (data, raddr)" by fastforce
  obtain m r where g: "getConn l raddr (take receiveMTU data) = (m, r)" by fastforce
  note m = getConn_inv [OF g assms(2)]
  have "listener_inv (upd_pc i (\<lambda>c. c\<lparr>pc_buffer := b\<rparr>) m) \<and> heap_later l (upd_pc i (\<lambda>c. c\<lparr>pc_buffer := b\<rparr>) m)" for i b
    using m upd_buffer_inv heap_later_trans [OF _ heap_later_upd] by (auto simp: pc_later_def)
  moreover have "l' = m \<or> (\<exists>i b. l' = upd_pc i (\<lambda>c. c\<lparr>pc_buffer := b\<rparr>) m)"
    using assms(1) unfolding Ok x listener_readLoop_def res.case prod.case Let_def g
    by (auto split: res.splits option.splits prod.splits)
  ultimately show ?thesis using m by metis
next
  case (Err e)
  then have l': "l' = l\<lparr>ul_errRead := Some e\<rparr>" using assms(1) by (simp add: listener_readLoop_def)
  show ?thesis
    using assms(2) unfolding l' by (auto simp: listener_readLoop_def listener_inv_def heap_ok_def conns_ok_def open_conns_def heap_later_def)
qed (use assms in \<open>simp add: listener_readLoop_def\<close>)

lemma Accept_inv:
  assumes "listener_Accept l ev = Some (l', r)" "listener_inv l"
  shows "listener_inv l' \<and> heap_later l l'"
proof (cases "ev = AcceptConn")
  case True
  then obtain c cs where c: "ul_acceptCh l = c # cs"
    "l' = l\<lparr>ul_acceptCh := cs, ul_connWG := ul_connWG l + 1, ul_accepted := ul_accepted l @ [c]\<rparr>"
    using assms(1) by (auto simp: listener_Accept_def split: list.splits)
  have h: "heap_ok l" using assms(2) by (simp add: listener_inv_def)
  then have "open_conns l' = insert c (open_conns l)" "c \<notin> open_conns l"
    using c by (auto simp: open_conns_def heap_ok_def)
  moreover have "finite (open_conns l)" by (simp add: open_conns_def)
  ultimately show ?thesis
    using assms(2) h c by (auto simp: listener_inv_def heap_ok_def conns_ok_def heap_later_def)
qed (use assms in \<open>cases ev; auto simp: listener_Accept_def split: option.splits if_splits\<close>)

lemma delete_conn_fields [simp]:
  "ul_acceptCh (delete_conn i l) = ul_acceptCh l" "ul_accepted (delete_conn i l) = ul_accepted l"
  "ul_backlog (delete_conn i l) = ul_backlog l" "ul_accepting (delete_conn i l) = ul_accepting l"
  "ul_doneOnce (delete_conn i l) = ul_doneOnce l" "ul_connWG (delete_conn i l) = ul_connWG l"
  "ul_heap (delete_conn i l) = (ul_heap l)[i := (ul_heap l ! i)\<lparr>pc_rmraddr := True\<rparr>]"
  "ul_datagramRouter (delete_conn i l) = ul_datagramRouter l"
  by (simp_all add: delete_conn_def Let_def)

lemma delete_conn_conns:
  "ul_conns (delete_conn i l) k = Some j \<Longrightarrow> ul_conns l k = Some j \<and> pc_id (ul_heap l ! i) \<noteq> Some k"
  "pc_id (ul_heap l ! i) \<noteq> Some k \<Longrightarrow> pc_raddr (ul_heap l ! i) \<noteq> k \<Longrightarrow> ul_conns (delete_conn i l) k = ul_conns l k"
  by (auto simp: delete_conn_def Let_def split: option.splits if_splits)

lemma delete_conn_later: "heap_later l (delete_conn i l)"
  by (cases "i < length (ul_heap l)") (auto simp: heap_later_def nth_list_update pc_later_def)

lemma close_unaccepted_ok:
  assumes "distinct cs" "\<forall>c \<in> set cs. c < length (ul_heap l) \<and> \<not> pc_doneCh (ul_heap l ! c)"
  shows "\<exists>l'. close_unaccepted cs l = Ok l' \<and> heap_later l l' \<and>
    (\<forall>k j. ul_conns l' k = Some j \<longrightarrow> ul_conns l k = Some j) \<and>
    (\<forall>j. j \<notin> set cs \<longrightarrow> ul_heap l' ! j = ul_heap l ! j) \<and>
    (\<forall>j. pc_doneOnce (ul_heap l' ! j) = pc_doneOnce (ul_heap l ! j)) \<and> length (ul_heap l') = length (ul_heap l) \<and>
    ul_accepted l' = ul_accepted l \<and> ul_acceptCh l' = ul_acceptCh l \<and> ul_backlog l' = ul_backlog l \<and>
    ul_accepting l' = ul_accepting l \<and> ul_doneOnce l' = ul_doneOnce l \<and> ul_connWG l' = ul_connWG l"
  using assms
proof (induction cs arbitrary: l)
  case (Cons c cs)
  let ?m = "delete_conn c (upd_pc c (\<lambda>c. c\<lparr>pc_doneCh := True\<rparr>) l)"
  have m: "heap_later l ?m"
    by (rule heap_later_trans [OF heap_later_upd delete_conn_later]) (simp add: pc_later_def)
  have keep: "\<forall>j. j \<noteq> c \<longrightarrow> ul_heap ?m ! j = ul_heap l ! j" by simp
  have once: "pc_doneOnce (ul_heap ?m ! j) = pc_doneOnce (ul_heap l ! j)" for j
    using Cons.prems by (cases "j = c") auto
  have "\<forall>d \<in> set cs. d < length (ul_heap ?m) \<and> \<not> pc_doneCh (ul_heap ?m ! d)"
    using Cons.prems keep by fastforce
  then obtain l' where l': "close_unaccepted cs ?m = Ok l'" "heap_later ?m l'"
    "\<forall>k j. ul_conns l' k = Some j \<longrightarrow> ul_conns ?m k = Some j" "\<forall>j. j \<notin> set cs \<longrightarrow> ul_heap l' ! j = ul_heap ?m ! j"
    "\<forall>j. pc_doneOnce (ul_heap l' ! j) = pc_doneOnce (ul_heap ?m ! j)" "length (ul_heap l') = length (ul_heap ?m)"
    "ul_accepted l' = ul_accepted ?m \<and> ul_acceptCh l' = ul_acceptCh ?m \<and> ul_backlog l' = ul_backlog ?m \<and>
      ul_accepting l' = ul_accepting ?m \<and> ul_doneOnce l' = ul_doneOnce ?m \<and> ul_connWG l' = ul_connWG ?m"
    using Cons.IH [of ?m] Cons.prems by auto
  have "\<forall>k j. ul_conns l' k = Some j \<longrightarrow> ul_conns l k = Some j" using l'(3) delete_conn_conns(1) by (metis upd_pc_heap(2))
  then show ?case
    using Cons.prems l'(1,4-7) heap_later_trans [OF m l'(2)] keep once by (intro exI [of _ l']) auto
qed auto

lemma Close_ok:
  assumes inv: "listener_inv l"
  obtains l' b where "listener_Close l = Ok (l', b)" "listener_inv l'" "heap_later l l'" "ul_doneOnce l'"
    "length (ul_heap l') = length (ul_heap l)"
proof (cases "ul_doneOnce l")
  case True
  then show ?thesis using that [of l False] inv by (simp add: listener_Close_def)
next
  case False
  let ?l = "l\<lparr>ul_doneOnce := True, ul_accepting := False, ul_doneCh := True, ul_acceptCh := []\<rparr>"
  have h: "heap_ok l" and c: "conns_ok l" using inv by (auto simp: listener_inv_def)
  have q: "distinct (ul_acceptCh l)" "\<forall>c \<in> set (ul_acceptCh l). c < length (ul_heap ?l) \<and> \<not> pc_doneCh (ul_heap ?l ! c)"
    using h by (auto simp: heap_ok_def)
  obtain m where m: "close_unaccepted (ul_acceptCh l) ?l = Ok m" "heap_later ?l m"
    "\<forall>k j. ul_conns m k = Some j \<longrightarrow> ul_conns ?l k = Some j" "\<forall>j. j \<notin> set (ul_acceptCh l) \<longrightarrow> ul_heap m ! j = ul_heap ?l ! j"
    "\<forall>j. pc_doneOnce (ul_heap m ! j) = pc_doneOnce (ul_heap ?l ! j)" "length (ul_heap m) = length (ul_heap ?l)"
    "ul_accepted m = ul_accepted ?l \<and> ul_acceptCh m = ul_acceptCh ?l \<and> ul_backlog m = ul_backlog ?l \<and>
      ul_accepting m = ul_accepting ?l \<and> ul_doneOnce m = ul_doneOnce ?l \<and> ul_connWG m = ul_connWG ?l"
    using close_unaccepted_ok [OF q] by auto
  let ?m = "m\<lparr>ul_connWG := ul_connWG m - 1\<rparr>"
  have wg: "ul_connWG m = int (card (open_conns l)) + 1" using inv m(7) False by (simp add: listener_inv_def)
  have later: "heap_later l ?m" using m(2) by (simp add: heap_later_def)
  have "open_conns ?m = open_conns l" using m(5,7) by (simp add: open_conns_def)
  moreover have "heap_ok ?m" using h m(4,6,7) by (auto simp: heap_ok_def)
  moreover have "conns_ok ?m" by (rule conns_ok_sub [OF c later]) (use m(3) in auto)
  ultimately have "listener_inv ?m" using m(7) wg by (simp add: listener_inv_def)
  moreover have "listener_Close l = Ok (?m, ul_conns m = Map.empty)"
    using m(1) False wg by (simp add: listener_Close_def Let_def)
  ultimately show ?thesis using that [of ?m] later m(6,7) by simp
qed

lemma WriteTo_cases:
  assumes "PacketConn_WriteTo l i p addr d sent = (l', r)"
  obtains (same) "l' = l"
    | (identified) cid where "pc_id (ul_heap l ! i) = None"
        "l' = upd_pc i (\<lambda>c. c\<lparr>pc_id := Some cid\<rparr>) (l\<lparr>ul_conns := (ul_conns l)(cid \<mapsto> i)\<rparr>)"
    | (freed) "l' = upd_pc i (\<lambda>c. c\<lparr>pc_rmraddr := True\<rparr>) (l\<lparr>ul_conns := (ul_conns l)(pc_raddr (ul_heap l ! i) := None)\<rparr>)"
proof -
  have "l' = l \<or> (\<exists>cid. pc_id (ul_heap l ! i) = None \<and>
        l' = upd_pc i (\<lambda>c. c\<lparr>pc_id := Some cid\<rparr>) (l\<lparr>ul_conns := (ul_conns l)(cid \<mapsto> i)\<rparr>)) \<or>
      l' = upd_pc i (\<lambda>c. c\<lparr>pc_rmraddr := True\<rparr>) (l\<lparr>ul_conns := (ul_conns l)(pc_raddr (ul_heap l ! i) := None)\<rparr>)"
  proof (cases "ul_connIdentifier l")
    case (Some f)
    show ?thesis
      using assms Some by (cases "pc_id (ul_heap l ! i)"; cases "f p")
        (auto simp: PacketConn_WriteTo_def Let_def split: option.splits if_splits)
  qed (use assms in \<open>simp add: PacketConn_WriteTo_def\<close>)
  with that show ?thesis by blast
qed

lemma WriteTo_inv:
  assumes w: "PacketConn_WriteTo l i p addr d sent = (l', r)" and inv: "listener_inv l" and i: "i < length (ul_heap l)"
  shows "listener_inv l' \<and> heap_later l l'"
proof -
  have c: "conns_ok l" using inv by (simp add: listener_inv_def)
  have id: "listener_inv m \<and> heap_later l m" if "pc_id (ul_heap l ! i) = None"
    "m = upd_pc i (\<lambda>c. c\<lparr>pc_id := Some cid\<rparr>) (l\<lparr>ul_conns := (ul_conns l)(cid \<mapsto> i)\<rparr>)" for cid m
  proof -
    have "heap_later l m" using that i by (auto simp: heap_later_def pc_later_def nth_list_update)
    moreover have "conns_ok m" using c i that by (fastforce simp: conns_ok_def nth_list_update)
    ultimately show ?thesis using inv unfolding that(2) listener_inv_def by (simp add: upd_quiet) (simp add: heap_ok_def open_conns_def)
  qed
  have rm: "listener_inv m \<and> heap_later l m"
    if "m = upd_pc i (\<lambda>c. c\<lparr>pc_rmraddr := True\<rparr>) (l\<lparr>ul_conns := (ul_conns l)(k := None)\<rparr>)" for k m
  proof -
    have later: "heap_later l m" using that i by (auto simp: heap_later_def pc_later_def nth_list_update)
    moreover have "conns_ok m" by (rule conns_ok_sub [OF c later]) (use that in \<open>auto split: if_splits\<close>)
    ultimately show ?thesis using inv unfolding that listener_inv_def by (simp add: upd_quiet) (simp add: heap_ok_def open_conns_def)
  qed
  from w show ?thesis
  proof (cases rule: WriteTo_cases)
    case same
    then show ?thesis using inv by simp
  next
    case (identified cid)
    then show ?thesis by (rule id)
  next
    case freed
    then show ?thesis by (rule rm)
  qed
qed

lemma pcClose_ok:
  assumes inv: "listener_inv l" and i: "i \<in> set (ul_accepted l)"
  obtains l' b where "PacketConn_Close l i = Ok (l', b)" "listener_inv l'" "heap_later l l'"
proof (cases "pc_doneOnce (ul_heap l ! i)")
  case True
  then show ?thesis using that [of l False] inv by (simp add: PacketConn_Close_def)
next
  case False
  have h: "heap_ok l" and c: "conns_ok l" using inv by (auto simp: listener_inv_def)
  have lt: "i < length (ul_heap l)" and ch: "\<not> pc_doneCh (ul_heap l ! i)" and nq: "i \<notin> set (ul_acceptCh l)"
    using h i False by (auto simp: heap_ok_def)
  have oi: "i \<in> open_conns l" "finite (open_conns l)" using i False by (auto simp: open_conns_def)
  then have wg: "0 < ul_connWG l" using inv by (auto simp: listener_inv_def card_gt_0_iff)
  let ?m = "delete_conn i (upd_pc i (\<lambda>c. c\<lparr>pc_doneOnce := True, pc_doneCh := True\<rparr>) (l\<lparr>ul_connWG := ul_connWG l - 1\<rparr>))"
  let ?l = "upd_pc i (\<lambda>c. c\<lparr>pc_buffer := pb_Close (pc_buffer c)\<rparr>) ?m"
  have later: "heap_later l ?l" using lt by (auto simp: heap_later_def pc_later_def nth_list_update)
  have "open_conns ?l = open_conns l - {i}" using lt by (auto simp: open_conns_def nth_list_update)
  then have "int (card (open_conns ?l)) = int (card (open_conns l)) - 1"
    using oi by (simp add: card_Diff_singleton int_ops(6) card_gt_0_iff Suc_leI) (metis card_gt_0_iff empty_iff of_nat_diff Suc_leI of_nat_1 One_nat_def)
  moreover have "heap_ok ?l" using h lt nq by (auto simp: heap_ok_def nth_list_update)
  moreover have "conns_ok ?l" by (rule conns_ok_sub [OF c later]) (auto dest!: delete_conn_conns(1))
  ultimately have "listener_inv ?l" using inv by (simp add: listener_inv_def)
  moreover have "PacketConn_Close l i = Ok (?l, ul_conns ?m = Map.empty \<and> \<not> ul_accepting ?m)"
    using False wg ch by (simp add: PacketConn_Close_def Let_def)
  ultimately show ?thesis using that later by blast
qed

lemma listener_step_inv:
  assumes "listener_step l l'" "listener_inv l"
  shows "listener_inv l' \<and> heap_later l l'"
  using assms(1)
proof cases
  case (L_read input)
  then show ?thesis using readLoop_inv assms(2) by blast
next
  case (L_Accept ev r)
  then show ?thesis using Accept_inv assms(2) by blast
next
  case (L_Close b)
  then show ?thesis using Close_ok [OF assms(2)] by (metis prod.inject res.inject(1))
next
  case (L_socket err)
  then have l': "l' = l\<lparr>ul_pConnClosed := True, ul_errClose := err\<rparr>" by (auto simp: close_socket_def split: if_splits)
  show ?thesis using assms(2) unfolding l' by (simp add: listener_inv_def heap_ok_def conns_ok_def open_conns_def heap_later_def)
next
  case (L_ReadFrom i d n s)
  then obtain b where l': "l' = upd_pc i (\<lambda>c. c\<lparr>pc_buffer := b\<rparr>) l"
    by (auto simp: PacketConn_ReadFrom_def split: prod.splits)
  show ?thesis unfolding l' using upd_buffer_inv [OF assms(2)] heap_later_upd [of "\<lambda>c. c\<lparr>pc_buffer := b\<rparr>"] by (simp add: pc_later_def)
next
  case (L_WriteTo i p addr d sent w)
  moreover have "i < length (ul_heap l)" using L_WriteTo(1) assms(2) by (auto simp: listener_inv_def heap_ok_def)
  ultimately show ?thesis using WriteTo_inv assms(2) by blast
next
  case (L_pcClose i b)
  then show ?thesis using pcClose_ok [OF assms(2)] by (metis prod.inject res.inject(1))
qed

lemma Listen_inv: "ListenConfig_Listen u lc = Ok l \<Longrightarrow> listener_inv l"
  by (auto simp: ListenConfig_Listen_def Let_def bind_eq_Ok listener_inv_def heap_ok_def conns_ok_def open_conns_def split: if_splits)

lemma listener_steps_inv:
  "listener_step\<^sup>*\<^sup>* l l' \<Longrightarrow> listener_inv l \<Longrightarrow> listener_inv l' \<and> heap_later l l'"
  by (induction rule: rtranclp_induct) (auto dest: listener_step_inv intro: heap_later_trans)

lemma conns_entries:
  assumes "conns_ok l"
  shows "finite (dom (ul_conns l)) \<and> card (dom (ul_conns l)) \<le> 2 * length (ul_heap l)"
proof -
  let ?keys = "(\<lambda>i. pc_raddr (ul_heap l ! i)) ` {..<length (ul_heap l)} \<union> (\<lambda>i. opt_bytes (pc_id (ul_heap l ! i))) ` {..<length (ul_heap l)}"
  have sub: "dom (ul_conns l) \<subseteq> ?keys"
  proof
    fix k assume "k \<in> dom (ul_conns l)"
    then obtain i where "i < length (ul_heap l)" "k = pc_raddr (ul_heap l ! i) \<or> pc_id (ul_heap l ! i) = Some k"
      using assms by (auto simp: conns_ok_def)
    then show "k \<in> ?keys" by (auto intro!: image_eqI [of _ _ i])
  qed
  have "card ?keys \<le> length (ul_heap l) + length (ul_heap l)"
    by (rule order_trans [OF card_Un_le add_mono]) (simp_all add: order_trans [OF card_image_le])
  with card_mono [OF _ sub] finite_subset [OF sub] show ?thesis by fastforce
qed

text \<open>
  C13. A listener stays within its bounds. Whatever datagrams arrive and however its users accept,
  write and close: at most the backlog of connections, 128 by default, waits to be
  accepted; the map has at most two entries for a connection, each under the address or the
  identifier of the connection it points to; the count of users is the number of open connections
  and the listener itself, so that it never becomes negative and the closing calls never panic; and a closed listener
  makes no connection any more.
\<close>

theorem listener_bounds:
  assumes "ListenConfig_Listen u lc = Ok l0" "listener_step\<^sup>*\<^sup>* l0 l"
  shows "length (ul_acceptCh l) \<le> ul_backlog l \<and> card (dom (ul_conns l)) \<le> 2 * length (ul_heap l) \<and>
    (\<forall>k i. ul_conns l k = Some i \<longrightarrow> i < length (ul_heap l) \<and>
      (k = pc_raddr (ul_heap l ! i) \<or> pc_id (ul_heap l ! i) = Some k)) \<and>
    ul_connWG l = int (card (open_conns l)) + (if ul_doneOnce l then 0 else 1) \<and>
    listener_Close l \<noteq> Panic \<and> (\<forall>i \<in> set (ul_accepted l). PacketConn_Close l i \<noteq> Panic) \<and>
    (ul_doneOnce l \<longrightarrow> ul_acceptCh l = [] \<and>
      (\<forall>raddr buf l' r. getConn l raddr buf = (l', r) \<longrightarrow> l' = l))"
proof -
  have inv: "listener_inv l" using listener_steps_inv [OF assms(2) Listen_inv [OF assms(1)]] by simp
  then have "conns_ok l" by (simp add: listener_inv_def)
  moreover have "listener_Close l \<noteq> Panic" using Close_ok [OF inv] by (metis res.distinct(3))
  moreover have "\<forall>i \<in> set (ul_accepted l). PacketConn_Close l i \<noteq> Panic" using pcClose_ok [OF inv] by (metis res.distinct(3))
  moreover have "l' = l" if "ul_doneOnce l" "getConn l raddr buf = (l', r)" for raddr buf l' r
    using getConn_new(1) [OF that(2)] that(1) inv by (auto simp: listener_inv_def)
  ultimately show ?thesis using inv conns_entries unfolding listener_inv_def conns_ok_def by blast
qed

subsection \<open>Routing by connection ID\<close>

text \<open>The buffers of the connections keep their own invariant, and are closed only with their connection.\<close>

definition pc_ok :: "PacketConn \<Rightarrow> bool" where
  "pc_ok c \<longleftrightarrow> pb_inv (pc_buffer c) \<and> (pb_closed (pc_buffer c) \<longrightarrow> pc_doneCh c)"

definition buffers_ok :: "udp_listener \<Rightarrow> bool" where
  "buffers_ok l \<longleftrightarrow> (\<forall>c \<in> set (ul_heap l). pc_ok c)"

lemma pc_ok_updates [simp]:
  "pc_ok (c\<lparr>pc_rmraddr := b\<rparr>) = pc_ok c" "pc_ok (c\<lparr>pc_id := x\<rparr>) = pc_ok c"
  "pc_ok c \<Longrightarrow> pc_ok (c\<lparr>pc_doneCh := True\<rparr>)"
  "pc_ok c \<Longrightarrow> pc_ok (c\<lparr>pc_doneOnce := d, pc_doneCh := True\<rparr>)"
  by (simp_all add: pc_ok_def)

lemma buffers_ok_upd:
  assumes "buffers_ok l" "\<And>c. pc_ok c \<Longrightarrow> pc_ok (f c)"
  shows "buffers_ok (upd_pc i f l)"
proof (cases "i < length (ul_heap l)")
  case True
  then show ?thesis
    using assms set_update_subset_insert [of "ul_heap l" i "f (ul_heap l ! i)"] by (auto simp: buffers_ok_def)
qed (use assms(1) in \<open>simp add: buffers_ok_def list_update_beyond\<close>)

lemma buffers_ok_fields [simp]:
  "buffers_ok (l\<lparr>ul_conns := conns\<rparr>) = buffers_ok l" "buffers_ok (l\<lparr>ul_connWG := n\<rparr>) = buffers_ok l"
  "buffers_ok (l\<lparr>ul_acceptCh := q\<rparr>) = buffers_ok l" "buffers_ok (l\<lparr>ul_accepted := a\<rparr>) = buffers_ok l"
  "buffers_ok (l\<lparr>ul_doneOnce := d, ul_accepting := b, ul_doneCh := e\<rparr>) = buffers_ok l"
  "buffers_ok (l\<lparr>ul_pConnClosed := p, ul_errClose := f\<rparr>) = buffers_ok l"
  by (simp_all add: buffers_ok_def)

lemma pb_write_inv: "pb_inv b \<Longrightarrow> pb_inv (fst (pb_WriteTo p addr b)) \<and> pb_closed (fst (pb_WriteTo p addr b)) = pb_closed b"
  using pb_step_inv [of b "OpWrite p addr"] by (auto simp: pb_WriteTo_def pb_grow_def Let_def)

lemma pb_read_inv: "pb_inv b \<Longrightarrow> pb_inv (fst (pb_ReadFrom d n b)) \<and> pb_closed (fst (pb_ReadFrom d n b)) = pb_closed b"
  using pb_ReadFrom_inv [of b d n] by (auto simp: pb_ReadFrom_def Let_def split: prod.splits)

lemma delete_conn_buffers: "buffers_ok l \<Longrightarrow> buffers_ok (delete_conn i l)"
  unfolding delete_conn_def Let_def by (rule buffers_ok_upd) simp_all

lemma close_unaccepted_buffers: "close_unaccepted cs l = Ok l' \<Longrightarrow> buffers_ok l \<Longrightarrow> buffers_ok l'"
proof (induction cs arbitrary: l)
  case (Cons c cs)
  have "buffers_ok (delete_conn c (upd_pc c (\<lambda>c. c\<lparr>pc_doneCh := True\<rparr>) l))"
    using Cons.prems(2) by (intro delete_conn_buffers buffers_ok_upd) simp_all
  then show ?case using Cons by (simp split: if_splits)
qed simp

lemma readLoop_buffers:
  assumes "listener_readLoop l input = (l', u)" "buffers_ok l"
  shows "buffers_ok l'"
proof (cases input)
  case (Ok x)
  obtain data raddr where x: "x = (data, raddr)" by fastforce
  obtain m r where g: "getConn l raddr (take receiveMTU data) = (m, r)" by fastforce
  have m: "buffers_ok m"
  proof (cases "m = l")
    case False
    show ?thesis using assms(2) unfolding getConn_new(5) [OF g False]
      by (simp add: buffers_ok_def pc_ok_def newPacketConn_def NewPacketBuffer_inv) (simp add: NewPacketBuffer_def)
  qed (use assms(2) in simp)
  have "buffers_ok (upd_pc i (\<lambda>c. c\<lparr>pc_buffer := fst (pb_WriteTo p raddr (pc_buffer (ul_heap m ! i)))\<rparr>) m)" for i p
  proof (cases "i < length (ul_heap m)")
    case True
    then have i: "pc_ok (ul_heap m ! i)" using m by (simp add: buffers_ok_def)
    then have "pc_ok ((ul_heap m ! i)\<lparr>pc_buffer := fst (pb_WriteTo p raddr (pc_buffer (ul_heap m ! i)))\<rparr>)"
      using pb_write_inv [of "pc_buffer (ul_heap m ! i)" p raddr] by (simp add: pc_ok_def)
    then show ?thesis
      using m set_update_subset_insert [of "ul_heap m" i] by (auto simp: buffers_ok_def)
  qed (use m in \<open>simp add: buffers_ok_def list_update_beyond\<close>)
  moreover have "l' = m \<or> (\<exists>i p. l' = upd_pc i (\<lambda>c. c\<lparr>pc_buffer := fst (pb_WriteTo p raddr (pc_buffer (ul_heap m ! i)))\<rparr>) m)"
    using assms(1) unfolding Ok x listener_readLoop_def res.case prod.case Let_def g
    by (auto split: res.splits option.splits prod.splits) (metis fst_conv)
  ultimately show ?thesis using m by auto
qed (use assms in \<open>auto simp: listener_readLoop_def buffers_ok_def\<close>)

lemma step_buffers:
  assumes "listener_step l l'" "buffers_ok l" "listener_inv l"
  shows "buffers_ok l'"
  using assms(1)
proof cases
  case (L_read input)
  then show ?thesis using readLoop_buffers assms(2) by blast
next
  case (L_Accept ev r)
  then have "ul_heap l' = ul_heap l"
    by (auto simp: listener_Accept_def split: accept_event.splits list.splits option.splits if_splits)
  then show ?thesis using assms(2) by (simp add: buffers_ok_def)
next
  case (L_Close b)
  then consider "l' = l" | m where "l' = m\<lparr>ul_connWG := ul_connWG m - 1\<rparr>"
      "close_unaccepted (ul_acceptCh l) (l\<lparr>ul_doneOnce := True, ul_accepting := False, ul_doneCh := True\<rparr>\<lparr>ul_acceptCh := []\<rparr>) = Ok m"
    by (auto simp: listener_Close_def Let_def bind_eq_Ok split: if_splits)
  then show ?thesis
  proof cases
    case (2 m)
    have "buffers_ok m" by (rule close_unaccepted_buffers [OF 2(2)]) (use assms(2) in \<open>simp only: buffers_ok_fields\<close>)
    then show ?thesis using 2(1) by simp
  qed (use assms(2) in simp)
next
  case (L_socket err)
  then have "l' = l\<lparr>ul_pConnClosed := True, ul_errClose := err\<rparr>" by (auto simp: close_socket_def split: if_splits)
  then show ?thesis using assms(2) by simp
next
  case (L_ReadFrom i d n s)
  then have l': "l' = upd_pc i (\<lambda>c. c\<lparr>pc_buffer := fst (pb_ReadFrom d n (pc_buffer (ul_heap l ! i)))\<rparr>) l"
    by (auto simp: PacketConn_ReadFrom_def split: prod.splits)
  have i: "i < length (ul_heap l)" using L_ReadFrom(1) assms(3) by (auto simp: listener_inv_def heap_ok_def)
  then have "pc_ok (ul_heap l ! i)" using assms(2) by (simp add: buffers_ok_def)
  then have "pc_ok ((ul_heap l ! i)\<lparr>pc_buffer := fst (pb_ReadFrom d n (pc_buffer (ul_heap l ! i)))\<rparr>)"
    using pb_read_inv [of "pc_buffer (ul_heap l ! i)" d n] by (simp add: pc_ok_def)
  then show ?thesis
    using assms(2) set_update_subset_insert [of "ul_heap l" i] unfolding l' by (auto simp: buffers_ok_def)
next
  case (L_WriteTo i p addr d sent w)
  from L_WriteTo(2) show ?thesis
  proof (cases rule: WriteTo_cases)
    case (identified cid)
    then show ?thesis using assms(2) by (auto intro: buffers_ok_upd)
  next
    case freed
    then show ?thesis using assms(2) by (auto intro: buffers_ok_upd)
  qed (use assms(2) in simp)
next
  case (L_pcClose i b)
  show ?thesis
  proof (cases "l' = l")
    case False
    let ?m = "delete_conn i (upd_pc i (\<lambda>c. c\<lparr>pc_doneOnce := True, pc_doneCh := True\<rparr>) (l\<lparr>ul_connWG := ul_connWG l - 1\<rparr>))"
    have m: "buffers_ok ?m"
      using assms(2) by (intro delete_conn_buffers buffers_ok_upd) simp_all
    have i: "i < length (ul_heap l)" using L_pcClose(1) assms(3) by (auto simp: listener_inv_def heap_ok_def)
    have l': "l' = upd_pc i (\<lambda>c. c\<lparr>pc_buffer := pb_Close (pc_buffer c)\<rparr>) ?m"
      using L_pcClose(2) False by (auto simp: PacketConn_Close_def Let_def split: if_splits)
    have "i < length (ul_heap ?m)" using i by simp
    then have "pc_ok (ul_heap ?m ! i)" using m unfolding buffers_ok_def by (meson nth_mem)
    then have "pc_ok ((ul_heap ?m ! i)\<lparr>pc_buffer := pb_Close (pc_buffer (ul_heap ?m ! i))\<rparr>)"
      using i by (auto simp: pc_ok_def pb_Close_def pb_inv_def)
    then show ?thesis
      using m set_update_subset_insert [of "ul_heap ?m" i "(ul_heap ?m ! i)\<lparr>pc_buffer := pb_Close (pc_buffer (ul_heap ?m ! i))\<rparr>"]
      unfolding l' buffers_ok_def upd_pc_heap(1) by blast
  qed (use assms(2) in simp)
qed

text \<open>No other connection, and no address, has the identifier of connection \<open>i\<close>.\<close>

definition unshared :: "udp_listener \<Rightarrow> nat \<Rightarrow> bytes \<Rightarrow> bool" where
  "unshared l i cid \<longleftrightarrow> (\<forall>j < length (ul_heap l). pc_raddr (ul_heap l ! j) \<noteq> cid \<and> (j \<noteq> i \<longrightarrow> pc_id (ul_heap l ! j) \<noteq> Some cid))"

definition routes_ok :: "udp_listener \<Rightarrow> bool" where
  "routes_ok l \<longleftrightarrow> (\<forall>i < length (ul_heap l). \<forall>cid. pc_id (ul_heap l ! i) = Some cid \<and> \<not> pc_doneCh (ul_heap l ! i) \<and> unshared l i cid \<longrightarrow>
     ul_conns l cid = Some i)"

text \<open>Which entries a step changes, and where new identifiers come from.\<close>

definition owned :: "udp_listener \<Rightarrow> bytes \<Rightarrow> bool" where
  "owned l k \<longleftrightarrow> (\<exists>j < length (ul_heap l). pc_raddr (ul_heap l ! j) = k \<or>
     pc_id (ul_heap l ! j) = Some k \<and> (pc_doneCh (ul_heap l ! j) \<or> ul_conns l k = Some j))"

definition entry_step :: "udp_listener \<Rightarrow> udp_listener \<Rightarrow> bool" where
  "entry_step l l' \<longleftrightarrow> (\<forall>k. ul_conns l' k = ul_conns l k \<or> owned l' k) \<and>
     (\<forall>i < length (ul_heap l'). \<forall>cid. pc_id (ul_heap l' ! i) = Some cid \<longrightarrow>
       i < length (ul_heap l) \<and> pc_id (ul_heap l ! i) = Some cid \<or> ul_conns l' cid = Some i)"

lemma routes_ok_step:
  assumes "routes_ok l" "entry_step l l'" "heap_later l l'"
  shows "routes_ok l'"
  unfolding routes_ok_def
proof (intro allI impI, elim conjE)
  fix i cid assume i: "i < length (ul_heap l')" "pc_id (ul_heap l' ! i) = Some cid" "\<not> pc_doneCh (ul_heap l' ! i)" "unshared l' i cid"
  have own: "ul_conns l' cid = Some i" if "owned l' cid"
    using that i by (auto simp: owned_def unshared_def)
  show "ul_conns l' cid = Some i"
  proof (cases "i < length (ul_heap l) \<and> pc_id (ul_heap l ! i) = Some cid")
    case True
    have later: "pc_later (ul_heap l ! j) (ul_heap l' ! j)" "j < length (ul_heap l')" if "j < length (ul_heap l)" for j
      using assms(3) that by (simp_all add: heap_later_def)
    have "\<not> pc_doneCh (ul_heap l ! i)" using later [of i] True i(3) by (auto simp: pc_later_def)
    moreover have "unshared l i cid"
      unfolding unshared_def
    proof (intro allI impI)
      fix j assume "j < length (ul_heap l)"
      from later [OF this] i(4) show "pc_raddr (ul_heap l ! j) \<noteq> cid \<and> (j \<noteq> i \<longrightarrow> pc_id (ul_heap l ! j) \<noteq> Some cid)"
        by (auto simp: unshared_def pc_later_def)
    qed
    ultimately have "ul_conns l cid = Some i" using assms(1) True unfolding routes_ok_def by blast
    then show ?thesis using assms(2) own unfolding entry_step_def by metis
  next
    case False
    then show ?thesis using assms(2) i(1,2) unfolding entry_step_def by blast
  qed
qed

lemma entry_step_same:
  assumes "ul_conns l' = ul_conns l" "length (ul_heap l') = length (ul_heap l)"
    "\<And>i. i < length (ul_heap l) \<Longrightarrow> pc_id (ul_heap l' ! i) = pc_id (ul_heap l ! i)"
  shows "entry_step l l'"
  using assms by (simp add: entry_step_def)

lemma entry_step_upd:
  assumes "\<And>c. pc_id (f c) = pc_id c" "ul_conns l' = ul_conns (upd_pc i f l)" "ul_heap l' = ul_heap (upd_pc i f l)"
  shows "entry_step l l'"
  using assms by (intro entry_step_same) (simp_all add: nth_update_proj [of pc_id])

lemma entry_step_trans:
  assumes "entry_step l m" "entry_step m l'" "heap_later m l'"
    "\<And>k. ul_conns l' k = ul_conns m k"
  shows "entry_step l l'"
proof -
  have "owned l' k" if "owned m k" for k
    using that assms(3,4) unfolding owned_def heap_later_def pc_later_def by (metis option.discI order_less_le_trans)
  then show ?thesis using assms(1,2,4) unfolding entry_step_def by metis
qed

lemma readLoop_entries:
  assumes "listener_readLoop l input = (l', u)"
  shows "entry_step l l'"
proof (cases input)
  case (Ok x)
  obtain data raddr where x: "x = (data, raddr)" by fastforce
  obtain m r where g: "getConn l raddr (take receiveMTU data) = (m, r)" by fastforce
  have m: "entry_step l m"
  proof (cases "m = l")
    case False
    note m = getConn_new(5) [OF g False]
    have "owned m raddr"
      unfolding owned_def m by (intro exI [of _ "length (ul_heap l)"]) (simp add: newPacketConn_def)
    then show ?thesis unfolding entry_step_def m by (auto simp: nth_append newPacketConn_def less_Suc_eq)
  qed (simp add: entry_step_same)
  have "entry_step l (upd_pc i (\<lambda>c. c\<lparr>pc_buffer := b\<rparr>) m)" for i b
    by (rule entry_step_trans [OF m entry_step_upd [where f = "\<lambda>c. c\<lparr>pc_buffer := b\<rparr>"] heap_later_upd]) (simp_all add: pc_later_def)
  moreover have "l' = m \<or> (\<exists>i b. l' = upd_pc i (\<lambda>c. c\<lparr>pc_buffer := b\<rparr>) m)"
    using assms(1) unfolding Ok x listener_readLoop_def res.case prod.case Let_def g
    by (auto split: res.splits option.splits prod.splits)
  ultimately show ?thesis using m by metis
qed (use assms in \<open>auto simp: listener_readLoop_def intro: entry_step_same\<close>)

lemma close_unaccepted_entries:
  assumes "close_unaccepted cs l = Ok l'" "\<forall>c \<in> set cs. c < length (ul_heap l)"
  shows "(\<forall>j. pc_id (ul_heap l' ! j) = pc_id (ul_heap l ! j) \<and> pc_raddr (ul_heap l' ! j) = pc_raddr (ul_heap l ! j) \<and>
      (pc_doneCh (ul_heap l ! j) \<longrightarrow> pc_doneCh (ul_heap l' ! j))) \<and>
    length (ul_heap l') = length (ul_heap l) \<and> (\<forall>c \<in> set cs. pc_doneCh (ul_heap l' ! c)) \<and>
    (\<forall>k. ul_conns l' k = ul_conns l k \<or> (\<exists>c \<in> set cs. pc_raddr (ul_heap l ! c) = k \<or> pc_id (ul_heap l ! c) = Some k))"
  using assms
proof (induction cs arbitrary: l)
  case (Cons c cs)
  let ?m = "delete_conn c (upd_pc c (\<lambda>c. c\<lparr>pc_doneCh := True\<rparr>) l)"
  have c: "c < length (ul_heap l)" using Cons.prems by simp
  have m: "pc_id (ul_heap ?m ! j) = pc_id (ul_heap l ! j)" "pc_raddr (ul_heap ?m ! j) = pc_raddr (ul_heap l ! j)"
    "pc_doneCh (ul_heap l ! j) \<Longrightarrow> pc_doneCh (ul_heap ?m ! j)" "pc_doneCh (ul_heap ?m ! c)" for j
    using c by (cases "j = c"; simp)+
  have k: "ul_conns ?m k = ul_conns l k \<or> pc_raddr (ul_heap l ! c) = k \<or> pc_id (ul_heap l ! c) = Some k" for k
    using delete_conn_conns(2) [of "upd_pc c (\<lambda>c. c\<lparr>pc_doneCh := True\<rparr>) l" c k] c by auto
  have "close_unaccepted cs ?m = Ok l'" "\<forall>c \<in> set cs. c < length (ul_heap ?m)"
    using Cons.prems by (auto split: if_splits)
  note IH = Cons.IH [OF this]
  show ?case using IH m k by (auto; metis)
qed auto

lemma Close_entries:
  assumes "listener_Close l = Ok (l', b)" "listener_inv l"
  shows "entry_step l l'"
proof (cases "ul_doneOnce l")
  case False
  let ?l = "l\<lparr>ul_doneOnce := True, ul_accepting := False, ul_doneCh := True, ul_acceptCh := []\<rparr>"
  obtain m where m: "close_unaccepted (ul_acceptCh l) ?l = Ok m" "l' = m\<lparr>ul_connWG := ul_connWG m - 1\<rparr>"
    using assms(1) False by (auto simp: listener_Close_def Let_def bind_eq_Ok split: if_splits)
  have q: "\<forall>c \<in> set (ul_acceptCh l). c < length (ul_heap ?l)" using assms(2) by (auto simp: listener_inv_def heap_ok_def)
  have same: "ul_heap ?l = ul_heap l" "ul_conns ?l = ul_conns l" "ul_heap l' = ul_heap m" "ul_conns l' = ul_conns m"
    using m(2) by simp_all
  note e = close_unaccepted_entries [OF m(1) q, unfolded same(1,2), folded same(3,4)]
  have "owned l' k" if change: "ul_conns l' k \<noteq> ul_conns l k" for k
  proof -
    obtain c where c: "c \<in> set (ul_acceptCh l)" "pc_raddr (ul_heap l ! c) = k \<or> pc_id (ul_heap l ! c) = Some k"
      using e change by blast
    have "c < length (ul_heap l')" using c(1) q e unfolding same(1) by metis
    moreover have "pc_raddr (ul_heap l' ! c) = k \<or> pc_id (ul_heap l' ! c) = Some k" "pc_doneCh (ul_heap l' ! c)"
      using c e by metis+
    ultimately show ?thesis unfolding owned_def by blast
  qed
  moreover have "length (ul_heap l') = length (ul_heap l)" "pc_id (ul_heap l' ! j) = pc_id (ul_heap l ! j)" for j
    using e by blast+
  ultimately show ?thesis unfolding entry_step_def by metis
qed (use assms in \<open>auto simp: listener_Close_def intro: entry_step_same\<close>)

lemma WriteTo_entries:
  assumes "PacketConn_WriteTo l i p addr d sent = (l', r)" "i < length (ul_heap l)"
  shows "entry_step l l'"
  using assms(1)
proof (cases rule: WriteTo_cases)
  case (identified cid)
  have "owned l' cid" unfolding owned_def identified(2) using assms(2) by (intro exI [of _ i]) simp
  then show ?thesis unfolding entry_step_def identified(2) using assms(2) identified(1) by (auto simp: nth_list_update)
next
  case freed
  have "owned l' (pc_raddr (ul_heap l ! i))" unfolding owned_def freed using assms(2) by (intro exI [of _ i]) simp
  then show ?thesis unfolding entry_step_def freed using assms(2) by (auto simp: nth_list_update)
qed (simp add: entry_step_same)

lemma pcClose_entries:
  assumes "PacketConn_Close l i = Ok (l', b)" "i < length (ul_heap l)"
  shows "entry_step l l'"
proof (cases "l' = l")
  case False
  let ?l = "upd_pc i (\<lambda>c. c\<lparr>pc_doneOnce := True, pc_doneCh := True\<rparr>) (l\<lparr>ul_connWG := ul_connWG l - 1\<rparr>)"
  have l': "l' = upd_pc i (\<lambda>c. c\<lparr>pc_buffer := pb_Close (pc_buffer c)\<rparr>) (delete_conn i ?l)"
    using assms(1) False by (auto simp: PacketConn_Close_def Let_def split: if_splits)
  have "owned l' k" if "pc_raddr (ul_heap l ! i) = k \<or> pc_id (ul_heap l ! i) = Some k" for k
    unfolding owned_def l' using assms(2) that by (intro exI [of _ i]) auto
  moreover have "ul_conns l' k = ul_conns l k" if "pc_raddr (ul_heap l ! i) \<noteq> k" "pc_id (ul_heap l ! i) \<noteq> Some k" for k
    unfolding l' using delete_conn_conns(2) [of ?l i k] assms(2) that by simp
  moreover have "pc_id (ul_heap l' ! j) = pc_id (ul_heap l ! j)" "length (ul_heap l') = length (ul_heap l)" for j
    unfolding l' using assms(2) by (cases "j = i"; simp)+
  ultimately show ?thesis unfolding entry_step_def by metis
qed (simp add: entry_step_same)

lemma listener_step_entries:
  assumes "listener_step l l'" "listener_inv l"
  shows "entry_step l l'"
  using assms(1)
proof cases
  case (L_read input)
  then show ?thesis using readLoop_entries by blast
next
  case (L_Accept ev r)
  then show ?thesis
    by (intro entry_step_same) (auto simp: listener_Accept_def split: accept_event.splits list.splits option.splits if_splits)
next
  case (L_Close b)
  then show ?thesis using Close_entries assms(2) by blast
next
  case (L_socket err)
  then show ?thesis by (intro entry_step_same) (auto simp: close_socket_def split: if_splits)
next
  case (L_ReadFrom i d n s)
  then obtain b where "l' = upd_pc i (\<lambda>c. c\<lparr>pc_buffer := b\<rparr>) l" by (auto simp: PacketConn_ReadFrom_def split: prod.splits)
  then show ?thesis by (intro entry_step_upd [where f = "\<lambda>c. c\<lparr>pc_buffer := b\<rparr>"]) simp_all
next
  case (L_WriteTo i p addr d sent w)
  then show ?thesis using WriteTo_entries assms(2) by (auto simp: listener_inv_def heap_ok_def)
next
  case (L_pcClose i b)
  then show ?thesis using pcClose_entries assms(2) by (auto simp: listener_inv_def heap_ok_def)
qed

lemma listener_steps_routes:
  assumes "listener_step\<^sup>*\<^sup>* l0 l" "listener_inv l0" "buffers_ok l0" "routes_ok l0"
  shows "listener_inv l \<and> buffers_ok l \<and> routes_ok l"
  using assms
proof (induction rule: rtranclp_induct)
  case (step l l')
  then have "listener_inv l" "buffers_ok l" "routes_ok l" by auto
  with step(2) show ?case
    using listener_step_inv step_buffers listener_step_entries routes_ok_step by blast
qed simp

lemma Listen_routes: "ListenConfig_Listen u lc = Ok l \<Longrightarrow> buffers_ok l \<and> routes_ok l"
  by (auto simp: ListenConfig_Listen_def Let_def bind_eq_Ok buffers_ok_def routes_ok_def split: if_splits)

text \<open>
  C12. Datagrams follow the connection ID. At every moment in the life of a listener, once an open
  connection has announced an identifier, in a datagram it wrote, and no other connection has
  announced the same one and no remote address reads like it, then every datagram the router finds
  that identifier in is put into the buffer of that connection, from whatever address it comes, behind
  the packets there (a full ring keeps only those the growth keeps), and nothing else changes: no
  other buffer, no entry, no new connection.
\<close>

theorem cid_datagram_delivered:
  assumes listen: "ListenConfig_Listen u lc = Ok l0" and steps: "listener_step\<^sup>*\<^sup>* l0 l"
    and i: "i < length (ul_heap l)" "pc_id (ul_heap l ! i) = Some cid" "\<not> pc_doneCh (ul_heap l ! i)" "unshared l i cid"
    and router: "ul_datagramRouter l = Some router" "router (take receiveMTU data) = Ok (Some cid)"
  shows "\<exists>b. listener_readLoop l (Ok (data, raddr)) = (upd_pc i (\<lambda>c. c\<lparr>pc_buffer := b\<rparr>) l, Ok ()) \<and>
    (let b0 = pc_buffer (ul_heap l ! i) in
     pb_queue b = (if pb_full b0 then drop (pb_read b0) (pb_queue b0) else pb_queue b0) @ [(Some raddr, take receiveMTU data)])"
proof -
  let ?b = "pc_buffer (ul_heap l ! i)" and ?p = "take receiveMTU data"
  have inv: "buffers_ok l" "routes_ok l"
    using listener_steps_routes [OF steps Listen_inv [OF listen]] Listen_routes [OF listen] by auto
  have "ul_conns l cid = Some i" using inv(2) i unfolding routes_ok_def by blast
  then have g: "getConn l raddr ?p = (l, Ok (Some i))" by (simp add: getConn_def routed_def router)
  have "pc_ok (ul_heap l ! i)" using inv(1) i(1) by (simp add: buffers_ok_def)
  then have "pb_inv ?b" "\<not> pb_closed ?b" using i(3) by (auto simp: pc_ok_def)
  from pb_WriteTo_queue [OF this, of ?p raddr] obtain b where
    b: "pb_WriteTo ?p raddr ?b = (b, Ok (length ?p))"
      "pb_queue b = (if pb_full ?b then drop (pb_read ?b) (pb_queue ?b) else pb_queue ?b) @ [(Some raddr, ?p)]" by blast
  have "listener_readLoop l (Ok (data, raddr)) = (upd_pc i (\<lambda>c. c\<lparr>pc_buffer := b\<rparr>) l, Ok ())"
    unfolding listener_readLoop_def res.case prod.case Let_def g option.case b(1) by simp
  with b(2) show ?thesis by (auto simp: Let_def)
qed

text \<open>A listener that takes the first two bytes of a datagram for an identifier, its first connection accepted and identified.\<close>

definition ex_listen :: ListenConfig where
  "ex_listen = \<lparr>lc_Backlog = 1, lc_AcceptFilter = None, lc_DatagramRouter = Some (\<lambda>p. Ok (Some (take 2 p))),
     lc_ConnectionIdentifier = Some (\<lambda>p. Ok (Some (take 2 p)))\<rparr>"

lemma ex_listener:
  obtains l0 l where "ListenConfig_Listen (Ok ()) ex_listen = Ok l0" "listener_step\<^sup>*\<^sup>* l0 l" "length (ul_heap l) = 1"
    "pc_id (ul_heap l ! 0) = Some [5, 6]" "\<not> pc_doneCh (ul_heap l ! 0)" "pc_raddr (ul_heap l ! 0) = [49]"
    "ul_datagramRouter l = Some (\<lambda>p. Ok (Some (take 2 p)))"
proof -
  obtain l0 where l0: "ListenConfig_Listen (Ok ()) ex_listen = Ok l0" "ul_errRead l0 = None" "ul_heap l0 = []" "ul_conns l0 = Map.empty"
    "ul_accepting l0" "ul_acceptCh l0 = []" "ul_backlog l0 = 1" "ul_acceptFilter l0 = None"
    "ul_datagramRouter l0 = Some (\<lambda>p. Ok (Some (take 2 p)))" "ul_connIdentifier l0 = Some (\<lambda>p. Ok (Some (take 2 p)))"
    by (simp add: ListenConfig_Listen_def ex_listen_def)
  obtain l1 where l1: "listener_readLoop l0 (Ok ([22, 1], [49])) = (l1, Ok ())" "ul_acceptCh l1 = [0]"
    "length (ul_heap l1) = 1" "pc_id (ul_heap l1 ! 0) = None" "\<not> pc_doneCh (ul_heap l1 ! 0)" "pc_raddr (ul_heap l1 ! 0) = [49]"
    "ul_connIdentifier l1 = ul_connIdentifier l0" "ul_datagramRouter l1 = ul_datagramRouter l0"
    using l0 by (simp add: listener_readLoop_def getConn_def routed_def receiveMTU_def newPacketConn_def NewPacketBuffer_def pb_WriteTo_def
        upd_pc_def Let_def)
  define l2 where "l2 = l1\<lparr>ul_acceptCh := [], ul_connWG := ul_connWG l1 + 1, ul_accepted := ul_accepted l1 @ [0]\<rparr>"
  have 2: "listener_Accept l1 AcceptConn = Some (l2, Ok (0, pc_raddr (ul_heap l1 ! 0)))"
    using l1 by (simp add: listener_Accept_def l2_def)
  define l where "l = upd_pc 0 (\<lambda>c. c\<lparr>pc_id := Some [5, 6]\<rparr>) (l2\<lparr>ul_conns := (ul_conns l2)([5, 6] \<mapsto> 0)\<rparr>)"
  have 3: "PacketConn_WriteTo l2 0 [5, 6, 7] [49] False (Ok 3) = (l, Ok 3)"
    using l1 l0 by (simp add: PacketConn_WriteTo_def l2_def l_def)
  have "listener_step l0 l1" "listener_step l1 l2" "listener_step l2 l"
    using L_read [OF l0(2) l1(1)] L_Accept [OF 2] L_WriteTo [OF _ 3] by (simp_all add: l2_def)
  then have "listener_step\<^sup>*\<^sup>* l0 l" by (meson converse_rtranclp_into_rtranclp rtranclp.rtrancl_refl)
  then show ?thesis using that l0 l1 by (simp add: l_def l2_def)
qed

theorem cid_datagram_delivered_witness:
  "\<exists>l0 l b. ListenConfig_Listen (Ok ()) ex_listen = Ok l0 \<and> listener_step\<^sup>*\<^sup>* l0 l \<and>
     listener_readLoop l (Ok ([5, 6, 1], [50])) = (upd_pc 0 (\<lambda>c. c\<lparr>pc_buffer := b\<rparr>) l, Ok ()) \<and>
     last (pb_queue b) = (Some [50], [5, 6, 1])"
proof -
  obtain l0 l where l: "ListenConfig_Listen (Ok ()) ex_listen = Ok l0" "listener_step\<^sup>*\<^sup>* l0 l" "length (ul_heap l) = 1"
    "pc_id (ul_heap l ! 0) = Some [5, 6]" "\<not> pc_doneCh (ul_heap l ! 0)" "pc_raddr (ul_heap l ! 0) = [49]"
    "ul_datagramRouter l = Some (\<lambda>p. Ok (Some (take 2 p)))" by (rule ex_listener)
  have "0 < length (ul_heap l)" "unshared l 0 [5, 6]" using l by (simp_all add: unshared_def)
  from cid_datagram_delivered [OF l(1,2) this(1) l(4,5) this(2) l(7), of "[5, 6, 1]" "[50]"] obtain b where
    "listener_readLoop l (Ok ([5, 6, 1], [50])) = (upd_pc 0 (\<lambda>c. c\<lparr>pc_buffer := b\<rparr>) l, Ok ())"
    "last (pb_queue b) = (Some [50], [5, 6, 1])"
    by (auto simp: receiveMTU_def Let_def)
  with l(1,2) show ?thesis by blast
qed

theorem listener_bounds_witness:
  "\<exists>l0 l. ListenConfig_Listen (Ok ()) ex_listen = Ok l0 \<and> listener_step\<^sup>*\<^sup>* l0 l \<and> length (ul_heap l) = 1 \<and>
     length (ul_acceptCh l) \<le> ul_backlog l \<and> card (dom (ul_conns l)) \<le> 2 \<and> listener_Close l \<noteq> Panic"
proof -
  obtain l0 l where l: "ListenConfig_Listen (Ok ()) ex_listen = Ok l0" "listener_step\<^sup>*\<^sup>* l0 l" "length (ul_heap l) = 1"
    by (rule ex_listener)
  show ?thesis using listener_bounds [OF l(1,2)] l by auto
qed

end
