(* ===== verification/Cert_Fingerprint.thy ===== *)
theory Cert_Fingerprint
  imports Crypto_Algorithms
begin

section \<open>Certificate fingerprints: pkg/crypto/fingerprint/\<close>

text \<open>
  The fingerprint of a certificate is the digest in hexadecimal with colons between the bytes.
  \<open>hashes\<close> gives the standard library's hash of each algorithm that is linked into the
  binary. An outcome \<open>None\<close> is an index out of range.
\<close>

type_synonym crypto_Hash = nat

datatype fingerprint_error = ErrHashUnavailable | ErrInvalidFingerprintLength | ErrFingerprintHashAlgorithm

subsection \<open>Names of the algorithms\<close>

definition nameToHash :: "string \<rightharpoonup> crypto_Hash" where
  "nameToHash = [''md5'' \<mapsto> 2, ''sha-1'' \<mapsto> 3, ''sha-224'' \<mapsto> 4, ''sha-256'' \<mapsto> 5, ''sha-384'' \<mapsto> 6, ''sha-512'' \<mapsto> 7]"

text \<open>
  \<^verbatim>\<open>strings.ToLower\<close> on the letters of ASCII; no other letter becomes one of the letters
  in the names.
\<close>

definition ToLower :: "string \<Rightarrow> string" where
  "ToLower = map (\<lambda>c. if of_char c \<in> {65..90 :: nat} then char_of ((of_char c :: nat) + 32) else c)"

definition HashFromString :: "string \<Rightarrow> fingerprint_error + crypto_Hash" where
  "HashFromString s = (case nameToHash (ToLower s) of Some h \<Rightarrow> Inr h | None \<Rightarrow> Inl ErrFingerprintHashAlgorithm)"

definition StringFromHash :: "crypto_Hash \<Rightarrow> fingerprint_error + string" where
  "StringFromHash h =
     (case filter (\<lambda>s. nameToHash s = Some h) [''md5'', ''sha-1'', ''sha-224'', ''sha-256'', ''sha-384'', ''sha-512''] of
        s # _ \<Rightarrow> Inr s | [] \<Rightarrow> Inl ErrFingerprintHashAlgorithm)"

definition CryptoHash :: "uint16 \<Rightarrow> crypto_Hash" where
  "CryptoHash a =
     (if a = hash_None then 0 else if a = hash_MD5 then 2 else if a = hash_SHA1 then 3
      else if a = hash_SHA224 then 4 else if a = hash_SHA256 then 5 else if a = hash_SHA384 then 6
      else if a = hash_SHA512 then 7 else 0)"

definition hash_String :: "uint16 \<Rightarrow> string" where
  "hash_String a =
     (if a = hash_None then ''none'' else if a = hash_MD5 then ''md5'' else if a = hash_SHA1 then ''sha-1''
      else if a = hash_SHA224 then ''sha-224'' else if a = hash_SHA256 then ''sha-256'' else if a = hash_SHA384 then ''sha-384''
      else if a = hash_SHA512 then ''sha-512'' else if a = hash_Ed25519 then ''null''
      else ''unknown or unsupported hash algorithm'')"

subsection \<open>The fingerprint\<close>

definition hex_digit :: "nat \<Rightarrow> char" where
  "hex_digit n = ''0123456789abcdef'' ! n"

definition hex_byte :: "byte \<Rightarrow> string" where
  "hex_byte b = [hex_digit (unat b div 16), hex_digit (unat b mod 16)]"

definition set_at :: "nat \<Rightarrow> char \<Rightarrow> string \<Rightarrow> string option" where
  "set_at pos c res = (if pos < length res then Some (res[pos := c]) else None)"

fun fingerprint_loop :: "nat \<Rightarrow> nat \<Rightarrow> nat \<Rightarrow> string \<Rightarrow> string \<Rightarrow> string option" where
  "fingerprint_loop digestlen i pos res [] = Some res"
| "fingerprint_loop digestlen i pos res (c # digest) =
     (case set_at pos c res of
        None \<Rightarrow> None
      | Some res \<Rightarrow>
          if i mod 2 \<noteq> 0 \<and> i < digestlen - 1 then
            (case set_at (pos + 1) CHR '':'' res of
               None \<Rightarrow> None
             | Some res \<Rightarrow> fingerprint_loop digestlen (i + 1) (pos + 2) res digest)
          else fingerprint_loop digestlen (i + 1) (pos + 1) res digest)"

definition Fingerprint :: "(crypto_Hash \<rightharpoonup> (bytes \<Rightarrow> bytes)) \<Rightarrow> bytes \<Rightarrow> crypto_Hash \<Rightarrow> (fingerprint_error + string) option" where
  "Fingerprint hashes certRaw algo =
     (case hashes algo of
        None \<Rightarrow> Some (Inl ErrHashUnavailable)
      | Some h \<Rightarrow>
          (let digest = concat (map hex_byte (h certRaw)); digestlen = length digest in
           if digestlen = 0 then Some (Inr '''')
           else if digestlen mod 2 \<noteq> 0 then Some (Inl ErrInvalidFingerprintLength)
           else map_option Inr
                  (fingerprint_loop digestlen 0 0 (replicate (digestlen div 2 + digestlen - 1) (CHR 0x00)) digest)))"

subsection \<open>Correctness\<close>

text \<open>What the fingerprint is: the bytes in hexadecimal, separated by colons.\<close>

fun colon_separated :: "string list \<Rightarrow> string" where
  "colon_separated [] = ''''"
| "colon_separated [s] = s"
| "colon_separated (s # ss) = s @ CHR '':'' # colon_separated ss"

lemma hex_byte_nonempty: "hex_byte b \<noteq> []"
  by (simp add: hex_byte_def)

lemma length_hex_byte: "length (hex_byte b) = 2"
  by (simp add: hex_byte_def)

lemma length_hex: "length (concat (map hex_byte bs)) = 2 * length bs"
  by (induction bs) (auto simp: hex_byte_def)

lemma set_at_append:
  "set_at (length p) c (p @ x # r) = Some (p @ c # r)"
  "set_at (length p + 1) c (p @ y # x # r) = Some (p @ y # c # r)"
  "set_at (length p + 2) c (p @ y # z # x # r) = Some (p @ y # z # c # r)"
  by (simp_all add: set_at_def list_update_append numeral_2_eq_2)

lemma fingerprint_loop_byte:
  assumes "even i" "i + 1 < digestlen - 1"
  shows "fingerprint_loop digestlen i (length p) (p @ x # y # z # r) (hex_byte a @ digest) =
    fingerprint_loop digestlen (i + 2) (length p + 3) (p @ hex_byte a @ CHR '':'' # r) digest"
proof -
  have "i mod 2 = 0" "Suc i mod 2 = 1"
    using assms(1) by presburger+
  with assms(2) show ?thesis
    by (simp add: hex_byte_def set_at_append(1) set_at_append(2,3) [simplified] numeral_3_eq_3)
qed

lemma fingerprint_loop_hex:
  assumes "i = 2 * k" "digestlen = 2 * (k + length bs)" "bs \<noteq> []"
  shows "fingerprint_loop digestlen i (length p) (p @ replicate (3 * length bs - 1) x) (concat (map hex_byte bs)) =
    Some (p @ colon_separated (map hex_byte bs))"
  using assms
proof (induction bs arbitrary: i k p rule: induct_list012)
  case 1 then show ?case by simp
next
  case (2 b)
  have "replicate (3 * length [b] - 1) x = [x, x]"
    by (simp add: numeral_2_eq_2)
  with 2 show ?case
    by (simp add: hex_byte_def set_at_append(1) set_at_append(2) [simplified])
next
  case (3 a b bs)
  let ?q = "p @ hex_byte a @ '':''"
  have rest: "fingerprint_loop digestlen (2 * (k + 1)) (length ?q) (?q @ replicate (3 * length (b # bs) - 1) x)
      (concat (map hex_byte (b # bs))) = Some (?q @ colon_separated (map hex_byte (b # bs)))"
    by (rule "3.IH"(2) [of _ "k + 1"]) (use "3.prems" in auto)
  have "3 * length (a # b # bs) - 1 = Suc (Suc (Suc (3 * length (b # bs) - 1)))"
    by simp
  then have room: "p @ replicate (3 * length (a # b # bs) - 1) x = p @ x # x # x # replicate (3 * length (b # bs) - 1) x"
    by (simp only: replicate_Suc)
  have "fingerprint_loop digestlen i (length p) (p @ x # x # x # replicate (3 * length (b # bs) - 1) x)
      (hex_byte a @ concat (map hex_byte (b # bs))) =
    fingerprint_loop digestlen (2 * (k + 1)) (length ?q) (?q @ replicate (3 * length (b # bs) - 1) x)
      (concat (map hex_byte (b # bs)))"
    using fingerprint_loop_byte [of i digestlen p x x x _ a "concat (map hex_byte (b # bs))"] "3.prems"
    by (simp add: length_hex_byte del: fingerprint_loop.simps)
  then show ?case
    unfolding room using rest by simp
qed

lemma Fingerprint_eq:
  "Fingerprint hashes certRaw algo =
     Some (case hashes algo of
             None \<Rightarrow> Inl ErrHashUnavailable
           | Some h \<Rightarrow> Inr (colon_separated (map hex_byte (h certRaw))))"
proof (cases "hashes algo")
  case (Some h)
  show ?thesis
  proof (cases "h certRaw = []")
    case False
    then show ?thesis
      using fingerprint_loop_hex [of 0 0 "2 * length (h certRaw)" "h certRaw" "[]"] Some
      by (simp add: Fingerprint_def length_hex Let_def hex_byte_nonempty del: length_concat)
  qed (simp add: Fingerprint_def Some)
qed (simp add: Fingerprint_def)

text \<open>The notation loses nothing.\<close>

lemma hex_digit_inject: "m < 16 \<Longrightarrow> n < 16 \<Longrightarrow> hex_digit m = hex_digit n \<longleftrightarrow> m = n"
  unfolding hex_digit_def by (rule nth_eq_iff_index_eq) simp_all

lemma hex_byte_inject: "hex_byte a = hex_byte b \<longleftrightarrow> a = b"
proof
  assume "hex_byte a = hex_byte b"
  moreover have "unat a div 16 < 16" "unat b div 16 < 16"
    using unsigned_less [of a, where 'a = nat] unsigned_less [of b, where 'a = nat] by (simp_all add: less_mult_imp_div_less)
  ultimately have "unat a div 16 = unat b div 16" "unat a mod 16 = unat b mod 16"
    by (simp_all add: hex_byte_def hex_digit_inject)
  then have "unat a = unat b" by (metis div_mult_mod_eq)
  then show "a = b" by (rule unsigned_word_eqI)
qed simp

lemma colon_separated_Cons: "colon_separated (s # ss) = s @ (if ss = [] then [] else CHR '':'' # colon_separated ss)"
  by (cases ss) auto

lemma colon_separated_inject:
  "colon_separated (map hex_byte xs) = colon_separated (map hex_byte ys) \<Longrightarrow> xs = ys"
proof (induction xs arbitrary: ys)
  case Nil
  then show ?case by (cases ys) (auto simp: colon_separated_Cons hex_byte_nonempty)
next
  case (Cons x xs)
  then obtain y ys' where ys: "ys = y # ys'"
    by (cases ys) (auto simp: colon_separated_Cons hex_byte_nonempty)
  have "hex_byte x = hex_byte y \<and> (if xs = [] then [] else CHR '':'' # colon_separated (map hex_byte xs)) =
      (if ys' = [] then [] else CHR '':'' # colon_separated (map hex_byte ys'))"
    using Cons.prems by (simp add: ys colon_separated_Cons length_hex_byte)
  then show ?case using Cons.IH by (auto simp: ys hex_byte_inject split: if_splits)
qed

text \<open>
  C40. \<^verbatim>\<open>Fingerprint\<close> writes the digest of the certificate as two hexadecimal digits for each byte with
  a colon between bytes: the loop that places the characters never leaves its array, leaves no gap and the
  error for odd lengths never occurs; an unavailable hash is an error. The text determines the digest:
  two certificates have the same fingerprint only if they have the same digest.
\<close>

theorem Fingerprint_correct:
  "Fingerprint hashes certRaw algo =
     Some (case hashes algo of
             None \<Rightarrow> Inl ErrHashUnavailable
           | Some h \<Rightarrow> Inr (colon_separated (map hex_byte (h certRaw)))) \<and>
   (\<forall>h certRaw'. hashes algo = Some h \<longrightarrow> Fingerprint hashes certRaw' algo = Fingerprint hashes certRaw algo \<longrightarrow>
      h certRaw' = h certRaw)"
  using colon_separated_inject by (fastforce simp: Fingerprint_eq)

theorem Fingerprint_correct_witness:
  "Fingerprint [5 \<mapsto> \<lambda>raw. raw] [10, 255] 5 = Some (Inr ''0a:ff'') \<and>
   Fingerprint [5 \<mapsto> \<lambda>raw. raw] [10, 254] 5 \<noteq> Fingerprint [5 \<mapsto> \<lambda>raw. raw] [10, 255] 5"
proof -
  have "colon_separated (map hex_byte [10, 255]) = ''0a:ff''"
    by (simp add: hex_byte_def hex_digit_def)
  then show ?thesis
    using Fingerprint_correct [of "[5 \<mapsto> \<lambda>raw. raw]" "[10, 255]" 5] by auto
qed

lemma HashFromString_StringFromHash: "StringFromHash h = Inr s \<Longrightarrow> HashFromString s = Inr h"
  by (auto simp: StringFromHash_def HashFromString_def ToLower_def nameToHash_def split: if_splits)

lemma StringFromHash_hash_String:
  assumes "a \<in> hash_Algorithms" "a \<noteq> hash_None" "a \<noteq> hash_Ed25519"
  shows "StringFromHash (CryptoHash a) = Inr (hash_String a)"
  using assms by (auto simp: hash_Algorithms_def CryptoHash_def hash_String_def StringFromHash_def nameToHash_def)

end
