(* ===== verification/Spec2Isabelle.thy ===== *)
theory Spec2Isabelle
  imports Conn_Robustness Handshake_Auth Udp_Listener Cert_Fingerprint
begin

text \<open>
  \<^bold>\<open>A verification of the DTLS 1.2 library under src/\<close>

  The program is a Go implementation of DTLS 1.2 (RFC 6347) with connection IDs (RFC 9146). From the
  socket upwards its parts are: a UDP listener that gives each remote address or connection ID a
  packet buffer; the connection, which splits datagrams into records, checks their epoch and number,
  decrypts them, reassembles handshake messages into a cache and hands application data to Read; the
  handshake, a state machine over flights whose parsers take messages from the cache and whose generators
  make the next packets; the cipher suites that derive keys and protect records; and the codecs of
  records, messages and extensions. A reading goroutine fills the cache and wakes the state machine;
  both work on the same connection, and the model steps them in any order.

  \<^bold>\<open>How the code is represented.\<close> A struct is a record with the fields' names behind a prefix, an
  interface with a closed set of implementations is a datatype, integers of a fixed width are words of that width,
  \<^verbatim>\<open>int\<close> is an integer or a natural number, a slice of bytes is a list. A function that may fail
  returns \<open>res\<close>: \<open>Ok\<close>, \<open>Err\<close> with the error of the source, or \<open>Panic\<close> where Go panics
  (an index out of range, a nil pointer). Methods that change their receiver take and return it.
  Code that holds a lock is one step. Randomness, clocks, callbacks of the user, the hash functions, block
  ciphers, curves and X.509, and the packages outside the repository (\<^verbatim>\<open>cryptobyte\<close>,
  \<^verbatim>\<open>replaydetector\<close>) are parameters: fields of \<open>conn_env\<close> and
  \<open>hs_env\<close> or arguments. What is assumed of them is a named hypothesis of the theorem, and its witness
  gives a concrete function that meets it.

  \<^bold>\<open>Theories, from the bottom.\<close>

  \<^item> \<open>Dtls_Prelude\<close>: results and errors, big endian integers, slices, and the lemmas on them that all
    codecs use. \<open>Cryptobyte\<close>: the interface \<open>cryptobyte_spec\<close> of the byte builder and reader, with an
    instance. \<open>Internal_Util\<close>: \<^verbatim>\<open>internal/util\<close>.
  \<^item> \<open>Protocol_Content\<close>, \<open>Extensions\<close>, \<open>Handshake_Messages\<close>, \<open>Record_Layer\<close>: the packages under
    \<^verbatim>\<open>pkg/protocol\<close>: one \<open>_Marshal\<close> and one \<open>_Unmarshal\<close> per type, with round trips, and for which inputs the decoders panic.
  \<^item> \<open>Crypto_Algorithms\<close>, \<open>Prf\<close>, \<open>Block_Modes\<close>, \<open>Ccm\<close>, \<open>Record_Protection\<close>: the packages
    under \<^verbatim>\<open>pkg/crypto\<close>: algorithm tables, the pseudo random function, CCM, and the protection of
    records in CBC, CCM and GCM. The padding check in constant time equals the plain one; what one
    end protects the other recovers (through the interface \<open>aead\<close> for CCM); exactly which CBC records panic.
  \<^item> \<open>Cert_Fingerprint\<close>: \<^verbatim>\<open>pkg/crypto/fingerprint\<close>: the loop writes the hexadecimal bytes
    with colons between them and stays inside its array, and the text determines the digest; names
    and algorithms correspond.
  \<^item> \<open>Cipher_Suites\<close>: \<^verbatim>\<open>internal/ciphersuite\<close> and \<^verbatim>\<open>cipher_suite.go\<close>: the table of suites, their
    initialisation and selection; two ends that share the secret understand each other.
  \<^item> \<open>Handshake_Cache\<close>, \<open>Fragment_Buffer\<close>, \<open>Fragmentation\<close>: \<^verbatim>\<open>handshake_cache.go\<close>,
    \<^verbatim>\<open>fragment_buffer.go\<close>, \<^verbatim>\<open>util.go\<close> and \<^verbatim>\<open>Conn.fragmentHandshake\<close>: fragments
    of a message pushed in any order, with repetitions, give the message back, and nothing before all have arrived.
  \<^item> \<open>Conn_State\<close>, \<open>Handshake_Config\<close>: \<^verbatim>\<open>state.go\<close>, \<^verbatim>\<open>session.go\<close>,
    \<^verbatim>\<open>connection_id.go\<close>, \<^verbatim>\<open>config.go\<close>, \<^verbatim>\<open>certificate.go\<close>, \<^verbatim>\<open>crypto.go\<close>: saving and restoring
    a connection, exported keys, routing by connection ID, choice of certificates, signatures.
  \<^item> \<open>Connection\<close>: the sending and receiving operations of \<^verbatim>\<open>conn.go\<close>. \<open>Conn_Sending\<close> shows
    what the datagrams of a write are, \<open>Conn_Receiving\<close> what each operation leaves alone (the
    interface \<open>conn_preorder\<close>: a reflexive and transitive relation that every
    elementary change respects is respected by every operation), \<open>Conn_Delivery\<close> that written data is read, that delivered data was
    decrypted and is delivered once, and the invariant of all sequences of operations;
    \<open>Conn_Robustness\<close> what records do that fail the checks or are forged.
  \<^item> \<open>Handshake_Flights\<close>: \<^verbatim>\<open>flight.go\<close>, \<^verbatim>\<open>flighthandler.go\<close> and the nine handlers, each a function from
    the connection to the new one and an outcome. \<open>Handshaker\<close>: \<^verbatim>\<open>handshaker.go\<close>, \<^verbatim>\<open>resume.go\<close> and
    the start of connections; \<open>machine_step\<close> is the step relation of the state machine, the reading loop and the user.
  \<^item> \<open>Handshake_Frames\<close>, \<open>Handshake_Safety\<close>, \<open>Handshake_Auth\<close>: over every reachable
    machine, the flights of each role (with the edges that the diagrams of \<^verbatim>\<open>flight.go\<close> do not show), the check of the server's Finished message and the cookie
    exchange; for every outcome of a handler, the signature of the server's key
    exchange and the policy on client certificates; acceptance of an agreeing server's Finished message;
    the end of a cancelled run. The interface \<open>fsm_preorder\<close> extends \<open>conn_preorder\<close> from operations to turns of the machine.
  \<^item> \<open>Packet_Buffer\<close>, \<open>Udp_Listener\<close>: \<^verbatim>\<open>internal/net/buffer.go\<close>,
    \<^verbatim>\<open>internal/net/udp/packet_conn.go\<close> and \<^verbatim>\<open>listener.go\<close>: the ring as a queue, the bounds of the listener, delivery by
    connection ID. \<open>listener_step\<close> is the step relation of the listener and its users.

  \<^bold>\<open>Bounds and fuel.\<close> Loops that are not structural have fuel, and a lemma shows that it is enough:
  the loops over name lists in \<open>Extensions\<close> get the length of the list (every turn shortens it,
  \<open>extension_Unmarshal_no_panic\<close>); the recursion in \<^verbatim>\<open>fragmentBuffer.pop\<close> gets one more than the number of
  fragments (\<open>appendMessage_fuel\<close>: offsets grow along it). \<^verbatim>\<open>handshakeFSM.Run\<close> is a recursion over the events
  it selects on, at most two turns between two of them; \<open>Run_cancelled\<close> shows that
  cancelling ends it. Limits of the code are kept as they are: queue of 100 packets, fragment buffer
  of two million bytes, datagrams of 8192 bytes, backlog of 128.

  \<^bold>\<open>Where the code does not do what it should.\<close> Some theorems state this exactly: a Finished
  message of the client is accepted unseen (\<open>any_client_finished_accepted\<close>), alerts and
  ChangeCipherSpec records nobody authenticated are obeyed (\<open>forged_alert_closes\<close>,
  \<open>forged_ChangeCipherSpec_blocks\<close>), a growing packet buffer loses packets
  (\<open>PacketBuffer_WriteTo\<close>), an empty datagram blocks it (\<open>PacketBuffer_ReadFrom\<close>), CBC records can panic, also
  with a connection ID
  (\<open>CBC_Decrypt_panics_iff\<close>), the MAC with a connection ID covers its input twice
  (\<open>hmacCID_payload_twice\<close>), records with a connection ID reuse their number
  (\<open>handshake_record_numbers\<close>, \<open>retransmission_with_cid_dropped\<close>), queued packets are overwritten
  (\<open>queued_packet_overwritten\<close>).

  \<^bold>\<open>Not modelled.\<close> Interleavings inside a critical section, and the memory model; the real time of
  timers and deadlines (a timer or deadline is an event that may happen); waiting for goroutines at the
  end of a listener's Close (a flag of the result), and a Close between the two statements of a
  listener's Accept; the pool of read buffers is one for each connection and the channel to Read has no bound. Logging, the key log and the \<^verbatim>\<open>String\<close> methods for logs;
  \<^verbatim>\<open>GetHandshakeLog\<close> and \<^verbatim>\<open>MakeLog\<close>, which copy messages into the structures of a logging library; the cryptographic
  primitives, X.509 and \<^verbatim>\<open>pkg/crypto/selfsign\<close>, which is a call of them; \<^verbatim>\<open>pkg/net\<close> and
  \<^verbatim>\<open>internal/closer\<close>, which only forward; \<^verbatim>\<open>Dial\<close>, \<^verbatim>\<open>Client\<close> and \<^verbatim>\<open>Server\<close>, which make a context or a socket and call
  the modelled functions; the test of operating system errors; \<^verbatim>\<open>examples\<close> and \<^verbatim>\<open>e2e\<close>. Secrecy and
  the strength of the cryptography are not the subject: the theorems say what the code checks and computes.
\<close>

end
